(* ===== verification/Mach_Prelude.thy ===== *)
theory Mach_Prelude
  imports Main "HOL-Library.Word"
begin

unbundle bit_operations_syntax

text \<open>
  Shared vocabulary of the development: the machine types of the kernel's IPC code, the kernel
  return codes it answers with, the named collections of rewrite rules, and the facts on words,
  lists and cyclic index ranges that the component theories share.
\<close>

section \<open>Machine types\<close>

text \<open>
  The kernel is a 32-bit one: \<open>natural_t\<close> is \<open>unsigned int\<close>, a pointer is a 32-bit address.
  Port names, right bits and object pointers are kept at that width because the code packs
  fields into them.  Positions in a table (the values of \<open>ie_index\<close>, \<open>ie_next\<close>,
  \<open>ie_request\<close>) are natural numbers: they are always below a table size, which
  \<open>IPC_Table\<close> bounds.
\<close>

type_synonym natural_t = "32 word"
type_synonym mach_port_t = "32 word"
type_synonym ipc_entry_bits_t = "32 word"
type_synonym ipc_object_t = "32 word"
type_synonym ipc_port_t = "32 word"
type_synonym ipc_pset_t = "32 word"
type_synonym mach_port_urefs_t = "32 word"
type_synonym mach_port_delta_t = "32 word"
type_synonym mach_port_index_t = nat

text \<open>The return codes of \<open>mach/kern_return.h\<close> that the modelled routines produce.\<close>

datatype kern_return_t =
    KERN_SUCCESS
  | KERN_NO_SPACE
  | KERN_INVALID_ARGUMENT
  | KERN_FAILURE
  | KERN_RESOURCE_SHORTAGE
  | KERN_NAME_EXISTS
  | KERN_INVALID_NAME
  | KERN_INVALID_TASK
  | KERN_INVALID_RIGHT
  | KERN_INVALID_VALUE
  | KERN_UREFS_OVERFLOW
  | KERN_INVALID_CAPABILITY
  | KERN_RIGHT_EXISTS
  | KERN_NOT_IN_SET
  | KERN_INVALID_ADDRESS
  | KERN_PROTECTION_FAILURE
  | KERN_ABORTED
  | KERN_ALREADY_WAITING
  | KERN_TERMINATED
  | KERN_LOCK_SET_DESTROYED
  | KERN_LOCK_UNSTABLE
  | KERN_LOCK_OWNED
  | KERN_LOCK_OWNED_SELF
  | KERN_SEMAPHORE_DESTROYED
  | KERN_NOT_WAITING
  | KERN_OPERATION_TIMED_OUT

section \<open>Named collections\<close>

named_theorems mach_consts \<open>numeric values of the kernel's constants\<close>
named_theorems bits_simps \<open>field reads of packed words\<close>
named_theorems splay_simps \<open>in-order sequences of splay operations\<close>
named_theorems frame_simps \<open>what an operation leaves alone\<close>

end
