(* ===== verification/Port_Names.thy ===== *)
theory Port_Names
  imports Mach_Prelude
begin

text \<open>
  The packed words of the IPC system: port names (\<open>mach/port.h\<close>), the type, user-reference,
  collision and generation fields of an entry's \<open>ie_bits\<close> (\<open>ipc/ipc_entry.h\<close>), the
  user-reference overflow tests (\<open>ipc/port.h\<close>) and the wrap-around order of port time stamps
  (\<open>ipc/ipc_port.h\<close>).  The kernel is built without \<open>NO_PORT_GEN\<close>.
\<close>

section \<open>Port names\<close>

definition MACH_PORT_NULL :: mach_port_t where
  "MACH_PORT_NULL = 0"

definition MACH_PORT_DEAD :: mach_port_t where
  "MACH_PORT_DEAD = NOT 0"

definition MACH_PORT_INDEX :: "mach_port_t \<Rightarrow> natural_t" where
  "MACH_PORT_INDEX name = drop_bit 8 name"

definition MACH_PORT_GEN :: "mach_port_t \<Rightarrow> natural_t" where
  "MACH_PORT_GEN name = push_bit 24 (name AND 0xff)"

definition MACH_PORT_MAKE :: "natural_t \<Rightarrow> natural_t \<Rightarrow> mach_port_t" where
  "MACH_PORT_MAKE index gen = (push_bit 8 index OR drop_bit 24 gen)"

definition MACH_PORT_VALID :: "mach_port_t \<Rightarrow> bool" where
  "MACH_PORT_VALID name \<longleftrightarrow> name \<noteq> MACH_PORT_NULL \<and> name \<noteq> MACH_PORT_DEAD"

section \<open>Rights and their type bits\<close>

definition MACH_PORT_RIGHT_SEND :: natural_t where "MACH_PORT_RIGHT_SEND = 0"
definition MACH_PORT_RIGHT_RECEIVE :: natural_t where "MACH_PORT_RIGHT_RECEIVE = 1"
definition MACH_PORT_RIGHT_SEND_ONCE :: natural_t where "MACH_PORT_RIGHT_SEND_ONCE = 2"
definition MACH_PORT_RIGHT_PORT_SET :: natural_t where "MACH_PORT_RIGHT_PORT_SET = 3"
definition MACH_PORT_RIGHT_DEAD_NAME :: natural_t where "MACH_PORT_RIGHT_DEAD_NAME = 4"

definition MACH_PORT_TYPE :: "natural_t \<Rightarrow> natural_t" where
  "MACH_PORT_TYPE right = push_bit (unat (right + 16)) 1"

definition MACH_PORT_TYPE_NONE :: natural_t where "MACH_PORT_TYPE_NONE = 0"
definition MACH_PORT_TYPE_SEND :: natural_t where
  "MACH_PORT_TYPE_SEND = MACH_PORT_TYPE MACH_PORT_RIGHT_SEND"
definition MACH_PORT_TYPE_RECEIVE :: natural_t where
  "MACH_PORT_TYPE_RECEIVE = MACH_PORT_TYPE MACH_PORT_RIGHT_RECEIVE"
definition MACH_PORT_TYPE_SEND_ONCE :: natural_t where
  "MACH_PORT_TYPE_SEND_ONCE = MACH_PORT_TYPE MACH_PORT_RIGHT_SEND_ONCE"
definition MACH_PORT_TYPE_PORT_SET :: natural_t where
  "MACH_PORT_TYPE_PORT_SET = MACH_PORT_TYPE MACH_PORT_RIGHT_PORT_SET"
definition MACH_PORT_TYPE_DEAD_NAME :: natural_t where
  "MACH_PORT_TYPE_DEAD_NAME = MACH_PORT_TYPE MACH_PORT_RIGHT_DEAD_NAME"

definition MACH_PORT_TYPE_SEND_RECEIVE :: natural_t where
  "MACH_PORT_TYPE_SEND_RECEIVE = (MACH_PORT_TYPE_SEND OR MACH_PORT_TYPE_RECEIVE)"
definition MACH_PORT_TYPE_SEND_RIGHTS :: natural_t where
  "MACH_PORT_TYPE_SEND_RIGHTS = (MACH_PORT_TYPE_SEND OR MACH_PORT_TYPE_SEND_ONCE)"
definition MACH_PORT_TYPE_PORT_RIGHTS :: natural_t where
  "MACH_PORT_TYPE_PORT_RIGHTS = (MACH_PORT_TYPE_SEND_RIGHTS OR MACH_PORT_TYPE_RECEIVE)"
definition MACH_PORT_TYPE_PORT_OR_DEAD :: natural_t where
  "MACH_PORT_TYPE_PORT_OR_DEAD = (MACH_PORT_TYPE_PORT_RIGHTS OR MACH_PORT_TYPE_DEAD_NAME)"
definition MACH_PORT_TYPE_ALL_RIGHTS :: natural_t where
  "MACH_PORT_TYPE_ALL_RIGHTS = (MACH_PORT_TYPE_PORT_OR_DEAD OR MACH_PORT_TYPE_PORT_SET)"
definition MACH_PORT_TYPE_DNREQUEST :: natural_t where
  "MACH_PORT_TYPE_DNREQUEST = 0x80000000"

lemma MACH_PORT_TYPE_values [mach_consts]:
  "MACH_PORT_TYPE_NONE = 0"
  "MACH_PORT_TYPE_SEND = 0x10000"
  "MACH_PORT_TYPE_RECEIVE = 0x20000"
  "MACH_PORT_TYPE_SEND_ONCE = 0x40000"
  "MACH_PORT_TYPE_PORT_SET = 0x80000"
  "MACH_PORT_TYPE_DEAD_NAME = 0x100000"
  "MACH_PORT_TYPE_SEND_RECEIVE = 0x30000"
  "MACH_PORT_TYPE_SEND_RIGHTS = 0x50000"
  "MACH_PORT_TYPE_PORT_RIGHTS = 0x70000"
  "MACH_PORT_TYPE_PORT_OR_DEAD = 0x170000"
  "MACH_PORT_TYPE_ALL_RIGHTS = 0x1f0000"
  by code_simp+

section \<open>The fields of an entry's bits\<close>

definition IE_BITS_UREFS_MASK :: ipc_entry_bits_t where "IE_BITS_UREFS_MASK = 0x0000ffff"
definition IE_BITS_TYPE_MASK :: ipc_entry_bits_t where "IE_BITS_TYPE_MASK = 0x001f0000"
definition IE_BITS_COLLISION :: ipc_entry_bits_t where "IE_BITS_COLLISION = 0x00800000"
definition IE_BITS_GEN_MASK :: ipc_entry_bits_t where "IE_BITS_GEN_MASK = 0xff000000"
definition IE_BITS_GEN_ONE :: ipc_entry_bits_t where "IE_BITS_GEN_ONE = 0x04000000"
definition IE_BITS_RIGHT_MASK :: ipc_entry_bits_t where "IE_BITS_RIGHT_MASK = 0x007fffff"

definition IE_BITS_UREFS :: "ipc_entry_bits_t \<Rightarrow> mach_port_urefs_t" where
  "IE_BITS_UREFS bits = (bits AND IE_BITS_UREFS_MASK)"

definition IE_BITS_TYPE :: "ipc_entry_bits_t \<Rightarrow> natural_t" where
  "IE_BITS_TYPE bits = (bits AND IE_BITS_TYPE_MASK)"

definition IE_BITS_GEN :: "ipc_entry_bits_t \<Rightarrow> natural_t" where
  "IE_BITS_GEN bits = (bits AND IE_BITS_GEN_MASK)"

definition IE_BITS_NEW_GEN :: "ipc_entry_bits_t \<Rightarrow> natural_t" where
  "IE_BITS_NEW_GEN old = ((old + IE_BITS_GEN_ONE) AND IE_BITS_GEN_MASK)"

definition MACH_PORT_MAKEB :: "natural_t \<Rightarrow> ipc_entry_bits_t \<Rightarrow> mach_port_t" where
  "MACH_PORT_MAKEB index bits = MACH_PORT_MAKE index (IE_BITS_GEN bits)"

section \<open>User references and time stamps\<close>

definition MACH_PORT_UREFS_MAX :: mach_port_urefs_t where
  "MACH_PORT_UREFS_MAX = push_bit 16 1 - 1"

text \<open>
  \<open>urefs\<close> is unsigned and \<open>delta\<close> a signed \<open>int\<close>: the sum and the comparisons with
  \<open>urefs\<close> are unsigned, only the comparisons of \<open>delta\<close> with 0 are signed.
\<close>

definition MACH_PORT_UREFS_OVERFLOW :: "mach_port_urefs_t \<Rightarrow> mach_port_delta_t \<Rightarrow> bool" where
  "MACH_PORT_UREFS_OVERFLOW urefs delta \<longleftrightarrow>
     0 < sint delta \<and> (urefs + delta \<le> urefs \<or> urefs + delta > MACH_PORT_UREFS_MAX)"

definition MACH_PORT_UREFS_UNDERFLOW :: "mach_port_urefs_t \<Rightarrow> mach_port_delta_t \<Rightarrow> bool" where
  "MACH_PORT_UREFS_UNDERFLOW urefs delta \<longleftrightarrow> sint delta < 0 \<and> - delta > urefs"

definition IP_TIMESTAMP_ORDER :: "natural_t \<Rightarrow> natural_t \<Rightarrow> bool" where
  "IP_TIMESTAMP_ORDER one two \<longleftrightarrow> sint (one - two) < 0"

section \<open>Facts on the packed fields\<close>

lemma IE_masks [mach_consts]:
  "IE_BITS_UREFS_MASK = mask 16"
  "IE_BITS_TYPE_MASK = push_bit 16 (mask 5)"
  "IE_BITS_COLLISION = (mask 24 AND NOT (mask 23))"
  "IE_BITS_GEN_MASK = push_bit 24 (mask 8)"
  "IE_BITS_RIGHT_MASK = mask 23"
  by code_simp+

lemma byte_mask: "0xff = (mask 8 :: 32 word)" by code_simp

lemma MACH_PORT_GEN_MAKE: "MACH_PORT_GEN (MACH_PORT_MAKE i g) = IE_BITS_GEN g"
  by (rule bit_word_eqI) (auto simp: MACH_PORT_GEN_def MACH_PORT_MAKE_def IE_BITS_GEN_def IE_masks byte_mask bit_simps)

lemma MACH_PORT_MAKE_INDEX_GEN: "MACH_PORT_MAKE (MACH_PORT_INDEX n) (MACH_PORT_GEN n) = n"
proof (rule bit_word_eqI)
  fix k assume "k < LENGTH(32)"
  then show "bit (MACH_PORT_MAKE (MACH_PORT_INDEX n) (MACH_PORT_GEN n)) k \<longleftrightarrow> bit n k"
    by (cases "k < 8") (auto simp: MACH_PORT_GEN_def MACH_PORT_MAKE_def MACH_PORT_INDEX_def byte_mask bit_simps)
qed

lemma uint_UREFS: "uint (IE_BITS_UREFS b) = uint b mod 65536"
proof -
  have "uint (IE_BITS_UREFS b) = uint (take_bit 16 b)"
    by (simp add: IE_BITS_UREFS_def IE_masks take_bit_eq_mask)
  then show ?thesis
    by (simp only: unsigned_take_bit_eq) (simp add: take_bit_eq_mod)
qed

lemma uint_hi: "uint (drop_bit 16 b) = uint b div 65536" for b :: "32 word"
proof -
  have "take_bit 32 (uint b) = uint b"
    using uint_lt2p [of b] by (intro take_bit_int_eq_self) auto
  then show ?thesis
    by (simp only: unsigned_drop_bit_eq) (simp add: drop_bit_eq_div)
qed

lemma TYPE_hi: "IE_BITS_TYPE b = push_bit 16 (drop_bit 16 b AND mask 5)"
  by (rule bit_word_eqI) (auto simp: IE_BITS_TYPE_def IE_masks bit_simps)
lemma GEN_hi: "IE_BITS_GEN b = push_bit 16 (drop_bit 16 b AND push_bit 8 (mask 8))"
  by (rule bit_word_eqI) (auto simp: IE_BITS_GEN_def IE_masks bit_simps)
lemma COLLISION_hi: "b AND IE_BITS_COLLISION = push_bit 16 (drop_bit 16 b AND (mask 8 AND NOT (mask 7)))"
  by (rule bit_word_eqI) (auto simp: IE_masks bit_simps)

lemma uint_add_sint:
  fixes b d :: "32 word"
  assumes "0 \<le> uint b + sint d" "uint b + sint d < 2 ^ 32"
  shows "uint (b + d) = uint b + sint d"
proof -
  have "uint (b + d) = (uint b + uint d) mod 2 ^ 32"
    by (simp add: uint_word_ariths)
  also have "uint d = sint d mod 2 ^ 32"
    by (simp add: uint_sint take_bit_eq_mod)
  finally have "uint (b + d) = (uint b + sint d) mod 2 ^ 32"
    by (simp add: mod_simps)
  then show ?thesis
    using assms by simp
qed

lemma UREFS_add:
  assumes "0 \<le> uint (IE_BITS_UREFS b) + sint d" "uint (IE_BITS_UREFS b) + sint d < 65536"
  shows uint_UREFS_add: "uint (IE_BITS_UREFS (b + d)) = uint (IE_BITS_UREFS b) + sint d"
   and hi_UREFS_add: "drop_bit 16 (b + d) = drop_bit 16 b"
proof -
  define h where "h = uint b div 65536"
  define l where "l = uint b mod 65536"
  have b: "uint b = 65536 * h + l"
    by (simp add: h_def l_def)
  have h: "0 \<le> h" "h < 65536" 
    using uint_lt2p [of b] uint_ge_0 [of b] by (auto simp: h_def pos_imp_zdiv_nonneg_iff)
  have l: "0 \<le> l + sint d" "l + sint d < 65536"
    using assms by (simp_all add: l_def uint_UREFS)
  have sum: "uint (b + d) = 65536 * h + (l + sint d)"
    using uint_add_sint [of b d] b h l by simp
  show "uint (IE_BITS_UREFS (b + d)) = uint (IE_BITS_UREFS b) + sint d"
    using l by (simp add: uint_UREFS sum) (simp add: l_def)
  have "uint (b + d) div 65536 = h"
    using l by (simp add: sum)
  then show "drop_bit 16 (b + d) = drop_bit 16 b"
    by (simp add: word_uint_eq_iff uint_hi h_def)
qed

definition same_hi :: "ipc_entry_bits_t \<Rightarrow> ipc_entry_bits_t \<Rightarrow> bool" where
  "same_hi a b \<longleftrightarrow> drop_bit 16 a = drop_bit 16 b"

lemma same_hi_fields:
  assumes "same_hi a b"
  shows "IE_BITS_TYPE a = IE_BITS_TYPE b" "IE_BITS_GEN a = IE_BITS_GEN b"
    "a AND IE_BITS_COLLISION = b AND IE_BITS_COLLISION"
  using assms by (simp_all add: same_hi_def TYPE_hi GEN_hi COLLISION_hi)

lemma uint_UREFS_bounds: "0 \<le> uint (IE_BITS_UREFS b)" "uint (IE_BITS_UREFS b) \<le> 65535"
  by (simp_all add: uint_UREFS)

lemma UREFS_inc:
  assumes "IE_BITS_UREFS b \<noteq> MACH_PORT_UREFS_MAX"
  shows "IE_BITS_UREFS (b + 1) = IE_BITS_UREFS b + 1" "same_hi (b + 1) b"
proof -
  have m: "uint MACH_PORT_UREFS_MAX = 65535" by (simp add: MACH_PORT_UREFS_MAX_def)
  have "uint (IE_BITS_UREFS b) < 65535"
    using assms uint_UREFS_bounds(2) [of b] m by (metis word_uint_eq_iff order_le_imp_less_or_eq)
  then have add: "uint (IE_BITS_UREFS (b + 1)) = uint (IE_BITS_UREFS b) + 1" "drop_bit 16 (b + 1) = drop_bit 16 b"
    using UREFS_add [of b 1] uint_UREFS_bounds(1) [of b] by auto
  show "same_hi (b + 1) b" using add(2) by (simp add: same_hi_def)
  show "IE_BITS_UREFS (b + 1) = IE_BITS_UREFS b + 1" 
    using add(1) uint_add_sint [of "IE_BITS_UREFS b" 1] uint_UREFS_bounds [of b]
    by (simp add: word_uint_eq_iff)
qed

lemma UREFS_dec:
  assumes "IE_BITS_UREFS b \<noteq> 0"
  shows "IE_BITS_UREFS (b - 1) = IE_BITS_UREFS b - 1" "same_hi (b - 1) b"
proof -
  have "0 < uint (IE_BITS_UREFS b)"
    using assms uint_UREFS_bounds(1) [of b] by (metis word_uint_eq_iff order_le_imp_less_or_eq unsigned_0)
  then have add: "uint (IE_BITS_UREFS (b + - 1)) = uint (IE_BITS_UREFS b) - 1" "drop_bit 16 (b + - 1) = drop_bit 16 b"
    using UREFS_add [of b "- 1"] uint_UREFS_bounds [of b] by auto
  show "same_hi (b - 1) b" using add(2) by (simp add: same_hi_def)
  show "IE_BITS_UREFS (b - 1) = IE_BITS_UREFS b - 1" 
    using add(1) uint_add_sint [of "IE_BITS_UREFS b" "-1"] uint_UREFS_bounds [of b] \<open>0 < _\<close>
    by (simp add: word_uint_eq_iff)
qed

lemma UREFS_OVERFLOW_iff:
  assumes "u \<le> MACH_PORT_UREFS_MAX"
  shows "MACH_PORT_UREFS_OVERFLOW u d \<longleftrightarrow> uint u + sint d > 65535"
proof -
  have u: "uint u \<le> 65535" using assms by (simp add: word_le_def MACH_PORT_UREFS_MAX_def)
  have d: "sint d < 2 ^ 31" using sint_lt [of d] by simp
  show ?thesis
  proof (cases "0 < sint d")
    case True
    then have "uint (u + d) = uint u + sint d"
      using u d by (intro uint_add_sint) auto
    with True show ?thesis
      by (auto simp: MACH_PORT_UREFS_OVERFLOW_def MACH_PORT_UREFS_MAX_def word_le_def word_less_def)
  next
    case False
    then show ?thesis using u by (simp add: MACH_PORT_UREFS_OVERFLOW_def)
  qed
qed

lemma UREFS_UNDERFLOW_iff:
  assumes "u \<le> MACH_PORT_UREFS_MAX"
  shows "MACH_PORT_UREFS_UNDERFLOW u d \<longleftrightarrow> uint u + sint d < 0"
proof -
  have u: "uint u \<le> 65535" using assms by (simp add: word_le_def MACH_PORT_UREFS_MAX_def)
  have d: "- (2 ^ 31) \<le> sint d" using sint_ge [of d] by simp
  show ?thesis
  proof (cases "sint d < 0")
    case True
    have "uint (- d) = (- sint d) mod 2 ^ 32"
      by (simp add: uint_word_ariths) (simp add: uint_sint take_bit_eq_mod mod_simps)
    also have "\<dots> = - sint d" using True d by simp
    finally show ?thesis
      using True by (auto simp: MACH_PORT_UREFS_UNDERFLOW_def word_less_def)
  next
    case False
    moreover have "0 \<le> uint u" by simp
    ultimately show ?thesis unfolding MACH_PORT_UREFS_UNDERFLOW_def by linarith
  qed
qed

lemma sint_eq_uint_mod: "sint w = (uint w + 2 ^ 31) mod 2 ^ 32 - 2 ^ 31" for w :: "32 word"
  using int_word_sint [of "uint w", where 'a = 32] by simp

lemma IP_TIMESTAMP_ORDER_later:
  assumes "0 < k" "k < 2 ^ 31"
  shows "IP_TIMESTAMP_ORDER t (t + of_nat k) \<and> \<not> IP_TIMESTAMP_ORDER (t + of_nat k) t"
proof -
  have k: "uint (of_nat k :: 32 word) = int k" using assms by (simp add: uint_nat unat_of_nat)
  have "uint (- (of_nat k :: 32 word)) = 2 ^ 32 - int k"
    using assms k by (simp add: uint_word_ariths zmod_zminus1_eq_if)
  moreover have "(2 ^ 32 - int k + 2 ^ 31) mod 2 ^ 32 = 2 ^ 31 - int k"
    using assms mod_add_self1 [of "2 ^ 32" "2 ^ 31 - int k"] by simp
  ultimately show ?thesis
    using assms k by (simp add: IP_TIMESTAMP_ORDER_def sint_eq_uint_mod)
qed

lemma unat_MACH_PORT_INDEX: "unat (MACH_PORT_INDEX n) = unat n div 256"
  by (simp only: MACH_PORT_INDEX_def unat_drop_bit_eq) (simp add: drop_bit_eq_div)

lemma MACH_PORT_INDEX_less: "MACH_PORT_INDEX n < 2 ^ 24"
proof -
  have "unat n div 256 < 2 ^ 24" using unsigned_less [of n, where 'a = nat] by simp
  then show ?thesis by (simp add: word_less_nat_alt unat_MACH_PORT_INDEX)
qed

lemma MACH_PORT_INDEX_mono: "a \<le> b \<Longrightarrow> MACH_PORT_INDEX a \<le> MACH_PORT_INDEX b"
  by (simp add: word_le_nat_alt unat_MACH_PORT_INDEX div_le_mono)

lemma unat_MACH_PORT_MAKE_0:
  assumes "i < 2 ^ 24"
  shows "unat (MACH_PORT_MAKE i 0) = unat i * 256"
proof -
  have "unat i < 2 ^ 24" using assms by (simp add: word_less_nat_alt)
  moreover have "MACH_PORT_MAKE i 0 = i * 256"
    by (simp add: MACH_PORT_MAKE_def push_bit_eq_mult)
  ultimately show ?thesis by (simp add: unat_word_ariths)
qed

lemma less_MACH_PORT_MAKE_0:
  assumes "i < 2 ^ 24"
  shows "n < MACH_PORT_MAKE i 0 \<longleftrightarrow> MACH_PORT_INDEX n < i"
  using assms
  by (auto simp: word_less_nat_alt unat_MACH_PORT_MAKE_0 unat_MACH_PORT_INDEX div_less_iff_less_mult)

lemma mach_port_eq_iff: "a = b \<longleftrightarrow> MACH_PORT_INDEX a = MACH_PORT_INDEX b \<and> MACH_PORT_GEN a = MACH_PORT_GEN b"
  by (metis MACH_PORT_MAKE_INDEX_GEN)

lemma mach_port_less_iff:
  "a < b \<longleftrightarrow> MACH_PORT_INDEX a < MACH_PORT_INDEX b \<or>
     MACH_PORT_INDEX a = MACH_PORT_INDEX b \<and> MACH_PORT_GEN a < MACH_PORT_GEN b"
proof -
  have split: "x < y \<longleftrightarrow> x div 256 < y div 256 \<or> x div 256 = y div 256 \<and> x mod 256 < y mod 256"
    for x y :: nat
  proof -
    have "q * 256 + r < p * 256 + s \<longleftrightarrow> q < p \<or> q = p \<and> r < s"
      if "r < 256" "s < 256" for q r p s :: nat
      using that by linarith
    from this [of "x mod 256" "y mod 256" "x div 256" "y div 256"] show ?thesis by simp
  qed
  have gen: "unat (MACH_PORT_GEN n) = unat n mod 256 * 2 ^ 24" for n
  proof -
    have "n AND 0xff = take_bit 8 n" by (simp add: byte_mask take_bit_eq_mask)
    then have "unat (n AND 0xff) = unat n mod 256"
      by (simp only: unsigned_take_bit_eq) (simp add: take_bit_eq_mod)
    then show ?thesis
      by (simp add: MACH_PORT_GEN_def push_bit_eq_mult unat_word_ariths)
  qed
  show ?thesis
    using split [of "unat a" "unat b"]
    by (simp add: word_less_nat_alt word_unat_eq_iff unat_MACH_PORT_INDEX gen)
qed

lemma GEN_MASK_GEN [bits_simps]: "IE_BITS_GEN IE_BITS_GEN_MASK = IE_BITS_GEN_MASK"
  by (simp add: IE_BITS_GEN_def)

lemma IE_BITS_GEN_fixed_iff: "IE_BITS_GEN g = g \<longleftrightarrow> take_bit 24 g = 0"
proof
  have "take_bit 24 (IE_BITS_GEN g) = 0"
    by (rule bit_word_eqI) (auto simp: IE_BITS_GEN_def IE_masks bit_simps)
  then show "IE_BITS_GEN g = g \<Longrightarrow> take_bit 24 g = 0" by simp
  have "IE_BITS_GEN g OR take_bit 24 g = g"
    by (rule bit_word_eqI) (auto simp: IE_BITS_GEN_def IE_masks bit_simps)
  then show "take_bit 24 g = 0 \<Longrightarrow> IE_BITS_GEN g = g" by simp
qed

lemma IE_BITS_NEW_GEN_pow:
  assumes "IE_BITS_GEN g = g"
  shows "(IE_BITS_NEW_GEN ^^ n) g = g + of_nat n * IE_BITS_GEN_ONE"
proof (induction n)
  case (Suc n)
  have one: "take_bit 24 (of_nat n * IE_BITS_GEN_ONE + IE_BITS_GEN_ONE) = 0"
  proof -
    have "of_nat n * IE_BITS_GEN_ONE + IE_BITS_GEN_ONE = push_bit 24 (4 * (of_nat n + 1))"
      by (simp add: IE_BITS_GEN_ONE_def push_bit_eq_mult algebra_simps)
    then show ?thesis by (simp only: take_bit_push_bit) simp
  qed
  have "take_bit 24 (g + (of_nat n * IE_BITS_GEN_ONE + IE_BITS_GEN_ONE)) = 0"
    using mask_eqs(7) [of g 24 "of_nat n * IE_BITS_GEN_ONE + IE_BITS_GEN_ONE"] assms one
    by (simp only: IE_BITS_GEN_fixed_iff take_bit_eq_mask add_0 and_zero_eq zero_and_eq)
  then have "IE_BITS_GEN (g + (of_nat n * IE_BITS_GEN_ONE + IE_BITS_GEN_ONE)) =
     g + (of_nat n * IE_BITS_GEN_ONE + IE_BITS_GEN_ONE)"
    by (simp only: IE_BITS_GEN_fixed_iff)
  then show ?case
    using Suc by (simp add: IE_BITS_NEW_GEN_def IE_BITS_GEN_def algebra_simps)
qed simp

lemma IE_BITS_NEW_GEN_cycle:
  assumes "IE_BITS_GEN g = g"
  shows "(IE_BITS_NEW_GEN ^^ n) g = g \<longleftrightarrow> 64 dvd n"
proof -
  have width: "(2 :: nat) ^ LENGTH(32) = 2 ^ 26 * 2 ^ 6" by simp
  have "(IE_BITS_NEW_GEN ^^ n) g = g \<longleftrightarrow> (of_nat (n * 2 ^ 26) :: 32 word) = 0"
    by (simp add: IE_BITS_NEW_GEN_pow [OF assms] IE_BITS_GEN_ONE_def)
  also have "\<dots> \<longleftrightarrow> 2 ^ 26 * 2 ^ 6 dvd 2 ^ 26 * n"
    unfolding word_of_nat_eq_0_iff width mult.commute [of n] by (rule refl)
  also have "\<dots> \<longleftrightarrow> 2 ^ 6 dvd n"
    by (rule nat_mult_dvd_cancel1) (simp only: zero_less_power zero_less_numeral)
  finally show ?thesis by simp
qed

lemma IE_BITS_TYPE_or: "IE_BITS_TYPE ((b AND NOT IE_BITS_TYPE_MASK) OR t) = IE_BITS_TYPE t"
  by (rule bit_word_eqI) (auto simp: IE_BITS_TYPE_def bit_simps)

lemma bit_less_2p: "w < 2 ^ k \<Longrightarrow> bit w n \<Longrightarrow> n < k" for w :: natural_t
  by (metis less_mask_eq bit_and_iff bit_mask_iff)

lemma MACH_PORT_INDEX_MAKE: "i < 2 ^ 24 \<Longrightarrow> MACH_PORT_INDEX (MACH_PORT_MAKE i g) = i"
  using bit_less_2p [of i 24]
  by (intro bit_word_eqI) (fastforce simp: MACH_PORT_INDEX_def MACH_PORT_MAKE_def bit_simps)

lemma natural_eq_iff: "a = b \<longleftrightarrow> (\<forall>n. bit a n \<longleftrightarrow> bit b n)" for a b :: natural_t
  by (auto intro: bit_eqI)

lemma bit_COLLISION: "bit IE_BITS_COLLISION n \<longleftrightarrow> n = 23"
  unfolding IE_masks by (auto simp: bit_simps)

lemma COLLISION_iff [bits_simps]: "b AND IE_BITS_COLLISION = 0 \<longleftrightarrow> \<not> bit b 23"
  by (auto simp: natural_eq_iff bit_and_iff bit_COLLISION)

lemma bit_fields:
  "bit IE_BITS_TYPE_MASK n \<longleftrightarrow> 16 \<le> n \<and> n < 21"
  "bit IE_BITS_GEN_MASK n \<longleftrightarrow> 24 \<le> n \<and> n < 32"
  "bit IE_BITS_UREFS_MASK n \<longleftrightarrow> n < 16"
  "bit IE_BITS_RIGHT_MASK n \<longleftrightarrow> n < 23"
  unfolding IE_masks by (auto simp: bit_simps)

lemma field_eq_iff:
  "IE_BITS_TYPE a = IE_BITS_TYPE b \<longleftrightarrow> (\<forall>n. 16 \<le> n \<longrightarrow> n < 21 \<longrightarrow> bit a n = bit b n)"
  "IE_BITS_GEN a = IE_BITS_GEN b \<longleftrightarrow> (\<forall>n. 24 \<le> n \<longrightarrow> n < 32 \<longrightarrow> bit a n = bit b n)"
  "IE_BITS_UREFS a = IE_BITS_UREFS b \<longleftrightarrow> (\<forall>n<16. bit a n = bit b n)"
  by (auto simp: IE_BITS_TYPE_def IE_BITS_GEN_def IE_BITS_UREFS_def natural_eq_iff bit_and_iff bit_fields)

lemma COLLISION_fields [bits_simps]:
  "IE_BITS_TYPE (b OR IE_BITS_COLLISION) = IE_BITS_TYPE b"
  "IE_BITS_GEN (b OR IE_BITS_COLLISION) = IE_BITS_GEN b"
  "IE_BITS_UREFS (b OR IE_BITS_COLLISION) = IE_BITS_UREFS b"
  "IE_BITS_TYPE (b AND NOT IE_BITS_COLLISION) = IE_BITS_TYPE b"
  "IE_BITS_GEN (b AND NOT IE_BITS_COLLISION) = IE_BITS_GEN b"
  "IE_BITS_UREFS (b AND NOT IE_BITS_COLLISION) = IE_BITS_UREFS b"
  "bit (b OR IE_BITS_COLLISION) 23" "\<not> bit (b AND NOT IE_BITS_COLLISION) 23"
  by (auto simp: field_eq_iff bit_simps bit_COLLISION)

text \<open>The word of a free entry, of a fresh one, and of one moved out of the tree.\<close>

lemma GEN_fields [bits_simps]:
  "IE_BITS_TYPE (b AND IE_BITS_GEN_MASK) = 0" "IE_BITS_UREFS (b AND IE_BITS_GEN_MASK) = 0"
  "IE_BITS_GEN (b AND IE_BITS_GEN_MASK) = IE_BITS_GEN b" "\<not> bit (b AND IE_BITS_GEN_MASK) 23"
  "(b AND IE_BITS_GEN_MASK) AND NOT IE_BITS_GEN_MASK = 0"
  by (auto simp: IE_BITS_TYPE_def IE_BITS_GEN_def IE_BITS_UREFS_def natural_eq_iff bit_simps bit_fields)

lemma IE_BITS_GEN_idem [bits_simps]: "IE_BITS_GEN (IE_BITS_GEN b) = IE_BITS_GEN b"
  "IE_BITS_TYPE (IE_BITS_GEN b) = 0" "\<not> bit (IE_BITS_GEN b) 23" "IE_BITS_GEN b AND NOT IE_BITS_GEN_MASK = 0"
  using GEN_fields by (simp_all add: IE_BITS_GEN_def)

lemma MACH_PORT_GEN_fields [bits_simps]:
  "IE_BITS_GEN (MACH_PORT_GEN n) = MACH_PORT_GEN n" "IE_BITS_TYPE (MACH_PORT_GEN n) = 0"
  "\<not> bit (MACH_PORT_GEN n) 23" "MACH_PORT_GEN n AND NOT IE_BITS_GEN_MASK = 0"
  by (auto simp: IE_BITS_TYPE_def IE_BITS_GEN_def MACH_PORT_GEN_def natural_eq_iff bit_simps bit_fields)

lemma or_GEN_fields [bits_simps]:
  "IE_BITS_TYPE (b OR MACH_PORT_GEN n) = IE_BITS_TYPE b" "IE_BITS_UREFS (b OR MACH_PORT_GEN n) = IE_BITS_UREFS b"
  "bit (b OR MACH_PORT_GEN n) 23 \<longleftrightarrow> bit b 23"
  "IE_BITS_GEN b = 0 \<Longrightarrow> IE_BITS_GEN (b OR MACH_PORT_GEN n) = MACH_PORT_GEN n"
proof -
  show "IE_BITS_TYPE (b OR MACH_PORT_GEN n) = IE_BITS_TYPE b" "IE_BITS_UREFS (b OR MACH_PORT_GEN n) = IE_BITS_UREFS b"
    "bit (b OR MACH_PORT_GEN n) 23 \<longleftrightarrow> bit b 23"
    by (auto simp: field_eq_iff MACH_PORT_GEN_def bit_simps)
  assume "IE_BITS_GEN b = 0"
  then have "IE_BITS_GEN (b OR MACH_PORT_GEN n) = IE_BITS_GEN (MACH_PORT_GEN n)"
    by (simp add: IE_BITS_GEN_def and.commute bit.conj_disj_distrib)
  then show "IE_BITS_GEN (b OR MACH_PORT_GEN n) = MACH_PORT_GEN n"
    by (simp add: MACH_PORT_GEN_fields)
qed

lemma NEW_GEN_fields [bits_simps]:
  "IE_BITS_GEN (IE_BITS_NEW_GEN b) = IE_BITS_NEW_GEN b" "IE_BITS_TYPE (IE_BITS_NEW_GEN b) = 0"
  "\<not> bit (IE_BITS_NEW_GEN b) 23"
  using GEN_fields [of "b + IE_BITS_GEN_ONE"] by (simp_all add: IE_BITS_NEW_GEN_def IE_BITS_GEN_def and.assoc)

lemma MACH_PORT_MAKEB_fields [bits_simps]:
  "MACH_PORT_GEN (MACH_PORT_MAKEB i b) = IE_BITS_GEN b"
  "i < 2 ^ 24 \<Longrightarrow> MACH_PORT_INDEX (MACH_PORT_MAKEB i b) = i"
  by (simp_all add: MACH_PORT_MAKEB_def MACH_PORT_GEN_MAKE MACH_PORT_INDEX_MAKE IE_BITS_GEN_idem)

end
