(* ===== verification/IPC_Splay.thy ===== *)
theory IPC_Splay
  imports Port_Names
begin

text \<open>
  The self-adjusting search tree of \<open>ipc/ipc_splay.c\<close>, which holds the entries of a space
  that do not fit its table.  The tree is kept unassembled: the middle tree of the last top-down
  splay, and a left and a right tree whose innermost child field is not yet filled.  A tree node is
  owned by exactly one pointer, so a tree is a value of a datatype; a partial tree with its hole
  (\<open>ist_ltree\<close> with \<open>ist_ltreep\<close>) is the list of its spine nodes, the one that owns
  the hole first.  Locking (\<open>ist_lock\<close>) is left out: every operation runs with the space
  locked.
\<close>

section \<open>Data\<close>

datatype 'e ipc_tree_entry =
    ITE_NULL
  | ITE (ite_lchild: "'e ipc_tree_entry") (ite_name: mach_port_t) (ite_entry: 'e)
        (ite_rchild: "'e ipc_tree_entry")
where
  "ite_lchild ITE_NULL = ITE_NULL"
| "ite_rchild ITE_NULL = ITE_NULL"

text \<open>A spine node of the left tree lacks its right child, one of the right tree its left child.\<close>

type_synonym 'e ltree = "('e ipc_tree_entry \<times> mach_port_t \<times> 'e) list"
type_synonym 'e rtree = "(mach_port_t \<times> 'e \<times> 'e ipc_tree_entry) list"

record 'e ipc_splay_tree =
  ist_name :: mach_port_t
  ist_root :: "'e ipc_tree_entry"
  ist_ltree :: "'e ltree"
  ist_rtree :: "'e rtree"

definition MACH_PORT_SMALLEST :: mach_port_t where "MACH_PORT_SMALLEST = 0"
definition MACH_PORT_LARGEST :: mach_port_t where "MACH_PORT_LARGEST = NOT 0"

text \<open>Storing a subtree through the pointer to the hole.\<close>

fun fill_ltree :: "'e ltree \<Rightarrow> 'e ipc_tree_entry \<Rightarrow> 'e ipc_tree_entry" where
  "fill_ltree [] t = t"
| "fill_ltree ((l, n, e) # ls) t = fill_ltree ls (ITE l n e t)"

fun fill_rtree :: "'e rtree \<Rightarrow> 'e ipc_tree_entry \<Rightarrow> 'e ipc_tree_entry" where
  "fill_rtree [] t = t"
| "fill_rtree ((n, e, r) # rs) t = fill_rtree rs (ITE t n e r)"

section \<open>The top-down splay\<close>

type_synonym 'e splay_state = "'e ipc_tree_entry \<times> 'e ltree \<times> 'e rtree"

text \<open>The macros of \<open>ipc_splay_prim_lookup\<close>.\<close>

fun link_left :: "'e splay_state \<Rightarrow> 'e splay_state" where
  "link_left (ITE l n e r, ls, rs) = (r, (l, n, e) # ls, rs)"
| "link_left (ITE_NULL, ls, rs) = (ITE_NULL, ls, rs)"

fun link_right :: "'e splay_state \<Rightarrow> 'e splay_state" where
  "link_right (ITE l n e r, ls, rs) = (l, ls, (n, e, r) # rs)"
| "link_right (ITE_NULL, ls, rs) = (ITE_NULL, ls, rs)"

fun rotate_left :: "'e splay_state \<Rightarrow> 'e splay_state" where
  "rotate_left (ITE l n e (ITE rl rn re rr), ls, rs) = (ITE (ITE l n e rl) rn re rr, ls, rs)"
| "rotate_left s = s"

fun rotate_right :: "'e splay_state \<Rightarrow> 'e splay_state" where
  "rotate_right (ITE (ITE ll ln le lr) n e r, ls, rs) = (ITE ll ln le (ITE lr n e r), ls, rs)"
| "rotate_right s = s"

text \<open>One iteration of the loop; \<open>None\<close> is the exit of the loop.\<close>

fun splay_step :: "mach_port_t \<Rightarrow> 'e splay_state \<Rightarrow> 'e splay_state option" where
  "splay_step name (ITE_NULL, ls, rs) = None"
| "splay_step name (ITE l n e r, ls, rs) =
     (let s = (ITE l n e r, ls, rs) in
      if name = n then None
      else if name < n then
        (case l of ITE_NULL \<Rightarrow> None
         | ITE ll ln le lr \<Rightarrow>
             (let s = (if name < ln \<and> ll \<noteq> ITE_NULL then rotate_right s else s);
                  s = link_right s
              in Some (if name > ln \<and> lr \<noteq> ITE_NULL then link_left s else s)))
      else
        (case r of ITE_NULL \<Rightarrow> None
         | ITE rl rn re rr \<Rightarrow>
             (let s = (if name > rn \<and> rr \<noteq> ITE_NULL then rotate_left s else s);
                  s = link_left s
              in Some (if name < rn \<and> rl \<noteq> ITE_NULL then link_right s else s))))"

lemma splay_step_size:
  "splay_step name (t, ls, rs) = Some (t', ls', rs') \<Longrightarrow> size t' < size t"
  by (cases t) (auto simp: Let_def split: if_splits ipc_tree_entry.splits)

function splay_loop :: "mach_port_t \<Rightarrow> 'e splay_state \<Rightarrow> 'e splay_state" where
  "splay_loop name s = (case splay_step name s of None \<Rightarrow> s | Some s' \<Rightarrow> splay_loop name s')"
  by pat_completeness auto
termination
  by (relation "measure (\<lambda>(name, s). size (fst s))") (auto dest: splay_step_size)

declare splay_loop.simps [simp del]

definition ipc_splay_prim_lookup :: "mach_port_t \<Rightarrow> 'e ipc_tree_entry \<Rightarrow> 'e splay_state" where
  "ipc_splay_prim_lookup name tree = splay_loop name (tree, [], [])"

definition ipc_splay_prim_assemble :: "'e splay_state \<Rightarrow> 'e ipc_tree_entry" where
  "ipc_splay_prim_assemble s =
     (case s of (tree, ltree, rtree) \<Rightarrow>
        (case tree of ITE_NULL \<Rightarrow> ITE_NULL
         | ITE l n e r \<Rightarrow> ITE (fill_ltree ltree l) n e (fill_rtree rtree r)))"

section \<open>Tree operations\<close>

definition ist_state :: "'e ipc_splay_tree \<Rightarrow> 'e splay_state" where
  "ist_state splay = (ist_root splay, ist_ltree splay, ist_rtree splay)"

text \<open>A tree whose partial trees are empty, with the given root; \<open>ist_name\<close> is its name.\<close>

definition ist_assembled :: "'e ipc_tree_entry \<Rightarrow> 'e ipc_splay_tree" where
  "ist_assembled root =
     \<lparr>ist_name = (case root of ITE_NULL \<Rightarrow> 0 | ITE l n e r \<Rightarrow> n),
      ist_root = root, ist_ltree = [], ist_rtree = []\<rparr>"

text \<open>The block that brings \<open>name\<close> to the top, unless the last look-up already did.\<close>

definition ist_find :: "'e ipc_splay_tree \<Rightarrow> mach_port_t \<Rightarrow> 'e splay_state" where
  "ist_find splay name =
     (if ist_name splay \<noteq> name
      then ipc_splay_prim_lookup name (ipc_splay_prim_assemble (ist_state splay))
      else ist_state splay)"

definition ipc_splay_tree_init :: "'e ipc_splay_tree" where
  "ipc_splay_tree_init = ist_assembled ITE_NULL"

definition ipc_splay_tree_pick :: "'e ipc_splay_tree \<Rightarrow> (mach_port_t \<times> 'e) option" where
  "ipc_splay_tree_pick splay =
     (case ist_root splay of ITE_NULL \<Rightarrow> None | ITE l n e r \<Rightarrow> Some (n, e))"

definition ipc_splay_tree_lookup ::
  "'e ipc_splay_tree \<Rightarrow> mach_port_t \<Rightarrow> 'e option \<times> 'e ipc_splay_tree" where
  "ipc_splay_tree_lookup splay name =
     (if ist_root splay = ITE_NULL then (None, splay)
      else (case ist_find splay name of (root, ltree, rtree) \<Rightarrow>
        (if name \<noteq> ite_name root then None else Some (ite_entry root),
         \<lparr>ist_name = name, ist_root = root, ist_ltree = ltree, ist_rtree = rtree\<rparr>)))"

definition ipc_splay_tree_insert ::
  "'e ipc_splay_tree \<Rightarrow> mach_port_t \<Rightarrow> 'e \<Rightarrow> 'e ipc_splay_tree" where
  "ipc_splay_tree_insert splay name entry =
     (if ist_root splay = ITE_NULL then ist_assembled (ITE ITE_NULL name entry ITE_NULL)
      else (case ist_find splay name of (root, ltree, rtree) \<Rightarrow>
        if name < ite_name root
        then ist_assembled
               (ITE (fill_ltree ltree ITE_NULL) name entry (fill_rtree rtree root))
        else ist_assembled
               (ITE (fill_ltree ltree root) name entry (fill_rtree rtree ITE_NULL))))"

text \<open>
  \<open>ipc_splay_join_right root saved\<close> is the end of \<open>ipc_splay_tree_delete\<close>: the largest node
  of the left tree is splayed to the root and gets the saved right tree as its right child.
\<close>

definition ite_set_rchild :: "'e ipc_tree_entry \<Rightarrow> 'e ipc_tree_entry \<Rightarrow> 'e ipc_tree_entry" where
  "ite_set_rchild t r' = (case t of ITE_NULL \<Rightarrow> ITE_NULL | ITE l n e r \<Rightarrow> ITE l n e r')"

definition ite_set_lchild :: "'e ipc_tree_entry \<Rightarrow> 'e ipc_tree_entry \<Rightarrow> 'e ipc_tree_entry" where
  "ite_set_lchild t l' = (case t of ITE_NULL \<Rightarrow> ITE_NULL | ITE l n e r \<Rightarrow> ITE l' n e r)"

definition ipc_splay_join_right ::
  "'e ipc_tree_entry \<Rightarrow> 'e ipc_tree_entry \<Rightarrow> 'e ipc_tree_entry" where
  "ipc_splay_join_right root saved =
     (if root = ITE_NULL then saved
      else if saved \<noteq> ITE_NULL then
        ite_set_rchild
          (ipc_splay_prim_assemble (ipc_splay_prim_lookup MACH_PORT_LARGEST root)) saved
      else root)"

definition ipc_splay_tree_delete ::
  "'e ipc_splay_tree \<Rightarrow> mach_port_t \<Rightarrow> 'e ipc_splay_tree" where
  "ipc_splay_tree_delete splay name =
     (case ist_find splay name of (root, ltree, rtree) \<Rightarrow>
        ist_assembled
          (ipc_splay_join_right (fill_ltree ltree (ite_lchild root))
             (fill_rtree rtree (ite_rchild root))))"

text \<open>The result is the remaining tree and \<open>small\<close>.\<close>

definition ipc_splay_tree_split ::
  "'e ipc_splay_tree \<Rightarrow> mach_port_t \<Rightarrow> 'e ipc_splay_tree \<times> 'e ipc_splay_tree" where
  "ipc_splay_tree_split splay name =
     (if ist_root splay = ITE_NULL then (splay, ipc_splay_tree_init)
      else (case ist_find splay name of (root, ltree, rtree) \<Rightarrow>
        if ite_name root < name then
          (ist_assembled (fill_rtree rtree ITE_NULL),
           ist_assembled (ite_set_lchild root (fill_ltree ltree (ite_lchild root))))
        else
          (\<lparr>ist_name = name, ist_root = ite_set_lchild root ITE_NULL,
            ist_ltree = [], ist_rtree = rtree\<rparr>,
           ist_assembled (fill_ltree ltree (ite_lchild root)))))"

text \<open>\<open>small\<close> ends up empty; the result is the new \<open>splay\<close>.\<close>

definition ipc_splay_tree_join ::
  "'e ipc_splay_tree \<Rightarrow> 'e ipc_splay_tree \<Rightarrow> 'e ipc_splay_tree" where
  "ipc_splay_tree_join splay small =
     (let sroot = ipc_splay_prim_assemble (ist_state small) in
      if sroot = ITE_NULL then splay
      else if ist_root splay = ITE_NULL then ist_assembled sroot
      else ist_assembled
             (ite_set_lchild (ipc_splay_prim_assemble (ist_find splay MACH_PORT_SMALLEST)) sroot))"

definition ipc_splay_tree_bounds ::
  "'e ipc_splay_tree \<Rightarrow> mach_port_t \<Rightarrow> (mach_port_t \<times> mach_port_t) \<times> 'e ipc_splay_tree" where
  "ipc_splay_tree_bounds splay name =
     (if ist_root splay = ITE_NULL
      then ((MACH_PORT_LARGEST, MACH_PORT_SMALLEST), splay)
      else (case ist_find splay name of (root, ltree, rtree) \<Rightarrow>
        let rname = ite_name root;
            lower = (if rname \<le> name then rname
                     else (case ltree of [] \<Rightarrow> MACH_PORT_LARGEST | (l, n, e) # ls \<Rightarrow> n));
            upper = (if rname \<ge> name then rname
                     else (case rtree of [] \<Rightarrow> MACH_PORT_SMALLEST | (n, e, r) # rs \<Rightarrow> n))
        in ((lower, upper),
            \<lparr>ist_name = name, ist_root = root, ist_ltree = ltree, ist_rtree = rtree\<rparr>)))"

section \<open>In-order sequences\<close>

text \<open>
  The abstract value of a tree is the sequence of its (name, entry) pairs in symmetric order.
\<close>

primrec ite_inorder :: "'e ipc_tree_entry \<Rightarrow> (mach_port_t \<times> 'e) list" where
  "ite_inorder ITE_NULL = []"
| "ite_inorder (ITE l n e r) = ite_inorder l @ (n, e) # ite_inorder r"

fun ltree_inorder :: "'e ltree \<Rightarrow> (mach_port_t \<times> 'e) list" where
  "ltree_inorder [] = []"
| "ltree_inorder ((l, n, e) # ls) = ltree_inorder ls @ ite_inorder l @ [(n, e)]"

fun rtree_inorder :: "'e rtree \<Rightarrow> (mach_port_t \<times> 'e) list" where
  "rtree_inorder [] = []"
| "rtree_inorder ((n, e, r) # rs) = (n, e) # ite_inorder r @ rtree_inorder rs"

fun state_inorder :: "'e splay_state \<Rightarrow> (mach_port_t \<times> 'e) list" where
  "state_inorder (t, ls, rs) = ltree_inorder ls @ ite_inorder t @ rtree_inorder rs"

definition ist_inorder :: "'e ipc_splay_tree \<Rightarrow> (mach_port_t \<times> 'e) list" where
  "ist_inorder splay = state_inorder (ist_state splay)"

abbreviation names_sorted :: "(mach_port_t \<times> 'e) list \<Rightarrow> bool" where
  "names_sorted xs \<equiv> sorted_wrt (<) (map fst xs)"

text \<open>
  \<open>splayed name s\<close>: \<open>s\<close> is the outcome of a top-down splay for \<open>name\<close>: the
  left tree is below it, the right tree above it, and the root of the middle tree is the node with
  that name or the last one on the search path.
\<close>

definition at_name :: "mach_port_t \<Rightarrow> 'e ipc_tree_entry \<Rightarrow> bool" where
  "at_name name t =
     (case t of ITE_NULL \<Rightarrow> False
      | ITE l n e r \<Rightarrow> name = n \<or> name < n \<and> l = ITE_NULL \<or> n < name \<and> r = ITE_NULL)"

fun apart :: "mach_port_t \<Rightarrow> 'e splay_state \<Rightarrow> bool" where
  "apart name (t, ls, rs) =
     (list_all (\<lambda>x. fst x < name) (ltree_inorder ls) \<and>
      list_all (\<lambda>x. name < fst x) (rtree_inorder rs))"

definition splayed :: "mach_port_t \<Rightarrow> 'e splay_state \<Rightarrow> bool" where
  "splayed name s \<longleftrightarrow> at_name name (fst s) \<and> apart name s"

definition ist_ok :: "'e ipc_splay_tree \<Rightarrow> bool" where
  "ist_ok splay \<longleftrightarrow>
     names_sorted (ist_inorder splay) \<and>
     (if ist_root splay = ITE_NULL then ist_ltree splay = [] \<and> ist_rtree splay = []
      else splayed (ist_name splay) (ist_state splay))"

lemma ite_inorder_eq_Nil [simp]: "ite_inorder t = [] \<longleftrightarrow> t = ITE_NULL"
  by (cases t) auto

lemma inorder_fill_ltree [splay_simps]: "ite_inorder (fill_ltree ls t) = ltree_inorder ls @ ite_inorder t"
  by (induction ls t rule: fill_ltree.induct) auto

lemma inorder_fill_rtree [splay_simps]: "ite_inorder (fill_rtree rs t) = ite_inorder t @ rtree_inorder rs"
  by (induction rs t rule: fill_rtree.induct) auto

lemma splay_step_inorder: "splay_step name s = Some s' \<Longrightarrow> state_inorder s' = state_inorder s"
  by (cases "(name, s)" rule: splay_step.cases) (auto simp: Let_def split: if_splits ipc_tree_entry.splits)

lemma splay_step_nonnull: "splay_step name s = Some s' \<Longrightarrow> fst s' \<noteq> ITE_NULL"
  by (cases "(name, s)" rule: splay_step.cases) (auto simp: Let_def split: if_splits ipc_tree_entry.splits)

lemma splay_step_None: "splay_step name s = None \<Longrightarrow> fst s \<noteq> ITE_NULL \<Longrightarrow> at_name name (fst s)"
  by (cases "(name, s)" rule: splay_step.cases)
    (auto simp: at_name_def Let_def split: if_splits ipc_tree_entry.splits)

lemma names_sorted_below:
  "names_sorted (xs @ (n, e) # ys) \<Longrightarrow> n < name \<Longrightarrow> list_all (\<lambda>x. fst x < name) (xs @ [(n, e)])"
  by (fastforce simp: sorted_wrt_append list_all_iff)

lemma names_sorted_above:
  "names_sorted (xs @ (n, e) # ys) \<Longrightarrow> name < n \<Longrightarrow> list_all (\<lambda>x. name < fst x) ((n, e) # ys)"
  by (fastforce simp: sorted_wrt_append list_all_iff)

lemma splay_step_apart_left:
  assumes "splay_step name (ITE (ITE ll ln le lr) n e r, ls, rs) = Some s'"
    and "names_sorted (state_inorder (ITE (ITE ll ln le lr) n e r, ls, rs))"
    and "apart name (t, ls, rs)" and "name < n"
  shows "apart name s'"
proof -
  let ?hd = "ltree_inorder ls @ ite_inorder ll" and ?tl = "ite_inorder r @ rtree_inorder rs"
  have "list_all (\<lambda>x. name < fst x) ((n, e) # ?tl)"
    by (rule names_sorted_above [of "?hd @ (ln, le) # ite_inorder lr"]) (use assms in simp_all)
  moreover have "name < ln \<Longrightarrow> list_all (\<lambda>x. name < fst x) ((ln, le) # ite_inorder lr @ (n, e) # ?tl)"
    by (rule names_sorted_above [of ?hd]) (use assms in simp_all)
  moreover have "ln < name \<Longrightarrow> list_all (\<lambda>x. fst x < name) (?hd @ [(ln, le)])"
    by (rule names_sorted_below [of _ _ _ "ite_inorder lr @ (n, e) # ?tl"]) (use assms in simp_all)
  ultimately show ?thesis
    using assms(1,3,4) by (auto simp: Let_def split: if_splits)
qed

lemma splay_step_apart_right:
  assumes "splay_step name (ITE l n e (ITE rl rn re rr), ls, rs) = Some s'"
    and "names_sorted (state_inorder (ITE l n e (ITE rl rn re rr), ls, rs))"
    and "apart name (t, ls, rs)" and "n < name"
  shows "apart name s'"
proof -
  let ?hd = "ltree_inorder ls @ ite_inorder l" and ?tl = "ite_inorder rr @ rtree_inorder rs"
  have "list_all (\<lambda>x. fst x < name) (?hd @ [(n, e)])"
    by (rule names_sorted_below [of _ _ _ "ite_inorder rl @ (rn, re) # ?tl"]) (use assms in simp_all)
  moreover have "rn < name \<Longrightarrow>
      list_all (\<lambda>x. fst x < name) ((?hd @ (n, e) # ite_inorder rl) @ [(rn, re)])"
    by (rule names_sorted_below [of _ _ _ ?tl]) (use assms in simp_all)
  moreover have "name < rn \<Longrightarrow> list_all (\<lambda>x. name < fst x) ((rn, re) # ?tl)"
    by (rule names_sorted_above [of "?hd @ (n, e) # ite_inorder rl"]) (use assms in simp_all)
  ultimately show ?thesis
    using assms(1,3,4) by (auto simp: Let_def split: if_splits)
qed

lemma splay_step_apart:
  assumes "splay_step name s = Some s'" "names_sorted (state_inorder s)" "apart name s"
  shows "apart name s'"
proof -
  obtain l n e r ls rs where s: "s = (ITE l n e r, ls, rs)"
    using assms(1) by (cases "(name, s)" rule: splay_step.cases) auto
  consider "name < n" "l \<noteq> ITE_NULL" | "n < name" "r \<noteq> ITE_NULL"
    using assms(1) s by (cases name n rule: linorder_cases) (auto simp: Let_def split: if_splits ipc_tree_entry.splits)
  then show ?thesis
  proof cases
    case 1
    then show ?thesis
      using assms s by (cases l) (auto intro: splay_step_apart_left simp del: splay_step.simps state_inorder.simps)
  next
    case 2
    then show ?thesis
      using assms s by (cases r) (auto intro: splay_step_apart_right simp del: splay_step.simps state_inorder.simps)
  qed
qed

lemma splay_loop_splayed:
  assumes "names_sorted (state_inorder s)" "apart name s" "fst s \<noteq> ITE_NULL"
  shows "splayed name (splay_loop name s) \<and> state_inorder (splay_loop name s) = state_inorder s"
  using assms
proof (induction name s rule: splay_loop.induct)
  case (1 name s)
  show ?case
  proof (cases "splay_step name s")
    case None
    with 1 show ?thesis
      by (simp add: splay_loop.simps [of name s] splayed_def splay_step_None)
  next
    case (Some s')
    have "splayed name (splay_loop name s') \<and> state_inorder (splay_loop name s') = state_inorder s'"
      using 1 Some splay_step_inorder [OF Some] splay_step_apart [OF Some] splay_step_nonnull [OF Some]
      by simp
    then show ?thesis
      using Some splay_step_inorder [OF Some] by (simp add: splay_loop.simps [of name s])
  qed
qed

section \<open>Correctness of the tree operations\<close>

abbreviation nbelow :: "mach_port_t \<Rightarrow> (mach_port_t \<times> 'e) list \<Rightarrow> (mach_port_t \<times> 'e) list" where
  "nbelow name \<equiv> filter (\<lambda>x. fst x < name)"

abbreviation nabove :: "mach_port_t \<Rightarrow> (mach_port_t \<times> 'e) list \<Rightarrow> (mach_port_t \<times> 'e) list" where
  "nabove name \<equiv> filter (\<lambda>x. name < fst x)"

abbreviation nfrom :: "mach_port_t \<Rightarrow> (mach_port_t \<times> 'e) list \<Rightarrow> (mach_port_t \<times> 'e) list" where
  "nfrom name \<equiv> filter (\<lambda>x. name \<le> fst x)"

abbreviation nupto :: "mach_port_t \<Rightarrow> (mach_port_t \<times> 'e) list \<Rightarrow> (mach_port_t \<times> 'e) list" where
  "nupto name \<equiv> filter (\<lambda>x. fst x \<le> name)"

lemma names_sorted_split:
  assumes "list_all (\<lambda>x. fst x < name) xs" "list_all (\<lambda>x. name < fst x) ys"
  shows "nbelow name (xs @ ys) = xs" "nabove name (xs @ ys) = ys" "map_of (xs @ ys) name = None"
    "nfrom name (xs @ ys) = ys" "nupto name (xs @ ys) = xs"
    "nbelow name (xs @ (name, e) # ys) = xs" "nabove name (xs @ (name, e) # ys) = ys"
    "map_of (xs @ (name, e) # ys) name = Some e"
    "nfrom name (xs @ (name, e) # ys) = (name, e) # ys" "nupto name (xs @ (name, e) # ys) = xs @ [(name, e)]"
proof -
  have xs: "\<forall>x\<in>set xs. fst x < name" and ys: "\<forall>x\<in>set ys. name < fst x"
    using assms by (simp_all add: list_all_iff)
  have n: "name \<notin> fst ` set xs" "name \<notin> fst ` set ys"
    using xs ys by force+
  have f: "nbelow name xs = xs" "nabove name ys = ys" "nabove name xs = []" "nbelow name ys = []"
    "nupto name xs = xs" "nfrom name ys = ys" "nfrom name xs = []" "nupto name ys = []"
    using xs ys by (auto simp: filter_id_conv filter_empty_conv)
  show "nbelow name (xs @ ys) = xs" "nabove name (xs @ ys) = ys" "map_of (xs @ ys) name = None"
    "nfrom name (xs @ ys) = ys" "nupto name (xs @ ys) = xs"
    "nbelow name (xs @ (name, e) # ys) = xs" "nabove name (xs @ (name, e) # ys) = ys"
    "nfrom name (xs @ (name, e) # ys) = (name, e) # ys" "nupto name (xs @ (name, e) # ys) = xs @ [(name, e)]"
    using f n by (simp_all add: map_of_eq_None_iff)
  have "map_of xs name = None" using n by (simp add: map_of_eq_None_iff)
  then show "map_of (xs @ (name, e) # ys) name = Some e"
    by (simp add: map_add_def)
qed

lemma names_sorted_around:
  "names_sorted (xs @ (n, e) # ys) \<Longrightarrow> list_all (\<lambda>x. fst x < n) xs \<and> list_all (\<lambda>x. n < fst x) ys"
  by (auto simp: sorted_wrt_append list_all_iff)

lemma splayed_cases [consumes 2, case_names found left right]:
  assumes "splayed name s" "names_sorted (state_inorder s)"
  obtains (found) l e r ls rs where "s = (ITE l name e r, ls, rs)"
      "list_all (\<lambda>x. fst x < name) (ltree_inorder ls @ ite_inorder l)"
      "list_all (\<lambda>x. name < fst x) (ite_inorder r @ rtree_inorder rs)"
  | (left) n e r ls rs where "s = (ITE ITE_NULL n e r, ls, rs)" "name < n"
      "list_all (\<lambda>x. fst x < name) (ltree_inorder ls)"
      "list_all (\<lambda>x. name < fst x) ((n, e) # ite_inorder r @ rtree_inorder rs)"
  | (right) n e l ls rs where "s = (ITE l n e ITE_NULL, ls, rs)" "n < name"
      "list_all (\<lambda>x. fst x < name) (ltree_inorder ls @ ite_inorder l @ [(n, e)])"
      "list_all (\<lambda>x. name < fst x) (rtree_inorder rs)"
proof -
  obtain l n e r ls rs where s: "s = (ITE l n e r, ls, rs)"
    using assms(1) by (cases s; cases "fst s") (auto simp: splayed_def at_name_def)
  have ap: "apart name s" and at: "at_name name (ITE l n e r)"
    using assms(1) by (auto simp: splayed_def s)
  have srt: "names_sorted ((ltree_inorder ls @ ite_inorder l) @ (n, e) # ite_inorder r @ rtree_inorder rs)"
    using assms(2) by (simp add: s)
  consider "name = n" | "name < n" "l = ITE_NULL" | "n < name" "r = ITE_NULL"
    using at by (auto simp: at_name_def)
  then show thesis
  proof cases
    case 1
    show thesis
      by (rule found [of l e r ls rs]) (use 1 s names_sorted_around [OF srt] in auto)
  next
    case 2
    show thesis
      by (rule left [of n e r ls rs]) (use 2 s ap names_sorted_above [OF srt 2(1)] in auto)
  next
    case 3
    show thesis
      by (rule right [of l n e ls rs]) (use 3 s ap names_sorted_below [OF srt 3(1)] in auto)
  qed
qed

lemma ist_inorder_assembled [splay_simps]: "ist_inorder (ist_assembled t) = ite_inorder t"
  by (simp add: ist_inorder_def ist_assembled_def ist_state_def)

lemma ist_ok_assembled [splay_simps]: "ist_ok (ist_assembled t) \<longleftrightarrow> names_sorted (ite_inorder t)"
  by (cases t) (auto simp: ist_ok_def ist_inorder_assembled splayed_def at_name_def, auto simp: ist_assembled_def ist_state_def)

lemma inorder_assemble [splay_simps]:
  "fst s \<noteq> ITE_NULL \<Longrightarrow> ite_inorder (ipc_splay_prim_assemble s) = state_inorder s"
  by (cases s; cases "fst s") (auto simp: ipc_splay_prim_assemble_def splay_simps)

lemma assemble_eq_NULL [splay_simps]: "ipc_splay_prim_assemble s = ITE_NULL \<longleftrightarrow> fst s = ITE_NULL"
  by (cases s; cases "fst s") (auto simp: ipc_splay_prim_assemble_def)

lemma ist_inorder_eq_Nil: "ist_ok splay \<Longrightarrow> ist_inorder splay = [] \<longleftrightarrow> ist_root splay = ITE_NULL"
  by (auto simp: ist_ok_def ist_inorder_def ist_state_def)

lemma prim_lookup_splayed:
  assumes "names_sorted (ite_inorder t)" "t \<noteq> ITE_NULL"
  shows "splayed name (ipc_splay_prim_lookup name t)"
    "state_inorder (ipc_splay_prim_lookup name t) = ite_inorder t"
  using splay_loop_splayed [of "(t, [], [])" name] assms by (simp_all add: ipc_splay_prim_lookup_def)

lemma ist_find_splayed:
  assumes "ist_ok splay" "ist_root splay \<noteq> ITE_NULL"
  shows "splayed name (ist_find splay name)" "state_inorder (ist_find splay name) = ist_inorder splay"
  using assms prim_lookup_splayed [of "ipc_splay_prim_assemble (ist_state splay)" name]
  by (auto simp: ist_find_def ist_ok_def ist_inorder_def splay_simps ist_state_def)

lemma ist_ok_splayed:
  assumes "splayed name (t, ls, rs)" "names_sorted (state_inorder (t, ls, rs))"
  shows "ist_ok \<lparr>ist_name = name, ist_root = t, ist_ltree = ls, ist_rtree = rs\<rparr>"
  using assms by (auto simp: ist_ok_def ist_inorder_def ist_state_def splayed_def at_name_def)

text \<open>Case analysis on the outcome of the splay that starts every operation.\<close>

lemma ist_find_cases [consumes 2, case_names found left right]:
  assumes "ist_ok splay" "ist_root splay \<noteq> ITE_NULL"
  obtains (found) l e r ls rs where "ist_find splay name = (ITE l name e r, ls, rs)"
      "nbelow name (ist_inorder splay) = ltree_inorder ls @ ite_inorder l"
      "nabove name (ist_inorder splay) = ite_inorder r @ rtree_inorder rs"
      "nfrom name (ist_inorder splay) = (name, e) # ite_inorder r @ rtree_inorder rs"
      "nupto name (ist_inorder splay) = (ltree_inorder ls @ ite_inorder l) @ [(name, e)]"
      "map_of (ist_inorder splay) name = Some e"
  | (left) n e r ls rs where "ist_find splay name = (ITE ITE_NULL n e r, ls, rs)" "name < n"
      "nbelow name (ist_inorder splay) = ltree_inorder ls"
      "nabove name (ist_inorder splay) = (n, e) # ite_inorder r @ rtree_inorder rs"
      "nfrom name (ist_inorder splay) = (n, e) # ite_inorder r @ rtree_inorder rs"
      "nupto name (ist_inorder splay) = ltree_inorder ls"
      "map_of (ist_inorder splay) name = None"
  | (right) n e l ls rs where "ist_find splay name = (ITE l n e ITE_NULL, ls, rs)" "n < name"
      "nbelow name (ist_inorder splay) = ltree_inorder ls @ ite_inorder l @ [(n, e)]"
      "nabove name (ist_inorder splay) = rtree_inorder rs"
      "nfrom name (ist_inorder splay) = rtree_inorder rs"
      "nupto name (ist_inorder splay) = ltree_inorder ls @ ite_inorder l @ [(n, e)]"
      "map_of (ist_inorder splay) name = None"
proof -
  note f = ist_find_splayed [OF assms, of name]
  have "names_sorted (state_inorder (ist_find splay name))"
    using assms f by (simp add: ist_ok_def)
  with f(1) show thesis
  proof (cases rule: splayed_cases)
    case (found l e r ls rs)
    then have io: "ist_inorder splay = (ltree_inorder ls @ ite_inorder l) @ (name, e) # ite_inorder r @ rtree_inorder rs"
      using f(2) by simp
    show thesis
      by (rule that(1) [OF found(1)]) (simp_all only: io names_sorted_split(6-10) [OF found(2,3)])
  next
    case (left n e r ls rs)
    then have io: "ist_inorder splay = ltree_inorder ls @ (n, e) # ite_inorder r @ rtree_inorder rs"
      using f(2) by simp
    show thesis
      by (rule that(2) [OF left(1,2)]) (simp_all only: io names_sorted_split(1-5) [OF left(3,4)])
  next
    case (right n e l ls rs)
    then have io: "ist_inorder splay = (ltree_inorder ls @ ite_inorder l @ [(n, e)]) @ rtree_inorder rs"
      using f(2) by simp
    show thesis
      by (rule that(3) [OF right(1,2)]) (simp_all only: io names_sorted_split(1-5) [OF right(3,4)])
  qed
qed

lemma ist_ok_sorted: "ist_ok splay \<Longrightarrow> names_sorted (ist_inorder splay)"
  by (simp add: ist_ok_def)

lemma ist_ok_NULL: "ist_ok splay \<Longrightarrow> ist_root splay = ITE_NULL \<Longrightarrow> ist_inorder splay = []"
  by (simp add: ist_ok_def ist_inorder_def ist_state_def)

lemma ipc_splay_tree_lookup_correct:
  assumes "ist_ok splay"
  shows "fst (ipc_splay_tree_lookup splay name) = map_of (ist_inorder splay) name"
    "ist_inorder (snd (ipc_splay_tree_lookup splay name)) = ist_inorder splay"
    "ist_ok (snd (ipc_splay_tree_lookup splay name))"
proof -
  have "fst (ipc_splay_tree_lookup splay name) = map_of (ist_inorder splay) name \<and>
    ist_inorder (snd (ipc_splay_tree_lookup splay name)) = ist_inorder splay \<and>
    ist_ok (snd (ipc_splay_tree_lookup splay name))"
  proof (cases "ist_root splay = ITE_NULL")
    case True
    then show ?thesis
      using assms by (simp add: ist_ok_NULL ipc_splay_tree_lookup_def)
  next
    case False
    obtain t ls rs where f: "ist_find splay name = (t, ls, rs)"
      by (cases "ist_find splay name")
    have "ist_ok \<lparr>ist_name = name, ist_root = t, ist_ltree = ls, ist_rtree = rs\<rparr>"
      using ist_find_splayed [OF assms False, of name] ist_ok_sorted [OF assms]
      by (intro ist_ok_splayed) (simp_all add: f)
    moreover have "(if name \<noteq> ite_name t then None else Some (ite_entry t)) = map_of (ist_inorder splay) name"
      using assms False by (cases rule: ist_find_cases [where name = name]) (auto simp: f)
    moreover have "ist_inorder \<lparr>ist_name = name, ist_root = t, ist_ltree = ls, ist_rtree = rs\<rparr> = ist_inorder splay"
      using ist_find_splayed(2) [OF assms False, of name] by (simp add: f ist_inorder_def ist_state_def)
    ultimately show ?thesis
      using False by (simp add: ipc_splay_tree_lookup_def f)
  qed
  then show "fst (ipc_splay_tree_lookup splay name) = map_of (ist_inorder splay) name"
    "ist_inorder (snd (ipc_splay_tree_lookup splay name)) = ist_inorder splay"
    "ist_ok (snd (ipc_splay_tree_lookup splay name))" by auto
qed

lemma names_sorted_nbelow_nabove:
  "names_sorted xs \<Longrightarrow> names_sorted (nbelow name xs @ nabove name xs)"
  "names_sorted xs \<Longrightarrow> names_sorted (nbelow name xs @ (name, e) # nabove name xs)"
  by (auto simp: sorted_wrt_append sorted_wrt_map sorted_wrt_filter)

lemma ipc_splay_tree_insert_inorder:
  assumes "ist_ok splay" "map_of (ist_inorder splay) name = None"
  shows "ist_inorder (ipc_splay_tree_insert splay name entry) =
     nbelow name (ist_inorder splay) @ (name, entry) # nabove name (ist_inorder splay)"
proof (cases "ist_root splay = ITE_NULL")
  case True
  then show ?thesis
    using assms by (simp add: ist_ok_NULL ipc_splay_tree_insert_def splay_simps)
next
  case False
  from assms(1) False show ?thesis
    by (cases rule: ist_find_cases [where name = name])
      (use False assms(2) in \<open>auto simp: ipc_splay_tree_insert_def splay_simps\<close>)
qed

lemma ist_ok_assembledI:
  "\<exists>t. splay = ist_assembled t \<Longrightarrow> names_sorted (ist_inorder splay) \<Longrightarrow> ist_ok splay"
  by (auto simp: splay_simps)

lemma ipc_splay_tree_insert_ok:
  assumes "ist_ok splay" "map_of (ist_inorder splay) name = None"
  shows "ist_ok (ipc_splay_tree_insert splay name entry)"
proof (rule ist_ok_assembledI)
  show "\<exists>t. ipc_splay_tree_insert splay name entry = ist_assembled t"
    by (auto simp: ipc_splay_tree_insert_def split: prod.splits)
  show "names_sorted (ist_inorder (ipc_splay_tree_insert splay name entry))"
    unfolding ipc_splay_tree_insert_inorder [OF assms]
    by (rule names_sorted_nbelow_nabove(2) [OF ist_ok_sorted [OF assms(1)]])
qed

text \<open>Splaying for an extreme name leaves nothing beyond the root.\<close>

lemma splayed_largest:
  assumes "splayed MACH_PORT_LARGEST s" "names_sorted (state_inorder s)"
  shows "\<exists>l n e. ipc_splay_prim_assemble s = ITE l n e ITE_NULL"
  using assms
proof (cases rule: splayed_cases)
  case (found l e r ls rs)
  then show ?thesis
    by (cases r; cases rs)
      (auto simp: ipc_splay_prim_assemble_def MACH_PORT_LARGEST_def word_order.extremum_strict)
next
  case (left n e r ls rs)
  then show ?thesis by (simp add: MACH_PORT_LARGEST_def word_order.extremum_strict)
next
  case (right n e l ls rs)
  then show ?thesis
    by (cases rs) (auto simp: ipc_splay_prim_assemble_def MACH_PORT_LARGEST_def word_order.extremum_strict)
qed

lemma splayed_smallest:
  assumes "splayed MACH_PORT_SMALLEST s" "names_sorted (state_inorder s)"
  shows "\<exists>n e r. ipc_splay_prim_assemble s = ITE ITE_NULL n e r"
  using assms
proof (cases rule: splayed_cases)
  case (found l e r ls rs)
  then show ?thesis
    by (cases l; cases ls rule: ltree_inorder.cases)
      (auto simp: ipc_splay_prim_assemble_def MACH_PORT_SMALLEST_def)
next
  case (left n e r ls rs)
  then show ?thesis
    by (cases ls rule: ltree_inorder.cases) (auto simp: ipc_splay_prim_assemble_def MACH_PORT_SMALLEST_def)
next
  case (right n e l ls rs)
  then show ?thesis by (simp add: MACH_PORT_SMALLEST_def)
qed

lemma inorder_join_right:
  assumes "names_sorted (ite_inorder root)"
  shows "ite_inorder (ipc_splay_join_right root saved) = ite_inorder root @ ite_inorder saved"
proof (cases "root = ITE_NULL")
  case False
  note l = prim_lookup_splayed [OF assms False, of MACH_PORT_LARGEST]
  obtain ll n e where a: "ipc_splay_prim_assemble (ipc_splay_prim_lookup MACH_PORT_LARGEST root) = ITE ll n e ITE_NULL"
    using splayed_largest l assms by metis
  have "fst (ipc_splay_prim_lookup MACH_PORT_LARGEST root) \<noteq> ITE_NULL"
    using l(1) by (auto simp: splayed_def at_name_def)
  from inorder_assemble [OF this] have "ite_inorder (ITE ll n e ITE_NULL) = ite_inorder root"
    by (simp only: a l(2))
  with False a show ?thesis
    by (auto simp: ipc_splay_join_right_def ite_set_rchild_def)
qed (simp add: ipc_splay_join_right_def)

lemma ipc_splay_tree_delete_inorder:
  assumes "ist_ok splay" "map_of (ist_inorder splay) name \<noteq> None"
  shows "ist_inorder (ipc_splay_tree_delete splay name) =
           nbelow name (ist_inorder splay) @ nabove name (ist_inorder splay)"
proof -
  have ne: "ist_root splay \<noteq> ITE_NULL"
    using assms ist_ok_NULL by fastforce
  note srt = ist_ok_sorted [OF assms(1)]
  from assms(1) ne show ?thesis
  proof (cases rule: ist_find_cases [where name = name])
    case (found l e r ls rs)
    have "names_sorted (ite_inorder (fill_ltree ls l))"
      using srt found(2) names_sorted_nbelow_nabove(1) [OF srt, of name]
      by (simp add: splay_simps sorted_wrt_append)
    then show ?thesis
      by (simp add: ipc_splay_tree_delete_def found splay_simps inorder_join_right)
  qed (use assms(2) in auto)
qed

lemma ipc_splay_tree_delete_ok:
  assumes "ist_ok splay" "map_of (ist_inorder splay) name \<noteq> None"
  shows "ist_ok (ipc_splay_tree_delete splay name)"
proof (rule ist_ok_assembledI)
  show "\<exists>t. ipc_splay_tree_delete splay name = ist_assembled t"
    by (auto simp: ipc_splay_tree_delete_def split: prod.splits)
  show "names_sorted (ist_inorder (ipc_splay_tree_delete splay name))"
    unfolding ipc_splay_tree_delete_inorder [OF assms]
    by (rule names_sorted_nbelow_nabove(1) [OF ist_ok_sorted [OF assms(1)]])
qed

lemma ipc_splay_tree_split_inorder:
  assumes "ist_ok splay"
  shows "ist_inorder (fst (ipc_splay_tree_split splay name)) = nfrom name (ist_inorder splay)"
    "ist_inorder (snd (ipc_splay_tree_split splay name)) = nbelow name (ist_inorder splay)"
proof -
  have "ist_inorder (fst (ipc_splay_tree_split splay name)) = nfrom name (ist_inorder splay) \<and>
    ist_inorder (snd (ipc_splay_tree_split splay name)) = nbelow name (ist_inorder splay)"
  proof (cases "ist_root splay = ITE_NULL")
    case True
    then show ?thesis
      using assms by (simp add: ipc_splay_tree_split_def ist_ok_NULL ipc_splay_tree_init_def splay_simps)
  next
    case False
    from assms False show ?thesis
      by (cases rule: ist_find_cases [where name = name])
        (use False in \<open>auto simp: ipc_splay_tree_split_def ite_set_lchild_def splay_simps, auto simp: ist_inorder_def ist_state_def\<close>)
  qed
  then show "ist_inorder (fst (ipc_splay_tree_split splay name)) = nfrom name (ist_inorder splay)"
    "ist_inorder (snd (ipc_splay_tree_split splay name)) = nbelow name (ist_inorder splay)" by auto
qed

lemma names_sorted_filter: "names_sorted xs \<Longrightarrow> names_sorted (filter P xs)"
  by (auto simp: sorted_wrt_map intro: sorted_wrt_filter)

lemma ipc_splay_tree_split_ok:
  assumes "ist_ok splay"
  shows "ist_ok (fst (ipc_splay_tree_split splay name))" "ist_ok (snd (ipc_splay_tree_split splay name))"
proof -
  note io = ipc_splay_tree_split_inorder [OF assms, of name]
  note srt = names_sorted_filter [OF ist_ok_sorted [OF assms]]
  show "ist_ok (snd (ipc_splay_tree_split splay name))"
  proof (rule ist_ok_assembledI)
    show "\<exists>t. snd (ipc_splay_tree_split splay name) = ist_assembled t"
      by (auto simp: ipc_splay_tree_split_def ipc_splay_tree_init_def split: prod.splits)
  qed (simp only: io srt)
  show "ist_ok (fst (ipc_splay_tree_split splay name))"
  proof (cases "ist_root splay = ITE_NULL")
    case True
    with assms show ?thesis by (simp add: ipc_splay_tree_split_def)
  next
    case False
    obtain t ls rs where f: "ist_find splay name = (t, ls, rs)"
      by (cases "ist_find splay name")
    show ?thesis
    proof (cases "ite_name t < name")
      case True
      have "\<exists>t. fst (ipc_splay_tree_split splay name) = ist_assembled t"
        using True False by (auto simp: ipc_splay_tree_split_def f)
      then show ?thesis
        by (rule ist_ok_assembledI) (simp only: io srt)
    next
      case c: False
      then have eq: "fst (ipc_splay_tree_split splay name) =
          \<lparr>ist_name = name, ist_root = ite_set_lchild t ITE_NULL, ist_ltree = [], ist_rtree = rs\<rparr>"
        using False by (simp add: ipc_splay_tree_split_def f)
      have "splayed name (t, ls, rs)"
        using ist_find_splayed [OF assms False, of name] by (simp add: f)
      then have "splayed name (ite_set_lchild t ITE_NULL, [], rs)"
        using c by (cases t) (auto simp: splayed_def at_name_def ite_set_lchild_def)
      then show ?thesis
        unfolding eq
        using io(1) srt [of "\<lambda>x. name \<le> fst x"]
        by (intro ist_ok_splayed) (simp_all add: eq ist_inorder_def ist_state_def)
    qed
  qed
qed

lemma ipc_splay_tree_join_inorder:
  assumes "ist_ok splay" "ist_ok small"
  shows "ist_inorder (ipc_splay_tree_join splay small) = ist_inorder small @ ist_inorder splay"
proof (cases "ist_root small = ITE_NULL \<or> ist_root splay = ITE_NULL")
  case True
  then show ?thesis
    using assms
    by (auto simp: ipc_splay_tree_join_def splay_simps ist_ok_NULL ist_state_def Let_def)
      (simp_all add: ist_inorder_def ist_state_def)
next
  case False
  then have ne: "ist_root splay \<noteq> ITE_NULL" "ist_root small \<noteq> ITE_NULL" by auto
  note f = ist_find_splayed [OF assms(1) ne(1), of MACH_PORT_SMALLEST]
  obtain n e r where a: "ipc_splay_prim_assemble (ist_find splay MACH_PORT_SMALLEST) = ITE ITE_NULL n e r"
    using splayed_smallest [OF f(1)] f(2) ist_ok_sorted [OF assms(1)] by auto
  have "fst (ist_find splay MACH_PORT_SMALLEST) \<noteq> ITE_NULL"
    using f(1) by (auto simp: splayed_def at_name_def)
  from inorder_assemble [OF this] have "ite_inorder (ITE ITE_NULL n e r) = ist_inorder splay"
    by (simp only: a f(2))
  moreover have "ite_inorder (ipc_splay_prim_assemble (ist_state small)) = ist_inorder small"
    using ne by (simp add: inorder_assemble ist_inorder_def ist_state_def)
  ultimately show ?thesis
    using ne a by (simp add: ipc_splay_tree_join_def splay_simps ite_set_lchild_def ist_state_def)
qed

lemma ipc_splay_tree_join_ok:
  assumes "ist_ok splay" "ist_ok small"
    and "\<And>m n. m \<in> fst ` set (ist_inorder small) \<Longrightarrow> n \<in> fst ` set (ist_inorder splay) \<Longrightarrow> m < n"
  shows "ist_ok (ipc_splay_tree_join splay small)"
proof (cases "ipc_splay_prim_assemble (ist_state small) = ITE_NULL")
  case False
  show ?thesis
  proof (rule ist_ok_assembledI)
    show "\<exists>t. ipc_splay_tree_join splay small = ist_assembled t"
      using False by (auto simp: ipc_splay_tree_join_def Let_def)
    show "names_sorted (ist_inorder (ipc_splay_tree_join splay small))"
      using assms ist_ok_sorted
      by (simp add: ipc_splay_tree_join_inorder sorted_wrt_append ist_ok_sorted)
  qed
qed (simp add: ipc_splay_tree_join_def assms)

text \<open>
  \<open>ipc_splay_tree_bounds\<close> answers with the nearest names on either side, and with the
  extreme values where there is none.
\<close>

lemma ipc_splay_tree_bounds_correct:
  assumes "ist_ok splay"
  shows "fst (ipc_splay_tree_bounds splay name) =
      (if nupto name (ist_inorder splay) = [] then MACH_PORT_LARGEST
       else fst (last (nupto name (ist_inorder splay))),
       if nfrom name (ist_inorder splay) = [] then MACH_PORT_SMALLEST
       else fst (hd (nfrom name (ist_inorder splay))))"
proof (cases "ist_root splay = ITE_NULL")
  case True
  then show ?thesis
    using assms by (simp add: ipc_splay_tree_bounds_def ist_ok_NULL)
next
  case False
  from assms False show ?thesis
  proof (cases rule: ist_find_cases [where name = name])
    case (found l e r ls rs)
    then show ?thesis using False by (simp add: ipc_splay_tree_bounds_def)
  next
    case (left n e r ls rs)
    then show ?thesis
      using False by (cases ls rule: ltree_inorder.cases) (auto simp: ipc_splay_tree_bounds_def)
  next
    case (right n e l ls rs)
    then show ?thesis
      using False by (cases rs rule: rtree_inorder.cases) (auto simp: ipc_splay_tree_bounds_def)
  qed
qed

section \<open>Writing through an entry pointer\<close>

text \<open>
  The callers of the tree keep pointers to its nodes and store into them. \<open>ist_write splay name f\<close>
  is the tree after a store into the entry fields of the node with that name.
\<close>

definition ite_write1 :: "mach_port_t \<Rightarrow> ('e \<Rightarrow> 'e) \<Rightarrow> mach_port_t \<Rightarrow> 'e \<Rightarrow> 'e" where
  "ite_write1 name f n e = (if n = name then f e else e)"

primrec ite_write :: "mach_port_t \<Rightarrow> ('e \<Rightarrow> 'e) \<Rightarrow> 'e ipc_tree_entry \<Rightarrow> 'e ipc_tree_entry" where
  "ite_write name f ITE_NULL = ITE_NULL"
| "ite_write name f (ITE l n e r) = ITE (ite_write name f l) n (ite_write1 name f n e) (ite_write name f r)"

definition ist_write :: "'e ipc_splay_tree \<Rightarrow> mach_port_t \<Rightarrow> ('e \<Rightarrow> 'e) \<Rightarrow> 'e ipc_splay_tree" where
  "ist_write splay name f = splay
     \<lparr>ist_root := ite_write name f (ist_root splay),
      ist_ltree := map (\<lambda>(l, n, e). (ite_write name f l, n, ite_write1 name f n e)) (ist_ltree splay),
      ist_rtree := map (\<lambda>(n, e, r). (n, ite_write1 name f n e, ite_write name f r)) (ist_rtree splay)\<rparr>"

abbreviation names_write :: "mach_port_t \<Rightarrow> ('e \<Rightarrow> 'e) \<Rightarrow> (mach_port_t \<times> 'e) list \<Rightarrow> (mach_port_t \<times> 'e) list" where
  "names_write name f \<equiv> map (\<lambda>(n, e). (n, ite_write1 name f n e))"

lemma ite_write_inorder: "ite_inorder (ite_write name f t) = names_write name f (ite_inorder t)"
  by (induction t) simp_all

lemma ltree_write_inorder:
  "ltree_inorder (map (\<lambda>(l, n, e). (ite_write name f l, n, ite_write1 name f n e)) ls) =
     names_write name f (ltree_inorder ls)"
  by (induction ls rule: ltree_inorder.induct) (simp_all add: ite_write_inorder)

lemma rtree_write_inorder:
  "rtree_inorder (map (\<lambda>(n, e, r). (n, ite_write1 name f n e, ite_write name f r)) rs) =
     names_write name f (rtree_inorder rs)"
  by (induction rs rule: rtree_inorder.induct) (simp_all add: ite_write_inorder)

lemma ist_write_inorder: "ist_inorder (ist_write splay name f) = names_write name f (ist_inorder splay)"
  by (simp add: ist_inorder_def ist_state_def ist_write_def ite_write_inorder ltree_write_inorder rtree_write_inorder)

lemma map_fst_names_write: "map fst (names_write name f xs) = map fst xs"
  by (induction xs) auto

lemma ite_write_eq_NULL [simp]: "ite_write name f t = ITE_NULL \<longleftrightarrow> t = ITE_NULL"
  by (cases t) auto

lemma at_name_write: "at_name m (ite_write name f t) = at_name m t"
  by (cases t) (auto simp: at_name_def)

lemma ist_write_ok: "ist_ok splay \<Longrightarrow> ist_ok (ist_write splay name f)"
  unfolding ist_ok_def ist_write_inorder map_fst_names_write
  by (fastforce simp: ist_write_def splayed_def ist_state_def at_name_write ltree_write_inorder
      rtree_write_inorder list_all_iff)

lemma map_of_names_write:
  "map_of (names_write name f xs) m = map_option (ite_write1 name f m) (map_of xs m)"
  by (induction xs) auto

section \<open>Symmetric order traversal\<close>

text \<open>
  During a traversal the tree is kept in \<open>ist_ltree\<close> (the current entry) and \<open>ist_rtree\<close>
  (its parent), with the child pointer of every ancestor that led to the current entry inverted
  to point to its own parent. A frame is an ancestor: \<open>INV_L\<close> has its left child pointer
  inverted, \<open>INV_R\<close> its right one. The code does not record which: it compares names, and a
  wrong guess would follow a wild pointer (\<open>TRAV_WILD\<close>).
\<close>

datatype 'e traverse_frame =
    INV_L mach_port_t 'e "'e ipc_tree_entry"
  | INV_R "'e ipc_tree_entry" mach_port_t 'e

datatype 'e traverse_state =
    TRAV_ENTRY "'e ipc_tree_entry" "'e traverse_frame list"
  | TRAV_END "'e ipc_tree_entry"
  | TRAV_WILD

fun traverse_left :: "'e ipc_tree_entry \<Rightarrow> 'e traverse_frame list \<Rightarrow> 'e traverse_state" where
  "traverse_left (ITE (ITE ll ln le lr) n e r) parents =
     traverse_left (ITE ll ln le lr) (INV_L n e r # parents)"
| "traverse_left current parents = TRAV_ENTRY current parents"

fun traverse_back :: "'e ipc_tree_entry \<Rightarrow> 'e traverse_frame list \<Rightarrow> 'e traverse_state" where
  "traverse_back current [] = TRAV_END current"
| "traverse_back current (INV_L n e r # parents) =
     (if ite_name current < n then TRAV_ENTRY (ITE current n e r) parents else TRAV_WILD)"
| "traverse_back current (INV_R l n e # parents) =
     (if ite_name current < n then TRAV_WILD else traverse_back (ITE l n e current) parents)"

definition traverse_right :: "'e ipc_tree_entry \<Rightarrow> 'e traverse_frame list \<Rightarrow> 'e traverse_state" where
  "traverse_right current parents =
     (case current of
        ITE l n e (ITE rl rn re rr) \<Rightarrow> traverse_left (ITE rl rn re rr) (INV_R l n e # parents)
      | _ \<Rightarrow> traverse_back current parents)"

text \<open>The deletion of a leaf: like \<open>traverse_back\<close>, leaving a null child behind.\<close>

definition traverse_delete_leaf :: "mach_port_t \<Rightarrow> 'e traverse_frame list \<Rightarrow> 'e traverse_state" where
  "traverse_delete_leaf name parents =
     (case parents of
        [] \<Rightarrow> TRAV_END ITE_NULL
      | INV_L n e r # ps \<Rightarrow>
          if name < n then TRAV_ENTRY (ITE ITE_NULL n e r) ps else TRAV_WILD
      | INV_R l n e # ps \<Rightarrow>
          if name < n then TRAV_WILD else traverse_back (ITE l n e ITE_NULL) ps)"

fun ipc_splay_traverse_next ::
  "'e ipc_tree_entry \<Rightarrow> 'e traverse_frame list \<Rightarrow> bool \<Rightarrow> 'e traverse_state" where
  "ipc_splay_traverse_next ITE_NULL parents delete = TRAV_WILD"
| "ipc_splay_traverse_next (ITE l n e r) parents delete =
     (if \<not> delete then traverse_right (ITE l n e r) parents
      else if l = ITE_NULL then
        (if r = ITE_NULL then traverse_delete_leaf n parents else traverse_left r parents)
      else if r = ITE_NULL then traverse_back l parents
      else traverse_right
             (ite_set_rchild
               (ipc_splay_prim_assemble (ipc_splay_prim_lookup MACH_PORT_LARGEST l)) r) parents)"

definition ipc_splay_traverse_start :: "'e ipc_splay_tree \<Rightarrow> 'e traverse_state" where
  "ipc_splay_traverse_start splay =
     (if ist_root splay = ITE_NULL then TRAV_END ITE_NULL
      else traverse_left (ipc_splay_prim_assemble (ist_state splay)) [])"

definition ipc_splay_traverse_finish :: "'e ipc_tree_entry \<Rightarrow> 'e ipc_splay_tree" where
  "ipc_splay_traverse_finish root = ist_assembled root"

text \<open>The entries still to be visited, and those already passed and kept.\<close>

fun frames_rest :: "'e traverse_frame list \<Rightarrow> (mach_port_t \<times> 'e) list" where
  "frames_rest [] = []"
| "frames_rest (INV_L n e r # ps) = (n, e) # ite_inorder r @ frames_rest ps"
| "frames_rest (INV_R l n e # ps) = frames_rest ps"

fun frames_done :: "'e traverse_frame list \<Rightarrow> (mach_port_t \<times> 'e) list" where
  "frames_done [] = []"
| "frames_done (INV_L n e r # ps) = frames_done ps"
| "frames_done (INV_R l n e # ps) = frames_done ps @ ite_inorder l @ [(n, e)]"

text \<open>
  A traversal state as a zipper of the sequence: what is kept so far, and what is left, the
  current entry first.
\<close>

fun traverse_zip :: "'e traverse_state \<Rightarrow> ((mach_port_t \<times> 'e) list \<times> (mach_port_t \<times> 'e) list) option" where
  "traverse_zip (TRAV_ENTRY (ITE l n e r) ps) =
     Some (frames_done ps @ ite_inorder l, (n, e) # ite_inorder r @ frames_rest ps)"
| "traverse_zip (TRAV_ENTRY ITE_NULL ps) = None"
| "traverse_zip (TRAV_END root) = Some (ite_inorder root, [])"
| "traverse_zip TRAV_WILD = None"

lemma traverse_left_zip:
  "t \<noteq> ITE_NULL \<Longrightarrow> traverse_zip (traverse_left t ps) = Some (frames_done ps, ite_inorder t @ frames_rest ps)"
  by (induction t ps rule: traverse_left.induct) auto

lemma traverse_back_zip:
  assumes "t \<noteq> ITE_NULL" "names_sorted (frames_done ps @ ite_inorder t @ frames_rest ps)"
  shows "traverse_zip (traverse_back t ps) = Some (frames_done ps @ ite_inorder t, frames_rest ps)"
  using assms
proof (induction t ps rule: traverse_back.induct)
  case (2 t n e r ps)
  then show ?case by (cases t) (auto simp: sorted_wrt_append)
next
  case (3 t l n e ps)
  then have "n < ite_name t" by (cases t) (auto simp: sorted_wrt_append)
  with 3 show ?case by auto
qed simp

lemma traverse_right_zip:
  assumes "names_sorted (frames_done ps @ ite_inorder (ITE l n e r) @ frames_rest ps)"
  shows "traverse_zip (traverse_right (ITE l n e r) ps) =
    Some (frames_done ps @ ite_inorder l @ [(n, e)], ite_inorder r @ frames_rest ps)"
  using assms traverse_back_zip [of "ITE l n e r" ps]
  by (cases r) (auto simp: traverse_right_def traverse_left_zip)

lemma traverse_delete_leaf_zip:
  assumes "names_sorted (frames_done ps @ (n, e) # frames_rest ps)"
  shows "traverse_zip (traverse_delete_leaf n ps) = Some (frames_done ps, frames_rest ps)"
proof (cases ps)
  case (Cons p qs)
  then show ?thesis
    using assms
  proof (cases p)
    case (INV_R l m f)
    then show ?thesis
      using Cons assms traverse_back_zip [of "ITE l m f ITE_NULL" qs]
      by (auto simp: traverse_delete_leaf_def sorted_wrt_append)
  qed (auto simp: traverse_delete_leaf_def sorted_wrt_append)
qed (simp add: traverse_delete_leaf_def)

lemma ipc_splay_traverse_next_zip:
  assumes "names_sorted (frames_done ps @ ite_inorder (ITE l n e r) @ frames_rest ps)"
  shows "traverse_zip (ipc_splay_traverse_next (ITE l n e r) ps delete) =
    Some (frames_done ps @ ite_inorder l @ (if delete then [] else [(n, e)]), ite_inorder r @ frames_rest ps)"
proof (cases "delete \<and> l \<noteq> ITE_NULL \<and> r \<noteq> ITE_NULL")
  case True
  let ?t = "ipc_splay_join_right l r"
  have srt: "names_sorted (ite_inorder l)" using assms by (simp add: sorted_wrt_append)
  note l = prim_lookup_splayed [OF srt, of MACH_PORT_LARGEST]
  obtain ll m f where a: "ipc_splay_prim_assemble (ipc_splay_prim_lookup MACH_PORT_LARGEST l) = ITE ll m f ITE_NULL"
    using splayed_largest l srt True by metis
  have t: "?t = ITE ll m f r"
    using True by (simp add: ipc_splay_join_right_def ite_set_rchild_def a)
  then have io: "ite_inorder (ITE ll m f r) = ite_inorder l @ ite_inorder r"
    using inorder_join_right [OF srt, of r] by simp
  have "names_sorted (frames_done ps @ ite_inorder (ITE ll m f r) @ frames_rest ps)"
    using assms unfolding io by (simp add: sorted_wrt_append ball_Un)
  from traverse_right_zip [OF this] show ?thesis
    using True io by (simp add: ite_set_rchild_def a)
next
  case False
  then show ?thesis
    using assms traverse_right_zip [OF assms] traverse_delete_leaf_zip [of ps n e] traverse_back_zip [of l ps]
      traverse_left_zip [of r ps]
    by (auto simp: sorted_wrt_append)
qed

text \<open>
  A whole traversal, as the callers write it: the body of the loop takes the name and the entry,
  changes the caller's state and answers with the \<open>delete\<close> flag of the next step.
\<close>

fun traverse_size :: "'e traverse_state \<Rightarrow> nat" where
  "traverse_size (TRAV_ENTRY (ITE l n e r) ps) = Suc (length (ite_inorder r) + length (frames_rest ps))"
| "traverse_size _ = 0"

lemma traverse_left_size:
  "t \<noteq> ITE_NULL \<Longrightarrow> traverse_size (traverse_left t ps) = length (ite_inorder t) + length (frames_rest ps)"
  by (induction t ps rule: traverse_left.induct) auto

lemma traverse_back_size: "traverse_size (traverse_back t ps) \<le> length (frames_rest ps)"
  by (induction t ps rule: traverse_back.induct) auto

lemma traverse_right_size:
  "traverse_size (traverse_right t ps) \<le> length (ite_inorder (ite_rchild t)) + length (frames_rest ps)
   \<or> t = ITE_NULL \<and> traverse_size (traverse_right t ps) \<le> length (frames_rest ps)"
  using traverse_back_size [of t ps]
  by (auto simp: traverse_right_def traverse_left_size split: ipc_tree_entry.splits)

lemma traverse_next_size:
  "traverse_size (ipc_splay_traverse_next (ITE l n e r) ps delete) < Suc (length (ite_inorder r) + length (frames_rest ps))"
proof -
  have "traverse_size (traverse_delete_leaf n ps) \<le> length (frames_rest ps)"
    using traverse_back_size by (auto simp: traverse_delete_leaf_def le_SucI split: list.splits traverse_frame.splits)
  moreover have "traverse_size (traverse_right (ite_set_rchild t r) ps) \<le> length (ite_inorder r) + length (frames_rest ps)" for t
    using traverse_right_size [of "ite_set_rchild t r" ps] by (auto simp: ite_set_rchild_def split: ipc_tree_entry.splits)
  ultimately show ?thesis
    using traverse_right_size [of "ITE l n e r" ps] traverse_left_size [of r ps] traverse_back_size [of l ps]
    by (auto simp: less_Suc_eq_le intro: le_SucI)
qed

function traverse_loop ::
  "('s \<Rightarrow> mach_port_t \<Rightarrow> 'e \<Rightarrow> bool \<times> 's) \<Rightarrow> 's \<Rightarrow> 'e traverse_state \<Rightarrow> ('s \<times> 'e ipc_splay_tree) option" where
  "traverse_loop f s TRAV_WILD = None"
| "traverse_loop f s (TRAV_END root) = Some (s, ipc_splay_traverse_finish root)"
| "traverse_loop f s (TRAV_ENTRY ITE_NULL ps) = None"
| "traverse_loop f s (TRAV_ENTRY (ITE l n e r) ps) =
     (case f s n e of (delete, s') \<Rightarrow> traverse_loop f s' (ipc_splay_traverse_next (ITE l n e r) ps delete))"
  by pat_completeness auto
termination
  by (relation "measure (\<lambda>(f, s, st). traverse_size st)") (auto simp: traverse_next_size simp del: ipc_splay_traverse_next.simps)

definition ipc_splay_traverse ::
  "('s \<Rightarrow> mach_port_t \<Rightarrow> 'e \<Rightarrow> bool \<times> 's) \<Rightarrow> 's \<Rightarrow> 'e ipc_splay_tree \<Rightarrow> ('s \<times> 'e ipc_splay_tree) option" where
  "ipc_splay_traverse f s splay = traverse_loop f s (ipc_splay_traverse_start splay)"

text \<open>The same on a sequence: the final state of the caller and the entries not deleted.\<close>

primrec visit_all ::
  "('s \<Rightarrow> mach_port_t \<Rightarrow> 'e \<Rightarrow> bool \<times> 's) \<Rightarrow> 's \<Rightarrow> (mach_port_t \<times> 'e) list \<Rightarrow> 's \<times> (mach_port_t \<times> 'e) list" where
  "visit_all f s [] = (s, [])"
| "visit_all f s (x # xs) =
     (case f s (fst x) (snd x) of (delete, s') \<Rightarrow>
        case visit_all f s' xs of (s'', ys) \<Rightarrow> (s'', if delete then ys else x # ys))"

lemma names_sorted_drop: "names_sorted (ys @ x # xs) \<Longrightarrow> names_sorted (ys @ xs)"
  by (simp add: sorted_wrt_append)

lemma names_sorted_visit_all: "names_sorted (ys @ xs) \<Longrightarrow> names_sorted (ys @ snd (visit_all f s xs))"
proof (induction xs arbitrary: s ys)
  case (Cons x xs)
  obtain d s' where f: "f s (fst x) (snd x) = (d, s')" by fastforce
  have "names_sorted ((ys @ [x]) @ snd (visit_all f s' xs))"
    by (rule Cons.IH) (use Cons.prems in simp)
  moreover have "names_sorted (ys @ snd (visit_all f s' xs))"
    by (rule Cons.IH) (use Cons.prems names_sorted_drop in blast)
  ultimately show ?case
    by (cases "visit_all f s' xs") (simp add: f)
qed simp

lemma traverse_loop_correct:
  assumes "traverse_zip st = Some (kept, rest)" "names_sorted (kept @ rest)"
  shows "\<exists>root. traverse_loop f s st = Some (fst (visit_all f s rest), ist_assembled root) \<and>
    ite_inorder root = kept @ snd (visit_all f s rest)"
  using assms
proof (induction rest arbitrary: st s kept)
  case Nil
  then show ?case
    by (cases st rule: traverse_zip.cases) (auto simp: ipc_splay_traverse_finish_def)
next
  case (Cons x rest)
  obtain l n e r ps where st: "st = TRAV_ENTRY (ITE l n e r) ps"
    and z: "kept = frames_done ps @ ite_inorder l" "x = (n, e)" "rest = ite_inorder r @ frames_rest ps"
    using Cons.prems(1) by (cases st rule: traverse_zip.cases) auto
  obtain d s' where f: "f s n e = (d, s')" by fastforce
  have zip: "traverse_zip (ipc_splay_traverse_next (ITE l n e r) ps d) =
      Some (kept @ (if d then [] else [x]), rest)"
    using ipc_splay_traverse_next_zip [of ps l n e r d] Cons.prems(2) by (simp add: z del: ipc_splay_traverse_next.simps)
  have "names_sorted ((kept @ (if d then [] else [x])) @ rest)"
    using Cons.prems(2) names_sorted_drop [of kept x rest] by simp
  from Cons.IH [OF zip this, of s'] show ?case
    by (auto simp: st f z(2) simp del: ipc_splay_traverse_next.simps split: prod.splits)
qed

lemma ipc_splay_traverse_start_zip:
  "ist_ok splay \<Longrightarrow> traverse_zip (ipc_splay_traverse_start splay) = Some ([], ist_inorder splay)"
  by (auto simp: ipc_splay_traverse_start_def traverse_left_zip ist_ok_NULL splay_simps)
   (auto simp: ist_state_def ist_inorder_def traverse_left_zip inorder_assemble assemble_eq_NULL)

lemma ipc_splay_traverse_correct:
  assumes "ist_ok splay"
  shows "\<exists>splay'. ipc_splay_traverse f s splay = Some (fst (visit_all f s (ist_inorder splay)), splay') \<and>
    ist_ok splay' \<and> ist_inorder splay' = snd (visit_all f s (ist_inorder splay))"
  using traverse_loop_correct [OF ipc_splay_traverse_start_zip [OF assms], of f s]
    ist_ok_sorted [OF assms] names_sorted_visit_all [of "[]" "ist_inorder splay" f s]
  by (auto simp: ipc_splay_traverse_def splay_simps)

section \<open>The interface of a name tree\<close>

text \<open>
  What the space code relies on: an ordered sequence of names without duplicates, looked up,
  extended and cut by name.
\<close>

lemma map_of_nbelow_nabove:
  "map_of (nbelow name xs @ nabove name xs) = (map_of xs)(name := None)"
  "map_of (nbelow name xs @ (name, e) # nabove name xs) = (map_of xs)(name \<mapsto> e)"
proof -
  have "map_of (nbelow name xs) m = (if m < name then map_of xs m else None)"
    "map_of (nabove name xs) m = (if name < m then map_of xs m else None)" for m
    by (induction xs) auto
  then show "map_of (nbelow name xs @ nabove name xs) = (map_of xs)(name := None)"
    "map_of (nbelow name xs @ (name, e) # nabove name xs) = (map_of xs)(name \<mapsto> e)"
    by (auto simp: fun_eq_iff map_add_def split: option.splits)
qed

lemma names_sorted_eq:
  "names_sorted xs \<Longrightarrow>
     nbelow name xs @ (case map_of xs name of None \<Rightarrow> [] | Some e \<Rightarrow> [(name, e)]) @ nabove name xs = xs"
proof (induction xs)
  case (Cons x xs)
  then have le: "\<forall>y\<in>set xs. fst x < fst y" by auto
  show ?case
  proof (cases "fst x < name")
    case True
    with Cons show ?thesis by (cases x) auto
  next
    case False
    then have "\<forall>y\<in>set xs. name < fst y"
      using le by auto
    then have "nbelow name xs = []" "nabove name xs = xs" "map_of xs name = None"
      by (auto simp: filter_empty_conv filter_id_conv map_of_eq_None_iff)
    with False show ?thesis by (cases x) auto
  qed
qed simp

locale name_tree =
  fixes ok :: "'t \<Rightarrow> bool"
    and seq :: "'t \<Rightarrow> (mach_port_t \<times> 'e) list"
    and lookup :: "'t \<Rightarrow> mach_port_t \<Rightarrow> 'e option \<times> 't"
    and insert :: "'t \<Rightarrow> mach_port_t \<Rightarrow> 'e \<Rightarrow> 't"
    and delete :: "'t \<Rightarrow> mach_port_t \<Rightarrow> 't"
  assumes sorted: "ok t \<Longrightarrow> names_sorted (seq t)"
    and lookup_value: "ok t \<Longrightarrow> fst (lookup t n) = map_of (seq t) n"
    and lookup_seq: "ok t \<Longrightarrow> seq (snd (lookup t n)) = seq t"
    and lookup_ok: "ok t \<Longrightarrow> ok (snd (lookup t n))"
    and insert_seq: "ok t \<Longrightarrow> map_of (seq t) n = None \<Longrightarrow>
      seq (insert t n e) = nbelow n (seq t) @ (n, e) # nabove n (seq t)"
    and insert_ok: "ok t \<Longrightarrow> map_of (seq t) n = None \<Longrightarrow> ok (insert t n e)"
    and delete_seq: "ok t \<Longrightarrow> map_of (seq t) n \<noteq> None \<Longrightarrow>
      seq (delete t n) = nbelow n (seq t) @ nabove n (seq t)"
    and delete_ok: "ok t \<Longrightarrow> map_of (seq t) n \<noteq> None \<Longrightarrow> ok (delete t n)"
begin

lemma insert_map:
  "ok t \<Longrightarrow> map_of (seq t) n = None \<Longrightarrow> map_of (seq (insert t n e)) = (map_of (seq t))(n \<mapsto> e)"
  by (simp only: insert_seq map_of_nbelow_nabove)

lemma delete_map:
  "ok t \<Longrightarrow> map_of (seq t) n \<noteq> None \<Longrightarrow> map_of (seq (delete t n)) = (map_of (seq t))(n := None)"
  by (subst delete_seq, assumption, assumption, rule map_of_nbelow_nabove(1))

lemma insert_length:
  assumes "ok t" "map_of (seq t) n = None"
  shows "length (seq (insert t n e)) = Suc (length (seq t))"
  using arg_cong [OF names_sorted_eq [OF sorted [OF assms(1)], of n], of length] assms
  by (simp add: insert_seq)

lemma delete_length:
  assumes "ok t" "map_of (seq t) n \<noteq> None"
  shows "Suc (length (seq (delete t n))) = length (seq t)"
  using arg_cong [OF names_sorted_eq [OF sorted [OF assms(1)], of n], of length] assms
  by (auto simp: delete_seq)

lemma lookup_after_insert:
  "ok t \<Longrightarrow> map_of (seq t) n = None \<Longrightarrow>
     fst (lookup (insert t n e) m) = (if m = n then Some e else fst (lookup t m))"
  by (simp add: lookup_value insert_ok insert_map)

lemma lookup_after_delete:
  "ok t \<Longrightarrow> map_of (seq t) n \<noteq> None \<Longrightarrow>
     fst (lookup (delete t n) m) = (if m = n then None else fst (lookup t m))"
  by (simp add: lookup_value delete_ok delete_map)

lemma delete_insert_seq:
  assumes "ok t" "map_of (seq t) n = None"
  shows "seq (delete (insert t n e) n) = seq t"
proof -
  have "map_of (seq (insert t n e)) n \<noteq> None" using assms by (simp add: insert_map)
  then have "seq (delete (insert t n e) n) = nbelow n (seq t) @ nabove n (seq t)"
    using assms by (auto simp: delete_seq insert_ok insert_seq filter_empty_conv)
  then show ?thesis
    using names_sorted_eq [OF sorted [OF assms(1)], of n] assms(2) by simp
qed

end

interpretation st: name_tree ist_ok ist_inorder ipc_splay_tree_lookup ipc_splay_tree_insert ipc_splay_tree_delete
  by unfold_locales
    (rule ist_ok_sorted ipc_splay_tree_lookup_correct ipc_splay_tree_insert_inorder ipc_splay_tree_insert_ok
      ipc_splay_tree_delete_inorder ipc_splay_tree_delete_ok; assumption)+

lemma names_sorted_halves: "names_sorted xs \<Longrightarrow> nbelow name xs @ nfrom name xs = xs"
proof (induction xs)
  case (Cons x xs)
  show ?case
  proof (cases "fst x < name")
    case False
    then have "\<forall>y\<in>set xs. name < fst y"
      using Cons.prems by auto
    then have "nbelow name xs = []" "nfrom name xs = xs"
      by (auto simp: filter_empty_conv filter_id_conv)
    with False show ?thesis by simp
  qed (use Cons in auto)
qed simp

lemma ist_write_map:
  "map_of (ist_inorder (ist_write splay name f)) =
     (\<lambda>m. if m = name then map_option f (map_of (ist_inorder splay) m) else map_of (ist_inorder splay) m)"
  unfolding fun_eq_iff ist_write_inorder map_of_names_write
  by (auto simp: ite_write1_def [abs_def] option.map_ident)

lemma ist_write_length: "length (ist_inorder (ist_write splay name f)) = length (ist_inorder splay)"
  by (simp add: ist_write_inorder)

lemma ipc_splay_tree_init_ok: "ist_ok ipc_splay_tree_init" "ist_inorder ipc_splay_tree_init = []"
  by (simp_all add: ipc_splay_tree_init_def splay_simps)

lemma ipc_splay_tree_pick_None: "ist_ok t \<Longrightarrow> ipc_splay_tree_pick t = None \<longleftrightarrow> ist_inorder t = []"
  by (auto simp: ipc_splay_tree_pick_def ist_inorder_eq_Nil split: ipc_tree_entry.splits)

lemma ipc_splay_tree_pick_Some:
  "ist_ok t \<Longrightarrow> ipc_splay_tree_pick t = Some (n, e) \<Longrightarrow> map_of (ist_inorder t) n = Some e"
  using ist_ok_sorted [of t]
  by (intro map_of_is_SomeI)
    (auto simp: ipc_splay_tree_pick_def ist_inorder_def ist_state_def strict_sorted_iff simp del: map_append
      split: ipc_tree_entry.splits)

text \<open>
  A history of operations and the map it should give; the map version is undefined where the
  code asserts that a name is absent (insert) or present (delete).
\<close>

datatype 'e tree_op = OP_LOOKUP mach_port_t | OP_INSERT mach_port_t 'e | OP_DELETE mach_port_t

primrec tree_run :: "'e tree_op list \<Rightarrow> 'e ipc_splay_tree \<Rightarrow> 'e option list \<times> 'e ipc_splay_tree" where
  "tree_run [] t = ([], t)"
| "tree_run (p # ps) t =
     (case p of
        OP_LOOKUP n \<Rightarrow> (case ipc_splay_tree_lookup t n of (x, t') \<Rightarrow> apfst (Cons x) (tree_run ps t'))
      | OP_INSERT n e \<Rightarrow> tree_run ps (ipc_splay_tree_insert t n e)
      | OP_DELETE n \<Rightarrow> tree_run ps (ipc_splay_tree_delete t n))"

primrec map_run :: "'e tree_op list \<Rightarrow> (mach_port_t \<rightharpoonup> 'e) \<Rightarrow> ('e option list \<times> (mach_port_t \<rightharpoonup> 'e)) option" where
  "map_run [] m = Some ([], m)"
| "map_run (p # ps) m =
     (case p of
        OP_LOOKUP n \<Rightarrow> map_option (apfst (Cons (m n))) (map_run ps m)
      | OP_INSERT n e \<Rightarrow> if m n = None then map_run ps (m(n \<mapsto> e)) else None
      | OP_DELETE n \<Rightarrow> if m n \<noteq> None then map_run ps (m(n := None)) else None)"

lemma tree_run_map_run:
  assumes "ist_ok t" "map_run ps (map_of (ist_inorder t)) = Some (xs, m)"
  shows "ist_ok (snd (tree_run ps t)) \<and> fst (tree_run ps t) = xs \<and> map_of (ist_inorder (snd (tree_run ps t))) = m"
  using assms
proof (induction ps arbitrary: t xs)
  case (Cons p ps)
  show ?case
  proof (cases p)
    case (OP_LOOKUP n)
    obtain x t' where l: "ipc_splay_tree_lookup t n = (x, t')" by fastforce
    with st.lookup_value [OF Cons.prems(1), of n] st.lookup_seq [OF Cons.prems(1), of n]
      st.lookup_ok [OF Cons.prems(1), of n] Cons.IH [of t'] Cons.prems(2)
    show ?thesis by (auto simp: OP_LOOKUP)
  next
    case (OP_INSERT n e)
    then have n: "map_of (ist_inorder t) n = None" and r: "map_run ps ((map_of (ist_inorder t))(n \<mapsto> e)) = Some (xs, m)"
      using Cons.prems(2) by (auto split: if_splits)
    show ?thesis
      using Cons.IH [OF st.insert_ok [OF Cons.prems(1) n] r [folded st.insert_map [OF Cons.prems(1) n]]]
      by (simp add: OP_INSERT)
  next
    case (OP_DELETE n)
    then have n: "map_of (ist_inorder t) n \<noteq> None" and r: "map_run ps ((map_of (ist_inorder t))(n := None)) = Some (xs, m)"
      using Cons.prems(2) by (auto split: if_splits)
    show ?thesis
      using Cons.IH [OF st.delete_ok [OF Cons.prems(1) n] r [folded st.delete_map [OF Cons.prems(1) n]]]
      by (simp add: OP_DELETE)
  qed
qed simp

text \<open>
  C2: Any history of insertions, deletions and look-ups that respects the assertions of
  \<^verbatim>\<open>ipc_splay.c\<close> (insert an absent name, delete a present one), run on an empty splay
  tree, gives the answers a finite map gives and leaves a well-formed tree that represents that map.
\<close>

theorem splay_tree_refines_map:
  assumes "map_run ps Map.empty = Some (xs, m)"
  shows "fst (tree_run ps ipc_splay_tree_init) = xs \<and>
    map_of (ist_inorder (snd (tree_run ps ipc_splay_tree_init))) = m \<and>
    ist_ok (snd (tree_run ps ipc_splay_tree_init))"
  using tree_run_map_run [of ipc_splay_tree_init ps xs m] assms by (simp add: ipc_splay_tree_init_ok)

theorem splay_tree_refines_map_witness:
  "fst (tree_run [OP_INSERT 5 True, OP_INSERT 3 False, OP_LOOKUP 5, OP_DELETE 3, OP_LOOKUP 3] ipc_splay_tree_init)
     = [Some True, None]"
  using splay_tree_refines_map [of "[OP_INSERT 5 True, OP_INSERT 3 False, OP_LOOKUP 5, OP_DELETE 3, OP_LOOKUP 3]"
      "[Some True, None]" "[5 \<mapsto> True]"]
  by (simp add: fun_upd_twist)

text \<open>
  C31: A traversal of a well-formed tree never follows a wild pointer and ends: it visits the
  entries once each in the order of their names, threading the caller's state, and leaves a
  well-formed tree with exactly the entries whose visit did not ask for deletion.
\<close>

theorem splay_traverse_visits_all:
  assumes "ist_ok splay"
  shows "\<exists>splay'. ipc_splay_traverse f s splay = Some (fst (visit_all f s (ist_inorder splay)), splay') \<and>
    ist_ok splay' \<and> ist_inorder splay' = snd (visit_all f s (ist_inorder splay))"
  by (rule ipc_splay_traverse_correct [OF assms])

theorem splay_traverse_visits_all_witness:
  "\<exists>splay'. ipc_splay_traverse (\<lambda>s n e. (e, s + n)) (0 :: mach_port_t)
       (ist_assembled (ITE (ITE ITE_NULL 2 True ITE_NULL) 7 False ITE_NULL)) = Some (9, splay') \<and>
     ist_ok splay' \<and> ist_inorder splay' = [(7, False)]"
  using splay_traverse_visits_all [of "ist_assembled (ITE (ITE ITE_NULL 2 True ITE_NULL) 7 False ITE_NULL)"
      "\<lambda>s n e. (e, s + n)" "0 :: mach_port_t"]
  by (simp add: splay_simps)

text \<open>
  \<^verbatim>\<open>ipc_splay_tree_split\<close> cuts the tree at a name into the names from it on and the
  names below it, and \<^verbatim>\<open>ipc_splay_tree_join\<close> puts the two back together: both halves and
  the joined tree are well formed and the joined tree represents the original sequence.
\<close>

theorem splay_split_join:
  assumes "ist_ok splay" "ipc_splay_tree_split splay name = (rest, small)"
  shows "ist_ok rest \<and> ist_ok small \<and>
    ist_inorder rest = nfrom name (ist_inorder splay) \<and> ist_inorder small = nbelow name (ist_inorder splay) \<and>
    ist_ok (ipc_splay_tree_join rest small) \<and> ist_inorder (ipc_splay_tree_join rest small) = ist_inorder splay"
proof -
  note s = ipc_splay_tree_split_inorder [OF assms(1), of name] ipc_splay_tree_split_ok [OF assms(1), of name]
  have "ist_ok (ipc_splay_tree_join rest small)"
    using s assms(2) by (intro ipc_splay_tree_join_ok) auto
  then show ?thesis
    using s assms(2) names_sorted_halves [OF ist_ok_sorted [OF assms(1)]] by (simp add: ipc_splay_tree_join_inorder)
qed

theorem splay_split_join_witness:
  "ist_inorder (ipc_splay_tree_join
     (fst (ipc_splay_tree_split (ist_assembled (ITE (ITE ITE_NULL 2 True ITE_NULL) 7 False ITE_NULL)) 5))
     (snd (ipc_splay_tree_split (ist_assembled (ITE (ITE ITE_NULL 2 True ITE_NULL) 7 False ITE_NULL)) 5)))
   = [(2, True), (7, False)]"
  using splay_split_join [of "ist_assembled (ITE (ITE ITE_NULL 2 True ITE_NULL) 7 False ITE_NULL)" 5
      "fst (ipc_splay_tree_split (ist_assembled (ITE (ITE ITE_NULL 2 True ITE_NULL) 7 False ITE_NULL)) 5)"
      "snd (ipc_splay_tree_split (ist_assembled (ITE (ITE ITE_NULL 2 True ITE_NULL) 7 False ITE_NULL)) 5)"]
  by (simp add: splay_simps)

text \<open>
  \<^verbatim>\<open>ipc_splay_tree_bounds\<close> returns the greatest name at or below the given one and
  the least name at or above it, and the extreme values \<^verbatim>\<open>~0\<close> and \<^verbatim>\<open>0\<close> where there is none.
\<close>

theorem splay_bounds_nearest:
  assumes "ist_ok splay" "ipc_splay_tree_bounds splay name = ((lower, upper), splay')"
  shows "lower = (if nupto name (ist_inorder splay) = [] then MACH_PORT_LARGEST
       else fst (last (nupto name (ist_inorder splay)))) \<and>
    upper = (if nfrom name (ist_inorder splay) = [] then MACH_PORT_SMALLEST
       else fst (hd (nfrom name (ist_inorder splay))))"
  using ipc_splay_tree_bounds_correct [OF assms(1), of name] assms(2) by auto

theorem splay_bounds_nearest_witness:
  "fst (fst (ipc_splay_tree_bounds (ist_assembled (ITE (ITE ITE_NULL 2 True ITE_NULL) 7 False ITE_NULL)) 5)) = 2"
  using splay_bounds_nearest [of "ist_assembled (ITE (ITE ITE_NULL 2 True ITE_NULL) 7 False ITE_NULL)" 5
      "fst (fst (ipc_splay_tree_bounds (ist_assembled (ITE (ITE ITE_NULL 2 True ITE_NULL) 7 False ITE_NULL)) 5))"
      "snd (fst (ipc_splay_tree_bounds (ist_assembled (ITE (ITE ITE_NULL 2 True ITE_NULL) 7 False ITE_NULL)) 5))"
      "snd (ipc_splay_tree_bounds (ist_assembled (ITE (ITE ITE_NULL 2 True ITE_NULL) 7 False ITE_NULL)) 5)"]
  by (simp add: splay_simps)

end
