(* ===== verification/IPC_Table.thy ===== *)
theory IPC_Table
  imports Port_Names
begin

text \<open>
  The sizes a capability table goes through as it grows (\<^verbatim>\<open>ipc/ipc_table.c\<close>). The page size
  and the element sizes are parameters: they are fixed by the machine and the compiler. Sizes are
  natural numbers; \<open>ipc_table_init_contract\<close> bounds them far below the 32-bit range.
\<close>

section \<open>Filling the arrays\<close>

definition ipc_table_entries_size :: nat where "ipc_table_entries_size = 512"
definition ipc_table_dnrequests_size :: nat where "ipc_table_dnrequests_size = 64"

text \<open>
  The first loop: powers of two (\<open>size\<close> is \<open>2 ^ k\<close>) below the page size. The value is the part of
  the array filled so far and the exponent of \<open>size\<close> at the exit.
\<close>

function fill_powers :: "nat \<Rightarrow> nat \<Rightarrow> nat \<Rightarrow> nat \<Rightarrow> nat list \<Rightarrow> nat \<Rightarrow> nat list \<times> nat" where
  "fill_powers page num minsize elemsize its k =
     (if length its < num \<and> 2 ^ k < page
      then fill_powers page num minsize elemsize
             (if 2 ^ k \<ge> minsize then its @ [2 ^ k div elemsize] else its) (Suc k)
      else (its, 2 ^ k))"
  by pat_completeness auto
termination
  by (relation "measure (\<lambda>(page, num, minsize, elemsize, its, k). page - 2 ^ k)") (auto intro!: diff_less_mono2)

text \<open>
  The two nested loops that follow, with the program point given by \<open>period\<close>. They would spin for
  ever when \<open>incrsize\<close> is zero and \<open>size\<close> too small: that is the value \<open>None\<close>.
\<close>

function fill_pages :: "nat \<Rightarrow> nat \<Rightarrow> nat \<Rightarrow> nat \<Rightarrow> nat list \<Rightarrow> nat \<Rightarrow> nat \<Rightarrow> nat \<Rightarrow> nat list option" where
  "fill_pages page num minsize elemsize its sz incrsize period =
     (if length its < num then
        if period < 15 then
          if sz \<ge> minsize
          then fill_pages page num minsize elemsize (its @ [sz div elemsize]) (sz + incrsize) incrsize (period + 1)
          else if incrsize = 0 then None
          else fill_pages page num minsize elemsize its (sz + incrsize) incrsize (period + 1)
        else fill_pages page num minsize elemsize its sz
               (if incrsize < page * 2 ^ 3 then incrsize * 2 else incrsize) 0
      else Some its)"
  by pat_completeness auto
termination
  by (relation "measures [\<lambda>(page, num, minsize, elemsize, its, sz, incrsize, period).
      (num - length its) + (minsize - sz),
      \<lambda>(page, num, minsize, elemsize, its, sz, incrsize, period). if period < 15 then 0 else 1]") auto

declare fill_powers.simps [simp del] fill_pages.simps [simp del]

definition ipc_table_fill :: "nat \<Rightarrow> nat \<Rightarrow> nat \<Rightarrow> nat \<Rightarrow> nat list option" where
  "ipc_table_fill page num min_elems elemsize =
     (case fill_powers page num (min_elems * elemsize) elemsize [] 0 of
        (its, sz) \<Rightarrow> fill_pages page num (min_elems * elemsize) elemsize its sz page 0)"

text \<open>\<open>ipc_table_init\<close> fills the two arrays and sets their last elements.\<close>

definition ipc_table_init :: "nat \<Rightarrow> nat \<Rightarrow> nat \<Rightarrow> (nat list \<times> nat list) option" where
  "ipc_table_init page sizeof_entry sizeof_request =
     (case ipc_table_fill page (ipc_table_entries_size - 1) 4 sizeof_entry of
        None \<Rightarrow> None
      | Some entries \<Rightarrow>
         (case ipc_table_fill page (ipc_table_dnrequests_size - 1) 2 sizeof_request of
            None \<Rightarrow> None
          | Some dnrequests \<Rightarrow>
              Some (entries @ [entries ! (ipc_table_entries_size - 2)], dnrequests @ [0])))"

definition ipc_table_alloc :: "nat \<Rightarrow> (nat \<Rightarrow> 'a option) \<Rightarrow> (nat \<Rightarrow> 'a option) \<Rightarrow> nat \<Rightarrow> 'a option" where
  "ipc_table_alloc page kalloc kmem_alloc sz = (if sz < page then kalloc sz else kmem_alloc sz)"

section \<open>Sizes are strictly increasing\<close>

text \<open>
  \<open>grows\<close>: the loop invariant. The sizes so far are increasing, at least \<open>min_elems\<close>, below the
  next one, and bounded.
\<close>

definition grows :: "nat \<Rightarrow> nat \<Rightarrow> nat \<Rightarrow> nat list \<Rightarrow> nat \<Rightarrow> bool" where
  "grows m e b its sz \<longleftrightarrow>
     sorted_wrt (<) its \<and> (\<forall>x\<in>set its. m \<le> x \<and> x < sz div e \<and> x \<le> b)"

lemma grows_append:
  assumes "grows m e b its sz" "m * e \<le> sz" "0 < e" "sz + e \<le> sz'" "sz div e \<le> b"
  shows "grows m e b (its @ [sz div e]) sz'"
proof -
  have "sz div e < sz' div e"
    using assms(3,4) div_le_mono [of "sz + e" sz' e] div_add_self2 [of e sz] by linarith
  moreover have "m \<le> sz div e"
    using assms(2,3) by (simp add: less_eq_div_iff_mult_less_eq)
  ultimately show ?thesis
    using assms(1,5) by (auto simp: grows_def sorted_wrt_append)
qed

lemma grows_mono: "grows m e b its sz \<Longrightarrow> sz \<le> sz' \<Longrightarrow> grows m e b its sz'"
  using div_le_mono [of sz sz' e] by (fastforce simp: grows_def)

lemma fill_powers_grows:
  assumes "grows m e b its (2 ^ k)" "0 < e" "0 < m" "page div e \<le> b" "length its \<le> num"
  shows "case fill_powers page num (m * e) e its k of (its', sz) \<Rightarrow>
     grows m e b its' sz \<and> length its' \<le> num \<and> (sz < 2 * page \<or> sz = 2 ^ k)"
  using assms
proof (induction page num "m * e" e its k rule: fill_powers.induct)
  case (1 page num e its k)
  show ?case
  proof (cases "length its < num \<and> 2 ^ k < page")
    case True
    let ?its = "if 2 ^ k \<ge> m * e then its @ [2 ^ k div e] else its"
    have "grows m e b ?its (2 ^ Suc k)"
    proof (cases "2 ^ k \<ge> m * e")
      case c: True
      have "e \<le> 2 ^ k" using c \<open>0 < m\<close> by (metis le_trans mult_le_mono1 nat_mult_1 Suc_leI One_nat_def)
      moreover have "2 ^ k div e \<le> b" using True \<open>page div e \<le> b\<close> div_le_mono [of "2 ^ k" page e] by simp
      ultimately show ?thesis
        using c 1 by (auto intro!: grows_append)
    next
      case False
      then show ?thesis using grows_mono [OF 1(2)] by auto
    qed
    moreover have "length ?its \<le> num" using True by simp
    ultimately have "case fill_powers page num (m * e) e ?its (Suc k) of (its', sz) \<Rightarrow>
       grows m e b its' sz \<and> length its' \<le> num \<and> (sz < 2 * page \<or> sz = 2 ^ Suc k)"
      using 1(1) [OF True] 1(3-5) by simp
    with True show ?thesis
      by (subst fill_powers.simps) auto
  next
    case False
    with 1 show ?thesis by (subst fill_powers.simps) auto
  qed
qed

lemma fill_pages_grows:
  assumes "grows m e b its sz" "0 < e" "e \<le> incrsize" "incrsize \<le> 16 * page" "length its \<le> num"
    and "sz \<le> m * e + 16 * page * (length its + 1)" "(m * e + 16 * page * num) div e \<le> b"
  shows "\<exists>its'. fill_pages page num (m * e) e its sz incrsize period = Some its' \<and>
    length its' = num \<and> sorted_wrt (<) its' \<and> (\<forall>x\<in>set its'. m \<le> x \<and> x \<le> b)"
  using assms
proof (induction page num "m * e" e its sz incrsize period rule: fill_pages.induct)
  case (1 page num e its sz incrsize period)
  note IH = 1(1-3) and prems = 1(4-10)
  consider "length its = num" | "length its < num" "period < 15" "m * e \<le> sz"
    | "length its < num" "period < 15" "\<not> m * e \<le> sz" | "length its < num" "\<not> period < 15"
    using prems(5) by linarith
  then show ?case
  proof cases
    case 1
    then show ?thesis using prems by (subst fill_pages.simps) (auto simp: grows_def)
  next
    case 2
    have "16 * page * (length its + 1) \<le> 16 * page * num"
      using 2(1) by (intro mult_le_mono2) simp
    then have "sz div e \<le> b"
      using prems(6,7) div_le_mono [of sz "m * e + 16 * page * num" e] by linarith
    then have "grows m e b (its @ [sz div e]) (sz + incrsize)"
      using prems 2 by (intro grows_append) auto
    moreover have "sz + incrsize \<le> m * e + 16 * page * (length (its @ [sz div e]) + 1)"
      using prems(4,6) by (simp add: algebra_simps)
    ultimately show ?thesis
      using IH(1) [OF 2] prems 2 by (subst fill_pages.simps) simp
  next
    case 3
    have "sz + incrsize \<le> m * e + 16 * page * (length its + 1)"
      using prems(4) 3 by (simp add: algebra_simps)
    then show ?thesis
      using IH(2) [OF 3] prems 3 grows_mono [OF prems(1), of "sz + incrsize"] by (subst fill_pages.simps) simp
  next
    case 4
    have "e \<le> (if incrsize < page * 2 ^ 3 then incrsize * 2 else incrsize)"
      "(if incrsize < page * 2 ^ 3 then incrsize * 2 else incrsize) \<le> 16 * page"
      using prems(3,4) by auto
    then show ?thesis
      using IH(3) [OF 4] prems 4 by (subst fill_pages.simps) (simp del: power_Suc)
  qed
qed

lemma ipc_table_fill_correct:
  assumes "0 < e" "e \<le> page" "0 < m" "1 < page"
  shows "\<exists>its. ipc_table_fill page num m e = Some its \<and> length its = num \<and> sorted_wrt (<) its \<and>
    (\<forall>x\<in>set its. m \<le> x \<and> x \<le> m + 16 * page * Suc num div e)"
proof -
  let ?b = "m + 16 * page * Suc num div e"
  have "page div e \<le> ?b"
    by (rule le_trans [OF div_le_mono [of page "16 * page * Suc num"]]) simp_all
  moreover have "grows m e ?b [] (2 ^ 0)" by (simp add: grows_def)
  ultimately obtain its sz where f: "fill_powers page num (m * e) e [] 0 = (its, sz)"
    and g: "grows m e ?b its sz" "length its \<le> num" "sz < 2 * page \<or> sz = 1"
    using fill_powers_grows [of m e ?b "[]" 0 page num] assms by (fastforce split: prod.splits)
  have "(m * e + 16 * page * num) div e = m + 16 * page * num div e"
    using assms(1) by simp
  then have "(m * e + 16 * page * num) div e \<le> ?b"
    using div_le_mono [of "16 * page * num" "16 * page * Suc num" e] by simp
  moreover have "sz \<le> m * e + 16 * page * (length its + 1)"
    using g(3) assms(4) by (auto simp: algebra_simps)
  ultimately show ?thesis
    using fill_pages_grows [OF g(1), of page page num 0] assms g f by (auto simp: ipc_table_fill_def)
qed

text \<open>
  The contract stated in \<^verbatim>\<open>ipc_table.h\<close>: the entry sizes are strictly increasing up to a
  last element that repeats the one before it, and none exceeds the index of the dead name.
\<close>

definition its_entries_ok :: "nat list \<Rightarrow> bool" where
  "its_entries_ok its \<longleftrightarrow>
     2 \<le> length its \<and> sorted_wrt (<) (butlast its) \<and> last its = last (butlast its) \<and>
     list_all (\<lambda>x. 4 \<le> x \<and> x \<le> unat (MACH_PORT_INDEX MACH_PORT_DEAD)) its"

definition its_dnrequests_ok :: "nat list \<Rightarrow> bool" where
  "its_dnrequests_ok its \<longleftrightarrow>
     2 \<le> length its \<and> sorted_wrt (<) (butlast its) \<and> last its = 0 \<and> list_all (\<lambda>x. 2 \<le> x) (butlast its)"

lemma unat_MACH_PORT_INDEX_DEAD: "unat (MACH_PORT_INDEX MACH_PORT_DEAD) = 16777215"
  by (simp add: unat_MACH_PORT_INDEX MACH_PORT_DEAD_def unsigned_minus_1_eq_mask mask_eq_exp_minus_1)

lemma last_eq_nth: "length xs = Suc n \<Longrightarrow> last xs = xs ! n"
  by (cases xs rule: rev_cases) auto

text \<open>
  C32: For a page of at most 16384 bytes that holds at least one element, and entries of at least
  16 bytes (\<^verbatim>\<open>struct ipc_entry\<close> has four 32-bit fields), \<^verbatim>\<open>ipc_table_init\<close> ends and fills
  the two arrays as \<^verbatim>\<open>ipc_table.h\<close> promises: 512 entry sizes, strictly increasing from at
  least 4, the last two equal, none above \<^verbatim>\<open>MACH_PORT_INDEX(MACH_PORT_DEAD)\<close>; and 64
  dead-name request sizes, strictly increasing from at least 2 with a terminating zero.
\<close>

theorem ipc_table_init_contract:
  assumes "16 \<le> sizeof_entry" "sizeof_entry \<le> page" "0 < sizeof_request" "sizeof_request \<le> page" "page \<le> 16384"
  shows "\<exists>entries dnrequests. ipc_table_init page sizeof_entry sizeof_request = Some (entries, dnrequests) \<and>
    length entries = ipc_table_entries_size \<and> its_entries_ok entries \<and>
    length dnrequests = ipc_table_dnrequests_size \<and> its_dnrequests_ok dnrequests"
proof -
  obtain es where es: "ipc_table_fill page 511 4 sizeof_entry = Some es" "length es = 511" "sorted_wrt (<) es"
    "\<forall>x\<in>set es. 4 \<le> x \<and> x \<le> 4 + 16 * page * 512 div sizeof_entry"
    using ipc_table_fill_correct [of sizeof_entry page 4 511] assms by auto
  obtain ds where ds: "ipc_table_fill page 63 2 sizeof_request = Some ds" "length ds = 63" "sorted_wrt (<) ds"
    "\<forall>x\<in>set ds. 2 \<le> x"
    using ipc_table_fill_correct [of sizeof_request page 2 63] assms by auto
  have "16 * page * 512 div sizeof_entry \<le> page * 512"
    using div_le_mono2 [of 16 sizeof_entry "16 * page * 512"] assms(1) by simp
  then have b: "\<forall>x\<in>set es. 4 \<le> x \<and> x \<le> 16777215"
    using es(4) assms(5) by fastforce
  have "its_entries_ok (es @ [es ! 510])"
    using es(2,3) b by (auto simp: its_entries_ok_def last_eq_nth list_all_iff unat_MACH_PORT_INDEX_DEAD)
  moreover have "its_dnrequests_ok (ds @ [0])"
    using ds by (auto simp: its_dnrequests_ok_def list_all_iff)
  ultimately show ?thesis
    using es(1,2) ds(1,2)
    by (simp add: ipc_table_init_def ipc_table_entries_size_def ipc_table_dnrequests_size_def)
qed

theorem ipc_table_init_contract_witness:
  "\<exists>entries dnrequests. ipc_table_init 4096 16 8 = Some (entries, dnrequests) \<and>
    length entries = ipc_table_entries_size \<and> its_entries_ok entries \<and>
    length dnrequests = ipc_table_dnrequests_size \<and> its_dnrequests_ok dnrequests"
  using ipc_table_init_contract [of 16 4096 8] by simp

end
