(* ===== verification/IPC_Data.thy ===== *)
theory IPC_Data
  imports IPC_Splay IPC_Table
begin

text \<open>
  The data of a capability space: \<^verbatim>\<open>struct ipc_entry\<close> (\<^verbatim>\<open>ipc/ipc_entry.h\<close>) and
  \<^verbatim>\<open>struct ipc_space\<close> (\<^verbatim>\<open>ipc/ipc_space.h\<close>). Locks are not part of the state: every
  operation is the part of the code that runs with the space locked.

  The \<open>index\<close> union of an entry (\<open>ie_next\<close> in a free entry, \<open>ie_request\<close> in a used one) is the
  single field \<open>ie_request\<close>, and the code's writes to either name are writes to it. Of the \<open>hash\<close>
  union only \<open>ie_index\<close> is a field; the \<open>ite_next\<close> links of tree entries are the bucket lists of
  \<open>IPC_Hash\<close>. \<open>is_table\<close> is a list whose length is \<open>is_table_size\<close>, and \<open>is_table_next\<close> is a
  position in the array \<open>ipc_table_entries\<close>.
\<close>

record ipc_entry =
  ie_bits :: ipc_entry_bits_t
  ie_object :: ipc_object_t
  ie_request :: nat
  ie_index :: mach_port_index_t

abbreviation ie_next :: "ipc_entry \<Rightarrow> mach_port_index_t" where "ie_next \<equiv> ie_request"

definition IO_NULL :: ipc_object_t where "IO_NULL = 0"
definition IO_DEAD :: ipc_object_t where "IO_DEAD = NOT 0"

definition IO_VALID :: "ipc_object_t \<Rightarrow> bool" where
  "IO_VALID io \<longleftrightarrow> io \<noteq> IO_NULL \<and> io \<noteq> IO_DEAD"

type_synonym ipc_space_t = "32 word"

record ipc_space =
  is_references :: natural_t
  is_active :: bool
  is_growing :: bool
  is_table :: "ipc_entry list"
  is_table_next :: nat
  is_tree :: "ipc_entry ipc_splay_tree"
  is_tree_total :: nat
  is_tree_small :: nat
  is_tree_hash :: nat
  is_fast :: bool

text \<open>A pointer to an entry of a space: into its table, or to the tree node of a name.\<close>

datatype ipc_entry_ref = TABLE_ENTRY mach_port_index_t | TREE_ENTRY mach_port_t

abbreviation is_table_size :: "ipc_space \<Rightarrow> nat" where
  "is_table_size space \<equiv> length (is_table space)"

abbreviation is_fast_space :: "ipc_space \<Rightarrow> bool" where
  "is_fast_space space \<equiv> is_fast space"

end
