(* ===== verification/IPC_Hash.thy ===== *)
theory IPC_Hash
  imports IPC_Data
begin

text \<open>
  The reverse hash tables of \<^verbatim>\<open>ipc/ipc_hash.c\<close>, which turn a space and an object into the
  name of the send right for it. Entries of the space's table are found through a local table
  with linear probing that lives in the \<open>ie_index\<close> fields of the entries themselves; entries of
  the splay tree through a global table of buckets with move-to-front.
\<close>

section \<open>The local table: linear probing\<close>

definition IH_LOCAL_HASH :: "ipc_object_t \<Rightarrow> nat \<Rightarrow> nat" where
  "IH_LOCAL_HASH obj sz = unat (drop_bit 6 obj) mod sz"

definition ih_next :: "nat \<Rightarrow> nat \<Rightarrow> nat" where
  "ih_next sz hindex = (if Suc hindex = sz then 0 else Suc hindex)"

text \<open>
  The loops that advance \<open>hindex\<close> until a slot satisfies \<open>stop\<close>. They do not change the table, so
  a probe that has gone around the whole table would go on for ever: \<open>None\<close>.
\<close>

primrec ih_probe :: "nat \<Rightarrow> nat \<Rightarrow> (nat \<Rightarrow> bool) \<Rightarrow> nat \<Rightarrow> nat option" where
  "ih_probe 0 sz stop hindex = None"
| "ih_probe (Suc fuel) sz stop hindex =
     (if stop hindex then Some hindex else ih_probe fuel sz stop (ih_next sz hindex))"

definition ie_index_at :: "ipc_entry list \<Rightarrow> nat \<Rightarrow> mach_port_index_t" where
  "ie_index_at table hindex = ie_index (table ! hindex)"

definition set_ie_index :: "ipc_entry list \<Rightarrow> nat \<Rightarrow> mach_port_index_t \<Rightarrow> ipc_entry list" where
  "set_ie_index table hindex index = table[hindex := (table ! hindex)\<lparr>ie_index := index\<rparr>]"

text \<open>\<open>Some None\<close> is \<open>FALSE\<close>; \<open>Some (Some index)\<close> is the entry found.\<close>

definition ipc_hash_local_lookup ::
  "ipc_entry list \<Rightarrow> ipc_object_t \<Rightarrow> (mach_port_index_t option) option" where
  "ipc_hash_local_lookup table obj =
     map_option (\<lambda>hindex. if ie_index_at table hindex = 0 then None else Some (ie_index_at table hindex))
       (ih_probe (length table) (length table)
         (\<lambda>hindex. ie_index_at table hindex = 0 \<or> ie_object (table ! ie_index_at table hindex) = obj)
         (IH_LOCAL_HASH obj (length table)))"

definition ipc_hash_local_insert ::
  "ipc_entry list \<Rightarrow> ipc_object_t \<Rightarrow> mach_port_index_t \<Rightarrow> ipc_entry list option" where
  "ipc_hash_local_insert table obj index =
     map_option (\<lambda>hindex. set_ie_index table hindex index)
       (ih_probe (length table) (length table) (\<lambda>hindex. ie_index_at table hindex = 0)
         (IH_LOCAL_HASH obj (length table)))"

text \<open>
  The second half of the deletion, its two loops as one: \<open>hindex\<close> is the hole, \<open>dindex\<close> the last
  slot checked. Each round advances \<open>dindex\<close>; the end of the clump closes the hole with zero.
\<close>

definition ih_displaced :: "nat \<Rightarrow> nat \<Rightarrow> nat \<Rightarrow> bool" where
  "ih_displaced hindex dindex tindex =
     (if dindex < hindex then dindex < tindex \<and> tindex \<le> hindex else dindex < tindex \<or> tindex \<le> hindex)"

primrec ih_close_hole :: "nat \<Rightarrow> ipc_entry list \<Rightarrow> nat \<Rightarrow> nat \<Rightarrow> ipc_entry list option" where
  "ih_close_hole 0 table hindex dindex = None"
| "ih_close_hole (Suc fuel) table hindex dindex =
     (let dindex = ih_next (length table) dindex;
          index = ie_index_at table dindex
      in if index = 0 then Some (set_ie_index table hindex 0)
         else let tindex = IH_LOCAL_HASH (ie_object (table ! index)) (length table)
              in if ih_displaced hindex dindex tindex
                 then ih_close_hole fuel (set_ie_index table hindex index) dindex dindex
                 else ih_close_hole fuel table hindex dindex)"

definition ipc_hash_local_delete ::
  "ipc_entry list \<Rightarrow> ipc_object_t \<Rightarrow> mach_port_index_t \<Rightarrow> ipc_entry list option" where
  "ipc_hash_local_delete table obj index =
     (case ih_probe (length table) (length table) (\<lambda>hindex. ie_index_at table hindex = index)
         (IH_LOCAL_HASH obj (length table)) of
        None \<Rightarrow> None
      | Some hindex \<Rightarrow> if index = 0 then Some table else ih_close_hole (length table) table hindex hindex)"

text \<open>Distances and paths around the table.\<close>

definition cdist :: "nat \<Rightarrow> nat \<Rightarrow> nat \<Rightarrow> nat" where
  "cdist n a b = (if a \<le> b then b - a else b + n - a)"

definition on_path :: "nat \<Rightarrow> nat \<Rightarrow> nat \<Rightarrow> nat \<Rightarrow> bool" where
  "on_path n a x b \<longleftrightarrow> cdist n a x < cdist n a b"

definition cpos :: "nat \<Rightarrow> nat \<Rightarrow> nat \<Rightarrow> nat" where
  "cpos n a k = (if a + k < n then a + k else a + k - n)"

lemma ih_probe_Some:
  assumes "a < n" "k < fuel" "k < n" "stop (cpos n a k)"
  shows "\<exists>j\<le>k. ih_probe fuel n stop a = Some (cpos n a j) \<and> stop (cpos n a j) \<and> (\<forall>i<j. \<not> stop (cpos n a i))"
  using assms
proof (induction fuel arbitrary: a k)
  case (Suc fuel)
  show ?case
  proof (cases "stop a")
    case True
    then show ?thesis using Suc.prems by (intro exI [of _ 0]) (simp add: cpos_def)
  next
    case False
    let ?a = "ih_next n a"
    obtain k' where k: "k = Suc k'" using Suc.prems False by (cases k) (auto simp: cpos_def)
    have pos: "cpos n a (Suc i) = cpos n ?a i" if "i < n" for i
      using that Suc.prems(1) by (auto simp: cpos_def ih_next_def)
    have "?a < n" using Suc.prems(1) by (auto simp: ih_next_def)
    moreover have "stop (cpos n ?a k')" using Suc.prems k pos by simp
    ultimately obtain j where j: "j \<le> k'" "ih_probe fuel n stop ?a = Some (cpos n ?a j)" "stop (cpos n ?a j)"
      "\<forall>i<j. \<not> stop (cpos n ?a i)"
      using Suc.IH [of ?a k'] Suc.prems k by auto
    have "\<not> stop (cpos n a i)" if "i < Suc j" for i
      using that False j(4) pos k Suc.prems j(1) by (cases i) (auto simp: cpos_def)
    then show ?thesis
      using j False pos [of j] k Suc.prems by (intro exI [of _ "Suc j"]) auto
  qed
qed simp

lemma cpos_cdist: "a < n \<Longrightarrow> b < n \<Longrightarrow> cpos n a (cdist n a b) = b"
  and cdist_less: "a < n \<Longrightarrow> b < n \<Longrightarrow> cdist n a b < n"
  and cpos_less: "a < n \<Longrightarrow> k < n \<Longrightarrow> cpos n a k < n"
  and cdist_cpos: "a < n \<Longrightarrow> k < n \<Longrightarrow> cdist n a (cpos n a k) = k"
  by (auto simp: cpos_def cdist_def)

text \<open>A probe finds the first slot that satisfies \<open>stop\<close>, whichever slot is known to.\<close>

lemma ih_probe_first:
  assumes "a < n" "b < n" "stop b"
  obtains c where "c < n" "ih_probe n n stop a = Some c" "stop c"
    "\<And>x. x < n \<Longrightarrow> on_path n a x c \<Longrightarrow> \<not> stop x" "c = b \<or> on_path n a c b"
proof -
  obtain j where j: "j \<le> cdist n a b" "ih_probe n n stop a = Some (cpos n a j)" "stop (cpos n a j)"
    "\<forall>i<j. \<not> stop (cpos n a i)"
    using ih_probe_Some [of a n "cdist n a b" n stop] assms cpos_cdist cdist_less by auto
  have jn: "j < n" using j(1) cdist_less [OF assms(1,2)] by simp
  have path: "\<not> stop x" if "x < n" "on_path n a x (cpos n a j)" for x
    using that j(4) cpos_cdist [OF assms(1) that(1)] cdist_cpos [OF assms(1) jn]
    by (auto simp: on_path_def)
  have "cpos n a j = b \<or> on_path n a (cpos n a j) b"
    using j(1) cpos_cdist [OF assms(1,2)] cdist_cpos [OF assms(1) jn]
    by (auto simp: on_path_def le_eq_less_or_eq)
  then show thesis
    using that [OF cpos_less [OF assms(1) jn] j(2,3) path] by blast
qed

text \<open>
  \<open>hash_ok\<close>: the slots hold distinct table positions (zero is the empty slot), and every slot
  between the home of an entry and the slot that holds it is occupied.
\<close>

abbreviation ih_home :: "ipc_entry list \<Rightarrow> mach_port_index_t \<Rightarrow> nat" where
  "ih_home table index \<equiv> IH_LOCAL_HASH (ie_object (table ! index)) (length table)"

definition hash_ok :: "ipc_entry list \<Rightarrow> bool" where
  "hash_ok table \<longleftrightarrow> table \<noteq> [] \<and>
     (\<forall>x<length table. ie_index_at table x < length table) \<and>
     (\<forall>x<length table. \<forall>y<length table. ie_index_at table x \<noteq> 0 \<longrightarrow>
        ie_index_at table x = ie_index_at table y \<longrightarrow> x = y) \<and>
     (\<forall>x<length table. \<forall>y<length table. ie_index_at table x \<noteq> 0 \<longrightarrow>
        on_path (length table) (ih_home table (ie_index_at table x)) y x \<longrightarrow> ie_index_at table y \<noteq> 0)"

definition hashed :: "ipc_entry list \<Rightarrow> mach_port_index_t set" where
  "hashed table = ie_index_at table ` {..<length table} - {0}"

text \<open>Two tables that differ only in the hash fields.\<close>

definition same_entries :: "ipc_entry list \<Rightarrow> ipc_entry list \<Rightarrow> bool" where
  "same_entries t u \<longleftrightarrow> map (\<lambda>e. e\<lparr>ie_index := 0\<rparr>) t = map (\<lambda>e. e\<lparr>ie_index := 0\<rparr>) u"

lemma IH_LOCAL_HASH_less: "0 < n \<Longrightarrow> IH_LOCAL_HASH obj n < n"
  by (simp add: IH_LOCAL_HASH_def)

lemma nth_update_if: "xs[h := y] ! x = (if x = h \<and> h < length xs then y else xs ! x)"
  by (cases "h < length xs") (auto simp: nth_list_update list_update_beyond)

lemma set_ie_index_simps [simp]:
  "length (set_ie_index t h i) = length t"
  "h < length t \<Longrightarrow> ie_index_at (set_ie_index t h i) x = (if x = h then i else ie_index_at t x)"
  "ie_object (set_ie_index t h i ! x) = ie_object (t ! x)"
  "ie_bits (set_ie_index t h i ! x) = ie_bits (t ! x)"
  "ie_request (set_ie_index t h i ! x) = ie_request (t ! x)"
  by (auto simp: set_ie_index_def ie_index_at_def nth_update_if)

lemma same_entries_refl [simp]: "same_entries t t"
  by (simp add: same_entries_def)

lemma same_entries_trans: "same_entries t u \<Longrightarrow> same_entries u v \<Longrightarrow> same_entries t v"
  by (simp add: same_entries_def)

lemma same_entries_iff:
  "same_entries t u \<longleftrightarrow> length t = length u \<and>
     (\<forall>x<length t. ie_bits (t ! x) = ie_bits (u ! x) \<and> ie_object (t ! x) = ie_object (u ! x) \<and>
        ie_request (t ! x) = ie_request (u ! x))"
proof -
  have "a\<lparr>ie_index := 0\<rparr> = b\<lparr>ie_index := 0\<rparr> \<longleftrightarrow>
      ie_bits a = ie_bits b \<and> ie_object a = ie_object b \<and> ie_request a = ie_request b" for a b :: ipc_entry
    by (cases a; cases b) auto
  then show ?thesis
    by (auto simp: same_entries_def list_eq_iff_nth_eq)
qed

lemma same_entries_set_ie_index [simp]: "same_entries t (set_ie_index t h i)"
  by (simp add: same_entries_iff)

lemma hashed_set_ie_index:
  assumes "h < length t"
  shows "hashed (set_ie_index t h i) = insert i (ie_index_at t ` ({..<length t} - {h})) - {0}"
proof -
  have "ie_index_at (set_ie_index t h i) ` {..<length t} = insert i (ie_index_at t ` ({..<length t} - {h}))"
  proof (rule set_eqI, rule iffI)
    fix y assume "y \<in> ie_index_at (set_ie_index t h i) ` {..<length t}"
    then show "y \<in> insert i (ie_index_at t ` ({..<length t} - {h}))"
      using assms by (elim imageE) (auto split: if_splits)
  next
    fix y assume "y \<in> insert i (ie_index_at t ` ({..<length t} - {h}))"
    then consider "y = i" | x where "x < length t" "x \<noteq> h" "y = ie_index_at t x" by auto
    then show "y \<in> ie_index_at (set_ie_index t h i) ` {..<length t}"
    proof cases
      case 1
      then show ?thesis using assms by (intro rev_image_eqI [of h]) auto
    next
      case 2
      then show ?thesis using assms by (intro rev_image_eqI [of x]) auto
    qed
  qed
  then show ?thesis by (simp add: hashed_def)
qed

text \<open>Position 0 is never hashed, so there is always an empty slot.\<close>

lemma hash_ok_empty_slot:
  assumes "hash_ok t"
  obtains e where "e < length t" "ie_index_at t e = 0"
proof (rule ccontr)
  assume "\<not> thesis"
  with that have ne: "\<forall>x<length t. ie_index_at t x \<noteq> 0" by blast
  have "inj_on (ie_index_at t) {..<length t}"
    using assms ne by (auto simp: hash_ok_def inj_on_def)
  moreover have "ie_index_at t ` {..<length t} \<subseteq> {0<..<length t}"
    using assms ne by (auto simp: hash_ok_def)
  ultimately have "card {..<length t} \<le> card {0<..<length t}"
    by (rule card_inj_on_le) simp
  then have "length t \<le> length t - 1"
    by (simp only: card_lessThan card_greaterThanLessThan One_nat_def)
  moreover have "0 < length t"
    using assms by (auto simp: hash_ok_def)
  ultimately show False by linarith
qed

lemma hashed_slot:
  assumes "i \<in> hashed t"
  obtains x where "x < length t" "ie_index_at t x = i" "i \<noteq> 0"
  using assms by (auto simp: hashed_def)

lemma hash_okI:
  assumes "t \<noteq> []" "\<And>x. x < length t \<Longrightarrow> ie_index_at t x < length t"
    and "\<And>x y. x < length t \<Longrightarrow> y < length t \<Longrightarrow> ie_index_at t x \<noteq> 0 \<Longrightarrow>
      ie_index_at t x = ie_index_at t y \<Longrightarrow> x = y"
    and "\<And>x y. x < length t \<Longrightarrow> y < length t \<Longrightarrow> ie_index_at t x \<noteq> 0 \<Longrightarrow>
      on_path (length t) (ih_home t (ie_index_at t x)) y x \<Longrightarrow> ie_index_at t y \<noteq> 0"
  shows "hash_ok t"
  using assms unfolding hash_ok_def by blast

lemma hash_ok_index: "hash_ok t \<Longrightarrow> x < length t \<Longrightarrow> ie_index_at t x < length t"
  unfolding hash_ok_def by blast

lemma hash_ok_inj:
  "hash_ok t \<Longrightarrow> x < length t \<Longrightarrow> y < length t \<Longrightarrow> ie_index_at t x \<noteq> 0 \<Longrightarrow>
     ie_index_at t x = ie_index_at t y \<Longrightarrow> x = y"
  unfolding hash_ok_def by blast

lemma hash_ok_length: "hash_ok t \<Longrightarrow> 0 < length t"
  by (auto simp: hash_ok_def)

lemma hash_ok_clump:
  "hash_ok t \<Longrightarrow> x < length t \<Longrightarrow> y < length t \<Longrightarrow> ie_index_at t x \<noteq> 0 \<Longrightarrow>
     on_path (length t) (ih_home t (ie_index_at t x)) y x \<Longrightarrow> ie_index_at t y \<noteq> 0"
  unfolding hash_ok_def by blast

lemma ipc_hash_local_lookup_correct:
  assumes "hash_ok t"
  obtains (found) i where "ipc_hash_local_lookup t obj = Some (Some i)" "i \<in> hashed t" "ie_object (t ! i) = obj"
  | (absent) "ipc_hash_local_lookup t obj = Some None" "\<And>i. i \<in> hashed t \<Longrightarrow> ie_object (t ! i) \<noteq> obj"
proof -
  let ?n = "length t" and ?a = "IH_LOCAL_HASH obj (length t)"
  let ?stop = "\<lambda>x. ie_index_at t x = 0 \<or> ie_object (t ! ie_index_at t x) = obj"
  have a: "?a < ?n" using IH_LOCAL_HASH_less hash_ok_length [OF assms] by blast
  obtain e where e: "e < ?n" "ie_index_at t e = 0" using hash_ok_empty_slot [OF assms] .
  obtain c where c: "c < ?n" "ih_probe ?n ?n ?stop ?a = Some c" "?stop c"
    "\<And>x. x < ?n \<Longrightarrow> on_path ?n ?a x c \<Longrightarrow> \<not> ?stop x"
    by (rule ih_probe_first [OF a e(1), of ?stop]) (use e in auto)
  show thesis
  proof (cases "ie_index_at t c = 0")
    case False
    then show thesis
      using c by (intro found [of "ie_index_at t c"]) (auto simp: ipc_hash_local_lookup_def hashed_def)
  next
    case True
    have "ie_object (t ! i) \<noteq> obj" if "i \<in> hashed t" for i
    proof
      assume obj: "ie_object (t ! i) = obj"
      from that obtain x where x: "x < ?n" "ie_index_at t x = i" "i \<noteq> 0" by (rule hashed_slot)
      have "\<not> on_path ?n ?a x c" using c(4) x obj by blast
      then have "on_path ?n ?a c x"
        using x True c(1) cpos_cdist [OF a] by (metis on_path_def linorder_neqE_nat)
      then have "ie_index_at t c \<noteq> 0"
        using hash_ok_clump [OF assms x(1) c(1)] x obj by simp
      with True show False by simp
    qed
    with True c show thesis
      by (intro absent) (auto simp: ipc_hash_local_lookup_def)
  qed
qed

lemma ipc_hash_local_insert_correct:
  assumes "hash_ok t" "0 < i" "i < length t" "i \<notin> hashed t" "ie_object (t ! i) = obj"
  obtains t' where "ipc_hash_local_insert t obj i = Some t'" "hash_ok t'" "hashed t' = insert i (hashed t)"
    "same_entries t t'"
proof -
  let ?n = "length t" and ?a = "IH_LOCAL_HASH obj (length t)"
  have a: "?a < ?n" using IH_LOCAL_HASH_less hash_ok_length [OF assms(1)] by blast
  obtain e where e: "e < ?n" "ie_index_at t e = 0" using hash_ok_empty_slot [OF assms(1)] .
  obtain c where c: "c < ?n" "ih_probe ?n ?n (\<lambda>x. ie_index_at t x = 0) ?a = Some c" "ie_index_at t c = 0"
    "\<And>x. x < ?n \<Longrightarrow> on_path ?n ?a x c \<Longrightarrow> ie_index_at t x \<noteq> 0"
    by (rule ih_probe_first [OF a e(1), of "\<lambda>x. ie_index_at t x = 0"]) (use e in auto)
  have fresh: "\<forall>x<?n. ie_index_at t x \<noteq> i"
    using assms(2,4) by (auto simp: hashed_def)
  have "hash_ok (set_ie_index t c i)"
  proof (rule hash_okI)
    show "set_ie_index t c i \<noteq> []" using c(1) by (auto simp: set_ie_index_def)
    show "x < length (set_ie_index t c i) \<Longrightarrow> ie_index_at (set_ie_index t c i) x < length (set_ie_index t c i)" for x
      using c(1) assms(3) hash_ok_index [OF assms(1)] by simp
    show "x = y" if "x < length (set_ie_index t c i)" "y < length (set_ie_index t c i)"
      "ie_index_at (set_ie_index t c i) x \<noteq> 0" "ie_index_at (set_ie_index t c i) x = ie_index_at (set_ie_index t c i) y" for x y
      using that c(1) fresh hash_ok_inj [OF assms(1), of x y] by (auto split: if_splits)
    show "ie_index_at (set_ie_index t c i) y \<noteq> 0" if "x < length (set_ie_index t c i)" "y < length (set_ie_index t c i)"
      "ie_index_at (set_ie_index t c i) x \<noteq> 0"
      "on_path (length (set_ie_index t c i)) (ih_home (set_ie_index t c i) (ie_index_at (set_ie_index t c i) x)) y x" for x y
      using that c(1,4) assms(2,5) hash_ok_clump [OF assms(1), of x y] by (auto split: if_splits)
  qed
  moreover have "hashed (set_ie_index t c i) = insert i (hashed t)"
    using c(1,3) assms(2) by (auto simp: hashed_set_ie_index) (auto simp: hashed_def)
  ultimately show thesis
    using c by (intro that) (auto simp: ipc_hash_local_insert_def)
qed

text \<open>
  The invariant of the deletion loop. Slot \<open>h\<close> is a hole (its contents are stale); the entries
  checked so far, up to slot \<open>d\<close>, do not probe through it.
\<close>

definition slots_inj :: "ipc_entry list \<Rightarrow> nat \<Rightarrow> bool" where
  "slots_inj t h \<longleftrightarrow> (\<forall>x<length t. \<forall>y<length t. x \<noteq> h \<longrightarrow> y \<noteq> h \<longrightarrow> ie_index_at t x \<noteq> 0 \<longrightarrow>
     ie_index_at t x = ie_index_at t y \<longrightarrow> x = y)"

definition slots_clump :: "ipc_entry list \<Rightarrow> nat \<Rightarrow> bool" where
  "slots_clump t h \<longleftrightarrow> (\<forall>x<length t. \<forall>y<length t. x \<noteq> h \<longrightarrow> ie_index_at t x \<noteq> 0 \<longrightarrow>
     on_path (length t) (ih_home t (ie_index_at t x)) y x \<longrightarrow> y = h \<or> ie_index_at t y \<noteq> 0)"

definition slots_checked :: "ipc_entry list \<Rightarrow> nat \<Rightarrow> nat \<Rightarrow> bool" where
  "slots_checked t h d \<longleftrightarrow> (\<forall>x<length t. x \<noteq> h \<longrightarrow> ie_index_at t x \<noteq> 0 \<longrightarrow>
     cdist (length t) h x \<le> cdist (length t) h d \<longrightarrow>
     \<not> on_path (length t) (ih_home t (ie_index_at t x)) h x)"

definition hole_inv :: "ipc_entry list \<Rightarrow> nat \<Rightarrow> nat \<Rightarrow> bool" where
  "hole_inv t h d \<longleftrightarrow> h < length t \<and> d < length t \<and> (\<forall>x<length t. ie_index_at t x < length t) \<and>
     slots_inj t h \<and> slots_clump t h \<and> slots_checked t h d"

lemma hole_inv_inj:
  assumes "hole_inv t h d" "x < length t" "y < length t" "x \<noteq> h" "y \<noteq> h" "ie_index_at t x \<noteq> 0"
    "ie_index_at t x = ie_index_at t y"
  shows "x = y"
proof -
  have "slots_inj t h" using assms(1) by (simp add: hole_inv_def)
  then show ?thesis using assms(2-) unfolding slots_inj_def by blast
qed

lemma hole_inv_clump:
  assumes "hole_inv t h d" "x < length t" "y < length t" "x \<noteq> h" "ie_index_at t x \<noteq> 0"
    "on_path (length t) (ih_home t (ie_index_at t x)) y x"
  shows "y = h \<or> ie_index_at t y \<noteq> 0"
proof -
  have "slots_clump t h" using assms(1) by (simp add: hole_inv_def)
  then show ?thesis using assms(2-) unfolding slots_clump_def by blast
qed

lemma hole_inv_checked:
  assumes "hole_inv t h d" "x < length t" "x \<noteq> h" "ie_index_at t x \<noteq> 0"
    "cdist (length t) h x \<le> cdist (length t) h d"
  shows "\<not> on_path (length t) (ih_home t (ie_index_at t x)) h x"
proof -
  have "slots_checked t h d" using assms(1) by (simp add: hole_inv_def)
  then show ?thesis using assms(2-) unfolding slots_checked_def by blast
qed

lemma hole_inv_bounds:
  "hole_inv t h d \<Longrightarrow> h < length t" "hole_inv t h d \<Longrightarrow> d < length t"
  "hole_inv t h d \<Longrightarrow> x < length t \<Longrightarrow> ie_index_at t x < length t"
  by (simp_all add: hole_inv_def)

lemma hole_invI:
  assumes "h < length t" "d < length t" "\<And>x. x < length t \<Longrightarrow> ie_index_at t x < length t"
    and "\<And>x y. x < length t \<Longrightarrow> y < length t \<Longrightarrow> x \<noteq> h \<Longrightarrow> y \<noteq> h \<Longrightarrow> ie_index_at t x \<noteq> 0 \<Longrightarrow>
      ie_index_at t x = ie_index_at t y \<Longrightarrow> x = y"
    and "\<And>x y. x < length t \<Longrightarrow> y < length t \<Longrightarrow> x \<noteq> h \<Longrightarrow> ie_index_at t x \<noteq> 0 \<Longrightarrow>
      on_path (length t) (ih_home t (ie_index_at t x)) y x \<Longrightarrow> y = h \<or> ie_index_at t y \<noteq> 0"
    and "\<And>x. x < length t \<Longrightarrow> x \<noteq> h \<Longrightarrow> ie_index_at t x \<noteq> 0 \<Longrightarrow>
      cdist (length t) h x \<le> cdist (length t) h d \<Longrightarrow> \<not> on_path (length t) (ih_home t (ie_index_at t x)) h x"
  shows "hole_inv t h d"
  unfolding hole_inv_def slots_inj_def slots_clump_def slots_checked_def
  by (intro conjI allI impI) (rule assms; assumption)+

lemma cdist_self [simp]: "cdist n a a = 0"
  by (simp add: cdist_def)

lemma cdist_next:
  "h < n \<Longrightarrow> d < n \<Longrightarrow> e < n \<Longrightarrow> cdist n h d < cdist n h e \<Longrightarrow>
     ih_next n d < n \<and> ih_next n d \<noteq> h \<and> cdist n h (ih_next n d) = Suc (cdist n h d) \<and>
     cdist n d e = Suc (cdist n (ih_next n d) e)"
  unfolding cdist_def ih_next_def
  by (cases "h \<le> d"; cases "h \<le> e"; cases "d \<le> e"; cases "Suc d = n"; cases "Suc d \<le> e"; simp?; linarith?)

lemma displaced_iff:
  "h < n \<Longrightarrow> d < n \<Longrightarrow> a < n \<Longrightarrow> d \<noteq> h \<Longrightarrow> ih_displaced h d a \<longleftrightarrow> on_path n a h d"
  unfolding ih_displaced_def on_path_def cdist_def
  by (cases "d < h"; cases "a \<le> h"; cases "a \<le> d"; simp?; linarith?)

lemma on_path_between:
  "a < n \<Longrightarrow> h < n \<Longrightarrow> d < n \<Longrightarrow> x < n \<Longrightarrow> on_path n a h x \<Longrightarrow> cdist n h d < cdist n h x \<Longrightarrow> on_path n a d x"
  unfolding on_path_def cdist_def
  by (cases "a \<le> h"; cases "a \<le> x"; cases "h \<le> x"; cases "h \<le> d"; cases "a \<le> d"; simp)

lemma on_path_trans:
  "a < n \<Longrightarrow> h < n \<Longrightarrow> d < n \<Longrightarrow> y < n \<Longrightarrow> on_path n a h d \<Longrightarrow> on_path n a y h \<Longrightarrow> on_path n a y d \<and> y \<noteq> h"
  by (auto simp: on_path_def)

lemma close_hole_end:
  assumes "hole_inv t h d" "d' < length t" "d' \<noteq> h" "ie_index_at t d' = 0"
    and "cdist (length t) h d' = Suc (cdist (length t) h d)"
  shows "hash_ok (set_ie_index t h 0)"
proof (rule hash_okI)
  note b = hole_inv_bounds [OF assms(1)]
  show "set_ie_index t h 0 \<noteq> []" using b(1) by (auto simp: set_ie_index_def)
  show "x < length (set_ie_index t h 0) \<Longrightarrow> ie_index_at (set_ie_index t h 0) x < length (set_ie_index t h 0)" for x
    using b(1) b(3) [of x] by auto
  show "x = y" if "x < length (set_ie_index t h 0)" "y < length (set_ie_index t h 0)"
    "ie_index_at (set_ie_index t h 0) x \<noteq> 0" "ie_index_at (set_ie_index t h 0) x = ie_index_at (set_ie_index t h 0) y" for x y
    using that b(1) hole_inv_inj [OF assms(1), of x y] by (auto split: if_splits)
  show "ie_index_at (set_ie_index t h 0) y \<noteq> 0" if xy: "x < length (set_ie_index t h 0)" "y < length (set_ie_index t h 0)"
    "ie_index_at (set_ie_index t h 0) x \<noteq> 0"
    "on_path (length (set_ie_index t h 0)) (ih_home (set_ie_index t h 0) (ie_index_at (set_ie_index t h 0) x)) y x" for x y
  proof -
    let ?n = "length t" and ?a = "ih_home t (ie_index_at t x)"
    have x: "x < ?n" "y < ?n" "x \<noteq> h" "ie_index_at t x \<noteq> 0" "on_path ?n ?a y x"
      using xy b(1) by (auto split: if_splits)
    have a: "?a < ?n" by (rule IH_LOCAL_HASH_less) (use x(1) in linarith)
    have "\<not> on_path ?n ?a h x"
    proof
      assume hx: "on_path ?n ?a h x"
      then have "\<not> cdist ?n h x \<le> cdist ?n h d"
        using hole_inv_checked [OF assms(1) x(1,3,4)] by blast
      moreover have "x \<noteq> d'" using x(4) assms(4) by auto
      then have "cdist ?n h x \<noteq> cdist ?n h d'"
        using cpos_cdist [OF b(1), of x] cpos_cdist [OF b(1), of d'] x(1) assms(2) by metis
      ultimately have "on_path ?n ?a d' x"
        using on_path_between [OF a b(1) assms(2) x(1) hx] assms(5) by linarith
      then show False
        using hole_inv_clump [OF assms(1) x(1) assms(2) x(3,4)] assms(3,4) by blast
    qed
    then have "y \<noteq> h" using x(5) by auto
    then show ?thesis
      using hole_inv_clump [OF assms(1) x(1,2,3,4,5)] b(1) by simp
  qed
qed

lemma close_hole_move:
  assumes "hole_inv t h d" "d' < length t" "d' \<noteq> h" "ie_index_at t d' \<noteq> 0"
    and "on_path (length t) (ih_home t (ie_index_at t d')) h d'"
  shows "hole_inv (set_ie_index t h (ie_index_at t d')) d' d'"
proof (rule hole_invI)
  let ?u = "set_ie_index t h (ie_index_at t d')" and ?n = "length t"
  note b = hole_inv_bounds [OF assms(1)]
  show "d' < length ?u" using assms(2) by simp
  then show "d' < length ?u" .
  show "x < length ?u \<Longrightarrow> ie_index_at ?u x < length ?u" for x
    using b(1) b(3) [of x] b(3) [OF assms(2)] by auto
  show "x = y" if "x < length ?u" "y < length ?u" "x \<noteq> d'" "y \<noteq> d'" "ie_index_at ?u x \<noteq> 0" "ie_index_at ?u x = ie_index_at ?u y" for x y
    using that b(1) assms(2-4) hole_inv_inj [OF assms(1), of x y] hole_inv_inj [OF assms(1), of d' x]
      hole_inv_inj [OF assms(1), of d' y]
    by (auto split: if_splits)
  show "y = d' \<or> ie_index_at ?u y \<noteq> 0" if xy: "x < length ?u" "y < length ?u" "x \<noteq> d'" "ie_index_at ?u x \<noteq> 0"
    "on_path (length ?u) (ih_home ?u (ie_index_at ?u x)) y x" for x y
  proof (cases "x = h")
    case True
    let ?a = "ih_home t (ie_index_at t d')"
    have "?a < ?n" by (rule IH_LOCAL_HASH_less) (use assms(2) in linarith)
    moreover have "on_path ?n ?a y h" using xy True b(1) by simp
    ultimately have "on_path ?n ?a y d'" "y \<noteq> h"
      using on_path_trans [of ?a ?n h d' y] b(1) assms(2,5) xy(2) by auto
    then show ?thesis
      using hole_inv_clump [OF assms(1,2) _ assms(3,4), of y] xy(2) b(1) by simp
  next
    case False
    then show ?thesis
      using hole_inv_clump [OF assms(1), of x y] xy b(1) assms(4) by auto
  qed
  show "\<not> on_path (length ?u) (ih_home ?u (ie_index_at ?u x)) d' x" if "x < length ?u" "x \<noteq> d'" "cdist (length ?u) d' x \<le> cdist (length ?u) d' d'" for x
    using that assms(2) by (auto simp: cdist_def split: if_splits)
qed

lemma ih_close_hole_correct:
  assumes "hole_inv t h d" "e < length t" "ie_index_at t e = 0" "cdist (length t) d e \<le> fuel"
    and "cdist (length t) h d < cdist (length t) h e"
  shows "\<exists>u. ih_close_hole fuel t h d = Some u \<and> hash_ok u \<and> same_entries t u \<and>
    hashed u = ie_index_at t ` ({..<length t} - {h}) - {0}"
  using assms
proof (induction fuel arbitrary: t h d)
  case 0
  then show ?case
    using cdist_next [of h "length t" d e] hole_inv_bounds [OF 0(1)] by simp
next
  case (Suc fuel)
  let ?n = "length t" and ?d = "ih_next (length t) d"
  note b = hole_inv_bounds [OF Suc.prems(1)]
  have d: "?d < ?n" "?d \<noteq> h" "cdist ?n h ?d = Suc (cdist ?n h d)" "cdist ?n d e = Suc (cdist ?n ?d e)"
    using cdist_next [OF b(1,2) Suc.prems(2,5)] by auto
  have a: "ih_home t (ie_index_at t ?d) < ?n" by (rule IH_LOCAL_HASH_less) (use d(1) in linarith)
  consider "ie_index_at t ?d = 0"
    | "ie_index_at t ?d \<noteq> 0" "on_path ?n (ih_home t (ie_index_at t ?d)) h ?d"
    | "ie_index_at t ?d \<noteq> 0" "\<not> on_path ?n (ih_home t (ie_index_at t ?d)) h ?d"
    by blast
  then show ?case
  proof cases
    case 1
    then show ?thesis
      using close_hole_end [OF Suc.prems(1) d(1,2) 1 d(3)] b(1)
      by (simp add: hashed_set_ie_index)
  next
    case 2
    let ?u = "set_ie_index t h (ie_index_at t ?d)"
    have "\<exists>v. ih_close_hole fuel ?u ?d ?d = Some v \<and> hash_ok v \<and> same_entries ?u v \<and>
        hashed v = ie_index_at ?u ` ({..<length ?u} - {?d}) - {0}"
    proof (rule Suc.IH)
      show "hole_inv ?u ?d ?d" by (rule close_hole_move [OF Suc.prems(1) d(1,2) 2])
      show "e < length ?u" using Suc.prems(2) by simp
      show "ie_index_at ?u e = 0" using Suc.prems(3,5) b(1) by auto
      show "cdist (length ?u) ?d e \<le> fuel" using Suc.prems(4) d(4) by simp
      have "e \<noteq> ?d" using 2(1) Suc.prems(3) by auto
      then show "cdist (length ?u) ?d ?d < cdist (length ?u) ?d e"
        using Suc.prems(2) d(1) by (auto simp: cdist_def)
    qed
    moreover have "ie_index_at ?u ` ({..<?n} - {?d}) = ie_index_at t ` ({..<?n} - {h})"
      using b(1) d(1,2) by (force simp: image_iff)
    ultimately show ?thesis
      using 2 displaced_iff [OF b(1) d(1) a d(2)] same_entries_trans [OF same_entries_set_ie_index]
      by (auto simp: Let_def)
  next
    case 3
    have "hole_inv t h ?d"
    proof (rule hole_invI)
      show "\<not> on_path ?n (ih_home t (ie_index_at t x)) h x"
        if "x < ?n" "x \<noteq> h" "ie_index_at t x \<noteq> 0" "cdist ?n h x \<le> cdist ?n h ?d" for x
      proof (cases "cdist ?n h x = cdist ?n h ?d")
        case True
        then have "x = ?d" using cpos_cdist [OF b(1)] that(1) d(1) by metis
        with 3 show ?thesis by simp
      next
        case False
        then show ?thesis using that d(3) hole_inv_checked [OF Suc.prems(1)] by simp
      qed
    qed (use b d hole_inv_inj [OF Suc.prems(1)] hole_inv_clump [OF Suc.prems(1)] in blast)+
    moreover have "e \<noteq> ?d" using 3(1) Suc.prems(3) by auto
    then have "cdist ?n h ?d \<noteq> cdist ?n h e"
      using cpos_cdist [OF b(1)] Suc.prems(2) d(1) by metis
    ultimately show ?thesis
      using Suc.IH [of t h ?d] Suc.prems d 3 displaced_iff [OF b(1) d(1) a d(2)] by (simp add: Let_def)
  qed
qed

lemma ipc_hash_local_delete_correct:
  assumes "hash_ok t" "i \<in> hashed t" "ie_object (t ! i) = obj"
  obtains t' where "ipc_hash_local_delete t obj i = Some t'" "hash_ok t'" "hashed t' = hashed t - {i}"
    "same_entries t t'"
proof -
  let ?n = "length t" and ?a = "IH_LOCAL_HASH obj (length t)"
  have a: "?a < ?n" using IH_LOCAL_HASH_less hash_ok_length [OF assms(1)] by blast
  obtain x where x: "x < ?n" "ie_index_at t x = i" "i \<noteq> 0" using assms(2) by (rule hashed_slot)
  obtain c where c: "c < ?n" "ih_probe ?n ?n (\<lambda>x. ie_index_at t x = i) ?a = Some c" "ie_index_at t c = i"
    by (rule ih_probe_first [OF a x(1), of "\<lambda>x. ie_index_at t x = i"]) (use x in auto)
  obtain e where e: "e < ?n" "ie_index_at t e = 0" using hash_ok_empty_slot [OF assms(1)] .
  have ne: "e \<noteq> c" using e c x by auto
  have "hole_inv t c c"
  proof (rule hole_invI)
    show "\<not> on_path ?n (ih_home t (ie_index_at t y)) c y" if "y < ?n" "y \<noteq> c" "cdist ?n c y \<le> cdist ?n c c" for y
      using that c(1) cpos_cdist [OF c(1) that(1)] by (simp add: cpos_def)
  qed (use c hash_ok_index [OF assms(1)] hash_ok_inj [OF assms(1)] hash_ok_clump [OF assms(1)] in blast)+
  moreover have "cdist ?n c e \<le> ?n" "cdist ?n c c < cdist ?n c e"
    using cdist_less [OF c(1) e(1)] ne c(1) e(1) by (simp_all add: cdist_def)
  ultimately obtain u where u: "ih_close_hole ?n t c c = Some u" "hash_ok u" "same_entries t u"
    "hashed u = ie_index_at t ` ({..<?n} - {c}) - {0}"
    using ih_close_hole_correct [of t c c e ?n] e by blast
  have "y \<noteq> c \<Longrightarrow> y < ?n \<Longrightarrow> ie_index_at t y \<noteq> i" for y
    using hash_ok_inj [OF assms(1) c(1), of y] c(3) x(3) by auto
  then have "hashed u = hashed t - {i}"
    unfolding u(4) using c(1,3) by (auto simp: hashed_def)
  with u c x show thesis
    by (intro that) (auto simp: ipc_hash_local_delete_def)
qed

lemma hash_ok_cong:
  assumes "hash_ok t" "length u = length t" "\<And>x. x < length t \<Longrightarrow> ie_index (u ! x) = ie_index (t ! x)"
    and "\<And>i. i \<in> hashed t \<Longrightarrow> ie_object (u ! i) = ie_object (t ! i)"
  shows "hash_ok u" "hashed u = hashed t"
proof -
  have ix: "ie_index_at u x = ie_index_at t x" if "x < length t" for x
    using assms(3) [OF that] by (simp add: ie_index_at_def)
  have home: "ih_home u (ie_index_at t x) = ih_home t (ie_index_at t x)" if "x < length t" "ie_index_at t x \<noteq> 0" for x
    using assms(4) [of "ie_index_at t x"] assms(2) that by (auto simp: hashed_def)
  show "hash_ok u"
  proof (rule hash_okI, unfold assms(2))
    show "u \<noteq> []" using hash_ok_length [OF assms(1)] assms(2) by auto
    show "x < length t \<Longrightarrow> ie_index_at u x < length t" for x
      using hash_ok_index [OF assms(1), of x] ix [of x] by simp
    show "x < length t \<Longrightarrow> y < length t \<Longrightarrow> ie_index_at u x \<noteq> 0 \<Longrightarrow> ie_index_at u x = ie_index_at u y \<Longrightarrow> x = y" for x y
      using hash_ok_inj [OF assms(1), of x y] ix by simp
    show "x < length t \<Longrightarrow> y < length t \<Longrightarrow> ie_index_at u x \<noteq> 0 \<Longrightarrow>
        on_path (length t) (IH_LOCAL_HASH (ie_object (u ! ie_index_at u x)) (length t)) y x \<Longrightarrow> ie_index_at u y \<noteq> 0" for x y
      using hash_ok_clump [OF assms(1), of x y] ix [of x] ix [of y] home [of x] assms(2) by simp
  qed
  show "hashed u = hashed t"
    unfolding hashed_def using ix by (auto simp: assms(2))
qed

section \<open>The interface of a reverse table\<close>

text \<open>
  What the users of the local table rely on. \<open>members\<close> are the table positions entered so far;
  \<open>lookup\<close>, \<open>insert\<close> and \<open>delete\<close> return \<open>None\<close> if they do not end.
\<close>

locale reverse_table =
  fixes ok :: "'t \<Rightarrow> bool"
    and members :: "'t \<Rightarrow> nat set"
    and object :: "'t \<Rightarrow> nat \<Rightarrow> ipc_object_t"
    and lookup :: "'t \<Rightarrow> ipc_object_t \<Rightarrow> nat option option"
    and delete :: "'t \<Rightarrow> ipc_object_t \<Rightarrow> nat \<Rightarrow> 't option"
  assumes lookup_found: "ok t \<Longrightarrow> i \<in> members t \<Longrightarrow>
      \<exists>j\<in>members t. lookup t (object t i) = Some (Some j) \<and> object t j = object t i"
    and lookup_absent: "ok t \<Longrightarrow> obj \<notin> object t ` members t \<Longrightarrow> lookup t obj = Some None"
    and delete_member: "ok t \<Longrightarrow> i \<in> members t \<Longrightarrow>
      \<exists>t'. delete t (object t i) i = Some t' \<and> ok t' \<and> members t' = members t - {i} \<and> object t' = object t"
begin

lemma lookup_unique:
  assumes "ok t" "inj_on (object t) (members t)" "i \<in> members t"
  shows "lookup t (object t i) = Some (Some i)"
  using lookup_found [OF assms(1,3)] assms(2,3) by (metis inj_onD)

lemma delete_keeps_others:
  assumes "ok t" "inj_on (object t) (members t)" "i \<in> members t" "delete t (object t i) i = Some t'"
  shows "lookup t' (object t i) = Some None" "j \<in> members t \<Longrightarrow> j \<noteq> i \<Longrightarrow> lookup t' (object t j) = Some (Some j)"
proof -
  have t': "ok t'" "members t' = members t - {i}" "object t' = object t"
    using delete_member [OF assms(1,3)] assms(4) by auto
  have "object t i \<notin> object t' ` members t'"
    using assms(2,3) t' by (auto dest: inj_onD)
  then show "lookup t' (object t i) = Some None" by (rule lookup_absent [OF t'(1)])
  show "lookup t' (object t j) = Some (Some j)" if "j \<in> members t" "j \<noteq> i"
    using lookup_unique [OF t'(1), of j] that t' assms(2) by (auto intro: inj_on_subset)
qed

end

lemma same_entries_object: "same_entries t u \<Longrightarrow> x < length t \<Longrightarrow> ie_object (u ! x) = ie_object (t ! x)"
  by (simp add: same_entries_iff)

lemma hashed_less: "hash_ok t \<Longrightarrow> i \<in> hashed t \<Longrightarrow> 0 < i \<and> i < length t"
  using hash_ok_index by (auto simp: hashed_def)

text \<open>The object of a position, made total so that two tables with the same entries agree on it.\<close>

definition table_object :: "ipc_entry list \<Rightarrow> mach_port_index_t \<Rightarrow> ipc_object_t" where
  "table_object t i = (if i < length t then ie_object (t ! i) else IO_NULL)"

interpretation lh: reverse_table hash_ok hashed table_object ipc_hash_local_lookup ipc_hash_local_delete
proof unfold_locales
  show "\<exists>j\<in>hashed t. ipc_hash_local_lookup t (table_object t i) = Some (Some j) \<and> table_object t j = table_object t i"
    if "hash_ok t" "i \<in> hashed t" for t i
    using that(1)
  proof (cases rule: ipc_hash_local_lookup_correct [of t "table_object t i"])
    case (found j)
    then show ?thesis using hashed_less that by (auto simp: table_object_def)
  next
    case absent
    then show ?thesis using hashed_less that by (auto simp: table_object_def)
  qed
  show "ipc_hash_local_lookup t obj = Some None" if "hash_ok t" "obj \<notin> table_object t ` hashed t" for t obj
    using that(1)
  proof (cases rule: ipc_hash_local_lookup_correct [of t obj])
    case (found j)
    then show ?thesis using hashed_less that by (force simp: table_object_def)
  qed
  show "\<exists>t'. ipc_hash_local_delete t (table_object t i) i = Some t' \<and> hash_ok t' \<and> hashed t' = hashed t - {i} \<and>
      table_object t' = table_object t" if i: "hash_ok t" "i \<in> hashed t" for t i
  proof -
    have "ie_object (t ! i) = table_object t i" using hashed_less i by (auto simp: table_object_def)
    then obtain t' where t': "ipc_hash_local_delete t (table_object t i) i = Some t'" "hash_ok t'"
      "hashed t' = hashed t - {i}" "same_entries t t'"
      using ipc_hash_local_delete_correct [OF i] by blast
    then have "table_object t' = table_object t"
      by (auto simp: table_object_def fun_eq_iff same_entries_iff)
    with t' show ?thesis by blast
  qed
qed

text \<open>
  C23: Deleting a send right from the local reverse hash table, with the shifting of displaced
  entries that \<^verbatim>\<open>ipc_hash_local_delete\<close> does, always ends: afterwards the deleted object is not
  found any more, every other hashed object is still found at its own position, and the table is
  well formed again.
\<close>

theorem local_hash_delete_keeps_lookups:
  assumes "hash_ok table" "inj_on (table_object table) (hashed table)" "index \<in> hashed table"
  shows "\<exists>table'. ipc_hash_local_delete table (table_object table index) index = Some table' \<and> hash_ok table' \<and>
    ipc_hash_local_lookup table' (table_object table index) = Some None \<and>
    (\<forall>j\<in>hashed table - {index}. ipc_hash_local_lookup table' (table_object table j) = Some (Some j))"
  using lh.delete_member [OF assms(1,3)] lh.delete_keeps_others [OF assms] by blast

definition hash_example :: "ipc_entry list" where
  "hash_example =
     [\<lparr>ie_bits = 0, ie_object = 0, ie_request = 0, ie_index = 1\<rparr>,
      \<lparr>ie_bits = 0, ie_object = 0x300, ie_request = 0, ie_index = 2\<rparr>,
      \<lparr>ie_bits = 0, ie_object = 0x240, ie_request = 0, ie_index = 0\<rparr>]"

lemma hash_example_home: "IH_LOCAL_HASH 0x300 3 = 0" "IH_LOCAL_HASH 0x240 3 = 0"
  by (simp_all add: IH_LOCAL_HASH_def)

lemma hash_example_ok: "hash_ok hash_example"
proof -
  have n: "length hash_example = 3" by (simp add: hash_example_def)
  have ix: "ie_index_at hash_example 0 = 1" "ie_index_at hash_example 1 = 2" "ie_index_at hash_example 2 = 0"
    by (simp_all add: hash_example_def ie_index_at_def)
  have h: "ih_home hash_example 1 = 0" "ih_home hash_example 2 = 0"
    by (simp_all add: n hash_example_home) (simp_all add: hash_example_def hash_example_home)
  have c: "x = 0 \<or> x = 1 \<or> x = 2" if "x < 3" for x :: nat using that by linarith
  show ?thesis
  proof (rule hash_okI, unfold n)
    show "hash_example \<noteq> []" by (simp add: hash_example_def)
    show "ie_index_at hash_example x < 3" if "x < 3" for x using c [OF that] ix by auto
    show "x = y" if "x < 3" "y < 3" "ie_index_at hash_example x \<noteq> 0" "ie_index_at hash_example x = ie_index_at hash_example y" for x y
      using c [OF that(1)] c [OF that(2)] that(3,4) ix by auto
    show "ie_index_at hash_example y \<noteq> 0" if "x < 3" "y < 3" "ie_index_at hash_example x \<noteq> 0"
      "on_path 3 (IH_LOCAL_HASH (ie_object (hash_example ! ie_index_at hash_example x)) 3) y x" for x y
      using c [OF that(1)] c [OF that(2)] that(3,4) ix h n by (auto simp: on_path_def cdist_def)
  qed
qed

lemma hash_example_hashed: "hashed hash_example = {1, 2}"
  by (auto simp: hashed_def hash_example_def ie_index_at_def lessThan_Suc)

lemma hash_example_inj: "inj_on (table_object hash_example) {1, 2}"
  by (simp add: table_object_def hash_example_def)

theorem local_hash_delete_keeps_lookups_witness:
  "\<exists>table'. ipc_hash_local_delete hash_example 0x300 1 = Some table' \<and>
     ipc_hash_local_lookup table' 0x300 = Some None \<and> ipc_hash_local_lookup table' 0x240 = Some (Some 2)"
proof -
  have "table_object hash_example 1 = 0x300" "table_object hash_example 2 = 0x240"
    by (simp_all add: table_object_def hash_example_def)
  then show ?thesis
    using local_hash_delete_keeps_lookups [of hash_example 1]
    by (auto simp: hash_example_ok hash_example_hashed hash_example_inj)
qed

section \<open>The global table: buckets with move-to-front\<close>

text \<open>
  A node of a bucket stands for a tree entry: its \<open>ite_space\<close>, \<open>ite_name\<close> and \<open>ite_object\<close>. The
  first two identify the node as its address does in the code.
\<close>

type_synonym hash_node = "ipc_space_t \<times> mach_port_t \<times> ipc_object_t"

record ipc_hash_global =
  ipc_hash_global_mask :: natural_t
  ipc_hash_global_table :: "hash_node list list"

definition IH_GLOBAL_HASH :: "ipc_hash_global \<Rightarrow> ipc_space_t \<Rightarrow> ipc_object_t \<Rightarrow> nat" where
  "IH_GLOBAL_HASH g space obj = unat ((drop_bit 4 space + drop_bit 6 obj) AND ipc_hash_global_mask g)"

text \<open>The first node that satisfies \<open>P\<close>, and the bucket without it.\<close>

primrec bucket_unlink :: "(hash_node \<Rightarrow> bool) \<Rightarrow> hash_node list \<Rightarrow> (hash_node \<times> hash_node list) option" where
  "bucket_unlink P [] = None"
| "bucket_unlink P (this # next) =
     (if P this then Some (this, next) else map_option (apsnd (Cons this)) (bucket_unlink P next))"

definition set_bucket :: "ipc_hash_global \<Rightarrow> nat \<Rightarrow> hash_node list \<Rightarrow> ipc_hash_global" where
  "set_bucket g h b = g\<lparr>ipc_hash_global_table := (ipc_hash_global_table g)[h := b]\<rparr>"

definition ipc_hash_global_lookup ::
  "ipc_hash_global \<Rightarrow> ipc_space_t \<Rightarrow> ipc_object_t \<Rightarrow> mach_port_t option \<times> ipc_hash_global" where
  "ipc_hash_global_lookup g space obj =
     (let h = IH_GLOBAL_HASH g space obj in
      case bucket_unlink (\<lambda>(s, n, io). io = obj \<and> s = space) (ipc_hash_global_table g ! h) of
        None \<Rightarrow> (None, g)
      | Some (this, rest) \<Rightarrow> (Some (fst (snd this)), set_bucket g h (this # rest)))"

definition ipc_hash_global_insert ::
  "ipc_space \<Rightarrow> ipc_hash_global \<Rightarrow> ipc_space_t \<Rightarrow> ipc_object_t \<Rightarrow> mach_port_t \<Rightarrow> ipc_space \<times> ipc_hash_global" where
  "ipc_hash_global_insert is g space obj name =
     (let h = IH_GLOBAL_HASH g space obj in
      (is\<lparr>is_tree_hash := is_tree_hash is + 1\<rparr>,
       set_bucket g h ((space, name, obj) # ipc_hash_global_table g ! h)))"

definition ipc_hash_global_delete ::
  "ipc_space \<Rightarrow> ipc_hash_global \<Rightarrow> ipc_space_t \<Rightarrow> ipc_object_t \<Rightarrow> mach_port_t \<Rightarrow> ipc_space \<times> ipc_hash_global" where
  "ipc_hash_global_delete is g space obj name =
     (let h = IH_GLOBAL_HASH g space obj in
      (is\<lparr>is_tree_hash := is_tree_hash is - 1\<rparr>,
       case bucket_unlink (\<lambda>(s, n, io). s = space \<and> n = name) (ipc_hash_global_table g ! h) of
         None \<Rightarrow> g
       | Some (this, rest) \<Rightarrow> set_bucket g h rest))"

section \<open>Both tables together\<close>

definition ipc_hash_lookup ::
  "ipc_space \<Rightarrow> ipc_hash_global \<Rightarrow> ipc_space_t \<Rightarrow> ipc_object_t
     \<Rightarrow> ((mach_port_t \<times> ipc_entry_ref) option \<times> ipc_hash_global) option" where
  "ipc_hash_lookup is g space obj =
     (case ipc_hash_local_lookup (is_table is) obj of
        None \<Rightarrow> None
      | Some (Some index) \<Rightarrow>
          Some (Some (MACH_PORT_MAKEB (of_nat index) (ie_bits (is_table is ! index)), TABLE_ENTRY index), g)
      | Some None \<Rightarrow>
          if is_tree_hash is > 0
          then (case ipc_hash_global_lookup g space obj of (namep, g') \<Rightarrow>
                  Some (map_option (\<lambda>name. (name, TREE_ENTRY name)) namep, g'))
          else Some (None, g))"

text \<open>The test \<open>entry == &space->is_table[index]\<close> with \<open>index < space->is_table_size\<close>.\<close>

definition is_table_entry :: "ipc_space \<Rightarrow> mach_port_t \<Rightarrow> ipc_entry_ref \<Rightarrow> bool" where
  "is_table_entry is name entry \<longleftrightarrow>
     unat (MACH_PORT_INDEX name) < is_table_size is \<and> entry = TABLE_ENTRY (unat (MACH_PORT_INDEX name))"

definition ipc_hash_insert ::
  "ipc_space \<Rightarrow> ipc_hash_global \<Rightarrow> ipc_space_t \<Rightarrow> ipc_object_t \<Rightarrow> mach_port_t \<Rightarrow> ipc_entry_ref
     \<Rightarrow> (ipc_space \<times> ipc_hash_global) option" where
  "ipc_hash_insert is g space obj name entry =
     (if is_table_entry is name entry
      then map_option (\<lambda>table. (is\<lparr>is_table := table\<rparr>, g))
             (ipc_hash_local_insert (is_table is) obj (unat (MACH_PORT_INDEX name)))
      else Some (ipc_hash_global_insert is g space obj name))"

definition ipc_hash_delete ::
  "ipc_space \<Rightarrow> ipc_hash_global \<Rightarrow> ipc_space_t \<Rightarrow> ipc_object_t \<Rightarrow> mach_port_t \<Rightarrow> ipc_entry_ref
     \<Rightarrow> (ipc_space \<times> ipc_hash_global) option" where
  "ipc_hash_delete is g space obj name entry =
     (if is_table_entry is name entry
      then map_option (\<lambda>table. (is\<lparr>is_table := table\<rparr>, g))
             (ipc_hash_local_delete (is_table is) obj (unat (MACH_PORT_INDEX name)))
      else Some (ipc_hash_global_delete is g space obj name))"

text \<open>
  \<open>ghash_ok\<close>: one bucket per value of the hash function, every node in its own bucket, and no two
  nodes of a bucket for the same tree entry.
\<close>

definition node_key :: "hash_node \<Rightarrow> ipc_space_t \<times> mach_port_t" where
  "node_key x = (fst x, fst (snd x))"

definition ghash_ok :: "ipc_hash_global \<Rightarrow> bool" where
  "ghash_ok g \<longleftrightarrow> length (ipc_hash_global_table g) = Suc (unat (ipc_hash_global_mask g)) \<and>
     (\<forall>h<length (ipc_hash_global_table g). distinct (map node_key (ipc_hash_global_table g ! h)) \<and>
        (\<forall>(s, n, io)\<in>set (ipc_hash_global_table g ! h). IH_GLOBAL_HASH g s io = h))"

definition gnodes :: "ipc_hash_global \<Rightarrow> hash_node set" where
  "gnodes g = (\<Union>b\<in>set (ipc_hash_global_table g). set b)"

lemma IH_GLOBAL_HASH_less: "ghash_ok g \<Longrightarrow> IH_GLOBAL_HASH g s io < length (ipc_hash_global_table g)"
  by (simp add: ghash_ok_def IH_GLOBAL_HASH_def less_Suc_eq_le word_and_le1 flip: word_le_nat_alt)

lemma gnodes_bucket:
  assumes "ghash_ok g"
  shows "(s, n, io) \<in> gnodes g \<longleftrightarrow> (s, n, io) \<in> set (ipc_hash_global_table g ! IH_GLOBAL_HASH g s io)"
proof
  assume "(s, n, io) \<in> gnodes g"
  then obtain h where "h < length (ipc_hash_global_table g)" "(s, n, io) \<in> set (ipc_hash_global_table g ! h)"
    unfolding gnodes_def by (metis UN_E in_set_conv_nth)
  then show "(s, n, io) \<in> set (ipc_hash_global_table g ! IH_GLOBAL_HASH g s io)"
    using assms by (auto simp: ghash_ok_def)
next
  assume "(s, n, io) \<in> set (ipc_hash_global_table g ! IH_GLOBAL_HASH g s io)"
  then show "(s, n, io) \<in> gnodes g"
    using IH_GLOBAL_HASH_less [OF assms] nth_mem by (fastforce simp: gnodes_def)
qed

lemma bucket_unlink_None: "bucket_unlink P b = None \<longleftrightarrow> (\<forall>x\<in>set b. \<not> P x)"
  by (induction b) auto

lemma bucket_unlink_Some:
  "bucket_unlink P b = Some (x, rest) \<Longrightarrow> P x \<and> (\<exists>ys zs. b = ys @ x # zs \<and> rest = ys @ zs)"
proof (induction b arbitrary: rest)
  case (Cons y b)
  show ?case
  proof (cases "P y")
    case False
    then obtain r where "bucket_unlink P b = Some (x, r)" "rest = y # r" using Cons.prems by auto
    with Cons.IH [of r] show ?thesis by (metis append_Cons)
  qed (use Cons.prems in auto)
qed simp

definition node_home :: "ipc_hash_global \<Rightarrow> hash_node \<Rightarrow> nat" where
  "node_home g x = IH_GLOBAL_HASH g (fst x) (snd (snd x))"

lemma gnodes_home:
  "ghash_ok g \<Longrightarrow> x \<in> gnodes g \<longleftrightarrow> x \<in> set (ipc_hash_global_table g ! node_home g x)"
  by (cases x) (simp add: gnodes_bucket node_home_def)

lemma bucket_home:
  "ghash_ok g \<Longrightarrow> h < length (ipc_hash_global_table g) \<Longrightarrow> x \<in> set (ipc_hash_global_table g ! h) \<Longrightarrow> node_home g x = h"
  by (cases x) (auto simp: ghash_ok_def node_home_def)

lemma node_home_less: "ghash_ok g \<Longrightarrow> node_home g x < length (ipc_hash_global_table g)"
  by (simp add: node_home_def IH_GLOBAL_HASH_less)

lemma IH_GLOBAL_HASH_set_bucket [simp]: "IH_GLOBAL_HASH (set_bucket g h b) = IH_GLOBAL_HASH g"
  by (simp add: fun_eq_iff IH_GLOBAL_HASH_def set_bucket_def)

lemma node_home_set_bucket [simp]: "node_home (set_bucket g h b) = node_home g"
  by (simp add: fun_eq_iff node_home_def)

lemma set_bucket_correct:
  assumes "ghash_ok g" "h < length (ipc_hash_global_table g)" "\<forall>x\<in>set b. node_home g x = h" "distinct (map node_key b)"
  shows "ghash_ok (set_bucket g h b)"
    "x \<in> gnodes (set_bucket g h b) \<longleftrightarrow> (if node_home g x = h then x \<in> set b else x \<in> gnodes g)"
proof -
  show ok: "ghash_ok (set_bucket g h b)"
    using assms unfolding ghash_ok_def
    by (auto simp: set_bucket_def nth_list_update IH_GLOBAL_HASH_def node_home_def)
  show "x \<in> gnodes (set_bucket g h b) \<longleftrightarrow> (if node_home g x = h then x \<in> set b else x \<in> gnodes g)"
    using assms(2) by (simp add: gnodes_home [OF ok] gnodes_home [OF assms(1)]) (auto simp: set_bucket_def)
qed

lemma bucket_distinct: "ghash_ok g \<Longrightarrow> h < length (ipc_hash_global_table g) \<Longrightarrow> distinct (map node_key (ipc_hash_global_table g ! h))"
  by (simp add: ghash_ok_def)

lemma ipc_hash_global_lookup_correct:
  assumes "ghash_ok g" "ipc_hash_global_lookup g space obj = (namep, g')"
  shows "ghash_ok g'" "gnodes g' = gnodes g" "namep = Some name \<Longrightarrow> (space, name, obj) \<in> gnodes g"
    "namep = None \<Longrightarrow> (space, name, obj) \<notin> gnodes g"
proof -
  let ?h = "IH_GLOBAL_HASH g space obj" and ?P = "\<lambda>(s, n, io). io = obj \<and> s = space"
  let ?b = "ipc_hash_global_table g ! ?h"
  note h = IH_GLOBAL_HASH_less [OF assms(1), of space obj]
  have "ghash_ok g' \<and> gnodes g' = gnodes g \<and> (namep = Some name \<longrightarrow> (space, name, obj) \<in> gnodes g) \<and>
    (namep = None \<longrightarrow> (space, name, obj) \<notin> gnodes g)"
  proof (cases "bucket_unlink ?P ?b")
    case None
    then have "namep = None" "g' = g" using assms(2) by (simp_all add: ipc_hash_global_lookup_def Let_def)
    moreover have "(space, name, obj) \<notin> gnodes g"
      using None by (auto simp: bucket_unlink_None gnodes_bucket [OF assms(1)])
    ultimately show ?thesis using assms(1) by simp
  next
    case (Some r)
    obtain this rest where r: "r = (this, rest)" by fastforce
    obtain ys zs where b: "?P this" "?b = ys @ this # zs" "rest = ys @ zs"
      using bucket_unlink_Some Some r by blast
    have g': "namep = Some (fst (snd this))" "g' = set_bucket g ?h (this # rest)"
      using assms(2) Some r by (simp_all add: ipc_hash_global_lookup_def Let_def)
    have same: "set (this # rest) = set ?b" by (auto simp: b)
    have hm: "\<forall>x\<in>set (this # rest). node_home g x = ?h"
      using bucket_home [OF assms(1) h] same by blast
    have d: "distinct (map node_key (this # rest))"
      using bucket_distinct [OF assms(1) h] by (auto simp: b)
    note sb = set_bucket_correct [OF assms(1) h hm d]
    have "gnodes g' = gnodes g"
    proof (rule set_eqI)
      fix x show "x \<in> gnodes g' \<longleftrightarrow> x \<in> gnodes g"
        unfolding g'(2) sb(2) same using gnodes_home [OF assms(1), of x] by auto
    qed
    moreover have "this \<in> gnodes g"
      using gnodes_home [OF assms(1), of this] hm b(2) by simp
    then have "(space, fst (snd this), obj) \<in> gnodes g" using b(1) by (cases this) auto
    ultimately show ?thesis
      using sb(1) by (auto simp: g'(1) simp flip: g'(2))
  qed
  then show "ghash_ok g'" "gnodes g' = gnodes g" "namep = Some name \<Longrightarrow> (space, name, obj) \<in> gnodes g"
    "namep = None \<Longrightarrow> (space, name, obj) \<notin> gnodes g" by auto
qed

lemma ipc_hash_global_insert_correct:
  assumes "ghash_ok g" "\<And>io. (space, name, io) \<notin> gnodes g"
  shows "ghash_ok (snd (ipc_hash_global_insert is g space obj name))"
    "gnodes (snd (ipc_hash_global_insert is g space obj name)) = insert (space, name, obj) (gnodes g)"
proof -
  let ?h = "IH_GLOBAL_HASH g space obj"
  let ?b = "ipc_hash_global_table g ! ?h"
  note h = IH_GLOBAL_HASH_less [OF assms(1), of space obj]
  have hm: "\<forall>x\<in>set ((space, name, obj) # ?b). node_home g x = ?h"
    using bucket_home [OF assms(1) h] by (simp add: node_home_def)
  have "node_key (space, name, obj) \<notin> node_key ` set ?b"
  proof
    assume "node_key (space, name, obj) \<in> node_key ` set ?b"
    then obtain io where x: "(space, name, io) \<in> set ?b" by (auto simp: node_key_def)
    then have "node_home g (space, name, io) = ?h" using bucket_home [OF assms(1) h] by blast
    then show False using x gnodes_home [OF assms(1), of "(space, name, io)"] assms(2) [of io] by simp
  qed
  then have d: "distinct (map node_key ((space, name, obj) # ?b))"
    using bucket_distinct [OF assms(1) h] by simp
  note sb = set_bucket_correct [OF assms(1) h hm d]
  show "ghash_ok (snd (ipc_hash_global_insert is g space obj name))"
    using sb(1) by (simp add: ipc_hash_global_insert_def Let_def)
  have "x \<in> gnodes (set_bucket g ?h ((space, name, obj) # ?b)) \<longleftrightarrow> x \<in> insert (space, name, obj) (gnodes g)" for x
    unfolding sb(2) using gnodes_home [OF assms(1), of x] by (auto simp: node_home_def)
  then show "gnodes (snd (ipc_hash_global_insert is g space obj name)) = insert (space, name, obj) (gnodes g)"
    by (auto simp: ipc_hash_global_insert_def Let_def)
qed

lemma ipc_hash_global_delete_correct:
  assumes "ghash_ok g" "(space, name, obj) \<in> gnodes g"
  shows "ghash_ok (snd (ipc_hash_global_delete is g space obj name))"
    "gnodes (snd (ipc_hash_global_delete is g space obj name)) = gnodes g - {(space, name, obj)}"
proof -
  let ?h = "IH_GLOBAL_HASH g space obj" and ?P = "\<lambda>(s, n, io). s = space \<and> n = name"
  let ?b = "ipc_hash_global_table g ! ?h"
  note h = IH_GLOBAL_HASH_less [OF assms(1), of space obj]
  have mem: "(space, name, obj) \<in> set ?b" using assms(2) gnodes_bucket [OF assms(1)] by simp
  then obtain this rest where u: "bucket_unlink ?P ?b = Some (this, rest)"
    using bucket_unlink_None [of ?P ?b] by fastforce
  then obtain ys zs where b: "?P this" "?b = ys @ this # zs" "rest = ys @ zs"
    using bucket_unlink_Some by blast
  have dk: "distinct (map node_key ?b)" by (rule bucket_distinct [OF assms(1) h])
  have "this = (space, name, obj)"
    using mem b(1) dk unfolding b(2) by (auto simp: node_key_def rev_image_eqI)
  then have rest: "set rest = set ?b - {(space, name, obj)}"
    using dk unfolding b(2,3) by (auto simp: distinct_map)
  have hm: "\<forall>x\<in>set rest. node_home g x = ?h"
    using bucket_home [OF assms(1) h] rest by blast
  have d: "distinct (map node_key rest)" using dk by (auto simp: b)
  note sb = set_bucket_correct [OF assms(1) h hm d]
  show "ghash_ok (snd (ipc_hash_global_delete is g space obj name))"
    using sb(1) u by (simp add: ipc_hash_global_delete_def Let_def)
  have "x \<in> gnodes (set_bucket g ?h rest) \<longleftrightarrow> x \<in> gnodes g - {(space, name, obj)}" for x
    unfolding sb(2) rest using gnodes_home [OF assms(1), of x] by (auto simp: node_home_def)
  then show "gnodes (snd (ipc_hash_global_delete is g space obj name)) = gnodes g - {(space, name, obj)}"
    using u by (auto simp: ipc_hash_global_delete_def Let_def)
qed

section \<open>Initialisation of the global table\<close>

text \<open>
  The loop that rounds the size up to a power of two; 32 rounds set every bit, so the fuel of 32
  is never exhausted.
\<close>

primrec hash_round :: "nat \<Rightarrow> natural_t \<Rightarrow> natural_t \<Rightarrow> natural_t option" where
  "hash_round 0 b hmask = None"
| "hash_round (Suc fuel) b hmask =
     (let hmask = hmask OR b in
      if (hmask + 1) AND hmask = 0 then Some hmask else hash_round fuel (push_bit 1 b) hmask)"

definition ipc_hash_init_size :: "natural_t \<Rightarrow> natural_t \<Rightarrow> natural_t" where
  "ipc_hash_init_size configured ipc_tree_entry_max =
     (if configured = 0
      then (let sz = drop_bit 8 ipc_tree_entry_max in if sz < 32 then 32 else sz)
      else configured)"

definition ipc_hash_init :: "natural_t \<Rightarrow> natural_t \<Rightarrow> ipc_hash_global option" where
  "ipc_hash_init configured ipc_tree_entry_max =
     (let sz = ipc_hash_init_size configured ipc_tree_entry_max in
      map_option (\<lambda>hmask. \<lparr>ipc_hash_global_mask = hmask, ipc_hash_global_table = replicate (unat (hmask + 1)) []\<rparr>)
        (if sz AND (sz - 1) \<noteq> 0 then hash_round 32 1 (sz - 1) else Some (sz - 1)))"

lemma push_bit_1_exp: "push_bit 1 (2 ^ j) = (2 ^ Suc j :: natural_t)"
  by (simp add: push_bit_eq_mult)

lemma or_mask_Suc: "(m OR mask j) OR 2 ^ j = m OR mask (Suc j)" for m :: natural_t
  by (rule bit_word_eqI) (auto simp: bit_simps less_Suc_eq)

lemma mask_and_succ: "(mask k + 1) AND mask k = (0 :: natural_t)"
proof -
  have "(mask k + 1 :: natural_t) = push_bit k 1"
    by (simp add: mask_eq_exp_minus_1 push_bit_eq_mult)
  then show ?thesis
    by (simp only:) (rule bit_word_eqI, auto simp: bit_simps)
qed

lemma hash_round_Some:
  assumes "m < 2 ^ k" "j < k" "k \<le> 32" "k - j \<le> fuel"
  shows "\<exists>w. hash_round fuel (2 ^ j) (m OR mask j) = Some w \<and> (w + 1) AND w = 0 \<and> m \<le> w \<and> w \<le> mask k"
  using assms
proof (induction fuel arbitrary: j)
  case (Suc fuel)
  let ?w = "m OR mask (Suc j)"
  have mk: "n < k" if "bit m n" for n
    using that less_mask_eq [OF Suc.prems(1)] by (metis bit_and_iff bit_mask_iff)
  have le: "m \<le> ?w" by (rule le_word_or2)
  have "?w AND mask k = ?w"
    using Suc.prems(2) by (intro bit_word_eqI) (auto simp: bit_simps dest: mk)
  then have wk: "?w \<le> mask k" by (metis word_and_le1)
  show ?case
  proof (cases "(?w + 1) AND ?w = 0")
    case True
    then show ?thesis using le wk by (simp add: or_mask_Suc Let_def)
  next
    case False
    have "Suc j \<noteq> k"
    proof
      assume "Suc j = k"
      then have "?w = mask k" by (intro bit_word_eqI) (auto simp: bit_simps dest: mk)
      with False mask_and_succ show False by simp
    qed
    then have "Suc j < k" using Suc.prems(2) by simp
    with Suc.IH [of "Suc j"] Suc.prems False show ?thesis
      by (simp add: or_mask_Suc Let_def mult.commute)
  qed
qed simp

lemma ipc_hash_init_correct:
  assumes "configured \<le> 0x80000000"
  shows "\<exists>g. ipc_hash_init configured ipc_tree_entry_max = Some g \<and> ghash_ok g \<and> gnodes g = {} \<and>
    unat (ipc_hash_init_size configured ipc_tree_entry_max) \<le> length (ipc_hash_global_table g) \<and>
    (ipc_hash_global_mask g + 1) AND ipc_hash_global_mask g = 0"
proof -
  let ?s = "ipc_hash_init_size configured ipc_tree_entry_max"
  have "drop_bit 8 ipc_tree_entry_max \<le> 0x80000000"
    using unsigned_less [of ipc_tree_entry_max, where 'a = nat]
    by (simp add: word_le_nat_alt unsigned_drop_bit_eq) (simp add: drop_bit_eq_div take_bit_nat_eq_self)
  then have s: "0 < ?s" "?s \<le> 0x80000000"
    using assms by (auto simp: ipc_hash_init_size_def Let_def simp flip: word_neq_0_conv)
  have m: "?s - 1 < 2 ^ 31"
    using s by (simp add: word_less_nat_alt word_le_nat_alt unat_sub_if')
  obtain w where w: "(if ?s AND (?s - 1) \<noteq> 0 then hash_round 32 1 (?s - 1) else Some (?s - 1)) = Some w"
    "(w + 1) AND w = 0" "?s - 1 \<le> w" "w \<le> mask 31"
  proof (cases "?s AND (?s - 1) \<noteq> 0")
    case True
    with hash_round_Some [OF m, of 0 32] that show thesis by auto
  next
    case False
    then show thesis using m by (intro that [of "?s - 1"]) (auto simp: mask_eq_exp_minus_1 word_less_nat_alt word_le_nat_alt)
  qed
  have "unat w < 2 ^ 31"
    using w(4) by (simp add: word_le_nat_alt mask_eq_exp_minus_1)
  then have n: "unat (w + 1) = Suc (unat w)"
    by (simp add: unat_word_ariths)
  moreover have "unat ?s = Suc (unat (?s - 1))"
    using s(1) unat_minus_one [of ?s] unat_gt_0 [of ?s] by (simp add: word_neq_0_conv)
  ultimately have "unat ?s \<le> unat (w + 1)"
    using w(3) by (simp add: word_le_nat_alt)
  then show ?thesis
    using w(1,2) n by (simp add: ipc_hash_init_def Let_def ghash_ok_def gnodes_def del: replicate_Suc)
qed

end
