(* ===== verification/IPC_Entry.thy ===== *)
theory IPC_Entry
  imports IPC_Hash
begin

text \<open>
  Allocation of the entries of a capability space (\<^verbatim>\<open>ipc/ipc_entry.c\<close>): the table with its
  free list, the splay tree for the names that do not fit it, and the growth of the table.

  The routines run with the space locked. Where the code drops the lock (to allocate memory, to
  free the old table, to wait for another thread that grows the table) the model consumes a
  \<open>window\<close>: whether the allocation succeeds, and what other threads did to the space meanwhile.
  A routine that is given too few windows has not returned yet: \<open>None\<close>. \<open>None\<close> is also the
  value of a routine that loops for ever in the reverse hash table or in the free list.
\<close>

section \<open>Reading and writing entries through a pointer\<close>

definition ie_at :: "ipc_space \<Rightarrow> ipc_entry_ref \<Rightarrow> ipc_entry" where
  "ie_at is entry =
     (case entry of TABLE_ENTRY i \<Rightarrow> is_table is ! i
      | TREE_ENTRY n \<Rightarrow> the (map_of (ist_inorder (is_tree is)) n))"

definition ie_write :: "ipc_space \<Rightarrow> ipc_entry_ref \<Rightarrow> (ipc_entry \<Rightarrow> ipc_entry) \<Rightarrow> ipc_space" where
  "ie_write is entry f =
     (case entry of TABLE_ENTRY i \<Rightarrow> is\<lparr>is_table := (is_table is)[i := f (is_table is ! i)]\<rparr>
      | TREE_ENTRY n \<Rightarrow> is\<lparr>is_tree := ist_write (is_tree is) n f\<rparr>)"

record window =
  w_alloc :: bool
  w_others :: "ipc_space \<times> ipc_hash_global \<Rightarrow> ipc_space \<times> ipc_hash_global"

definition sizeof_ipc_entry :: nat where "sizeof_ipc_entry = 16"
definition sizeof_ipc_tree_entry :: nat where "sizeof_ipc_tree_entry = 32"

section \<open>Lookup\<close>

definition ipc_entry_tree_collision :: "ipc_space \<Rightarrow> mach_port_t \<Rightarrow> bool \<times> ipc_space" where
  "ipc_entry_tree_collision is name =
     (case ipc_splay_tree_bounds (is_tree is) name of ((lower, upper), tree) \<Rightarrow>
        (lower \<noteq> NOT 0 \<and> MACH_PORT_INDEX lower = MACH_PORT_INDEX name \<or>
         upper \<noteq> 0 \<and> MACH_PORT_INDEX upper = MACH_PORT_INDEX name,
         is\<lparr>is_tree := tree\<rparr>))"

definition entry_tree_lookup :: "ipc_space \<Rightarrow> mach_port_t \<Rightarrow> ipc_entry_ref option \<times> ipc_space" where
  "entry_tree_lookup is name =
     (case ipc_splay_tree_lookup (is_tree is) name of (tentry, tree) \<Rightarrow>
        (map_option (\<lambda>_. TREE_ENTRY name) tentry, is\<lparr>is_tree := tree\<rparr>))"

text \<open>In a fast space the table is read without a bounds check, as the code does.\<close>

definition ipc_entry_lookup :: "ipc_space \<Rightarrow> mach_port_t \<Rightarrow> ipc_entry_ref option \<times> ipc_space" where
  "ipc_entry_lookup is name =
     (let index = unat (MACH_PORT_INDEX name); bits = ie_bits (is_table is ! index) in
      if is_fast_space is then
        (if IE_BITS_GEN bits \<noteq> MACH_PORT_GEN name \<or> IE_BITS_TYPE bits = MACH_PORT_TYPE_NONE
         then None else Some (TABLE_ENTRY index), is)
      else if index < is_table_size is then
        (if IE_BITS_GEN bits \<noteq> MACH_PORT_GEN name then
           (if bits AND IE_BITS_COLLISION \<noteq> 0 then entry_tree_lookup is name else (None, is))
         else if IE_BITS_TYPE bits = MACH_PORT_TYPE_NONE then (None, is)
         else (Some (TABLE_ENTRY index), is))
      else if is_tree_total is = 0 then (None, is)
      else entry_tree_lookup is name)"

section \<open>Allocation\<close>

text \<open>\<open>None\<close> is \<open>KERN_NO_SPACE\<close>; the flag \<open>is_send_once\<close> of the code is not used by it.\<close>

definition ipc_entry_get :: "ipc_space \<Rightarrow> (mach_port_t \<times> ipc_entry_ref \<times> ipc_space) option" where
  "ipc_entry_get is =
     (let table = is_table is; first_free = ie_next (table ! 0) in
      if first_free = 0 then None
      else
        let free_entry = table ! first_free;
            table = table[0 := (table ! 0)\<lparr>ie_request := ie_next free_entry\<rparr>];
            gen = IE_BITS_NEW_GEN (ie_bits free_entry);
            table = table[first_free := free_entry\<lparr>ie_bits := gen, ie_request := 0\<rparr>]
        in Some (MACH_PORT_MAKE (of_nat first_free) gen, TABLE_ENTRY first_free, is\<lparr>is_table := table\<rparr>))"

section \<open>Growing the table\<close>

text \<open>Puts the pure send rights at the given positions into the local reverse table.\<close>

primrec grow_rehash :: "mach_port_index_t list \<Rightarrow> ipc_entry list \<Rightarrow> ipc_entry list option" where
  "grow_rehash [] table = Some table"
| "grow_rehash (i # is) table =
     (if IE_BITS_TYPE (ie_bits (table ! i)) = MACH_PORT_TYPE_SEND
      then (case ipc_hash_local_insert table (ie_object (table ! i)) i of
              None \<Rightarrow> None
            | Some table' \<Rightarrow> grow_rehash is table')
      else grow_rehash is table)"

text \<open>
  The body of the traversal that moves entries from the tree into the table; it answers with the
  \<open>delete\<close> flag.
\<close>

definition grow_move ::
  "ipc_space_t \<Rightarrow> (ipc_space \<times> ipc_hash_global) option \<Rightarrow> mach_port_t \<Rightarrow> ipc_entry
     \<Rightarrow> bool \<times> (ipc_space \<times> ipc_hash_global) option" where
  "grow_move space st name tentry =
     (case st of None \<Rightarrow> (False, None)
      | Some (is, g) \<Rightarrow>
         (let gen = MACH_PORT_GEN name; index = unat (MACH_PORT_INDEX name);
              bits = ie_bits (is_table is ! index) in
          if bits \<noteq> 0
          then (False, Some (is\<lparr>is_table := (is_table is)
                  [index := (is_table is ! index)\<lparr>ie_bits := bits OR IE_BITS_COLLISION\<rparr>]\<rparr>, g))
          else
            let bits = ie_bits tentry; obj = ie_object tentry;
                is = is\<lparr>is_table := (is_table is)[index := (is_table is ! index)
                         \<lparr>ie_bits := bits OR gen, ie_object := obj, ie_request := ie_request tentry\<rparr>]\<rparr>
            in if IE_BITS_TYPE bits = MACH_PORT_TYPE_SEND
               then (case ipc_hash_global_delete is g space obj name of (is, g) \<Rightarrow>
                       (case ipc_hash_local_insert (is_table is) obj index of
                          None \<Rightarrow> (False, None)
                        | Some table \<Rightarrow>
                            (True, Some (is\<lparr>is_table := table, is_tree_total := is_tree_total is - 1\<rparr>, g))))
               else (True, Some (is\<lparr>is_tree_total := is_tree_total is - 1\<rparr>, g))))"

text \<open>The body of the traversal that counts entries for \<open>is_tree_small\<close>.\<close>

definition grow_count :: "nat \<times> natural_t \<Rightarrow> mach_port_t \<Rightarrow> ipc_entry \<Rightarrow> bool \<times> nat \<times> natural_t" where
  "grow_count st name tentry =
     (case st of (nosmall, index) \<Rightarrow>
        (False, if MACH_PORT_INDEX name \<noteq> index then (nosmall + 1, MACH_PORT_INDEX name) else st))"

text \<open>Transfers entries from the tree to the table and recomputes \<open>is_tree_small\<close>.\<close>

definition grow_tree ::
  "ipc_space_t \<Rightarrow> ipc_space \<Rightarrow> ipc_hash_global \<Rightarrow> nat \<Rightarrow> nat \<Rightarrow> nat \<Rightarrow> (ipc_space \<times> ipc_hash_global) option" where
  "grow_tree space is g osize sz nsize =
     (case ipc_splay_tree_split (is_tree is) (MACH_PORT_MAKE (of_nat nsize) 0) of (tree, small) \<Rightarrow>
      case ipc_splay_tree_split small (MACH_PORT_MAKE (of_nat sz) 0) of (small, move) \<Rightarrow>
      case ipc_splay_tree_split move (MACH_PORT_MAKE (of_nat osize) 0) of (move, ignore) \<Rightarrow>
      case ipc_splay_traverse (grow_move space) (Some (is, g)) move of
        Some (Some (is, g), move) \<Rightarrow>
          (case ipc_splay_traverse grow_count (0, 0) small of
             Some ((nosmall, index), small) \<Rightarrow>
               Some (is\<lparr>is_tree_small := nosmall,
                        is_tree := ipc_splay_tree_join (ipc_splay_tree_join
                          (ipc_splay_tree_join tree small) move) ignore\<rparr>, g)
           | None \<Rightarrow> None)
      | _ \<Rightarrow> None)"

text \<open>Adds the unused entries of the new part to the free list, the positions given last first.\<close>

primrec grow_free :: "mach_port_index_t list \<Rightarrow> ipc_entry list \<Rightarrow> mach_port_index_t \<Rightarrow> ipc_entry list \<times> mach_port_index_t" where
  "grow_free [] table free_index = (table, free_index)"
| "grow_free (i # is) table free_index =
     (if ie_bits (table ! i) = 0
      then grow_free is (table[i := (table ! i)\<lparr>ie_bits := IE_BITS_GEN_MASK, ie_request := free_index\<rparr>]) i
      else grow_free is table free_index)"

definition ie_zero :: ipc_entry where
  "ie_zero = \<lparr>ie_bits = 0, ie_object = IO_NULL, ie_request = 0, ie_index = 0\<rparr>"

text \<open>
  What \<open>ipc_entry_grow_table\<close> does between taking the lock again with a new table and dropping it
  to free the old one: \<open>its\<close> and \<open>nits\<close> are positions in \<open>ipc_table_entries\<close>.
\<close>

definition grow_install ::
  "nat list \<Rightarrow> ipc_space_t \<Rightarrow> ipc_space \<Rightarrow> ipc_hash_global \<Rightarrow> nat \<Rightarrow> nat \<Rightarrow> (ipc_space \<times> ipc_hash_global) option" where
  "grow_install ipc_table_entries space is g osize its =
     (let nits = its + 1; sz = ipc_table_entries ! its; nsize = ipc_table_entries ! nits;
          table = map (\<lambda>e. e\<lparr>ie_index := 0\<rparr>) (take osize (is_table is)) @ replicate (sz - osize) ie_zero
      in case grow_rehash [0..<osize] table of
           None \<Rightarrow> None
         | Some table \<Rightarrow>
            (let is = is\<lparr>is_table := table, is_table_next := nits\<rparr> in
             case (if is_tree_total is > 0 then grow_tree space is g osize sz nsize else Some (is, g)) of
               None \<Rightarrow> None
             | Some (is, g) \<Rightarrow>
                 (case grow_free (rev [osize..<sz]) (is_table is) (ie_next (is_table is ! 0)) of
                    (table, free_index) \<Rightarrow>
                      Some (is\<lparr>is_table := table[0 := (table ! 0)\<lparr>ie_request := free_index\<rparr>]\<rparr>, g))))"

text \<open>The search for the size that fits \<open>target\<close>; the value is \<open>psize\<close> and \<open>its\<close>.\<close>

function grow_search :: "nat list \<Rightarrow> nat \<Rightarrow> nat \<Rightarrow> nat \<Rightarrow> nat \<times> nat" where
  "grow_search ipc_table_entries target psize its =
     (if its < length ipc_table_entries \<and> psize \<noteq> ipc_table_entries ! its \<and> target > ipc_table_entries ! its
      then grow_search ipc_table_entries target (ipc_table_entries ! its) (Suc its)
      else (psize, its))"
  by pat_completeness auto
termination
  by (relation "measure (\<lambda>(tab, target, psize, its). length tab - its)") auto

declare grow_search.simps [simp del]

definition ITS_SIZE_NONE :: natural_t where "ITS_SIZE_NONE = - 1"

text \<open>
  The result of growing: the return code, whether the space is still locked, and the windows left.
\<close>

type_synonym grow_result = "(kern_return_t \<times> bool \<times> ipc_space \<times> ipc_hash_global \<times> window list) option"

text \<open>
  \<open>target_size\<close> is an \<open>int\<close> that the comparisons convert to unsigned. An iteration that grows the
  table takes two windows, for the new table and for the release of the old one.
\<close>

fun ipc_entry_grow_table ::
  "nat list \<Rightarrow> ipc_space_t \<Rightarrow> ipc_space \<Rightarrow> ipc_hash_global \<Rightarrow> natural_t \<Rightarrow> window list \<Rightarrow> grow_result" where
  "ipc_entry_grow_table ipc_table_entries space is g target ws =
     (if is_growing is then
        (case ws of [] \<Rightarrow> None
         | w # ws \<Rightarrow> (case w_others w (is, g) of (is, g) \<Rightarrow> Some (KERN_SUCCESS, True, is, g, ws)))
      else
        let oits = is_table_next is - 1; osize = ipc_table_entries ! oits;
            (psize, its) =
              (if target \<noteq> ITS_SIZE_NONE
               then grow_search ipc_table_entries (unat target) osize (is_table_next is)
               else (osize, is_table_next is));
            sz = ipc_table_entries ! its; nits = its + 1; nsize = ipc_table_entries ! nits
        in if target \<noteq> ITS_SIZE_NONE \<and> unat target \<le> osize then Some (KERN_SUCCESS, False, is, g, ws)
           else if target \<noteq> ITS_SIZE_NONE \<and> psize = sz then Some (KERN_NO_SPACE, False, is, g, ws)
           else if osize = sz then Some (KERN_NO_SPACE, False, is, g, ws)
           else case ws of
              [] \<Rightarrow> None
            | w1 # ws1 \<Rightarrow>
               (case w_others w1 (is\<lparr>is_growing := True\<rparr>, g) of (is, g) \<Rightarrow>
                  let is = is\<lparr>is_growing := False\<rparr> in
                  if \<not> w_alloc w1 then Some (KERN_RESOURCE_SHORTAGE, False, is, g, ws1)
                  else case ws1 of
                     [] \<Rightarrow> None
                   | w2 # ws2 \<Rightarrow>
                      if \<not> is_active is
                      then (case w_others w2 (is, g) of (is, g) \<Rightarrow> Some (KERN_SUCCESS, True, is, g, ws2))
                      else (case grow_install ipc_table_entries space is g osize its of
                              None \<Rightarrow> None
                            | Some st \<Rightarrow>
                               (case w_others w2 st of (is, g) \<Rightarrow>
                                  if \<not> is_active is \<or> is_table_next is \<noteq> nits then Some (KERN_SUCCESS, True, is, g, ws2)
                                  else if is_tree_small is > 0 \<and>
                                    (nsize - sz) * sizeof_ipc_entry < is_tree_small is * sizeof_ipc_tree_entry
                                  then ipc_entry_grow_table ipc_table_entries space is g target ws2
                                  else Some (KERN_SUCCESS, True, is, g, ws2)))))"

declare ipc_entry_grow_table.simps [simp del]

lemma ipc_entry_grow_table_windows:
  "ipc_entry_grow_table tab space is g target ws = Some (kr, locked, is', g', ws') \<Longrightarrow>
     length ws' \<le> length ws \<and> (kr = KERN_SUCCESS \<and> target = ITS_SIZE_NONE \<longrightarrow> length ws' < length ws)"
proof (induction "length ws" arbitrary: "is" g ws target kr rule: less_induct)
  case less
  have IH: "length ws' \<le> length vs" if "ipc_entry_grow_table tab space js h t vs = Some (k, locked, is', g', ws')"
    "length vs < length ws" for js h vs t k
    using less.hyps [OF that(2) that(1)] by simp
  show ?case
    by (insert less.prems, subst (asm) ipc_entry_grow_table.simps)
      (auto simp: Let_def le_SucI less_SucI split: if_splits list.splits prod.splits option.splits dest!: IH)
qed

section \<open>Allocation, growing the table if needed\<close>

type_synonym alloc_result =
  "(kern_return_t \<times> (mach_port_t \<times> ipc_entry_ref) option \<times> ipc_space \<times> ipc_hash_global \<times> window list) option"

function ipc_entry_alloc ::
  "nat list \<Rightarrow> ipc_space_t \<Rightarrow> ipc_space \<Rightarrow> ipc_hash_global \<Rightarrow> window list \<Rightarrow> alloc_result" where
  "ipc_entry_alloc ipc_table_entries space is g ws =
     (if \<not> is_active is then Some (KERN_INVALID_TASK, None, is, g, ws)
      else case ipc_entry_get is of
        Some (name, entry, is) \<Rightarrow> Some (KERN_SUCCESS, Some (name, entry), is, g, ws)
      | None \<Rightarrow>
         (case ipc_entry_grow_table ipc_table_entries space is g ITS_SIZE_NONE ws of
            None \<Rightarrow> None
          | Some (kr, locked, is, g, ws') \<Rightarrow>
              if kr \<noteq> KERN_SUCCESS then Some (kr, None, is, g, ws')
              else ipc_entry_alloc ipc_table_entries space is g ws'))"
  by pat_completeness auto
termination
  by (relation "measure (\<lambda>(tab, space, is, g, ws). length ws)") (auto dest: ipc_entry_grow_table_windows)

declare ipc_entry_alloc.simps [simp del]

text \<open>
  The loop that looks for the predecessor of \<open>index\<close> in the free list. An entry that is not on
  the list makes it go around for ever; the list is shorter than the table.
\<close>

primrec free_list_pred :: "nat \<Rightarrow> ipc_entry list \<Rightarrow> mach_port_index_t \<Rightarrow> mach_port_index_t \<Rightarrow> mach_port_index_t option" where
  "free_list_pred 0 table index free_index = None"
| "free_list_pred (Suc fuel) table index free_index =
     (if ie_next (table ! free_index) = index then Some free_index
      else free_list_pred fuel table index (ie_next (table ! free_index)))"

text \<open>One round of \<open>ipc_entry_alloc_name\<close>, up to the point where it returns or drops the lock.\<close>

datatype alloc_name_outcome =
    AN_RETURN kern_return_t "ipc_entry_ref option" ipc_space
  | AN_GROW ipc_space
  | AN_ITE_ALLOC ipc_space
  | AN_STUCK

definition ite_insert_new :: "nat list \<Rightarrow> ipc_space \<Rightarrow> mach_port_t \<Rightarrow> ipc_space" where
  "ite_insert_new ipc_table_entries is name =
     (let index = unat (MACH_PORT_INDEX name);
          is = is\<lparr>is_tree_total := is_tree_total is + 1\<rparr>;
          is = (if index < is_table_size is
                then is\<lparr>is_table := (is_table is)[index := (is_table is ! index)
                       \<lparr>ie_bits := ie_bits (is_table is ! index) OR IE_BITS_COLLISION\<rparr>]\<rparr>
                else if index < ipc_table_entries ! is_table_next is
                then (case ipc_entry_tree_collision is name of (collision, is) \<Rightarrow>
                        if collision then is else is\<lparr>is_tree_small := is_tree_small is + 1\<rparr>)
                else is)
      in is\<lparr>is_tree := ipc_splay_tree_insert (is_tree is) name ie_zero\<rparr>)"

definition alloc_name_step :: "nat list \<Rightarrow> ipc_space \<Rightarrow> mach_port_t \<Rightarrow> bool \<Rightarrow> alloc_name_outcome" where
  "alloc_name_step ipc_table_entries is name tree_entry =
     (let index = unat (MACH_PORT_INDEX name); gen = MACH_PORT_GEN name;
          table = is_table is; entry = table ! index; in_table = (0 < index \<and> index < is_table_size is)
      in if \<not> is_active is then AN_RETURN KERN_INVALID_TASK None is
         else if in_table \<and> IE_BITS_TYPE (ie_bits entry) \<noteq> 0 \<and> IE_BITS_GEN (ie_bits entry) = gen
         then AN_RETURN KERN_SUCCESS (Some (TABLE_ENTRY index)) is
         else if in_table \<and> IE_BITS_TYPE (ie_bits entry) = 0
         then (case free_list_pred (length table) table index 0 of
                 None \<Rightarrow> AN_STUCK
               | Some free_index \<Rightarrow>
                   (let table = table[free_index := (table ! free_index)\<lparr>ie_request := ie_next entry\<rparr>];
                        table = table[index := (table ! index)\<lparr>ie_bits := gen, ie_request := 0\<rparr>]
                    in AN_RETURN KERN_SUCCESS (Some (TABLE_ENTRY index)) (is\<lparr>is_table := table\<rparr>)))
         else if is_fast_space is then AN_RETURN KERN_FAILURE None is
         else
           let (tentry, is) = (if is_tree_total is > 0 then entry_tree_lookup is name else (None, is));
               its_size = ipc_table_entries ! is_table_next is
           in if tentry \<noteq> None then AN_RETURN KERN_SUCCESS tentry is
              else if is_table_size is \<le> index \<and> index < its_size \<and>
                (its_size - is_table_size is) * sizeof_ipc_entry < (is_tree_small is + 1) * sizeof_ipc_tree_entry
              then AN_GROW is
              else if tree_entry
              then AN_RETURN KERN_SUCCESS (Some (TREE_ENTRY name)) (ite_insert_new ipc_table_entries is name)
              else AN_ITE_ALLOC is)"

type_synonym alloc_name_result =
  "(kern_return_t \<times> ipc_entry_ref option \<times> ipc_space \<times> ipc_hash_global \<times> window list) option"

function alloc_name_loop ::
  "nat list \<Rightarrow> ipc_space_t \<Rightarrow> mach_port_t \<Rightarrow> ipc_space \<Rightarrow> ipc_hash_global \<Rightarrow> bool \<Rightarrow> window list \<Rightarrow> alloc_name_result" where
  "alloc_name_loop ipc_table_entries space name is g tree_entry ws =
     (case alloc_name_step ipc_table_entries is name tree_entry of
        AN_RETURN kr entry is \<Rightarrow> Some (kr, entry, is, g, ws)
      | AN_STUCK \<Rightarrow> None
      | AN_GROW is \<Rightarrow>
         (case ipc_entry_grow_table ipc_table_entries space is g ITS_SIZE_NONE ws of
            None \<Rightarrow> None
          | Some (kr, locked, is, g, ws') \<Rightarrow>
              if kr \<noteq> KERN_SUCCESS then Some (kr, None, is, g, ws')
              else alloc_name_loop ipc_table_entries space name is g tree_entry ws')
      | AN_ITE_ALLOC is \<Rightarrow>
         (case ws of [] \<Rightarrow> None
          | w # ws' \<Rightarrow>
             (case w_others w (is, g) of (is, g) \<Rightarrow>
                if \<not> w_alloc w then Some (KERN_RESOURCE_SHORTAGE, None, is, g, ws')
                else alloc_name_loop ipc_table_entries space name is g True ws')))"
  by pat_completeness auto
termination
  by (relation "measure (\<lambda>(tab, space, name, is, g, te, ws). length ws)") (auto dest: ipc_entry_grow_table_windows)

declare alloc_name_loop.simps [simp del]

definition ipc_entry_alloc_name ::
  "nat list \<Rightarrow> ipc_space_t \<Rightarrow> ipc_space \<Rightarrow> ipc_hash_global \<Rightarrow> mach_port_t \<Rightarrow> window list \<Rightarrow> alloc_name_result" where
  "ipc_entry_alloc_name ipc_table_entries space is g name ws =
     alloc_name_loop ipc_table_entries space name is g False ws"

section \<open>Deallocation\<close>

text \<open>The table entry goes to the head of the free list.\<close>

definition free_list_push :: "ipc_space \<Rightarrow> mach_port_index_t \<Rightarrow> ipc_space" where
  "free_list_push is index =
     (let table = is_table is;
          table = table[index := (table ! index)
            \<lparr>ie_bits := ie_bits (table ! index) AND IE_BITS_GEN_MASK, ie_request := ie_next (table ! 0)\<rparr>];
          table = table[0 := (table ! 0)\<lparr>ie_request := index\<rparr>]
      in is\<lparr>is_table := table\<rparr>)"

text \<open>
  The deallocated table entry has collisions: one of the entries of the tree with the same index
  takes its place. \<open>None\<close> stands for a failed assertion (no such entry) or a full reverse table.
\<close>

definition dealloc_collision ::
  "ipc_space_t \<Rightarrow> ipc_space \<Rightarrow> ipc_hash_global \<Rightarrow> mach_port_index_t \<Rightarrow> (ipc_space \<times> ipc_hash_global) option" where
  "dealloc_collision space is g index =
     (case ipc_splay_tree_split (is_tree is) (MACH_PORT_MAKE (of_nat (index + 1)) 0) of (tree, collisions) \<Rightarrow>
      case ipc_splay_tree_split collisions (MACH_PORT_MAKE (of_nat index) 0) of (collisions, small) \<Rightarrow>
      case ipc_splay_tree_pick collisions of
        None \<Rightarrow> None
      | Some (tname, tentry) \<Rightarrow>
         (let bits = ie_bits tentry; obj = ie_object tentry;
              is = is\<lparr>is_table := (is_table is)[index := (is_table is ! index)
                    \<lparr>ie_bits := bits OR MACH_PORT_GEN tname, ie_object := obj, ie_request := ie_request tentry\<rparr>]\<rparr>
          in case (if IE_BITS_TYPE bits = MACH_PORT_TYPE_SEND
                   then (case ipc_hash_global_delete is g space obj tname of (is, g) \<Rightarrow>
                           map_option (\<lambda>table. (is\<lparr>is_table := table\<rparr>, g))
                             (ipc_hash_local_insert (is_table is) obj index))
                   else Some (is, g)) of
               None \<Rightarrow> None
             | Some (is, g) \<Rightarrow>
                (let collisions = ipc_splay_tree_delete collisions tname;
                     is = is\<lparr>is_tree_total := is_tree_total is - 1\<rparr>;
                     (is, tree) =
                       (if ipc_splay_tree_pick collisions \<noteq> None
                        then (is\<lparr>is_table := (is_table is)[index := (is_table is ! index)
                                \<lparr>ie_bits := ie_bits (is_table is ! index) OR IE_BITS_COLLISION\<rparr>]\<rparr>,
                              ipc_splay_tree_join tree collisions)
                        else (is, tree))
                 in Some (is\<lparr>is_tree := ipc_splay_tree_join tree small\<rparr>, g))))"

definition dealloc_tree :: "nat list \<Rightarrow> ipc_space \<Rightarrow> mach_port_t \<Rightarrow> ipc_space" where
  "dealloc_tree ipc_table_entries is name =
     (let index = unat (MACH_PORT_INDEX name);
          is = is\<lparr>is_tree := ipc_splay_tree_delete (is_tree is) name, is_tree_total := is_tree_total is - 1\<rparr>
      in if index < is_table_size is
         then (case ipc_entry_tree_collision is name of (collision, is) \<Rightarrow>
                 if collision then is
                 else is\<lparr>is_table := (is_table is)[index := (is_table is ! index)
                        \<lparr>ie_bits := ie_bits (is_table is ! index) AND NOT IE_BITS_COLLISION\<rparr>]\<rparr>)
         else if index < ipc_table_entries ! is_table_next is
         then (case ipc_entry_tree_collision is name of (collision, is) \<Rightarrow>
                 if collision then is else is\<lparr>is_tree_small := is_tree_small is - 1\<rparr>)
         else is)"

definition ipc_entry_dealloc ::
  "nat list \<Rightarrow> ipc_space_t \<Rightarrow> ipc_space \<Rightarrow> ipc_hash_global \<Rightarrow> mach_port_t \<Rightarrow> ipc_entry_ref
     \<Rightarrow> (ipc_space \<times> ipc_hash_global) option" where
  "ipc_entry_dealloc ipc_table_entries space is g name entry =
     (let index = unat (MACH_PORT_INDEX name) in
      if is_fast_space is then Some (free_list_push is index, g)
      else if is_table_entry is name entry then
        (if ie_bits (is_table is ! index) AND IE_BITS_COLLISION \<noteq> 0
         then dealloc_collision space is g index
         else Some (free_list_push is index, g))
      else Some (dealloc_tree ipc_table_entries is name, g))"

end
