(* ===== verification/IPC_Entry_Inv.thy ===== *)
theory IPC_Entry_Inv
  imports IPC_Entry
begin

text \<open>
  The invariant of a capability space and the correctness of the operations of \<open>IPC_Entry\<close>: each
  keeps the invariant and changes the abstract value of the space, a map from names to rights, as
  its description says.
\<close>

section \<open>The invariant of a space\<close>

definition in_use :: "ipc_entry \<Rightarrow> bool" where
  "in_use e \<longleftrightarrow> IE_BITS_TYPE (ie_bits e) \<noteq> MACH_PORT_TYPE_NONE"

abbreviation name_index :: "mach_port_t \<Rightarrow> nat" where
  "name_index n \<equiv> unat (MACH_PORT_INDEX n)"

definition entry_name :: "mach_port_index_t \<Rightarrow> ipc_entry \<Rightarrow> mach_port_t" where
  "entry_name i e = MACH_PORT_MAKEB (of_nat i) (ie_bits e)"

text \<open>\<open>chain t i fs\<close>: following \<open>ie_next\<close> from \<open>i\<close> visits the positions \<open>fs\<close> and then ends.\<close>

primrec chain :: "ipc_entry list \<Rightarrow> mach_port_index_t \<Rightarrow> mach_port_index_t list \<Rightarrow> bool" where
  "chain t i [] \<longleftrightarrow> ie_next (t ! i) = 0"
| "chain t i (j # js) \<longleftrightarrow> ie_next (t ! i) = j \<and> j \<noteq> 0 \<and> chain t j js"

text \<open>
  The table: \<open>fs\<close> is the free list. Free entries are clean; the others are in use, except for the
  names in \<open>X\<close> that the running operation has not filled in yet or has already emptied.
\<close>

definition table_ok :: "mach_port_t set \<Rightarrow> ipc_entry list \<Rightarrow> mach_port_index_t list \<Rightarrow> bool" where
  "table_ok X t fs \<longleftrightarrow>
     0 < length t \<and> length t \<le> 16777215 \<and>
     chain t 0 fs \<and> distinct fs \<and> (\<forall>i\<in>set fs. 0 < i \<and> i < length t) \<and>
     \<not> in_use (t ! 0) \<and> IE_BITS_GEN (ie_bits (t ! 0)) = IE_BITS_GEN_MASK \<and>
     (\<forall>i\<in>set fs. ie_bits (t ! i) AND NOT IE_BITS_GEN_MASK = 0 \<and> ie_object (t ! i) = IO_NULL) \<and>
     (\<forall>i. 0 < i \<longrightarrow> i < length t \<longrightarrow> i \<notin> set fs \<longrightarrow> in_use (t ! i) \<or> entry_name i (t ! i) \<in> X)"

text \<open>
  The tree, by the map \<open>tm\<close> it represents: its entries carry neither generation nor collision bit,
  their names differ from those of the table, and the collision bit of a table entry tells exactly
  whether the tree has a name with its index.
\<close>

definition tree_ok :: "mach_port_t set \<Rightarrow> ipc_entry list \<Rightarrow> mach_port_index_t list \<Rightarrow> (mach_port_t \<rightharpoonup> ipc_entry) \<Rightarrow> bool" where
  "tree_ok X t fs tm \<longleftrightarrow>
     (\<forall>n e. tm n = Some e \<longrightarrow> MACH_PORT_VALID n \<and> (in_use e \<or> n \<in> X) \<and>
        IE_BITS_GEN (ie_bits e) = 0 \<and> \<not> bit (ie_bits e) 23) \<and>
     (\<forall>n\<in>dom tm. 0 < name_index n \<longrightarrow> name_index n < length t \<longrightarrow>
        name_index n \<notin> set fs \<and> IE_BITS_GEN (ie_bits (t ! name_index n)) \<noteq> MACH_PORT_GEN n) \<and>
     (\<forall>i<length t. bit (ie_bits (t ! i)) 23 \<longleftrightarrow> i \<in> name_index ` dom tm)"

abbreviation is_tree_map :: "ipc_space \<Rightarrow> mach_port_t \<rightharpoonup> ipc_entry" where
  "is_tree_map is \<equiv> map_of (ist_inorder (is_tree is))"

definition small_indices :: "nat list \<Rightarrow> ipc_space \<Rightarrow> nat set" where
  "small_indices tab is =
     {i \<in> name_index ` dom (is_tree_map is). is_table_size is \<le> i \<and> i < tab ! is_table_next is}"

definition counts_ok :: "nat list \<Rightarrow> ipc_space \<Rightarrow> bool" where
  "counts_ok tab is \<longleftrightarrow>
     0 < is_table_next is \<and> is_table_next is < length tab \<and> tab ! (is_table_next is - 1) = is_table_size is \<and>
     ist_ok (is_tree is) \<and>
     is_tree_total is = length (ist_inorder (is_tree is)) \<and>
     is_tree_small is = card (small_indices tab is) \<and>
     (is_fast is \<longrightarrow> is_tree_total is = 0)"

text \<open>The reverse tables hold exactly the pure send rights.\<close>

abbreviation pure_send :: "ipc_entry \<Rightarrow> bool" where
  "pure_send e \<equiv> IE_BITS_TYPE (ie_bits e) = MACH_PORT_TYPE_SEND"

definition hashes_ok :: "mach_port_t set \<Rightarrow> ipc_space_t \<Rightarrow> ipc_space \<Rightarrow> ipc_hash_global \<Rightarrow> bool" where
  "hashes_ok X space is g \<longleftrightarrow>
     hash_ok (is_table is) \<and> ghash_ok g \<and>
     hashed (is_table is) = {i. 0 < i \<and> i < is_table_size is \<and> pure_send (is_table is ! i) \<and>
       entry_name i (is_table is ! i) \<notin> X} \<and>
     (\<forall>n io. (space, n, io) \<in> gnodes g \<longleftrightarrow>
        (\<exists>e. is_tree_map is n = Some e \<and> pure_send e \<and> n \<notin> X \<and> ie_object e = io)) \<and>
     is_tree_hash is = card {n. \<exists>io. (space, n, io) \<in> gnodes g}"

definition space_ok :: "nat list \<Rightarrow> mach_port_t set \<Rightarrow> ipc_space_t \<Rightarrow> ipc_space \<Rightarrow> ipc_hash_global \<Rightarrow> bool" where
  "space_ok tab X space is g \<longleftrightarrow>
     (\<exists>fs. table_ok X (is_table is) fs \<and> tree_ok X (is_table is) fs (is_tree_map is)) \<and>
     counts_ok tab is \<and> hashes_ok X space is g"

text \<open>
  The abstract value of a space: the names it has, with the right part of the bits, the object and
  the request of each. Where the entry is kept, and its generation and collision bits, are not part
  of it.
\<close>

type_synonym right_view = "ipc_entry_bits_t \<times> ipc_object_t \<times> nat"

definition right_of :: "ipc_entry \<Rightarrow> right_view" where
  "right_of e = (ie_bits e AND IE_BITS_RIGHT_MASK, ie_object e, ie_request e)"

definition table_entry_of :: "ipc_entry list \<Rightarrow> mach_port_t \<Rightarrow> ipc_entry option" where
  "table_entry_of t n =
     (let i = name_index n in
      if 0 < i \<and> i < length t \<and> in_use (t ! i) \<and> IE_BITS_GEN (ie_bits (t ! i)) = MACH_PORT_GEN n
      then Some (t ! i) else None)"

definition find_entry :: "ipc_space \<Rightarrow> mach_port_t \<Rightarrow> ipc_entry_ref option" where
  "find_entry is n =
     (if table_entry_of (is_table is) n \<noteq> None then Some (TABLE_ENTRY (name_index n))
      else if is_tree_map is n \<noteq> None then Some (TREE_ENTRY n) else None)"

definition rights :: "ipc_space \<Rightarrow> mach_port_t \<rightharpoonup> right_view" where
  "rights is n = map_option (\<lambda>r. right_of (ie_at is r)) (find_entry is n)"

text \<open>
  Position 0 heads the free list and keeps the generation \<open>0xff\<close>, so the one name with that index
  and that generation is never found, wherever it is.
\<close>

definition shadowed :: "mach_port_t \<Rightarrow> bool" where
  "shadowed n \<longleftrightarrow> MACH_PORT_INDEX n = 0 \<and> MACH_PORT_GEN n = IE_BITS_GEN_MASK"

lemma is_tree_total_zero: "counts_ok tab is \<Longrightarrow> is_tree_total is = 0 \<longleftrightarrow> is_tree_map is = Map.empty"
  by (auto simp: counts_ok_def)

text \<open>\<open>resplayed is is'\<close>: the same space, with its tree in another shape.\<close>

definition resplayed :: "ipc_space \<Rightarrow> ipc_space \<Rightarrow> bool" where
  "resplayed is is' \<longleftrightarrow> is' = is\<lparr>is_tree := is_tree is'\<rparr> \<and> ist_ok (is_tree is') \<and>
     ist_inorder (is_tree is') = ist_inorder (is_tree is)"

lemma resplayed_refl: "ist_ok (is_tree is) \<Longrightarrow> resplayed is is"
  by (simp add: resplayed_def)

lemma entry_tree_lookup_correct:
  assumes "ist_ok (is_tree is)" "entry_tree_lookup is name = (r, is')"
  shows "r = map_option (\<lambda>_. TREE_ENTRY name) (is_tree_map is name)"
    "resplayed is is'"
  using assms st.lookup_value [OF assms(1), of name] st.lookup_seq [OF assms(1), of name]
    st.lookup_ok [OF assms(1), of name]
  by (auto simp: entry_tree_lookup_def resplayed_def split: prod.splits)

lemma tree_okD:
  assumes "tree_ok X t fs tm"
  shows "tm n = Some e \<Longrightarrow> MACH_PORT_VALID n \<and> (in_use e \<or> n \<in> X) \<and> IE_BITS_GEN (ie_bits e) = 0 \<and> \<not> bit (ie_bits e) 23"
    "tm n = Some e \<Longrightarrow> 0 < name_index n \<Longrightarrow> name_index n < length t \<Longrightarrow>
       name_index n \<notin> set fs \<and> IE_BITS_GEN (ie_bits (t ! name_index n)) \<noteq> MACH_PORT_GEN n"
    "i < length t \<Longrightarrow> bit (ie_bits (t ! i)) 23 \<longleftrightarrow> i \<in> name_index ` dom tm"
  using assms unfolding tree_ok_def by blast+

lemma table_okD:
  assumes "table_ok X t fs"
  shows "0 < length t" "length t \<le> 16777215" "chain t 0 fs" "distinct fs" "i \<in> set fs \<Longrightarrow> 0 < i \<and> i < length t"
    "\<not> in_use (t ! 0)" "IE_BITS_GEN (ie_bits (t ! 0)) = IE_BITS_GEN_MASK"
    "i \<in> set fs \<Longrightarrow> ie_bits (t ! i) AND NOT IE_BITS_GEN_MASK = 0 \<and> ie_object (t ! i) = IO_NULL"
    "0 < i \<Longrightarrow> i < length t \<Longrightarrow> i \<notin> set fs \<Longrightarrow> in_use (t ! i) \<or> entry_name i (t ! i) \<in> X"
  using assms unfolding table_ok_def by blast+

lemma not_in_tree:
  assumes "tree_ok X t fs tm" "i = name_index n" "i < length t"
  shows "\<not> bit (ie_bits (t ! i)) 23 \<Longrightarrow> tm n = None"
    "0 < i \<Longrightarrow> IE_BITS_GEN (ie_bits (t ! i)) = MACH_PORT_GEN n \<Longrightarrow> tm n = None"
  using tree_okD(2) [OF assms(1), of n] tree_okD(3) [OF assms(1), of i] assms(2,3)
  by (cases "tm n"; auto)+

lemma ipc_entry_lookup_correct:
  assumes "table_ok X (is_table is) fs" "tree_ok X (is_table is) fs (is_tree_map is)" "counts_ok tab is"
    and "ipc_entry_lookup is name = (r, is')" "\<not> shadowed name" "is_fast is \<Longrightarrow> name_index name < is_table_size is"
  shows "r = find_entry is name \<and> resplayed is is'"
proof -
  let ?i = "name_index name" and ?t = "is_table is"
  have ok: "ist_ok (is_tree is)" using assms(3) by (simp add: counts_ok_def)
  note same = resplayed_refl [OF ok]
  note lk = entry_tree_lookup_correct [OF ok]
  have zero: "?i = 0 \<Longrightarrow> IE_BITS_GEN (ie_bits (?t ! ?i)) \<noteq> MACH_PORT_GEN name \<and> \<not> in_use (?t ! ?i)"
    using table_okD(6,7) [OF assms(1)] assms(5) by (auto simp: shadowed_def unsigned_eq_0_iff)
  consider (fast) "is_fast is" | (out) "\<not> is_fast is" "length ?t \<le> ?i"
    | (table) "\<not> is_fast is" "?i < length ?t" by linarith
  then show ?thesis
  proof cases
    case fast
    then have "is_tree_map is = Map.empty" using assms(3) is_tree_total_zero by (auto simp: counts_ok_def)
    with fast assms(4,6) same zero show ?thesis
      by (auto simp: ipc_entry_lookup_def Let_def find_entry_def table_entry_of_def in_use_def split: if_splits)
  next
    case out
    then show ?thesis
      using assms(4) same lk [of name r is'] is_tree_total_zero [OF assms(3)]
      by (auto simp: ipc_entry_lookup_def Let_def find_entry_def table_entry_of_def split: if_splits)
  next
    case table
    note nt = not_in_tree [OF assms(2) refl table(2)]
    show ?thesis
      using assms(4) same zero table nt lk [of name r is'] assms(2)
      by (cases "?i = 0")
        (auto simp: ipc_entry_lookup_def Let_def find_entry_def table_entry_of_def in_use_def COLLISION_iff
          split: if_splits)
  qed
qed

lemma unat_of_nat_index: "i \<le> 16777215 \<Longrightarrow> unat (of_nat i :: natural_t) = i"
  by (simp add: unat_of_nat take_bit_nat_eq_self)

lemma of_nat_index_less: "i \<le> 16777215 \<Longrightarrow> (of_nat i :: natural_t) < 2 ^ 24"
  by (simp add: word_less_nat_alt unat_of_nat_index)

lemma name_index_entry_name: "i \<le> 16777215 \<Longrightarrow> name_index (entry_name i e) = i"
  by (simp add: entry_name_def MACH_PORT_MAKEB_fields(2) [OF of_nat_index_less] unat_of_nat_index)

lemma gen_entry_name: "MACH_PORT_GEN (entry_name i e) = IE_BITS_GEN (ie_bits e)"
  by (simp add: entry_name_def MACH_PORT_MAKEB_fields)

lemma name_eqI: "name_index a = name_index b \<Longrightarrow> MACH_PORT_GEN a = MACH_PORT_GEN b \<Longrightarrow> a = b"
  unfolding mach_port_eq_iff [of a b] by (simp add: unsigned_word_eqI)

lemma name_eq_entry_name:
  "i \<le> 16777215 \<Longrightarrow> n = entry_name i e \<longleftrightarrow> name_index n = i \<and> MACH_PORT_GEN n = IE_BITS_GEN (ie_bits e)"
  using name_eqI [of n "entry_name i e"] by (auto simp: name_index_entry_name gen_entry_name)

lemma entry_name_index: "i \<le> 16777215 \<Longrightarrow> j \<le> 16777215 \<Longrightarrow> entry_name i e = entry_name j f \<Longrightarrow> i = j"
  by (metis name_index_entry_name)

lemma chain_cong:
  "chain t j js \<Longrightarrow> ie_next (u ! i) = ie_next (t ! j) \<Longrightarrow> (\<And>k. k \<in> set js \<Longrightarrow> ie_next (u ! k) = ie_next (t ! k)) \<Longrightarrow>
     chain u i js"
  by (induction js arbitrary: i j) auto

lemma chain_Nil_iff: "chain t i fs \<Longrightarrow> fs = [] \<longleftrightarrow> ie_next (t ! i) = 0"
  by (cases fs) auto

definition pure_set :: "mach_port_t set \<Rightarrow> ipc_entry list \<Rightarrow> mach_port_index_t set" where
  "pure_set X t = {i. 0 < i \<and> i < length t \<and> pure_send (t ! i) \<and> entry_name i (t ! i) \<notin> X}"

lemma hashes_ok_pure_set:
  "hashes_ok X space is g \<longleftrightarrow> hash_ok (is_table is) \<and> ghash_ok g \<and> hashed (is_table is) = pure_set X (is_table is) \<and>
     (\<forall>n io. (space, n, io) \<in> gnodes g \<longleftrightarrow>
        (\<exists>e. is_tree_map is n = Some e \<and> pure_send e \<and> n \<notin> X \<and> ie_object e = io)) \<and>
     is_tree_hash is = card {n. \<exists>io. (space, n, io) \<in> gnodes g}"
  by (simp add: hashes_ok_def pure_set_def)

text \<open>An update of the table that leaves the reverse table alone.\<close>

lemma hashes_ok_table:
  assumes "hashes_ok X space is g" "length u = is_table_size is"
    and "\<And>i. i < is_table_size is \<Longrightarrow> ie_index (u ! i) = ie_index (is_table is ! i)"
    and "\<And>i. i \<in> pure_set X (is_table is) \<Longrightarrow> ie_object (u ! i) = ie_object (is_table is ! i)"
    and "pure_set Y u = pure_set X (is_table is)"
    and "\<And>n e. is_tree_map is n = Some e \<Longrightarrow> pure_send e \<Longrightarrow> n \<in> Y \<longleftrightarrow> n \<in> X"
  shows "hashes_ok Y space (is\<lparr>is_table := u\<rparr>) g"
proof -
  have h: "hash_ok (is_table is)" "hashed (is_table is) = pure_set X (is_table is)"
    using assms(1) by (auto simp: hashes_ok_pure_set)
  have "hash_ok u" "hashed u = hashed (is_table is)"
    using hash_ok_cong [OF h(1) assms(2,3)] assms(4) h(2) by auto
  then show ?thesis
    using assms(1,5,6) h(2) by (auto simp: hashes_ok_pure_set)
qed

text \<open>The part of the state that \<open>counts_ok\<close> reads.\<close>

lemma counts_ok_table: "length u = is_table_size is \<Longrightarrow> counts_ok tab (is\<lparr>is_table := u\<rparr>) = counts_ok tab is"
  by (simp add: counts_ok_def small_indices_def)

declare MACH_PORT_TYPE_NONE_def [simp]

lemma free_bits:
  assumes "b AND NOT IE_BITS_GEN_MASK = 0"
  shows "IE_BITS_TYPE b = 0" "\<not> bit b 23" "b = IE_BITS_GEN b" "b AND IE_BITS_RIGHT_MASK = 0"
proof -
  have hi: "24 \<le> n \<and> n < 32" if "bit b n" for n
  proof -
    have "n < 32" using bit_imp_le_length [OF that] by simp
    moreover have "\<not> bit (b AND NOT IE_BITS_GEN_MASK) n" by (simp add: assms)
    ultimately show ?thesis using that by (simp add: bit_simps bit_fields)
  qed
  show "IE_BITS_TYPE b = 0" "\<not> bit b 23" "b = IE_BITS_GEN b" "b AND IE_BITS_RIGHT_MASK = 0"
    by (auto simp: natural_eq_iff IE_BITS_TYPE_def IE_BITS_GEN_def bit_and_iff bit_fields dest: hi)
qed

lemma TYPE_SEND_nonzero: "MACH_PORT_TYPE_SEND \<noteq> 0"
  by (simp add: MACH_PORT_TYPE_values)

subsection \<open>\<open>ipc_entry_get\<close>\<close>

lemma table_okI:
  assumes "0 < length t" "length t \<le> 16777215" "chain t 0 fs" "distinct fs" "\<And>i. i \<in> set fs \<Longrightarrow> 0 < i \<and> i < length t"
    "\<not> in_use (t ! 0)" "IE_BITS_GEN (ie_bits (t ! 0)) = IE_BITS_GEN_MASK"
    "\<And>i. i \<in> set fs \<Longrightarrow> ie_bits (t ! i) AND NOT IE_BITS_GEN_MASK = 0 \<and> ie_object (t ! i) = IO_NULL"
    "\<And>i. 0 < i \<Longrightarrow> i < length t \<Longrightarrow> i \<notin> set fs \<Longrightarrow> in_use (t ! i) \<or> entry_name i (t ! i) \<in> X"
  shows "table_ok X t fs"
  using assms unfolding table_ok_def by blast

lemma tree_okI:
  assumes "\<And>n e. tm n = Some e \<Longrightarrow> MACH_PORT_VALID n \<and> (in_use e \<or> n \<in> X) \<and> IE_BITS_GEN (ie_bits e) = 0 \<and> \<not> bit (ie_bits e) 23"
    "\<And>n e. tm n = Some e \<Longrightarrow> 0 < name_index n \<Longrightarrow> name_index n < length t \<Longrightarrow>
       name_index n \<notin> set fs \<and> IE_BITS_GEN (ie_bits (t ! name_index n)) \<noteq> MACH_PORT_GEN n"
    "\<And>i. i < length t \<Longrightarrow> bit (ie_bits (t ! i)) 23 \<longleftrightarrow> i \<in> name_index ` dom tm"
  shows "tree_ok X t fs tm"
  using assms unfolding tree_ok_def by blast

definition table_get :: "ipc_entry list \<Rightarrow> mach_port_index_t \<Rightarrow> ipc_entry list" where
  "table_get t j = t[0 := (t ! 0)\<lparr>ie_request := ie_next (t ! j)\<rparr>,
     j := (t ! j)\<lparr>ie_bits := IE_BITS_NEW_GEN (ie_bits (t ! j)), ie_request := 0\<rparr>]"

lemma table_get_nth:
  assumes "0 < j" "j < length t"
  shows "length (table_get t j) = length t"
    "table_get t j ! i = (if i = j then (t ! j)\<lparr>ie_bits := IE_BITS_NEW_GEN (ie_bits (t ! j)), ie_request := 0\<rparr>
       else if i = 0 then (t ! 0)\<lparr>ie_request := ie_next (t ! j)\<rparr> else t ! i)"
  using assms by (auto simp: table_get_def nth_update_if)

lemma table_ok_get:
  assumes "table_ok X t (j # js)"
  shows "table_ok (insert (entry_name j (table_get t j ! j)) X) (table_get t j) js"
proof -
  note d = table_okD [OF assms]
  have j: "0 < j" "j < length t" "j \<notin> set js" "0 \<notin> set js" using d(4) d(5) [of j] d(5) [of 0] by auto
  note g = table_get_nth [OF j(1,2)]
  show ?thesis
  proof (rule table_okI)
    show "chain (table_get t j) 0 js"
      by (rule chain_cong [of t j]) (use d(3) j g(2) in auto)
    show "0 < length (table_get t j)" "length (table_get t j) \<le> 16777215" "distinct js"
      "\<And>i. i \<in> set js \<Longrightarrow> 0 < i \<and> i < length (table_get t j)"
      using d(1,2,4) d(5) by (auto simp: g(1))
    show "\<not> in_use (table_get t j ! 0)" "IE_BITS_GEN (ie_bits (table_get t j ! 0)) = IE_BITS_GEN_MASK"
      using d(6,7) j by (auto simp: g in_use_def)
    show "ie_bits (table_get t j ! i) AND NOT IE_BITS_GEN_MASK = 0 \<and> ie_object (table_get t j ! i) = IO_NULL"
      if "i \<in> set js" for i
      using d(8) [of i] that j by (auto simp: g)
    show "in_use (table_get t j ! i) \<or> entry_name i (table_get t j ! i) \<in> insert (entry_name j (table_get t j ! j)) X"
      if "0 < i" "i < length (table_get t j)" "i \<notin> set js" for i
      using d(9) [of i] that by (auto simp: g)
  qed
qed

lemma tree_ok_get:
  assumes "table_ok X t (j # js)" "tree_ok X t (j # js) tm"
  shows "tree_ok (insert n X) (table_get t j) js tm"
proof -
  note d = table_okD [OF assms(1)] and e = tree_okD [OF assms(2)]
  have j: "0 < j" "j < length t" using d(5) [of j] by auto
  note g = table_get_nth [OF j(1,2)]
  show ?thesis
  proof (rule tree_okI)
    show "name_index m \<notin> set js \<and> IE_BITS_GEN (ie_bits (table_get t j ! name_index m)) \<noteq> MACH_PORT_GEN m"
      if "tm m = Some x" "0 < name_index m" "name_index m < length (table_get t j)" for m x
      using e(2) [of m x] that by (auto simp: g)
    show "bit (ie_bits (table_get t j ! i)) 23 \<longleftrightarrow> i \<in> name_index ` dom tm" if "i < length (table_get t j)" for i
      using e(3) [of i] that free_bits(2) [of "ie_bits (t ! j)"] d(8) [of j] by (auto simp: g NEW_GEN_fields)
  qed (use e(1) in blast)+
qed

lemma ipc_entry_get_eq:
  "ipc_entry_get is = (let j = ie_next (is_table is ! 0); t = table_get (is_table is) j in
     if j = 0 then None else Some (MACH_PORT_MAKE (of_nat j) (ie_bits (t ! j)), TABLE_ENTRY j, is\<lparr>is_table := t\<rparr>))"
  if "ie_next (is_table is ! 0) < is_table_size is"
  using that by (simp add: ipc_entry_get_def Let_def table_get_def)

lemma valid_entry_name: "0 < i \<Longrightarrow> i < 16777215 \<Longrightarrow> MACH_PORT_VALID (entry_name i e)"
  using name_index_entry_name [of i e] unat_MACH_PORT_INDEX_DEAD
  by (auto simp: MACH_PORT_VALID_def MACH_PORT_NULL_def MACH_PORT_INDEX_def)

lemma table_entry_of_eq:
  "table_entry_of t n = Some e \<longleftrightarrow> 0 < name_index n \<and> name_index n < length t \<and> e = t ! name_index n \<and> in_use e \<and>
     IE_BITS_GEN (ie_bits e) = MACH_PORT_GEN n"
  by (auto simp: table_entry_of_def Let_def)

text \<open>The abstract value, without the references.\<close>

lemma rights_eq:
  "rights is n = (case table_entry_of (is_table is) n of Some e \<Rightarrow> Some (right_of e)
     | None \<Rightarrow> map_option right_of (is_tree_map is n))"
  by (auto simp: rights_def find_entry_def ie_at_def table_entry_of_def Let_def split: option.splits)

lemma ipc_entry_get_correct:
  assumes "space_ok tab X space is g" "ipc_entry_get is = Some (name, entry, is')"
  shows "space_ok tab (insert name X) space is' g \<and> rights is' = rights is \<and> find_entry is name = None \<and>
    MACH_PORT_VALID name \<and>
    (\<exists>i. entry = TABLE_ENTRY i \<and> 0 < i \<and> i < is_table_size is \<and> name = entry_name i (ie_at is' entry) \<and>
       \<not> in_use (ie_at is' entry) \<and> ie_object (ie_at is' entry) = IO_NULL \<and> ie_request (ie_at is' entry) = 0)"
proof -
  obtain fs where fs: "table_ok X (is_table is) fs" "tree_ok X (is_table is) fs (is_tree_map is)"
    and c: "counts_ok tab is" "hashes_ok X space is g"
    using assms(1) by (auto simp: space_ok_def)
  let ?t = "is_table is"
  have "fs \<noteq> []"
    using assms(2) chain_Nil_iff [OF table_okD(3) [OF fs(1)]] by (auto simp: ipc_entry_get_def Let_def)
  then obtain j js where j: "fs = j # js" by (cases fs) auto
  note d = table_okD [OF fs(1)[unfolded j]] and e = tree_okD [OF fs(2)[unfolded j]]
  have jn: "ie_next (?t ! 0) = j" "0 < j" "j < length ?t" using d(3) d(5) [of j] by auto
  note tg = table_get_nth [OF jn(2,3)]
  let ?u = "table_get ?t j"
  have gen: "IE_BITS_GEN (ie_bits (?u ! j)) = ie_bits (?u ! j)" by (simp add: tg NEW_GEN_fields)
  have r: "name = entry_name j (?u ! j)" "entry = TABLE_ENTRY j" "is' = is\<lparr>is_table := ?u\<rparr>"
    using assms(2) ipc_entry_get_eq [of "is"] jn
    by (simp_all add: Let_def entry_name_def MACH_PORT_MAKEB_def gen)
  have free: "\<not> in_use (?t ! j)" "\<not> in_use (?u ! j)" "ie_object (?t ! j) = IO_NULL"
    using free_bits [of "ie_bits (?t ! j)"] d(8) [of j]
    by (auto simp: in_use_def MACH_PORT_TYPE_NONE_def tg NEW_GEN_fields)
  have te: "table_entry_of ?u = table_entry_of ?t"
    using free jn by (auto simp: fun_eq_iff table_entry_of_def Let_def tg)
  have pure: "pure_set (insert name X) ?u = pure_set X ?t"
    using free d(2) jn TYPE_SEND_nonzero
    by (auto simp: pure_set_def tg r(1) in_use_def MACH_PORT_TYPE_NONE_def dest: entry_name_index [rotated 2])
  have nt: "n \<noteq> name" if "is_tree_map is n = Some x" for n x
    using e(2) [OF that] d(2) jn r(1) name_index_entry_name [of j] by auto
  have "hashes_ok (insert name X) space is' g"
    unfolding r(3) using pure nt by (intro hashes_ok_table [OF c(2)]) (auto simp: tg pure_set_def)
  then have "space_ok tab (insert name X) space is' g"
    using table_ok_get [OF fs(1)[unfolded j]] tree_ok_get [OF fs(1)[unfolded j] fs(2)[unfolded j]] c(1)
    by (auto simp: space_ok_def r counts_ok_table tg(1))
  moreover have "rights is' = rights is"
    by (auto simp: fun_eq_iff rights_eq r(3) te split: option.splits)
  moreover have "find_entry is name = None"
  proof -
    have "is_tree_map is name = None" using nt by (cases "is_tree_map is name") auto
    moreover have "table_entry_of ?t name = None"
      using free(1) jn(2,3) d(2) by (simp add: r(1) table_entry_of_def name_index_entry_name)
    ultimately show ?thesis by (simp add: find_entry_def)
  qed
  ultimately show ?thesis
    using jn d(2) free by (auto simp: r ie_at_def tg intro!: valid_entry_name)
qed

lemma ipc_entry_get_None:
  assumes "space_ok tab {} space is g" "ipc_entry_get is = None"
  shows "0 < i \<Longrightarrow> i < is_table_size is \<Longrightarrow> in_use (is_table is ! i)"
proof -
  obtain fs where fs: "table_ok {} (is_table is) fs" using assms(1) by (auto simp: space_ok_def)
  have "fs = []"
    using assms(2) chain_Nil_iff [OF table_okD(3) [OF fs]] by (auto simp: ipc_entry_get_def Let_def split: if_splits)
  then show "0 < i \<Longrightarrow> i < is_table_size is \<Longrightarrow> in_use (is_table is ! i)"
    using table_okD(9) [OF fs, of i] by simp
qed

subsection \<open>Collisions in the tree\<close>

lemma names_sorted_last:
  assumes "names_sorted xs" "x \<in> set xs"
  shows "fst x \<le> fst (last xs)"
  using assms by (induction xs) (auto intro: less_imp_le)

lemma names_sorted_hd:
  assumes "names_sorted xs" "x \<in> set xs"
  shows "fst (hd xs) \<le> fst x"
  using assms by (cases xs) (auto intro: less_imp_le)

lemma index_between: "a \<le> b \<Longrightarrow> b \<le> c \<Longrightarrow> MACH_PORT_INDEX a = MACH_PORT_INDEX c \<Longrightarrow> MACH_PORT_INDEX b = MACH_PORT_INDEX c"
  using MACH_PORT_INDEX_mono [of a b] MACH_PORT_INDEX_mono [of b c] by simp

lemma name_index_eq: "name_index a = name_index b \<longleftrightarrow> MACH_PORT_INDEX a = MACH_PORT_INDEX b"
  using unsigned_word_eqI [of "MACH_PORT_INDEX a" "MACH_PORT_INDEX b"] by auto

lemma ipc_entry_tree_collision_correct:
  assumes "ist_ok (is_tree is)" "\<And>n. n \<in> dom (is_tree_map is) \<Longrightarrow> MACH_PORT_VALID n"
    and "ipc_entry_tree_collision is name = (b, is')"
  shows "b \<longleftrightarrow> name_index name \<in> name_index ` dom (is_tree_map is)" "resplayed is is'"
proof -
  let ?xs = "ist_inorder (is_tree is)"
  have srt: "names_sorted ?xs" by (rule ist_ok_sorted [OF assms(1)])
  obtain lower upper tree where bnd: "ipc_splay_tree_bounds (is_tree is) name = ((lower, upper), tree)"
    by (metis surj_pair)
  have lu: "lower = (if nupto name ?xs = [] then MACH_PORT_LARGEST else fst (last (nupto name ?xs)))"
    "upper = (if nfrom name ?xs = [] then MACH_PORT_SMALLEST else fst (hd (nfrom name ?xs)))"
    using ipc_splay_tree_bounds_correct [OF assms(1), of name] bnd by auto
  have dom: "dom (is_tree_map is) = fst ` set ?xs" by (simp add: dom_map_of_conv_image_fst)
  have b: "b \<longleftrightarrow> lower \<noteq> NOT 0 \<and> MACH_PORT_INDEX lower = MACH_PORT_INDEX name \<or>
      upper \<noteq> 0 \<and> MACH_PORT_INDEX upper = MACH_PORT_INDEX name"
    using assms(3) bnd by (auto simp: ipc_entry_tree_collision_def)
  show "b \<longleftrightarrow> name_index name \<in> name_index ` dom (is_tree_map is)"
  proof
    assume b
    then consider "lower \<noteq> NOT 0" "MACH_PORT_INDEX lower = MACH_PORT_INDEX name"
      | "upper \<noteq> 0" "MACH_PORT_INDEX upper = MACH_PORT_INDEX name" using b by blast
    then show "name_index name \<in> name_index ` dom (is_tree_map is)"
    proof cases
      case 1
      then have ne: "nupto name ?xs \<noteq> []" using lu(1) by (auto simp: MACH_PORT_LARGEST_def)
      then have "last (nupto name ?xs) \<in> set ?xs" using last_in_set by fastforce
      with 1 lu(1) ne show ?thesis unfolding dom by (intro rev_image_eqI [of lower]) auto
    next
      case 2
      then have ne: "nfrom name ?xs \<noteq> []" using lu(2) by (auto simp: MACH_PORT_SMALLEST_def)
      then have "hd (nfrom name ?xs) \<in> set ?xs" using hd_in_set by fastforce
      with 2 lu(2) ne show ?thesis unfolding dom by (intro rev_image_eqI [of upper]) auto
    qed
  next
    assume "name_index name \<in> name_index ` dom (is_tree_map is)"
    then obtain x where x: "x \<in> set ?xs" "MACH_PORT_INDEX (fst x) = MACH_PORT_INDEX name"
      unfolding dom image_image by (elim imageE) (simp add: name_index_eq)
    obtain m e where me: "x = (m, e)" by fastforce
    with x have e: "(m, e) \<in> set ?xs" and m: "MACH_PORT_INDEX m = MACH_PORT_INDEX name" by auto
    show b
    proof (cases "m \<le> name")
      case True
      then have x: "(m, e) \<in> set (nupto name ?xs)" using e by simp
      then have ne: "nupto name ?xs \<noteq> []" by (metis empty_iff list.set(1))
      have "m \<le> fst (last (nupto name ?xs))"
        using names_sorted_last [OF names_sorted_filter [OF srt] x] by simp
      moreover have "last (nupto name ?xs) \<in> set (nupto name ?xs)" by (rule last_in_set [OF ne])
      ultimately have "m \<le> lower" "lower \<le> name" "lower \<in> dom (is_tree_map is)"
        unfolding dom using lu(1) ne by auto
      with b m show ?thesis
        using index_between [of m lower name] assms(2) [of lower]
        by (auto simp: MACH_PORT_VALID_def MACH_PORT_DEAD_def)
    next
      case False
      then have x: "(m, e) \<in> set (nfrom name ?xs)" using e by simp
      then have ne: "nfrom name ?xs \<noteq> []" by (metis empty_iff list.set(1))
      have "fst (hd (nfrom name ?xs)) \<le> m"
        using names_sorted_hd [OF names_sorted_filter [OF srt] x] by simp
      moreover have "hd (nfrom name ?xs) \<in> set (nfrom name ?xs)" by (rule hd_in_set [OF ne])
      ultimately have "upper \<le> m" "name \<le> upper" "upper \<in> dom (is_tree_map is)"
        unfolding dom using lu(2) ne by auto
      with b m show ?thesis
        using index_between [of name upper m] assms(2) [of upper]
        by (auto simp: MACH_PORT_VALID_def MACH_PORT_NULL_def)
    qed
  qed
  have "tree = snd (ipc_splay_tree_lookup (is_tree is) name)"
    using bnd by (auto simp: ipc_splay_tree_bounds_def ipc_splay_tree_lookup_def Let_def split: prod.splits if_splits)
  then show "resplayed is is'"
    using assms(3) bnd st.lookup_seq [OF assms(1), of name] st.lookup_ok [OF assms(1), of name]
    by (auto simp: ipc_entry_tree_collision_def resplayed_def)
qed

subsection \<open>Returning an entry to the free list\<close>

lemma chain_unique: "chain t i fs \<Longrightarrow> chain t i gs \<Longrightarrow> fs = gs"
proof (induction fs arbitrary: i gs)
  case (Cons j fs)
  then show ?case by (cases gs) auto
qed (metis chain_Nil_iff chain.simps(1))

text \<open>
  \<open>allocated is n r\<close>: the entry at \<open>r\<close> belongs to the name \<open>n\<close>, whether or not its right has been
  filled in.
\<close>

definition allocated :: "ipc_space \<Rightarrow> mach_port_t \<Rightarrow> ipc_entry_ref \<Rightarrow> bool" where
  "allocated is n r \<longleftrightarrow>
     (case r of TABLE_ENTRY i \<Rightarrow> 0 < i \<and> i < is_table_size is \<and> n = entry_name i (is_table is ! i) \<and>
        (\<forall>fs. chain (is_table is) 0 fs \<longrightarrow> i \<notin> set fs)
      | TREE_ENTRY m \<Rightarrow> m = n \<and> n \<in> dom (is_tree_map is))"

lemma table_entry_of_Some_name:
  "length t \<le> 16777215 \<Longrightarrow> table_entry_of t n = Some e \<Longrightarrow> n = entry_name (name_index n) e"
  by (auto simp: table_entry_of_eq name_eq_entry_name)

lemma free_not_in_use: "table_ok X t fs \<Longrightarrow> i \<in> set fs \<Longrightarrow> \<not> in_use (t ! i)"
  using table_okD(8) [of X t fs i] free_bits(1) [of "ie_bits (t ! i)"] by (auto simp: in_use_def)

lemma find_entry_allocated:
  assumes "table_ok X (is_table is) fs" "find_entry is n = Some r"
  shows "allocated is n r"
proof (cases "table_entry_of (is_table is) n")
  case None
  then show ?thesis using assms(2) by (auto simp: find_entry_def allocated_def split: if_splits)
next
  case (Some e)
  then have "r = TABLE_ENTRY (name_index n)" using assms(2) by (simp add: find_entry_def)
  moreover have "name_index n \<notin> set gs" if "chain (is_table is) 0 gs" for gs
    using chain_unique [OF that table_okD(3) [OF assms(1)]] free_not_in_use [OF assms(1)] Some
    by (auto simp: table_entry_of_eq)
  ultimately show ?thesis
    using Some table_entry_of_Some_name [OF table_okD(2) [OF assms(1)] Some]
    by (auto simp: allocated_def table_entry_of_eq)
qed

definition table_push :: "ipc_entry list \<Rightarrow> mach_port_index_t \<Rightarrow> ipc_entry list" where
  "table_push t i = t[i := (t ! i)\<lparr>ie_bits := ie_bits (t ! i) AND IE_BITS_GEN_MASK, ie_request := ie_next (t ! 0)\<rparr>,
     0 := (t ! 0)\<lparr>ie_request := i\<rparr>]"

lemma free_list_push_eq: "0 < i \<Longrightarrow> free_list_push is i = is\<lparr>is_table := table_push (is_table is) i\<rparr>"
  by (simp add: free_list_push_def table_push_def Let_def)

lemma table_push_nth:
  assumes "0 < i" "i < length t"
  shows "length (table_push t i) = length t"
    "table_push t i ! k = (if k = i then (t ! i)\<lparr>ie_bits := ie_bits (t ! i) AND IE_BITS_GEN_MASK, ie_request := ie_next (t ! 0)\<rparr>
       else if k = 0 then (t ! 0)\<lparr>ie_request := i\<rparr> else t ! k)"
  using assms by (auto simp: table_push_def nth_update_if)

lemma table_ok_push:
  assumes "table_ok X t fs" "0 < i" "i < length t" "i \<notin> set fs" "ie_object (t ! i) = IO_NULL"
  shows "table_ok (X - {entry_name i (t ! i)}) (table_push t i) (i # fs)"
proof -
  note d = table_okD [OF assms(1)] and p = table_push_nth [OF assms(2,3)]
  show ?thesis
  proof (rule table_okI)
    have "chain (table_push t i) i fs"
      by (rule chain_cong [OF d(3)]) (use assms(4) d(5) [of 0] p in auto)
    then show "chain (table_push t i) 0 (i # fs)"
      using assms(2) by (simp add: p)
    show "0 < length (table_push t i)" "length (table_push t i) \<le> 16777215" "distinct (i # fs)"
      using d(1,2,4) assms(4) by (auto simp: p(1))
    show "0 < k \<and> k < length (table_push t i)" if "k \<in> set (i # fs)" for k
      using that d(5) [of k] assms(2,3) by (auto simp: p(1))
    show "\<not> in_use (table_push t i ! 0)" "IE_BITS_GEN (ie_bits (table_push t i ! 0)) = IE_BITS_GEN_MASK"
      using d(6,7) assms(2) by (auto simp: p in_use_def)
    show "ie_bits (table_push t i ! k) AND NOT IE_BITS_GEN_MASK = 0 \<and> ie_object (table_push t i ! k) = IO_NULL"
      if "k \<in> set (i # fs)" for k
      using that d(5) [of k] d(8) [of k] assms(4,5) by (auto simp: p GEN_fields)
    show "in_use (table_push t i ! k) \<or> entry_name k (table_push t i ! k) \<in> X - {entry_name i (t ! i)}"
      if "0 < k" "k < length (table_push t i)" "k \<notin> set (i # fs)" for k
      using that d(2) d(9) [of k] entry_name_index [of k i "t ! k" "t ! i"] assms(3) by (auto simp: p)
  qed
qed

lemma tree_ok_push:
  assumes "tree_ok X t fs tm" "0 < i" "i < length t" "\<not> bit (ie_bits (t ! i)) 23" "n = entry_name i (t ! i)" "length t \<le> 16777215"
  shows "tree_ok (X - {n}) (table_push t i) (i # fs) tm"
proof -
  note e = tree_okD [OF assms(1)] and p = table_push_nth [OF assms(2,3)]
  have i: "name_index m \<noteq> i" if "tm m = Some x" for m x
    using e(3) [OF assms(3)] assms(4) that by auto
  show ?thesis
  proof (rule tree_okI)
    show "MACH_PORT_VALID m \<and> (in_use x \<or> m \<in> X - {n}) \<and> IE_BITS_GEN (ie_bits x) = 0 \<and> \<not> bit (ie_bits x) 23"
      if "tm m = Some x" for m x
      using e(1) [OF that] i [OF that] assms(3,5,6) name_index_entry_name [of i "t ! i"] by auto
    show "name_index m \<notin> set (i # fs) \<and> IE_BITS_GEN (ie_bits (table_push t i ! name_index m)) \<noteq> MACH_PORT_GEN m"
      if "tm m = Some x" "0 < name_index m" "name_index m < length (table_push t i)" for m x
      using e(2) [of m x] that i by (auto simp: p)
    show "bit (ie_bits (table_push t i ! k)) 23 \<longleftrightarrow> k \<in> name_index ` dom tm" if "k < length (table_push t i)" for k
      using e(3) [of k] that i assms(4) by (auto simp: p GEN_fields)
  qed
qed

lemma free_list_push_correct:
  assumes "table_ok X (is_table is) fs" "tree_ok X (is_table is) fs (is_tree_map is)" "counts_ok tab is" "hashes_ok X space is g"
    and "0 < i" "i < is_table_size is" "i \<notin> set fs" "ie_object (is_table is ! i) = IO_NULL"
    and "\<not> bit (ie_bits (is_table is ! i)) 23" "name = entry_name i (is_table is ! i)" "name \<in> X"
  shows "space_ok tab (X - {name}) space (free_list_push is i) g \<and> rights (free_list_push is i) = (rights is)(name := None)"
proof -
  let ?t = "is_table is"
  note d = table_okD [OF assms(1)] and p = table_push_nth [OF assms(5,6)]
  have i: "name_index m \<noteq> i" if "is_tree_map is m = Some x" for m x
    using tree_okD(3) [OF assms(2,6)] assms(9) that by auto
  have nm: "name_index name = i" "MACH_PORT_GEN name = IE_BITS_GEN (ie_bits (?t ! i))"
    using assms(6,10) d(2) by (simp_all add: name_index_entry_name gen_entry_name)
  have pure: "pure_set (X - {name}) (table_push ?t i) = pure_set X ?t"
    using assms(6,10,11) d(2) TYPE_SEND_nonzero
    by (auto simp: pure_set_def p GEN_fields dest: entry_name_index [rotated 2])
  have "hashes_ok (X - {name}) space (is\<lparr>is_table := table_push ?t i\<rparr>) g"
    using pure i nm by (intro hashes_ok_table [OF assms(4)]) (auto simp: p pure_set_def)
  then have "space_ok tab (X - {name}) space (free_list_push is i) g"
    using table_ok_push [OF assms(1,5,6,7,8)] tree_ok_push [OF assms(2,5,6,9,10) d(2)] assms(3,5,10)
    by (auto simp: space_ok_def free_list_push_eq counts_ok_table p(1))
  moreover have "rights (free_list_push is i) m = ((rights is)(name := None)) m" for m
  proof (cases "name_index m = i")
    case True
    have tn: "is_tree_map is m = None" using True i by (cases "is_tree_map is m") auto
    have "table_entry_of (table_push ?t i) m = None" using True by (simp add: table_entry_of_def p in_use_def GEN_fields)
    moreover have "table_entry_of ?t m = None" if "m \<noteq> name"
      using that True nm name_eqI [of m name] by (auto simp: table_entry_of_def Let_def)
    ultimately show ?thesis using tn assms(5) by (simp add: rights_eq free_list_push_eq)
  next
    case False
    then have "m \<noteq> name" using nm by auto
    moreover have "table_entry_of (table_push ?t i) m = table_entry_of ?t m"
      using False by (auto simp: table_entry_of_def Let_def p)
    ultimately show ?thesis using assms(5) by (simp add: rights_eq free_list_push_eq split: option.splits)
  qed
  ultimately show ?thesis by auto
qed

subsection \<open>Deallocating a tree entry\<close>

text \<open>Two tables that differ in collision bits only.\<close>

definition similar :: "ipc_entry list \<Rightarrow> ipc_entry list \<Rightarrow> bool" where
  "similar t u \<longleftrightarrow> length u = length t \<and>
     (\<forall>i<length t. IE_BITS_TYPE (ie_bits (u ! i)) = IE_BITS_TYPE (ie_bits (t ! i)) \<and>
        IE_BITS_GEN (ie_bits (u ! i)) = IE_BITS_GEN (ie_bits (t ! i)) \<and>
        ie_bits (u ! i) AND IE_BITS_RIGHT_MASK = ie_bits (t ! i) AND IE_BITS_RIGHT_MASK \<and>
        ie_object (u ! i) = ie_object (t ! i) \<and> ie_request (u ! i) = ie_request (t ! i) \<and>
        ie_index (u ! i) = ie_index (t ! i))"

lemma similar_refl [simp]: "similar t t"
  by (simp add: similar_def)

lemma similarD:
  assumes "similar t u" "i < length t"
  shows "IE_BITS_TYPE (ie_bits (u ! i)) = IE_BITS_TYPE (ie_bits (t ! i))"
    "IE_BITS_GEN (ie_bits (u ! i)) = IE_BITS_GEN (ie_bits (t ! i))"
    "ie_bits (u ! i) AND IE_BITS_RIGHT_MASK = ie_bits (t ! i) AND IE_BITS_RIGHT_MASK"
    "ie_object (u ! i) = ie_object (t ! i)" "ie_request (u ! i) = ie_request (t ! i)" "ie_index (u ! i) = ie_index (t ! i)"
    "in_use (u ! i) = in_use (t ! i)" "entry_name i (u ! i) = entry_name i (t ! i)" "right_of (u ! i) = right_of (t ! i)"
  using assms by (auto simp: similar_def in_use_def entry_name_def MACH_PORT_MAKEB_def right_of_def)

lemma similar_length: "similar t u \<Longrightarrow> length u = length t"
  by (simp add: similar_def)

lemma RIGHT_MASK_collision:
  "(b OR IE_BITS_COLLISION) AND IE_BITS_RIGHT_MASK = b AND IE_BITS_RIGHT_MASK"
  "(b AND NOT IE_BITS_COLLISION) AND IE_BITS_RIGHT_MASK = b AND IE_BITS_RIGHT_MASK"
  by (auto simp: natural_eq_iff bit_simps bit_fields bit_COLLISION)

lemma similar_collision:
  "similar t (t[i := (t ! i)\<lparr>ie_bits := ie_bits (t ! i) OR IE_BITS_COLLISION\<rparr>])"
  "similar t (t[i := (t ! i)\<lparr>ie_bits := ie_bits (t ! i) AND NOT IE_BITS_COLLISION\<rparr>])"
  unfolding similar_def
  by (auto simp: nth_update_if COLLISION_fields RIGHT_MASK_collision)

lemma chain_similar:
  assumes "similar t u" "chain t 0 fs" "0 < length t" "\<And>i. i \<in> set fs \<Longrightarrow> i < length t"
  shows "chain u 0 fs"
  using assms(2) by (rule chain_cong) (use similarD(5) [OF assms(1)] assms(3,4) in auto)

lemma table_ok_similar:
  assumes "table_ok X t fs" "similar t u" "\<And>i. i \<in> set fs \<Longrightarrow> ie_bits (u ! i) = ie_bits (t ! i)"
  shows "table_ok X u fs"
proof -
  note d = table_okD [OF assms(1)] and s = similarD [OF assms(2)]
  show ?thesis
  proof (rule table_okI)
    show "chain u 0 fs" using chain_similar [OF assms(2) d(3,1)] d(5) by blast
    show "\<not> in_use (u ! 0)" "IE_BITS_GEN (ie_bits (u ! 0)) = IE_BITS_GEN_MASK" using d(1,6,7) s by auto
    show "ie_bits (u ! i) AND NOT IE_BITS_GEN_MASK = 0 \<and> ie_object (u ! i) = IO_NULL" if "i \<in> set fs" for i
      using d(5) [OF that] d(8) [OF that] assms(3) [OF that] s(4) [of i] by simp
    show "in_use (u ! i) \<or> entry_name i (u ! i) \<in> X" if "0 < i" "i < length u" "i \<notin> set fs" for i
      using that d(9) [of i] s(7,8) [of i] similar_length [OF assms(2)] by simp
  qed (use d similar_length [OF assms(2)] in auto)
qed

lemma pure_set_similar: "similar t u \<Longrightarrow> pure_set X u = pure_set X t"
  using similarD [of t u] by (auto simp: pure_set_def similar_length)

lemma table_entry_of_similar:
  assumes "similar t u"
  shows "map_option right_of (table_entry_of u n) = map_option right_of (table_entry_of t n)"
  by (cases "name_index n < length t")
    (simp_all add: table_entry_of_def similar_length [OF assms] Let_def similarD [OF assms])

lemma rights_eq':
  "rights is n = (case map_option right_of (table_entry_of (is_table is) n) of Some r \<Rightarrow> Some r
     | None \<Rightarrow> map_option right_of (is_tree_map is n))"
  by (auto simp: rights_eq split: option.splits)

lemma tree_ok_similar:
  assumes "tree_ok X t fs tm" "similar t u" "\<And>n e. tm' n = Some e \<Longrightarrow> tm n = Some e \<and> (n \<in> X \<longrightarrow> n \<in> Y)"
    and "\<And>i. i < length t \<Longrightarrow> bit (ie_bits (u ! i)) 23 \<longleftrightarrow> i \<in> name_index ` dom tm'"
  shows "tree_ok Y u fs tm'"
proof -
  note e = tree_okD [OF assms(1)] and l = similar_length [OF assms(2)]
  show ?thesis
  proof (rule tree_okI)
    show "MACH_PORT_VALID n \<and> (in_use x \<or> n \<in> Y) \<and> IE_BITS_GEN (ie_bits x) = 0 \<and> \<not> bit (ie_bits x) 23"
      if "tm' n = Some x" for n x using assms(3) [OF that] e(1) [of n x] by blast
    show "name_index n \<notin> set fs \<and> IE_BITS_GEN (ie_bits (u ! name_index n)) \<noteq> MACH_PORT_GEN n"
      if "tm' n = Some x" "0 < name_index n" "name_index n < length u" for n x
      using assms(3) [OF that(1)] e(2) [of n x] that similarD(2) [OF assms(2), of "name_index n"] l by simp
  qed (use assms(4) l in auto)
qed

lemma index_image_delete:
  "tm n = Some e \<Longrightarrow> name_index ` dom tm = insert (name_index n) (name_index ` dom (tm(n := None)))"
  by auto

lemma resplayedD:
  assumes "resplayed is is'"
  shows "is_table is' = is_table is" "is_tree_map is' = is_tree_map is" "is_tree_total is' = is_tree_total is"
    "is_tree_small is' = is_tree_small is" "is_tree_hash is' = is_tree_hash is" "is_table_next is' = is_table_next is"
    "is_fast is' = is_fast is" "is_active is' = is_active is" "is_growing is' = is_growing is"
    "is_references is' = is_references is" "ist_ok (is_tree is')" "ist_inorder (is_tree is') = ist_inorder (is_tree is)"
proof -
  have e: "is' = is\<lparr>is_tree := is_tree is'\<rparr>" and o: "ist_ok (is_tree is')" "ist_inorder (is_tree is') = ist_inorder (is_tree is)"
    using assms by (auto simp: resplayed_def)
  show "is_table is' = is_table is" "is_tree_total is' = is_tree_total is"
    "is_tree_small is' = is_tree_small is" "is_tree_hash is' = is_tree_hash is" "is_table_next is' = is_table_next is"
    "is_fast is' = is_fast is" "is_active is' = is_active is" "is_growing is' = is_growing is"
    "is_references is' = is_references is"
    by (subst e, simp)+
  show "ist_ok (is_tree is')" "ist_inorder (is_tree is') = ist_inorder (is_tree is)" "is_tree_map is' = is_tree_map is"
    using o by auto
qed

text \<open>
  The state after the entry of \<open>name\<close> has left the tree, whatever happened to the collision bits
  and the counter of small entries.
\<close>

lemma tree_delete_correct:
  assumes "table_ok X (is_table is) fs" "tree_ok X (is_table is) fs (is_tree_map is)" "counts_ok tab is" "hashes_ok X space is g"
    and "is_tree_map is name = Some e" "name \<in> X"
    and "is_tree_map is' = (is_tree_map is)(name := None)" "ist_ok (is_tree is')"
    and "is_tree_total is' = is_tree_total is - 1" "is_tree_hash is' = is_tree_hash is"
    and "is_table_next is' = is_table_next is" "is_fast is' = is_fast is"
    and "similar (is_table is) (is_table is')" "length (ist_inorder (is_tree is')) = length (ist_inorder (is_tree is)) - 1"
    and "\<And>i. i \<in> set fs \<Longrightarrow> ie_bits (is_table is' ! i) = ie_bits (is_table is ! i)"
    and "\<And>i. i < is_table_size is \<Longrightarrow> bit (ie_bits (is_table is' ! i)) 23 \<longleftrightarrow> i \<in> name_index ` dom (is_tree_map is')"
    and "is_tree_small is' = card (small_indices tab is')"
  shows "space_ok tab (X - {name}) space is' g \<and> rights is' = (rights is)(name := None)"
proof -
  note d = table_okD [OF assms(1)] and l = similar_length [OF assms(13)]
  have notab: "0 < i \<Longrightarrow> i < is_table_size is \<Longrightarrow> entry_name i (is_table is ! i) \<noteq> name" for i
    using tree_okD(2) [OF assms(2,5)] d(2) name_index_entry_name [of i "is_table is ! i"] gen_entry_name [of i "is_table is ! i"]
    by auto
  have "table_ok (X - {name}) (is_table is) fs"
    using d notab by (intro table_okI) auto
  then have "table_ok (X - {name}) (is_table is') fs"
    by (rule table_ok_similar [OF _ assms(13,15)])
  moreover have "tree_ok (X - {name}) (is_table is') fs (is_tree_map is')"
    by (rule tree_ok_similar [OF assms(2,13) _ assms(16)]) (auto simp: assms(7) split: if_splits)
  moreover have "counts_ok tab is'"
    using assms(3,8-12,14,17) l by (auto simp: counts_ok_def)
  moreover have "hashes_ok (X - {name}) space is' g"
  proof -
    have h: "hash_ok (is_table is)" "hashed (is_table is) = pure_set X (is_table is)"
      using assms(4) by (auto simp: hashes_ok_pure_set)
    have "hash_ok (is_table is')" "hashed (is_table is') = hashed (is_table is)"
      using hash_ok_cong [OF h(1) l] similarD(4,6) [OF assms(13)] hashed_less [OF h(1)] by auto
    moreover have "pure_set (X - {name}) (is_table is') = pure_set X (is_table is)"
      unfolding pure_set_similar [OF assms(13)] using notab by (auto simp: pure_set_def)
    ultimately show ?thesis
      using assms(4,6,10) h(2) by (auto simp: hashes_ok_pure_set assms(7))
  qed
  moreover have "rights is' m = ((rights is)(name := None)) m" for m
  proof -
    have "table_entry_of (is_table is) name = None"
      using tree_okD(2) [OF assms(2,5)] by (auto simp: table_entry_of_def Let_def)
    then show ?thesis
      by (auto simp: rights_eq' table_entry_of_similar [OF assms(13)] assms(7) split: option.splits)
  qed
  ultimately show ?thesis
    by (auto simp: space_ok_def)
qed

lemma dealloc_tree_correct:
  assumes "table_ok X (is_table is) fs" "tree_ok X (is_table is) fs (is_tree_map is)" "counts_ok tab is" "hashes_ok X space is g"
    and "is_tree_map is name = Some e" "name \<in> X"
  shows "space_ok tab (X - {name}) space (dealloc_tree tab is name) g \<and>
    rights (dealloc_tree tab is name) = (rights is)(name := None)"
proof -
  let ?i = "name_index name" and ?t = "is_table is"
  let ?is1 = "is\<lparr>is_tree := ipc_splay_tree_delete (is_tree is) name, is_tree_total := is_tree_total is - 1\<rparr>"
  have ok: "ist_ok (is_tree is)" using assms(3) by (simp add: counts_ok_def)
  have ne: "is_tree_map is name \<noteq> None" using assms(5) by simp
  note dm = st.delete_map [OF ok ne] and dok = st.delete_ok [OF ok ne] and dl = st.delete_length [OF ok ne]
  obtain b is2 where c: "ipc_entry_tree_collision ?is1 name = (b, is2)" by fastforce
  have valid: "n \<in> dom (is_tree_map is) \<Longrightarrow> MACH_PORT_VALID n" for n
    using tree_okD(1) [OF assms(2)] by blast
  have b: "b \<longleftrightarrow> ?i \<in> name_index ` dom ((is_tree_map is)(name := None))" and rs: "resplayed ?is1 is2"
    using ipc_entry_tree_collision_correct [OF _ _ c] dok valid by (simp_all add: dm)
  note r = resplayedD [OF rs]
  have img: "name_index ` dom (is_tree_map is) = insert ?i (name_index ` dom ((is_tree_map is)(name := None)))"
    using assms(5) by (rule index_image_delete)
  have fs: "?i \<notin> set fs" if "?i < length ?t"
    using tree_okD(2) [OF assms(2,5)] that table_okD(5) [OF assms(1), of 0] by (cases "?i = 0") auto
  have bit: "j < length ?t \<Longrightarrow> bit (ie_bits (?t ! j)) 23 \<longleftrightarrow> j = ?i \<or> j \<in> name_index ` dom ((is_tree_map is)(name := None))" for j
    using tree_okD(3) [OF assms(2), of j] unfolding img by blast
  have small: "is_tree_small is = card (small_indices tab is)" using assms(3) by (simp add: counts_ok_def)
  have fin: "finite (small_indices tab is)" by (simp add: small_indices_def finite_dom_map_of)
  let ?is' = "dealloc_tree tab is name"
  have smallI: "small_indices tab is' = (if ?i \<in> name_index ` dom ((is_tree_map is)(name := None)) then small_indices tab is else small_indices tab is - {?i})"
    if "is_tree_map is' = (is_tree_map is)(name := None)" "is_table_size is' = is_table_size is" "is_table_next is' = is_table_next is" for is'
    unfolding small_indices_def that img by (simp, blast)
  consider "?i < length ?t" | "length ?t \<le> ?i" "?i < tab ! is_table_next is" | "length ?t \<le> ?i" "\<not> ?i < tab ! is_table_next is"
    by linarith
  then show ?thesis
  proof cases
    case 1
    let ?u = "if b then ?t else ?t[?i := (?t ! ?i)\<lparr>ie_bits := ie_bits (?t ! ?i) AND NOT IE_BITS_COLLISION\<rparr>]"
    have is': "?is' = is2\<lparr>is_table := ?u\<rparr>"
      using 1 c r(1) by (simp add: dealloc_tree_def Let_def)
    have "small_indices tab ?is' = small_indices tab is"
      using 1 smallI [of ?is'] r dm by (auto simp: is' small_indices_def)
    then show ?thesis
      using r dm dok dl similar_collision(2) [of ?t ?i] fs 1 b bit small
      by (intro tree_delete_correct [OF assms(1-6)]) (auto simp: is' nth_update_if COLLISION_fields)
  next
    case 2
    have is': "?is' = (if b then is2 else is2\<lparr>is_tree_small := is_tree_small is2 - 1\<rparr>)"
      using 2 c by (simp add: dealloc_tree_def Let_def)
    have "?i \<in> small_indices tab is" using 2 img by (simp add: small_indices_def)
    then have "is_tree_small ?is' = card (small_indices tab ?is')"
      using smallI [of ?is'] r dm small b fin by (cases b) (simp_all add: is')
    then show ?thesis
      using r dm dok dl 2 bit
      by (intro tree_delete_correct [OF assms(1-6)]) (auto simp: is')
  next
    case 3
    have is': "?is' = ?is1" using 3 by (simp add: dealloc_tree_def Let_def)
    have "small_indices tab ?is' = small_indices tab is"
      using 3 smallI [of ?is'] dm by (auto simp: is' small_indices_def)
    then show ?thesis
      using dm dok dl 3 bit small
      by (intro tree_delete_correct [OF assms(1-6)]) (auto simp: is')
  qed
qed

end
