(* ===== verification/IPC_State.thy ===== *)
theory IPC_State
  imports IPC_Entry_Inv "HOL-Library.Monad_Syntax"
begin

text \<open>
  The state that the routines on ports, port sets, messages and rights share: the structures of
  \<^verbatim>\<open>ipc/ipc_object.h\<close>, \<^verbatim>\<open>ipc/ipc_port.h\<close>, \<^verbatim>\<open>ipc/ipc_pset.h\<close>,
  \<^verbatim>\<open>ipc/ipc_mqueue.h\<close> and \<^verbatim>\<open>ipc/ipc_kmsg.h\<close>, the kernel memory that holds them, and the macros
  that take and release references.

  Objects live in maps from addresses to structures. Reading an address that holds no object is a
  crash, so a routine is a partial function: \<open>None\<close> means that the kernel does not come back from
  the call (it dereferences a freed object, panics, loops, or is still blocked). Counters are 32-bit
  words and wrap as in the code. Locks are not part of the state; where a routine drops its locks
  and looks at the state again afterwards, what other threads do meanwhile is an argument.
\<close>

section \<open>Constants\<close>

abbreviation IP_NULL :: ipc_port_t where "IP_NULL \<equiv> IO_NULL"
abbreviation IP_DEAD :: ipc_port_t where "IP_DEAD \<equiv> IO_DEAD"
abbreviation IPS_NULL :: ipc_pset_t where "IPS_NULL \<equiv> IO_NULL"
abbreviation IP_VALID :: "ipc_port_t \<Rightarrow> bool" where "IP_VALID \<equiv> IO_VALID"

definition IS_NULL :: ipc_space_t where "IS_NULL = 0"

definition IO_BITS_KOTYPE :: natural_t where "IO_BITS_KOTYPE = 0x00000fff"
definition IO_BITS_OTYPE :: natural_t where "IO_BITS_OTYPE = 0x7fff0000"
definition IO_BITS_ACTIVE :: natural_t where "IO_BITS_ACTIVE = 0x80000000"
definition IP_BIT_NMS :: natural_t where "IP_BIT_NMS = 0x00008000"

definition IOT_PORT :: natural_t where "IOT_PORT = 0"
definition IOT_PORT_SET :: natural_t where "IOT_PORT_SET = 1"

definition io_makebits :: "bool \<Rightarrow> natural_t \<Rightarrow> natural_t \<Rightarrow> natural_t" where
  "io_makebits active otype kotype = (if active then IO_BITS_ACTIVE else 0) OR push_bit 16 otype OR kotype"

definition io_active_bits :: "natural_t \<Rightarrow> bool" where
  "io_active_bits bits \<longleftrightarrow> bits AND IO_BITS_ACTIVE \<noteq> 0"

definition io_otype_bits :: "natural_t \<Rightarrow> natural_t" where
  "io_otype_bits bits = drop_bit 16 (bits AND IO_BITS_OTYPE)"

definition io_kotype_bits :: "natural_t \<Rightarrow> natural_t" where
  "io_kotype_bits bits = bits AND IO_BITS_KOTYPE"

definition MACH_PORT_QLIMIT_DEFAULT :: natural_t where "MACH_PORT_QLIMIT_DEFAULT = 5"
definition MACH_PORT_QLIMIT_MAX :: natural_t where "MACH_PORT_QLIMIT_MAX = 16"

type_synonym mach_msg_type_name_t = natural_t

definition MACH_MSG_TYPE_MOVE_RECEIVE :: mach_msg_type_name_t where "MACH_MSG_TYPE_MOVE_RECEIVE = 16"
definition MACH_MSG_TYPE_MOVE_SEND :: mach_msg_type_name_t where "MACH_MSG_TYPE_MOVE_SEND = 17"
definition MACH_MSG_TYPE_MOVE_SEND_ONCE :: mach_msg_type_name_t where "MACH_MSG_TYPE_MOVE_SEND_ONCE = 18"
definition MACH_MSG_TYPE_COPY_SEND :: mach_msg_type_name_t where "MACH_MSG_TYPE_COPY_SEND = 19"
definition MACH_MSG_TYPE_MAKE_SEND :: mach_msg_type_name_t where "MACH_MSG_TYPE_MAKE_SEND = 20"
definition MACH_MSG_TYPE_MAKE_SEND_ONCE :: mach_msg_type_name_t where "MACH_MSG_TYPE_MAKE_SEND_ONCE = 21"

abbreviation MACH_MSG_TYPE_PORT_RECEIVE :: mach_msg_type_name_t where
  "MACH_MSG_TYPE_PORT_RECEIVE \<equiv> MACH_MSG_TYPE_MOVE_RECEIVE"
abbreviation MACH_MSG_TYPE_PORT_SEND :: mach_msg_type_name_t where
  "MACH_MSG_TYPE_PORT_SEND \<equiv> MACH_MSG_TYPE_MOVE_SEND"
abbreviation MACH_MSG_TYPE_PORT_SEND_ONCE :: mach_msg_type_name_t where
  "MACH_MSG_TYPE_PORT_SEND_ONCE \<equiv> MACH_MSG_TYPE_MOVE_SEND_ONCE"

lemmas msg_type_defs [mach_consts] =
  MACH_MSG_TYPE_MOVE_RECEIVE_def MACH_MSG_TYPE_MOVE_SEND_def MACH_MSG_TYPE_MOVE_SEND_ONCE_def
  MACH_MSG_TYPE_COPY_SEND_def MACH_MSG_TYPE_MAKE_SEND_def MACH_MSG_TYPE_MAKE_SEND_ONCE_def

definition MACH_MSGH_BITS_REMOTE_MASK :: natural_t where "MACH_MSGH_BITS_REMOTE_MASK = 0x000000ff"
definition MACH_MSGH_BITS_LOCAL_MASK :: natural_t where "MACH_MSGH_BITS_LOCAL_MASK = 0x0000ff00"
definition MACH_MSGH_BITS_COMPLEX :: natural_t where "MACH_MSGH_BITS_COMPLEX = 0x80000000"
definition MACH_MSGH_BITS_CIRCULAR :: natural_t where "MACH_MSGH_BITS_CIRCULAR = 0x40000000"

definition MACH_MSGH_BITS :: "natural_t \<Rightarrow> natural_t \<Rightarrow> natural_t" where
  "MACH_MSGH_BITS remote local = remote OR push_bit 8 local"

definition MACH_MSGH_BITS_REMOTE :: "natural_t \<Rightarrow> natural_t" where
  "MACH_MSGH_BITS_REMOTE bits = bits AND MACH_MSGH_BITS_REMOTE_MASK"

definition MACH_MSGH_BITS_LOCAL :: "natural_t \<Rightarrow> natural_t" where
  "MACH_MSGH_BITS_LOCAL bits = drop_bit 8 (bits AND MACH_MSGH_BITS_LOCAL_MASK)"

section \<open>Messages\<close>

text \<open>
  A kernel message: the fields of \<open>mach_msg_header_t\<close> and the body. In a kernel message the port
  fields hold pointers to objects. \<open>ikm_body\<close> is the descriptor list of a complex message and
  \<open>ikm_data\<close> the words that follow it (the \<open>not_port\<close> name or the \<open>not_count\<close> of a notification).
  The memory that an out-of-line descriptor refers to belongs to the VM system and is only named.
\<close>

datatype mach_msg_descriptor =
    MACH_MSG_PORT_DESCRIPTOR ipc_object_t mach_msg_type_name_t
  | MACH_MSG_OOL_DESCRIPTOR natural_t natural_t
  | MACH_MSG_OOL_VOLATILE_DESCRIPTOR natural_t natural_t
  | MACH_MSG_OOL_PORTS_DESCRIPTOR "ipc_object_t list" mach_msg_type_name_t

record ipc_kmsg =
  msgh_bits :: natural_t
  msgh_size :: natural_t
  msgh_remote_port :: ipc_object_t
  msgh_local_port :: ipc_object_t
  msgh_id :: natural_t
  ikm_body :: "mach_msg_descriptor list"
  ikm_data :: "natural_t list"

type_synonym ipc_thread_t = natural_t

text \<open>A message queue: the queued messages and the threads waiting to receive, oldest first.\<close>

record ipc_mqueue =
  imq_messages :: "ipc_kmsg list"
  imq_threads :: "ipc_thread_t list"

text \<open>
  The return codes. The codes that the C source ORs with the special bits \<^verbatim>\<open>MACH_MSG_IPC_SPACE\<close> etc.
  carry these bits as an argument; \<open>MACH_SEND_PSEUDO mr bits\<close> is the code of a failed send with the bits of
  the pseudo-receive that follows it, and \<open>MACH_SEND_VM_KERNEL\<close> is the bit \<^verbatim>\<open>MACH_MSG_VM_KERNEL\<close> returned
  on its own.
\<close>

datatype mach_msg_return_t =
    MACH_MSG_SUCCESS
  | MACH_SEND_IN_PROGRESS
  | MACH_SEND_TIMED_OUT
  | MACH_SEND_INTERRUPTED
  | MACH_RCV_IN_PROGRESS
  | MACH_RCV_IN_PROGRESS_TIMED
  | MACH_RCV_INVALID_NAME
  | MACH_RCV_IN_SET
  | MACH_RCV_TIMED_OUT
  | MACH_RCV_TOO_LARGE
  | MACH_RCV_INTERRUPTED
  | MACH_RCV_PORT_CHANGED
  | MACH_RCV_PORT_DIED
  | MACH_RCV_SCATTER_SMALL
  | MACH_SEND_INVALID_DATA
  | MACH_SEND_INVALID_DEST
  | MACH_SEND_INVALID_NOTIFY
  | MACH_SEND_INVALID_REPLY
  | MACH_SEND_INVALID_RIGHT
  | MACH_SEND_INVALID_MEMORY
  | MACH_SEND_INVALID_TYPE
  | MACH_SEND_INVALID_HEADER
  | MACH_SEND_MSG_TOO_SMALL
  | MACH_SEND_NO_BUFFER
  | MACH_SEND_VM_KERNEL
  | MACH_SEND_PSEUDO mach_msg_return_t natural_t
  | MACH_RCV_INVALID_NOTIFY
  | MACH_RCV_INVALID_DATA
  | MACH_RCV_INVALID_TYPE
  | MACH_RCV_HEADER_ERROR natural_t
  | MACH_RCV_BODY_ERROR natural_t

record ipc_thread =
  ith_state :: mach_msg_return_t
  ith_kmsg :: "ipc_kmsg option"
  ith_seqno :: natural_t
  ith_msize :: natural_t

section \<open>Ports and port sets\<close>

text \<open>
  A dead-name request slot: the union \<open>notify\<close> holds the send-once right of a used slot and the
  index of the next free slot of a free one. Slot 0 is the header of the table: its \<open>notify\<close> is the
  head of the free list, and its other union member, the pointer \<open>ipr_size\<close> into
  \<open>ipc_table_dnrequests\<close>, is the field \<open>ipr_size\<close> of the table as a position in that array.
  \<open>ipr_address\<close> is the address of the table, because the code compares table pointers.
\<close>

record ipc_port_request =
  ipr_notify :: natural_t
  ipr_name :: mach_port_t

record ipc_port_requests =
  ipr_address :: natural_t
  ipr_size :: nat
  ipr_table :: "ipc_port_request list"

abbreviation ipr_next :: "ipc_port_request \<Rightarrow> natural_t" where "ipr_next \<equiv> ipr_notify"
abbreviation ipr_soright :: "ipc_port_request \<Rightarrow> ipc_port_t" where "ipr_soright \<equiv> ipr_notify"

text \<open>
  A port. The union \<open>data\<close> (\<open>receiver\<close>, \<open>destination\<close>, \<open>timestamp\<close>) is one 32-bit word, read and
  written under the three names of the code.
\<close>

record ipc_port =
  ip_references :: natural_t
  ip_bits :: natural_t
  ip_receiver_name :: mach_port_t
  ip_data :: natural_t
  ip_mscount :: natural_t
  ip_srights :: natural_t
  ip_sorights :: natural_t
  ip_nsrequest :: ipc_port_t
  ip_pdrequest :: ipc_port_t
  ip_dnrequests :: "ipc_port_requests option"
  ip_pset :: ipc_pset_t
  ip_seqno :: natural_t
  ip_msgcount :: natural_t
  ip_qlimit :: natural_t
  ip_messages :: ipc_mqueue
  ip_blocked :: "ipc_thread_t list"
  ip_subsystem :: natural_t
  ip_flags :: natural_t

abbreviation ip_receiver :: "ipc_port \<Rightarrow> ipc_space_t" where "ip_receiver \<equiv> ip_data"
abbreviation ip_destination :: "ipc_port \<Rightarrow> ipc_port_t" where "ip_destination \<equiv> ip_data"
abbreviation ip_timestamp :: "ipc_port \<Rightarrow> natural_t" where "ip_timestamp \<equiv> ip_data"

record ipc_pset =
  ips_references :: natural_t
  ips_bits :: natural_t
  ips_local_name :: mach_port_t
  ips_messages :: ipc_mqueue

definition ip_active :: "ipc_port \<Rightarrow> bool" where
  "ip_active p \<longleftrightarrow> io_active_bits (ip_bits p)"

definition ips_active :: "ipc_pset \<Rightarrow> bool" where
  "ips_active p \<longleftrightarrow> io_active_bits (ips_bits p)"

definition ip_kotype :: "ipc_port \<Rightarrow> natural_t" where
  "ip_kotype p = io_kotype_bits (ip_bits p)"

section \<open>The kernel\<close>

text \<open>
  Calls out of the IPC code are recorded in order: threads made runnable, messages handed to the
  kernel's own server, kernel objects told that their port died, subsystems referenced and released, threads of a
  port's pool woken. What those callees do is not IPC code and happens after the recorded call.

  \<open>k_memory\<close> is the sequence of answers of the kernel allocator; 0 is a failed allocation.
\<close>

datatype kernel_call =
    THREAD_GO ipc_thread_t
  | IPC_KOBJECT_SERVER ipc_kmsg
  | IPC_KOBJECT_DESTROY ipc_port_t
  | SUBSYSTEM_REFERENCE natural_t
  | SUBSYSTEM_DEALLOCATE natural_t
  | THREAD_POOL_WAKEUP ipc_port_t

record kernel =
  k_spaces :: "ipc_space_t \<rightharpoonup> ipc_space"
  k_ghash :: ipc_hash_global
  k_ports :: "ipc_port_t \<rightharpoonup> ipc_port"
  k_psets :: "ipc_pset_t \<rightharpoonup> ipc_pset"
  k_threads :: "ipc_thread_t \<Rightarrow> ipc_thread"
  current_thread :: ipc_thread_t
  ith_messages :: "ipc_kmsg list"
  ipc_port_timestamp_data :: natural_t
  ipc_space_kernel :: ipc_space_t
  ipc_table_entries :: "nat list"
  ipc_table_dnrequests :: "nat list"
  k_memory :: "nat \<Rightarrow> natural_t"
  k_calls :: "kernel_call list"

definition kalloc :: "kernel \<Rightarrow> natural_t \<times> kernel" where
  "kalloc s = (k_memory s 0, s\<lparr>k_memory := (\<lambda>n. k_memory s (Suc n))\<rparr>)"

definition k_call :: "kernel \<Rightarrow> kernel_call \<Rightarrow> kernel" where
  "k_call s c = s\<lparr>k_calls := k_calls s @ [c]\<rparr>"

definition thread_go :: "kernel \<Rightarrow> ipc_thread_t \<Rightarrow> kernel" where
  "thread_go s th = k_call s (THREAD_GO th)"

definition ith_write :: "kernel \<Rightarrow> ipc_thread_t \<Rightarrow> (ipc_thread \<Rightarrow> ipc_thread) \<Rightarrow> kernel" where
  "ith_write s th f = s\<lparr>k_threads := (k_threads s)(th := f (k_threads s th))\<rparr>"

definition port_write :: "kernel \<Rightarrow> ipc_port_t \<Rightarrow> (ipc_port \<Rightarrow> ipc_port) \<Rightarrow> kernel option" where
  "port_write s port f = do {
     p \<leftarrow> k_ports s port;
     Some (s\<lparr>k_ports := (k_ports s)(port \<mapsto> f p)\<rparr>) }"

definition pset_write :: "kernel \<Rightarrow> ipc_pset_t \<Rightarrow> (ipc_pset \<Rightarrow> ipc_pset) \<Rightarrow> kernel option" where
  "pset_write s pset f = do {
     p \<leftarrow> k_psets s pset;
     Some (s\<lparr>k_psets := (k_psets s)(pset \<mapsto> f p)\<rparr>) }"

text \<open>The calls of \<open>IPC_Entry\<close> and \<open>IPC_Hash\<close> on the space at an address.\<close>

definition k_entry_lookup :: "kernel \<Rightarrow> ipc_space_t \<Rightarrow> mach_port_t \<Rightarrow> (ipc_entry_ref option \<times> kernel) option" where
  "k_entry_lookup s space name = do {
     is \<leftarrow> k_spaces s space;
     let (r, is) = ipc_entry_lookup is name;
     Some (r, s\<lparr>k_spaces := (k_spaces s)(space \<mapsto> is)\<rparr>) }"

definition k_entry :: "kernel \<Rightarrow> ipc_space_t \<Rightarrow> ipc_entry_ref \<Rightarrow> ipc_entry option" where
  "k_entry s space entry = map_option (\<lambda>is. ie_at is entry) (k_spaces s space)"

definition k_entry_write ::
  "kernel \<Rightarrow> ipc_space_t \<Rightarrow> ipc_entry_ref \<Rightarrow> (ipc_entry \<Rightarrow> ipc_entry) \<Rightarrow> kernel option" where
  "k_entry_write s space entry f = do {
     is \<leftarrow> k_spaces s space;
     Some (s\<lparr>k_spaces := (k_spaces s)(space \<mapsto> ie_write is entry f)\<rparr>) }"

definition k_entry_dealloc ::
  "kernel \<Rightarrow> ipc_space_t \<Rightarrow> mach_port_t \<Rightarrow> ipc_entry_ref \<Rightarrow> kernel option" where
  "k_entry_dealloc s space name entry = do {
     is \<leftarrow> k_spaces s space;
     (is, g) \<leftarrow> ipc_entry_dealloc (ipc_table_entries s) space is (k_ghash s) name entry;
     Some (s\<lparr>k_spaces := (k_spaces s)(space \<mapsto> is), k_ghash := g\<rparr>) }"

definition k_hash_lookup ::
  "kernel \<Rightarrow> ipc_space_t \<Rightarrow> ipc_object_t \<Rightarrow> ((mach_port_t \<times> ipc_entry_ref) option \<times> kernel) option" where
  "k_hash_lookup s space obj = do {
     is \<leftarrow> k_spaces s space;
     (r, g) \<leftarrow> ipc_hash_lookup is (k_ghash s) space obj;
     Some (r, s\<lparr>k_ghash := g\<rparr>) }"

definition k_hash_insert ::
  "kernel \<Rightarrow> ipc_space_t \<Rightarrow> ipc_object_t \<Rightarrow> mach_port_t \<Rightarrow> ipc_entry_ref \<Rightarrow> kernel option" where
  "k_hash_insert s space obj name entry = do {
     is \<leftarrow> k_spaces s space;
     (is, g) \<leftarrow> ipc_hash_insert is (k_ghash s) space obj name entry;
     Some (s\<lparr>k_spaces := (k_spaces s)(space \<mapsto> is), k_ghash := g\<rparr>) }"

definition k_hash_delete ::
  "kernel \<Rightarrow> ipc_space_t \<Rightarrow> ipc_object_t \<Rightarrow> mach_port_t \<Rightarrow> ipc_entry_ref \<Rightarrow> kernel option" where
  "k_hash_delete s space obj name entry = do {
     is \<leftarrow> k_spaces s space;
     (is, g) \<leftarrow> ipc_hash_delete is (k_ghash s) space obj name entry;
     Some (s\<lparr>k_spaces := (k_spaces s)(space \<mapsto> is), k_ghash := g\<rparr>) }"

section \<open>References\<close>

definition ip_reference :: "kernel \<Rightarrow> ipc_port_t \<Rightarrow> kernel option" where
  "ip_reference s port = port_write s port (\<lambda>p. p\<lparr>ip_references := ip_references p + 1\<rparr>)"

definition ip_release :: "kernel \<Rightarrow> ipc_port_t \<Rightarrow> kernel option" where
  "ip_release s port = port_write s port (\<lambda>p. p\<lparr>ip_references := ip_references p - 1\<rparr>)"

definition ip_check_unlock :: "kernel \<Rightarrow> ipc_port_t \<Rightarrow> kernel option" where
  "ip_check_unlock s port = do {
     p \<leftarrow> k_ports s port;
     Some (if ip_references p = 0 then s\<lparr>k_ports := (k_ports s)(port := None)\<rparr> else s) }"

definition ips_reference :: "kernel \<Rightarrow> ipc_pset_t \<Rightarrow> kernel option" where
  "ips_reference s pset = pset_write s pset (\<lambda>p. p\<lparr>ips_references := ips_references p + 1\<rparr>)"

definition ips_release :: "kernel \<Rightarrow> ipc_pset_t \<Rightarrow> kernel option" where
  "ips_release s pset = pset_write s pset (\<lambda>p. p\<lparr>ips_references := ips_references p - 1\<rparr>)"

definition ips_check_unlock :: "kernel \<Rightarrow> ipc_pset_t \<Rightarrow> kernel option" where
  "ips_check_unlock s pset = do {
     p \<leftarrow> k_psets s pset;
     Some (if ips_references p = 0 then s\<lparr>k_psets := (k_psets s)(pset := None)\<rparr> else s) }"

text \<open>
  The routines of \<^verbatim>\<open>ipc/ipc_object.c\<close> that take and drop a reference. An object is a port or a
  port set; the macros \<open>ipc_port_reference\<close> and \<open>ipc_port_release\<close> are these routines on a port.
\<close>

definition ipc_object_reference :: "kernel \<Rightarrow> ipc_object_t \<Rightarrow> kernel option" where
  "ipc_object_reference s object =
     (if k_ports s object \<noteq> None then ip_reference s object else ips_reference s object)"

definition ipc_object_release :: "kernel \<Rightarrow> ipc_object_t \<Rightarrow> kernel option" where
  "ipc_object_release s object =
     (if k_ports s object \<noteq> None then do { s \<leftarrow> ip_release s object; ip_check_unlock s object }
      else do { s \<leftarrow> ips_release s object; ips_check_unlock s object })"

abbreviation ipc_port_reference :: "kernel \<Rightarrow> ipc_port_t \<Rightarrow> kernel option" where
  "ipc_port_reference \<equiv> ipc_object_reference"

abbreviation ipc_port_release :: "kernel \<Rightarrow> ipc_port_t \<Rightarrow> kernel option" where
  "ipc_port_release \<equiv> ipc_object_release"

end
