(* ===== verification/IPC_Mqueue.thy ===== *)
theory IPC_Mqueue
  imports IPC_State
begin

text \<open>
  Message queues (\<^verbatim>\<open>ipc/ipc_mqueue.c\<close>) and port sets (\<^verbatim>\<open>ipc/ipc_pset.c\<close>).

  The queues of \<^verbatim>\<open>ipc/ipc_thread.c\<close> and of \<^verbatim>\<open>ipc/ipc_kmsg.c\<close> are lists here, oldest element first.
  A blocking call consumes a \<open>wakeup\<close> per \<open>thread_block\<close>: the \<open>wait_result\<close> of the thread and what
  the other threads did to the state while it slept. With no wakeup left the call is still blocked:
  \<open>None\<close>. The routine that destroys a message (\<open>ipc_kmsg_destroy\<close> of \<^verbatim>\<open>ipc/ipc_kmsg.c\<close>, which itself
  sends notifications) is the argument \<open>destroy\<close>; \<open>IPC_Kmsg\<close> ties the knot.
\<close>

section \<open>Queues of a port or a port set\<close>

datatype ipc_mqueue_ref = PORT_QUEUE ipc_port_t | PSET_QUEUE ipc_pset_t

definition imq_at :: "kernel \<Rightarrow> ipc_mqueue_ref \<Rightarrow> ipc_mqueue option" where
  "imq_at s mqueue =
     (case mqueue of PORT_QUEUE port \<Rightarrow> map_option ip_messages (k_ports s port)
      | PSET_QUEUE pset \<Rightarrow> map_option ips_messages (k_psets s pset))"

definition imq_write :: "kernel \<Rightarrow> ipc_mqueue_ref \<Rightarrow> (ipc_mqueue \<Rightarrow> ipc_mqueue) \<Rightarrow> kernel option" where
  "imq_write s mqueue f =
     (case mqueue of PORT_QUEUE port \<Rightarrow> port_write s port (\<lambda>p. p\<lparr>ip_messages := f (ip_messages p)\<rparr>)
      | PSET_QUEUE pset \<Rightarrow> pset_write s pset (\<lambda>p. p\<lparr>ips_messages := f (ips_messages p)\<rparr>))"

definition ipc_mqueue_init :: ipc_mqueue where
  "ipc_mqueue_init = \<lparr>imq_messages = [], imq_threads = []\<rparr>"

text \<open>Handing a message to a receiver: the common tail of \<open>ipc_mqueue_move\<close> and \<open>ipc_mqueue_deliver\<close>.\<close>

definition imq_hand_over :: "kernel \<Rightarrow> ipc_thread_t \<Rightarrow> ipc_port_t \<Rightarrow> ipc_kmsg \<Rightarrow> kernel option" where
  "imq_hand_over s th port kmsg = do {
     p \<leftarrow> k_ports s port;
     let s = ith_write s th (\<lambda>t. t\<lparr>ith_state := MACH_MSG_SUCCESS, ith_kmsg := Some kmsg, ith_seqno := ip_seqno p\<rparr>);
     s \<leftarrow> port_write s port (\<lambda>p. p\<lparr>ip_seqno := ip_seqno p + 1\<rparr>);
     Some (thread_go s th) }"

text \<open>
  The loop of \<open>ipc_mqueue_move\<close> over the messages of the old queue; the result names the messages
  that stay in it.
\<close>

fun mqueue_move_loop ::
  "ipc_mqueue_ref \<Rightarrow> ipc_port_t \<Rightarrow> ipc_kmsg list \<Rightarrow> kernel \<Rightarrow> (ipc_kmsg list \<times> kernel) option" where
  "mqueue_move_loop dest port [] s = Some ([], s)"
| "mqueue_move_loop dest port (kmsg # next) s =
     (if msgh_remote_port kmsg \<noteq> port then do {
        (kept, s) \<leftarrow> mqueue_move_loop dest port next s;
        Some (kmsg # kept, s) }
      else do {
        q \<leftarrow> imq_at s dest;
        (case imq_threads q of
           th # ths \<Rightarrow> do {
             s \<leftarrow> imq_write s dest (\<lambda>q. q\<lparr>imq_threads := ths\<rparr>);
             s \<leftarrow> imq_hand_over s th port kmsg;
             mqueue_move_loop dest port next s }
         | [] \<Rightarrow> do {
             s \<leftarrow> imq_write s dest (\<lambda>q. q\<lparr>imq_messages := imq_messages q @ [kmsg]\<rparr>);
             mqueue_move_loop dest port next s }) })"

definition ipc_mqueue_move ::
  "kernel \<Rightarrow> ipc_mqueue_ref \<Rightarrow> ipc_mqueue_ref \<Rightarrow> ipc_port_t \<Rightarrow> kernel option" where
  "ipc_mqueue_move s dest source port = do {
     q \<leftarrow> imq_at s source;
     (kept, s) \<leftarrow> mqueue_move_loop dest port (imq_messages q) s;
     imq_write s source (\<lambda>q. q\<lparr>imq_messages := kept\<rparr>) }"

primrec wake_all :: "mach_msg_return_t \<Rightarrow> ipc_thread_t list \<Rightarrow> kernel \<Rightarrow> kernel" where
  "wake_all mr [] s = s"
| "wake_all mr (th # ths) s =
     wake_all mr ths (thread_go (ith_write s th (\<lambda>t. t\<lparr>ith_state := mr\<rparr>)) th)"

definition ipc_mqueue_changed :: "kernel \<Rightarrow> ipc_mqueue_ref \<Rightarrow> mach_msg_return_t \<Rightarrow> kernel option" where
  "ipc_mqueue_changed s mqueue mr = do {
     q \<leftarrow> imq_at s mqueue;
     s \<leftarrow> imq_write s mqueue (\<lambda>q. q\<lparr>imq_threads := []\<rparr>);
     Some (wake_all mr (imq_threads q) s) }"

section \<open>Port sets\<close>

definition ipc_pset_add :: "kernel \<Rightarrow> ipc_pset_t \<Rightarrow> ipc_port_t \<Rightarrow> kernel option" where
  "ipc_pset_add s pset port = do {
     s \<leftarrow> port_write s port (\<lambda>p. p\<lparr>ip_pset := pset\<rparr>);
     s \<leftarrow> ips_reference s pset;
     s \<leftarrow> ipc_mqueue_move s (PSET_QUEUE pset) (PORT_QUEUE port) port;
     ipc_mqueue_changed s (PORT_QUEUE port) MACH_RCV_PORT_CHANGED }"

definition ipc_pset_remove :: "kernel \<Rightarrow> ipc_pset_t \<Rightarrow> ipc_port_t \<Rightarrow> kernel option" where
  "ipc_pset_remove s pset port = do {
     s \<leftarrow> port_write s port (\<lambda>p. p\<lparr>ip_pset := IPS_NULL\<rparr>);
     s \<leftarrow> ips_release s pset;
     ipc_mqueue_move s (PORT_QUEUE port) (PSET_QUEUE pset) port }"

definition ipc_pset_move ::
  "kernel \<Rightarrow> ipc_port_t \<Rightarrow> ipc_pset_t \<Rightarrow> (kern_return_t \<times> kernel) option" where
  "ipc_pset_move s port nset = do {
     p \<leftarrow> k_ports s port;
     let oset = ip_pset p;
     (oset, s) \<leftarrow>
       (if oset = nset then Some (oset, s)
        else if oset = IPS_NULL then do {
          s \<leftarrow> ipc_pset_add s nset port;
          Some (oset, s) }
        else if nset = IPS_NULL then do {
          s \<leftarrow> ipc_pset_remove s oset port;
          ps \<leftarrow> k_psets s oset;
          if ips_active ps then Some (oset, s)
          else do {
            s \<leftarrow> ips_check_unlock s oset;
            Some (IPS_NULL, s) } }
        else do {
          s \<leftarrow> ipc_pset_remove s oset port;
          s \<leftarrow> ipc_pset_add s nset port;
          s \<leftarrow> ips_check_unlock s oset;
          Some (oset, s) });
     Some (if nset = IPS_NULL \<and> oset = IPS_NULL then KERN_NOT_IN_SET else KERN_SUCCESS, s) }"

definition ipc_pset_destroy :: "kernel \<Rightarrow> ipc_pset_t \<Rightarrow> kernel option" where
  "ipc_pset_destroy s pset = do {
     s \<leftarrow> pset_write s pset (\<lambda>p. p\<lparr>ips_bits := ips_bits p AND NOT IO_BITS_ACTIVE\<rparr>);
     s \<leftarrow> ipc_mqueue_changed s (PSET_QUEUE pset) MACH_RCV_PORT_DIED;
     s \<leftarrow> ips_release s pset;
     ips_check_unlock s pset }"

section \<open>Sending\<close>

definition MACH_SEND_TIMEOUT :: natural_t where "MACH_SEND_TIMEOUT = 0x00000010"
definition MACH_SEND_ALWAYS :: natural_t where "MACH_SEND_ALWAYS = 0x00010000"
definition MACH_RCV_TIMEOUT :: natural_t where "MACH_RCV_TIMEOUT = 0x00000100"

datatype wait_result_t = THREAD_AWAKENED | THREAD_TIMED_OUT | THREAD_INTERRUPTED | THREAD_RESTART

record wakeup =
  w_result :: wait_result_t
  w_kernel :: "kernel \<Rightarrow> kernel"

type_synonym destroy_kmsg = "kernel \<Rightarrow> ipc_kmsg \<Rightarrow> kernel option"

definition ipc_mqueue_deliver :: "kernel \<Rightarrow> ipc_port_t \<Rightarrow> ipc_kmsg \<Rightarrow> kernel option" where
  "ipc_mqueue_deliver s port kmsg = do {
     p \<leftarrow> k_ports s port;
     let mqueue = (if ip_pset p = IPS_NULL then PORT_QUEUE port else PSET_QUEUE (ip_pset p));
     s \<leftarrow> port_write s port (\<lambda>p. p\<lparr>ip_msgcount := ip_msgcount p + 1\<rparr>);
     q \<leftarrow> imq_at s mqueue;
     (case imq_threads q of
        [] \<Rightarrow> imq_write s mqueue (\<lambda>q. q\<lparr>imq_messages := imq_messages q @ [kmsg]\<rparr>)
      | receiver # ths \<Rightarrow> do {
          s \<leftarrow> imq_write s mqueue (\<lambda>q. q\<lparr>imq_threads := ths\<rparr>);
          imq_hand_over s receiver port kmsg }) }"

fun mqueue_send_loop ::
  "destroy_kmsg \<Rightarrow> ipc_port_t \<Rightarrow> ipc_kmsg \<Rightarrow> natural_t \<Rightarrow> natural_t \<Rightarrow> kernel \<Rightarrow> wakeup list \<Rightarrow>
   (mach_msg_return_t \<times> kernel \<times> wakeup list) option" where
  "mqueue_send_loop destroy port kmsg option timeout s ws = do {
     p \<leftarrow> k_ports s port;
     if \<not> ip_active p then do {
       s \<leftarrow> ip_release s port;
       s \<leftarrow> ip_check_unlock s port;
       s \<leftarrow> destroy s (kmsg\<lparr>msgh_remote_port := MACH_PORT_NULL\<rparr>);
       Some (MACH_MSG_SUCCESS, s, ws) }
     else if ip_msgcount p < ip_qlimit p \<or> option AND MACH_SEND_ALWAYS \<noteq> 0 \<or>
             MACH_MSGH_BITS_REMOTE (msgh_bits kmsg) = MACH_MSG_TYPE_PORT_SEND_ONCE then do {
       s \<leftarrow> ipc_mqueue_deliver s port kmsg;
       Some (MACH_MSG_SUCCESS, s, ws) }
     else if option AND MACH_SEND_TIMEOUT \<noteq> 0 \<and> timeout = 0 then Some (MACH_SEND_TIMED_OUT, s, ws)
     else do {
       let self = current_thread s;
       let s = ith_write s self (\<lambda>t. t\<lparr>ith_state := MACH_SEND_IN_PROGRESS\<rparr>);
       s \<leftarrow> port_write s port (\<lambda>p. p\<lparr>ip_blocked := ip_blocked p @ [self]\<rparr>);
       (case ws of
          [] \<Rightarrow> None
        | w # ws \<Rightarrow>
            let s = w_kernel w s in
            if ith_state (k_threads s self) = MACH_MSG_SUCCESS
            then mqueue_send_loop destroy port kmsg option timeout s ws
            else (case w_result w of
                    THREAD_INTERRUPTED \<Rightarrow> Some (MACH_SEND_INTERRUPTED, s, ws)
                  | THREAD_TIMED_OUT \<Rightarrow> mqueue_send_loop destroy port kmsg option 0 s ws
                  | _ \<Rightarrow> None)) } }"

declare mqueue_send_loop.simps [simp del]

definition ipc_mqueue_send ::
  "destroy_kmsg \<Rightarrow> kernel \<Rightarrow> ipc_kmsg \<Rightarrow> natural_t \<Rightarrow> natural_t \<Rightarrow> wakeup list \<Rightarrow>
   (mach_msg_return_t \<times> kernel \<times> wakeup list) option" where
  "ipc_mqueue_send destroy s kmsg option timeout ws = do {
     let port = msgh_remote_port kmsg;
     p \<leftarrow> k_ports s port;
     if ip_receiver p = ipc_space_kernel s
     then Some (MACH_MSG_SUCCESS, k_call s (IPC_KOBJECT_SERVER kmsg), ws)
     else if msgh_bits kmsg AND MACH_MSGH_BITS_CIRCULAR \<noteq> 0 then do {
       s \<leftarrow> destroy s kmsg;
       Some (MACH_MSG_SUCCESS, s, ws) }
     else mqueue_send_loop destroy port kmsg option timeout s ws }"

definition ipc_mqueue_send_always :: "destroy_kmsg \<Rightarrow> kernel \<Rightarrow> ipc_kmsg \<Rightarrow> kernel option" where
  "ipc_mqueue_send_always destroy s kmsg = do {
     (mr, s, ws) \<leftarrow> ipc_mqueue_send destroy s kmsg MACH_SEND_ALWAYS 0 [];
     Some s }"

section \<open>Receiving\<close>

definition ipc_mqueue_copyin ::
  "kernel \<Rightarrow> ipc_space_t \<Rightarrow> mach_port_t \<Rightarrow> (mach_msg_return_t \<times> (ipc_mqueue_ref \<times> ipc_object_t) option \<times> kernel) option" where
  "ipc_mqueue_copyin s space name = do {
     is \<leftarrow> k_spaces s space;
     if \<not> is_active is then Some (MACH_RCV_INVALID_NAME, None, s)
     else do {
       (r, s) \<leftarrow> k_entry_lookup s space name;
       (case r of
          None \<Rightarrow> Some (MACH_RCV_INVALID_NAME, None, s)
        | Some entry \<Rightarrow> do {
            e \<leftarrow> k_entry s space entry;
            let bits = ie_bits e;
            let object = ie_object e;
            if bits AND MACH_PORT_TYPE_RECEIVE \<noteq> 0 then do {
              p \<leftarrow> k_ports s object;
              if ip_pset p = IPS_NULL then do {
                s \<leftarrow> ip_reference s object;
                Some (MACH_MSG_SUCCESS, Some (PORT_QUEUE object, object), s) }
              else do {
                ps \<leftarrow> k_psets s (ip_pset p);
                if ips_active ps then Some (MACH_RCV_IN_SET, None, s)
                else do {
                  s \<leftarrow> ipc_pset_remove s (ip_pset p) object;
                  s \<leftarrow> ips_check_unlock s (ip_pset p);
                  s \<leftarrow> ip_reference s object;
                  Some (MACH_MSG_SUCCESS, Some (PORT_QUEUE object, object), s) } } }
            else if bits AND MACH_PORT_TYPE_PORT_SET \<noteq> 0 then do {
              s \<leftarrow> ips_reference s object;
              Some (MACH_MSG_SUCCESS, Some (PSET_QUEUE object, object), s) }
            else Some (MACH_RCV_INVALID_NAME, None, s) }) } }"

text \<open>
  \<open>trailer\<close> is \<open>REQUESTED_TRAILER_SIZE(option)\<close>, and \<open>scatter\<close> is the verification of the thread's
  scatter list by \<open>ipc_kmsg_check_scatter\<close>, absent when the thread has none.
\<close>

definition ipc_mqueue_finish_receive ::
  "kernel \<Rightarrow> ipc_kmsg \<Rightarrow> ipc_port_t \<Rightarrow> natural_t \<Rightarrow> natural_t \<Rightarrow> (ipc_kmsg \<Rightarrow> mach_msg_return_t) option \<Rightarrow>
   (mach_msg_return_t \<times> kernel) option" where
  "ipc_mqueue_finish_receive s kmsg port trailer max_size scatter = do {
     let mr = (if msgh_size kmsg > max_size - trailer then MACH_RCV_TOO_LARGE
               else (case scatter of None \<Rightarrow> MACH_MSG_SUCCESS | Some check \<Rightarrow> check kmsg));
     p \<leftarrow> k_ports s port;
     if \<not> ip_active p then Some (mr, s)
     else do {
       s \<leftarrow> port_write s port (\<lambda>p. p\<lparr>ip_msgcount := ip_msgcount p - 1\<rparr>);
       p \<leftarrow> k_ports s port;
       (case ip_blocked p of
          sender # senders \<Rightarrow>
            if ip_msgcount p < ip_qlimit p then do {
              s \<leftarrow> port_write s port (\<lambda>p. p\<lparr>ip_blocked := senders\<rparr>);
              Some (mr, thread_go (ith_write s sender (\<lambda>t. t\<lparr>ith_state := MACH_MSG_SUCCESS\<rparr>)) sender) }
            else Some (mr, s)
        | [] \<Rightarrow> Some (mr, s)) } }"

fun mqueue_receive_loop ::
  "ipc_mqueue_ref \<Rightarrow> natural_t \<Rightarrow> natural_t \<Rightarrow> natural_t \<Rightarrow> kernel \<Rightarrow> wakeup list \<Rightarrow>
   ((mach_msg_return_t + (ipc_kmsg \<times> natural_t \<times> ipc_port_t)) \<times> kernel \<times> wakeup list) option" where
  "mqueue_receive_loop mqueue option max_size timeout s ws = do {
     q \<leftarrow> imq_at s mqueue;
     (case imq_messages q of
        kmsg # kmsgs \<Rightarrow> do {
          s \<leftarrow> imq_write s mqueue (\<lambda>q. q\<lparr>imq_messages := kmsgs\<rparr>);
          p \<leftarrow> k_ports s (msgh_remote_port kmsg);
          s \<leftarrow> port_write s (msgh_remote_port kmsg) (\<lambda>p. p\<lparr>ip_seqno := ip_seqno p + 1\<rparr>);
          Some (Inr (kmsg, ip_seqno p, msgh_remote_port kmsg), s, ws) }
      | [] \<Rightarrow>
          if option AND MACH_RCV_TIMEOUT \<noteq> 0 \<and> timeout = 0 then Some (Inl MACH_RCV_TIMED_OUT, s, ws)
          else do {
            let self = current_thread s;
            let s = ith_write s self
              (\<lambda>t. t\<lparr>ith_state := (if option AND MACH_RCV_TIMEOUT \<noteq> 0 then MACH_RCV_IN_PROGRESS_TIMED else MACH_RCV_IN_PROGRESS),
                     ith_msize := max_size\<rparr>);
            s \<leftarrow> imq_write s mqueue (\<lambda>q. q\<lparr>imq_threads := imq_threads q @ [self]\<rparr>);
            (case ws of
               [] \<Rightarrow> None
             | w # ws \<Rightarrow>
                 let s = w_kernel w s; t = k_threads s self in
                 (case ith_state t of
                    MACH_MSG_SUCCESS \<Rightarrow> do {
                      kmsg \<leftarrow> ith_kmsg t;
                      Some (Inr (kmsg, ith_seqno t, msgh_remote_port kmsg), s, ws) }
                  | MACH_RCV_PORT_DIED \<Rightarrow> Some (Inl MACH_RCV_PORT_DIED, s, ws)
                  | MACH_RCV_PORT_CHANGED \<Rightarrow> Some (Inl MACH_RCV_PORT_CHANGED, s, ws)
                  | st \<Rightarrow>
                      if st = MACH_RCV_IN_PROGRESS \<or> st = MACH_RCV_IN_PROGRESS_TIMED then do {
                        s \<leftarrow> imq_write s mqueue (\<lambda>q. q\<lparr>imq_threads := remove1 self (imq_threads q)\<rparr>);
                        (case w_result w of
                           THREAD_INTERRUPTED \<Rightarrow> Some (Inl MACH_RCV_INTERRUPTED, s, ws)
                         | THREAD_TIMED_OUT \<Rightarrow> mqueue_receive_loop mqueue option max_size 0 s ws
                         | _ \<Rightarrow> None) }
                      else None)) }) }"

declare mqueue_receive_loop.simps [simp del]

definition ipc_mqueue_receive ::
  "kernel \<Rightarrow> ipc_mqueue_ref \<Rightarrow> natural_t \<Rightarrow> natural_t \<Rightarrow> natural_t \<Rightarrow> natural_t \<Rightarrow> (ipc_kmsg \<Rightarrow> mach_msg_return_t) option \<Rightarrow>
   wakeup list \<Rightarrow> (mach_msg_return_t \<times> (ipc_kmsg \<times> natural_t) option \<times> kernel \<times> wakeup list) option" where
  "ipc_mqueue_receive s mqueue option max_size timeout trailer scatter ws = do {
     (r, s, ws) \<leftarrow> mqueue_receive_loop mqueue option max_size timeout s ws;
     (case r of
        Inl mr \<Rightarrow> Some (mr, None, s, ws)
      | Inr (kmsg, seqno, port) \<Rightarrow> do {
          (mr, s) \<leftarrow> ipc_mqueue_finish_receive s kmsg port trailer max_size scatter;
          Some (mr, Some (kmsg, seqno), s, ws) }) }"

end
