(* ===== verification/IPC_Notify.thy ===== *)
theory IPC_Notify
  imports IPC_Mqueue
begin

text \<open>
  Notification messages (\<^verbatim>\<open>ipc/ipc_notify.c\<close>): the templates and the routines that send them to a
  send-once right. The NDR record and the trailer of a notification are constants of the template and
  are left out; \<open>msgh_size\<close> is the size of the structures of \<^verbatim>\<open>mach/notify.h\<close> without the trailer.
  The port-destroyed notification, which carries a receive right, is in \<open>IPC_Port\<close>.
\<close>

definition MACH_NOTIFY_PORT_DELETED :: natural_t where "MACH_NOTIFY_PORT_DELETED = 65"
definition MACH_NOTIFY_PORT_DESTROYED :: natural_t where "MACH_NOTIFY_PORT_DESTROYED = 69"
definition MACH_NOTIFY_NO_SENDERS :: natural_t where "MACH_NOTIFY_NO_SENDERS = 70"
definition MACH_NOTIFY_SEND_ONCE :: natural_t where "MACH_NOTIFY_SEND_ONCE = 71"
definition MACH_NOTIFY_DEAD_NAME :: natural_t where "MACH_NOTIFY_DEAD_NAME = 72"

definition ipc_notify_init_port_deleted :: ipc_kmsg where
  "ipc_notify_init_port_deleted =
     \<lparr>msgh_bits = MACH_MSGH_BITS MACH_MSG_TYPE_PORT_SEND_ONCE 0, msgh_size = 36,
      msgh_remote_port = MACH_PORT_NULL, msgh_local_port = MACH_PORT_NULL,
      msgh_id = MACH_NOTIFY_PORT_DELETED, ikm_body = [], ikm_data = [MACH_PORT_NULL]\<rparr>"

definition ipc_notify_init_port_destroyed :: ipc_kmsg where
  "ipc_notify_init_port_destroyed =
     \<lparr>msgh_bits = MACH_MSGH_BITS_COMPLEX OR MACH_MSGH_BITS MACH_MSG_TYPE_PORT_SEND_ONCE 0, msgh_size = 40,
      msgh_remote_port = MACH_PORT_NULL, msgh_local_port = MACH_PORT_NULL,
      msgh_id = MACH_NOTIFY_PORT_DESTROYED,
      ikm_body = [MACH_MSG_PORT_DESCRIPTOR MACH_PORT_NULL MACH_MSG_TYPE_PORT_RECEIVE], ikm_data = []\<rparr>"

definition ipc_notify_init_no_senders :: ipc_kmsg where
  "ipc_notify_init_no_senders =
     \<lparr>msgh_bits = MACH_MSGH_BITS MACH_MSG_TYPE_PORT_SEND_ONCE 0, msgh_size = 36,
      msgh_remote_port = MACH_PORT_NULL, msgh_local_port = MACH_PORT_NULL,
      msgh_id = MACH_NOTIFY_NO_SENDERS, ikm_body = [], ikm_data = [0]\<rparr>"

definition ipc_notify_init_send_once :: ipc_kmsg where
  "ipc_notify_init_send_once =
     \<lparr>msgh_bits = MACH_MSGH_BITS MACH_MSG_TYPE_PORT_SEND_ONCE 0, msgh_size = 24,
      msgh_remote_port = MACH_PORT_NULL, msgh_local_port = MACH_PORT_NULL,
      msgh_id = MACH_NOTIFY_SEND_ONCE, ikm_body = [], ikm_data = []\<rparr>"

definition ipc_notify_init_dead_name :: ipc_kmsg where
  "ipc_notify_init_dead_name =
     \<lparr>msgh_bits = MACH_MSGH_BITS MACH_MSG_TYPE_PORT_SEND_ONCE 0, msgh_size = 36,
      msgh_remote_port = MACH_PORT_NULL, msgh_local_port = MACH_PORT_NULL,
      msgh_id = MACH_NOTIFY_DEAD_NAME, ikm_body = [], ikm_data = [MACH_PORT_NULL]\<rparr>"

lemmas notify_templates =
  ipc_notify_init_port_deleted_def ipc_notify_init_port_destroyed_def ipc_notify_init_no_senders_def
  ipc_notify_init_send_once_def ipc_notify_init_dead_name_def

definition ipc_port_release_sonce :: "kernel \<Rightarrow> ipc_port_t \<Rightarrow> kernel option" where
  "ipc_port_release_sonce s port = do {
     s \<leftarrow> port_write s port (\<lambda>p. p\<lparr>ip_sorights := ip_sorights p - 1\<rparr>);
     s \<leftarrow> ip_release s port;
     p \<leftarrow> k_ports s port;
     if \<not> ip_active p then ip_check_unlock s port else Some s }"

definition ipc_notify_port_deleted ::
  "destroy_kmsg \<Rightarrow> kernel \<Rightarrow> ipc_port_t \<Rightarrow> mach_port_t \<Rightarrow> kernel option" where
  "ipc_notify_port_deleted destroy s port name = do {
     let (mem, s) = kalloc s;
     if mem = 0 then ipc_port_release_sonce s port
     else ipc_mqueue_send_always destroy s
            (ipc_notify_init_port_deleted\<lparr>msgh_remote_port := port, ikm_data := [name]\<rparr>) }"

definition ipc_notify_no_senders ::
  "destroy_kmsg \<Rightarrow> kernel \<Rightarrow> ipc_port_t \<Rightarrow> natural_t \<Rightarrow> kernel option" where
  "ipc_notify_no_senders destroy s port mscount = do {
     let (mem, s) = kalloc s;
     if mem = 0 then ipc_port_release_sonce s port
     else ipc_mqueue_send_always destroy s
            (ipc_notify_init_no_senders\<lparr>msgh_remote_port := port, ikm_data := [mscount]\<rparr>) }"

definition ipc_notify_send_once :: "destroy_kmsg \<Rightarrow> kernel \<Rightarrow> ipc_port_t \<Rightarrow> kernel option" where
  "ipc_notify_send_once destroy s port = do {
     let (mem, s) = kalloc s;
     if mem = 0 then ipc_port_release_sonce s port
     else ipc_mqueue_send_always destroy s (ipc_notify_init_send_once\<lparr>msgh_remote_port := port\<rparr>) }"

definition ipc_notify_dead_name ::
  "destroy_kmsg \<Rightarrow> kernel \<Rightarrow> ipc_port_t \<Rightarrow> mach_port_t \<Rightarrow> kernel option" where
  "ipc_notify_dead_name destroy s port name = do {
     let (mem, s) = kalloc s;
     if mem = 0 then ipc_port_release_sonce s port
     else ipc_mqueue_send_always destroy s
            (ipc_notify_init_dead_name\<lparr>msgh_remote_port := port, ikm_data := [name]\<rparr>) }"

end
