(* ===== verification/IPC_Port.thy ===== *)
theory IPC_Port
  imports IPC_Notify
begin

text \<open>
  Ports (\<^verbatim>\<open>ipc/ipc_port.c\<close>): timestamps, dead-name request tables, notification requests, queue
  limits, naked rights, and the destruction of a port. The routines that allocate or copy out a right
  (\<open>ipc_port_alloc\<close>, \<open>ipc_port_alloc_name\<close>, \<open>ipc_port_copyout_send\<close>) need entries and are in \<open>IPC_Object\<close>.

  \<open>destroy\<close> is the routine that destroys a message, as in \<open>IPC_Mqueue\<close>.
\<close>

section \<open>Timestamps\<close>

definition ipc_port_timestamp :: "kernel \<Rightarrow> natural_t \<times> kernel" where
  "ipc_port_timestamp s =
     (ipc_port_timestamp_data s, s\<lparr>ipc_port_timestamp_data := ipc_port_timestamp_data s + 1\<rparr>)"

section \<open>Dead-name requests\<close>

definition ipr_write ::
  "ipc_port_requests \<Rightarrow> natural_t \<Rightarrow> (ipc_port_request \<Rightarrow> ipc_port_request) \<Rightarrow> ipc_port_requests" where
  "ipr_write t index f = t\<lparr>ipr_table := (ipr_table t)[unat index := f (ipr_table t ! unat index)]\<rparr>"

definition ipr_head :: "ipc_port_requests \<Rightarrow> natural_t" where
  "ipr_head t = ipr_next (ipr_table t ! 0)"

definition ipr_set_head :: "ipc_port_requests \<Rightarrow> natural_t \<Rightarrow> ipc_port_requests" where
  "ipr_set_head t index = ipr_write t 0 (\<lambda>r. r\<lparr>ipr_notify := index\<rparr>)"

definition ipc_port_dnrequest ::
  "kernel \<Rightarrow> ipc_port_t \<Rightarrow> mach_port_t \<Rightarrow> ipc_port_t \<Rightarrow> (kern_return_t \<times> natural_t \<times> kernel) option" where
  "ipc_port_dnrequest s port name soright = do {
     p \<leftarrow> k_ports s port;
     (case ip_dnrequests p of
        None \<Rightarrow> Some (KERN_NO_SPACE, 0, s)
      | Some table \<Rightarrow>
          let index = ipr_head table in
          if index = 0 then Some (KERN_NO_SPACE, 0, s)
          else do {
            let ipr = ipr_table table ! unat index;
            let table = ipr_set_head table (ipr_next ipr);
            let table = ipr_write table index (\<lambda>r. r\<lparr>ipr_name := name, ipr_notify := soright\<rparr>);
            s \<leftarrow> port_write s port (\<lambda>p. p\<lparr>ip_dnrequests := Some table\<rparr>);
            Some (KERN_SUCCESS, index, s) }) }"

function its_search :: "nat list \<Rightarrow> nat \<Rightarrow> nat \<Rightarrow> nat" where
  "its_search its i target =
     (if i < length its \<and> its ! i \<noteq> 0 \<and> its ! i < target then its_search its (Suc i) target else i)"
  by auto
termination by (relation "measure (\<lambda>(its, i, target). length its - i)") auto

declare its_search.simps [simp del]

text \<open>The loop that adds the slots from \<open>osize\<close> to \<open>nsize - 1\<close> to the free list, last one first in it.\<close>

primrec dngrow_free :: "nat list \<Rightarrow> natural_t \<Rightarrow> ipc_port_request list \<times> natural_t" where
  "dngrow_free [] free = ([], free)"
| "dngrow_free (i # is) free =
     (let (rs, free') = dngrow_free is (of_nat i)
      in (\<lparr>ipr_notify = free, ipr_name = MACH_PORT_NULL\<rparr> # rs, free'))"

text \<open>
  \<open>others\<close> is what other threads do while the port is unlocked for the allocation.
\<close>

definition ipc_port_dngrow ::
  "(kernel \<Rightarrow> kernel) \<Rightarrow> kernel \<Rightarrow> ipc_port_t \<Rightarrow> natural_t \<Rightarrow> (kern_return_t \<times> kernel) option" where
  "ipc_port_dngrow others s port target = do {
     p \<leftarrow> k_ports s port;
     let tab = ipc_table_dnrequests s;
     let otable = ip_dnrequests p;
     let its = (case otable of None \<Rightarrow> 0 | Some t \<Rightarrow> ipr_size t + 1);
     if target \<noteq> ITS_SIZE_NONE \<and>
        (case otable of None \<Rightarrow> False | Some t \<Rightarrow> unat target \<le> tab ! ipr_size t)
     then Some (KERN_SUCCESS, s)
     else do {
       let its = (if target \<noteq> ITS_SIZE_NONE then its_search tab its (unat target) else its);
       if target \<noteq> ITS_SIZE_NONE \<and> tab ! its = 0 then Some (KERN_NO_SPACE, s)
       else do {
         s \<leftarrow> ip_reference s port;
         let (ntable, s) = (if tab ! its = 0 then (0, s) else kalloc s);
         if ntable = 0 then do {
           s \<leftarrow> ipc_port_release s port;
           Some (KERN_RESOURCE_SHORTAGE, s) }
         else do {
           let s = others s;
           s \<leftarrow> ip_release s port;
           p \<leftarrow> k_ports s port;
           if ip_active p \<and> map_option ipr_address (ip_dnrequests p) = map_option ipr_address otable \<and>
              (case ip_dnrequests p of None \<Rightarrow> True | Some t \<Rightarrow> ipr_size t + 1 = its)
           then do {
             let (used, osize, free) =
               (case ip_dnrequests p of
                  None \<Rightarrow> ([], 1, 0)
                | Some t \<Rightarrow> (tl (ipr_table t), tab ! ipr_size t, ipr_head t));
             let (new, free) = dngrow_free [osize..<tab ! its] free;
             s \<leftarrow> port_write s port (\<lambda>p. p\<lparr>ip_dnrequests := Some
                    \<lparr>ipr_address = ntable, ipr_size = its,
                     ipr_table = \<lparr>ipr_notify = free, ipr_name = MACH_PORT_NULL\<rparr> # used @ new\<rparr>\<rparr>);
             Some (KERN_SUCCESS, s) }
           else do {
             s \<leftarrow> ip_check_unlock s port;
             Some (KERN_SUCCESS, s) } } } } }"

definition ipc_port_dncancel ::
  "kernel \<Rightarrow> ipc_port_t \<Rightarrow> mach_port_t \<Rightarrow> natural_t \<Rightarrow> (ipc_port_t \<times> kernel) option" where
  "ipc_port_dncancel s port name index = do {
     p \<leftarrow> k_ports s port;
     table \<leftarrow> ip_dnrequests p;
     let dnrequest = ipr_soright (ipr_table table ! unat index);
     let table = ipr_write table index (\<lambda>r. r\<lparr>ipr_name := MACH_PORT_NULL, ipr_notify := ipr_head table\<rparr>);
     let table = ipr_set_head table index;
     s \<leftarrow> port_write s port (\<lambda>p. p\<lparr>ip_dnrequests := Some table\<rparr>);
     Some (dnrequest, s) }"

definition ipc_port_dnrename ::
  "kernel \<Rightarrow> ipc_port_t \<Rightarrow> natural_t \<Rightarrow> mach_port_t \<Rightarrow> mach_port_t \<Rightarrow> kernel option" where
  "ipc_port_dnrename s port index oname nname = do {
     p \<leftarrow> k_ports s port;
     table \<leftarrow> ip_dnrequests p;
     port_write s port (\<lambda>p. p\<lparr>ip_dnrequests := Some (ipr_write table index (\<lambda>r. r\<lparr>ipr_name := nname\<rparr>))\<rparr>) }"

section \<open>Port-deleted and no-senders requests\<close>

definition ipc_port_pdrequest :: "kernel \<Rightarrow> ipc_port_t \<Rightarrow> ipc_port_t \<Rightarrow> (ipc_port_t \<times> kernel) option" where
  "ipc_port_pdrequest s port notify = do {
     p \<leftarrow> k_ports s port;
     s \<leftarrow> port_write s port (\<lambda>p. p\<lparr>ip_pdrequest := notify\<rparr>);
     Some (ip_pdrequest p, s) }"

definition ipc_port_nsrequest ::
  "destroy_kmsg \<Rightarrow> kernel \<Rightarrow> ipc_port_t \<Rightarrow> natural_t \<Rightarrow> ipc_port_t \<Rightarrow> (ipc_port_t \<times> kernel) option" where
  "ipc_port_nsrequest destroy s port sync notify = do {
     p \<leftarrow> k_ports s port;
     let previous = ip_nsrequest p;
     let mscount = ip_mscount p;
     if ip_srights p = 0 \<and> sync \<le> mscount \<and> notify \<noteq> IP_NULL then do {
       s \<leftarrow> port_write s port (\<lambda>p. p\<lparr>ip_nsrequest := IP_NULL\<rparr>);
       s \<leftarrow> ipc_notify_no_senders destroy s notify mscount;
       Some (previous, s) }
     else do {
       s \<leftarrow> port_write s port (\<lambda>p. p\<lparr>ip_nsrequest := notify\<rparr>);
       Some (previous, s) } }"

section \<open>Attributes of a receive right\<close>

fun qlimit_wakeup :: "nat \<Rightarrow> ipc_thread_t list \<Rightarrow> kernel \<Rightarrow> ipc_thread_t list \<times> kernel" where
  "qlimit_wakeup 0 ths s = (ths, s)"
| "qlimit_wakeup (Suc n) [] s = ([], s)"
| "qlimit_wakeup (Suc n) (th # ths) s =
     qlimit_wakeup n ths (thread_go (ith_write s th (\<lambda>t. t\<lparr>ith_state := MACH_MSG_SUCCESS\<rparr>)) th)"

definition ipc_port_set_qlimit :: "kernel \<Rightarrow> ipc_port_t \<Rightarrow> natural_t \<Rightarrow> kernel option" where
  "ipc_port_set_qlimit s port qlimit = do {
     p \<leftarrow> k_ports s port;
     s \<leftarrow> (if qlimit > ip_qlimit p then
             let (ths, s) = qlimit_wakeup (unat (qlimit - ip_qlimit p)) (ip_blocked p) s
             in port_write s port (\<lambda>p. p\<lparr>ip_blocked := ths\<rparr>)
           else Some s);
     port_write s port (\<lambda>p. p\<lparr>ip_qlimit := qlimit\<rparr>) }"

definition ipc_port_set_mscount :: "kernel \<Rightarrow> ipc_port_t \<Rightarrow> natural_t \<Rightarrow> kernel option" where
  "ipc_port_set_mscount s port mscount = port_write s port (\<lambda>p. p\<lparr>ip_mscount := mscount\<rparr>)"

definition ipc_port_set_seqno :: "kernel \<Rightarrow> ipc_port_t \<Rightarrow> natural_t \<Rightarrow> kernel option" where
  "ipc_port_set_seqno s port seqno = do {
     p \<leftarrow> k_ports s port;
     s \<leftarrow> (if ip_pset p \<noteq> IPS_NULL then do {
             ps \<leftarrow> k_psets s (ip_pset p);
             if \<not> ips_active ps then do {
               s \<leftarrow> ipc_pset_remove s (ip_pset p) port;
               ips_check_unlock s (ip_pset p) }
             else Some s }
           else Some s);
     port_write s port (\<lambda>p. p\<lparr>ip_seqno := seqno\<rparr>) }"

definition ipc_port_clear_receiver :: "kernel \<Rightarrow> ipc_port_t \<Rightarrow> kernel option" where
  "ipc_port_clear_receiver s port = do {
     p \<leftarrow> k_ports s port;
     s \<leftarrow> (if ip_pset p \<noteq> IPS_NULL then do {
             s \<leftarrow> ipc_pset_remove s (ip_pset p) port;
             ips_check_unlock s (ip_pset p) }
           else ipc_mqueue_changed s (PORT_QUEUE port) MACH_RCV_PORT_DIED);
     s \<leftarrow> ipc_port_set_mscount s port 0;
     port_write s port (\<lambda>p. p\<lparr>ip_seqno := 0\<rparr>) }"

definition ipc_port_init :: "ipc_port \<Rightarrow> ipc_space_t \<Rightarrow> mach_port_t \<Rightarrow> ipc_port" where
  "ipc_port_init port space name =
     port\<lparr>ip_data := space, ip_receiver_name := name, ip_mscount := 0, ip_srights := 0, ip_sorights := 0,
          ip_nsrequest := IP_NULL, ip_pdrequest := IP_NULL, ip_dnrequests := None,
          ip_pset := IPS_NULL, ip_seqno := 0, ip_msgcount := 0, ip_qlimit := MACH_PORT_QLIMIT_DEFAULT,
          ip_subsystem := 0, ip_flags := 0, ip_bits := ip_bits port OR IP_BIT_NMS,
          ip_messages := ipc_mqueue_init, ip_blocked := []\<rparr>"

section \<open>Naked rights\<close>

definition ipc_port_lookup_notify ::
  "kernel \<Rightarrow> ipc_space_t \<Rightarrow> mach_port_t \<Rightarrow> (ipc_port_t \<times> kernel) option" where
  "ipc_port_lookup_notify s space name = do {
     (r, s) \<leftarrow> k_entry_lookup s space name;
     (case r of
        None \<Rightarrow> Some (IP_NULL, s)
      | Some entry \<Rightarrow> do {
          e \<leftarrow> k_entry s space entry;
          if ie_bits e AND MACH_PORT_TYPE_RECEIVE = 0 then Some (IP_NULL, s)
          else do {
            s \<leftarrow> ip_reference s (ie_object e);
            s \<leftarrow> port_write s (ie_object e) (\<lambda>p. p\<lparr>ip_sorights := ip_sorights p + 1\<rparr>);
            Some (ie_object e, s) } }) }"

definition ipc_port_make_send :: "kernel \<Rightarrow> ipc_port_t \<Rightarrow> (ipc_port_t \<times> kernel) option" where
  "ipc_port_make_send s port = do {
     s \<leftarrow> port_write s port (\<lambda>p. p\<lparr>ip_mscount := ip_mscount p + 1, ip_srights := ip_srights p + 1\<rparr>);
     s \<leftarrow> ip_reference s port;
     Some (port, s) }"

definition ipc_port_copy_send :: "kernel \<Rightarrow> ipc_port_t \<Rightarrow> (ipc_port_t \<times> kernel) option" where
  "ipc_port_copy_send s port =
     (if \<not> IP_VALID port then Some (port, s)
      else do {
        p \<leftarrow> k_ports s port;
        if ip_active p then do {
          s \<leftarrow> ip_reference s port;
          s \<leftarrow> port_write s port (\<lambda>p. p\<lparr>ip_srights := ip_srights p + 1\<rparr>);
          Some (port, s) }
        else Some (IP_DEAD, s) })"

text \<open>
  Dropping one send right of an active port: the counter goes down, and when it reaches zero the
  registered no-senders request is taken out of the port. This step is part of several routines.
\<close>

definition drop_srights :: "kernel \<Rightarrow> ipc_port_t \<Rightarrow> (ipc_port_t \<times> natural_t \<times> kernel) option" where
  "drop_srights s port = do {
     s \<leftarrow> port_write s port (\<lambda>p. p\<lparr>ip_srights := ip_srights p - 1\<rparr>);
     p \<leftarrow> k_ports s port;
     if ip_srights p = 0 \<and> ip_nsrequest p \<noteq> IP_NULL then do {
       s \<leftarrow> port_write s port (\<lambda>p. p\<lparr>ip_nsrequest := IP_NULL\<rparr>);
       Some (ip_nsrequest p, ip_mscount p, s) }
     else Some (IP_NULL, 0, s) }"

definition notify_nsrequest :: "destroy_kmsg \<Rightarrow> kernel \<Rightarrow> ipc_port_t \<Rightarrow> natural_t \<Rightarrow> kernel option" where
  "notify_nsrequest destroy s nsrequest mscount =
     (if nsrequest \<noteq> IP_NULL then ipc_notify_no_senders destroy s nsrequest mscount else Some s)"

definition ipc_port_release_send :: "destroy_kmsg \<Rightarrow> kernel \<Rightarrow> ipc_port_t \<Rightarrow> kernel option" where
  "ipc_port_release_send destroy s port = do {
     s \<leftarrow> ip_release s port;
     p \<leftarrow> k_ports s port;
     if \<not> ip_active p then ip_check_unlock s port
     else do {
       (nsrequest, mscount, s) \<leftarrow> drop_srights s port;
       notify_nsrequest destroy s nsrequest mscount } }"

definition ipc_port_make_sonce :: "kernel \<Rightarrow> ipc_port_t \<Rightarrow> (ipc_port_t \<times> kernel) option" where
  "ipc_port_make_sonce s port = do {
     s \<leftarrow> port_write s port (\<lambda>p. p\<lparr>ip_sorights := ip_sorights p + 1\<rparr>);
     s \<leftarrow> ip_reference s port;
     Some (port, s) }"

section \<open>Destruction\<close>

primrec dnnotify_loop :: "destroy_kmsg \<Rightarrow> ipc_port_request list \<Rightarrow> kernel \<Rightarrow> kernel option" where
  "dnnotify_loop destroy [] s = Some s"
| "dnnotify_loop destroy (ipr # iprs) s =
     (if ipr_name ipr = MACH_PORT_NULL then dnnotify_loop destroy iprs s
      else do {
        s \<leftarrow> ipc_notify_dead_name destroy s (ipr_soright ipr) (ipr_name ipr);
        dnnotify_loop destroy iprs s })"

definition ipc_port_dnnotify ::
  "destroy_kmsg \<Rightarrow> kernel \<Rightarrow> ipc_port_t \<Rightarrow> ipc_port_requests \<Rightarrow> kernel option" where
  "ipc_port_dnnotify destroy s port dnrequests =
     dnnotify_loop destroy (take (ipc_table_dnrequests s ! ipr_size dnrequests - 1) (tl (ipr_table dnrequests))) s"

text \<open>The loop that destroys the messages queued at a dead port.\<close>

partial_function (option) port_flush :: "destroy_kmsg \<Rightarrow> ipc_port_t \<Rightarrow> kernel \<Rightarrow> kernel option" where
  "port_flush destroy port s =
     Option.bind (k_ports s port) (\<lambda>p.
       case imq_messages (ip_messages p) of
         [] \<Rightarrow> Some s
       | kmsg # kmsgs \<Rightarrow>
           Option.bind (imq_write s (PORT_QUEUE port) (\<lambda>q. q\<lparr>imq_messages := kmsgs\<rparr>)) (\<lambda>s.
           Option.bind (ipc_port_release s port) (\<lambda>s.
           Option.bind (destroy s (kmsg\<lparr>msgh_remote_port := MACH_PORT_NULL\<rparr>)) (\<lambda>s.
           port_flush destroy port s))))"

declare port_flush.simps [code]

text \<open>\<open>ipc_port_destroy\<close> after its check for a backup port.\<close>

definition port_destroy_final :: "destroy_kmsg \<Rightarrow> kernel \<Rightarrow> ipc_port_t \<Rightarrow> kernel option" where
  "port_destroy_final destroy s port = do {
     p \<leftarrow> k_ports s port;
     s \<leftarrow> port_write s port (\<lambda>p. p\<lparr>ip_blocked := []\<rparr>);
     let s = wake_all MACH_MSG_SUCCESS (ip_blocked p) s;
     s \<leftarrow> port_write s port (\<lambda>p. p\<lparr>ip_bits := ip_bits p AND NOT IO_BITS_ACTIVE\<rparr>);
     let (timestamp, s) = ipc_port_timestamp s;
     s \<leftarrow> port_write s port (\<lambda>p. p\<lparr>ip_data := timestamp\<rparr>);
     p \<leftarrow> k_ports s port;
     let dnrequests = ip_dnrequests p;
     s \<leftarrow> port_write s port (\<lambda>p. p\<lparr>ip_dnrequests := None\<rparr>);
     let s = k_call s (THREAD_POOL_WAKEUP port);
     s \<leftarrow> (if ip_nsrequest p \<noteq> IP_NULL then ipc_notify_send_once destroy s (ip_nsrequest p) else Some s);
     s \<leftarrow> port_flush destroy port s;
     s \<leftarrow> (case dnrequests of None \<Rightarrow> Some s | Some t \<Rightarrow> ipc_port_dnnotify destroy s port t);
     p \<leftarrow> k_ports s port;
     let s = (if ip_kotype p \<noteq> 0 then k_call s (IPC_KOBJECT_DESTROY port) else s);
     ipc_port_release s port }"

definition in_transit :: "ipc_port \<Rightarrow> bool" where
  "in_transit p \<longleftrightarrow> ip_active p \<and> ip_receiver_name p = MACH_PORT_NULL \<and> ip_destination p \<noteq> IP_NULL"

partial_function (option) transit_base :: "kernel \<Rightarrow> ipc_port_t \<Rightarrow> ipc_port_t option" where
  "transit_base s base =
     Option.bind (k_ports s base) (\<lambda>p.
       if \<not> in_transit p then Some base else transit_base s (ip_destination p))"

declare transit_base.simps [code]

definition ipc_port_check_circularity ::
  "kernel \<Rightarrow> ipc_port_t \<Rightarrow> ipc_port_t \<Rightarrow> (bool \<times> kernel) option" where
  "ipc_port_check_circularity s port dest =
     (if port = dest then Some (True, s)
      else do {
        d \<leftarrow> k_ports s dest;
        base \<leftarrow> (if \<not> in_transit d then Some dest else transit_base s dest);
        if port = base then Some (True, s)
        else do {
          s \<leftarrow> ip_reference s dest;
          s \<leftarrow> port_write s port (\<lambda>p. p\<lparr>ip_data := dest\<rparr>);
          Some (False, s) } })"

text \<open>
  \<open>ipc_port_release_receive\<close> over the routine that destroys the port: the code's recursion (a
  port-destroyed notification that cannot be allocated releases the receive right it would have
  carried, which destroys the port again) goes through here.
\<close>

definition release_receive_with ::
  "(kernel \<Rightarrow> ipc_port_t \<Rightarrow> kernel option) \<Rightarrow> kernel \<Rightarrow> ipc_port_t \<Rightarrow> kernel option" where
  "release_receive_with destroy_port s port = do {
     p \<leftarrow> k_ports s port;
     let dest = ip_destination p;
     s \<leftarrow> destroy_port s port;
     if dest \<noteq> IP_NULL then ipc_port_release s dest else Some s }"

text \<open>
  The only caller of \<open>ipc_notify_port_destroyed\<close> is \<open>ipc_port_destroy\<close>, which has just taken the
  backup port out of \<open>right\<close>, so the port that is destroyed here has none.
\<close>

definition ipc_notify_port_destroyed ::
  "destroy_kmsg \<Rightarrow> kernel \<Rightarrow> ipc_port_t \<Rightarrow> ipc_port_t \<Rightarrow> kernel option" where
  "ipc_notify_port_destroyed destroy s port right = do {
     let (mem, s) = kalloc s;
     if mem = 0 then do {
       s \<leftarrow> ipc_port_release_sonce s port;
       release_receive_with (port_destroy_final destroy) s right }
     else ipc_mqueue_send_always destroy s
            (ipc_notify_init_port_destroyed\<lparr>msgh_remote_port := port,
               ikm_body := [MACH_MSG_PORT_DESCRIPTOR right MACH_MSG_TYPE_PORT_RECEIVE]\<rparr>) }"

definition ipc_port_destroy :: "destroy_kmsg \<Rightarrow> kernel \<Rightarrow> ipc_port_t \<Rightarrow> kernel option" where
  "ipc_port_destroy destroy s port = do {
     p \<leftarrow> k_ports s port;
     let pdrequest = ip_pdrequest p;
     if pdrequest \<noteq> IP_NULL then do {
       s \<leftarrow> port_write s port
              (\<lambda>p. p\<lparr>ip_pdrequest := IP_NULL, ip_receiver_name := MACH_PORT_NULL, ip_data := IP_NULL\<rparr>);
       (circular, s) \<leftarrow> ipc_port_check_circularity s port pdrequest;
       if \<not> circular then ipc_notify_port_destroyed destroy s pdrequest port
       else do {
         s \<leftarrow> ipc_port_release_sonce s pdrequest;
         port_destroy_final destroy s port } }
     else port_destroy_final destroy s port }"

definition ipc_port_release_receive :: "destroy_kmsg \<Rightarrow> kernel \<Rightarrow> ipc_port_t \<Rightarrow> kernel option" where
  "ipc_port_release_receive destroy s port = release_receive_with (ipc_port_destroy destroy) s port"

section \<open>Ports of special spaces\<close>

definition ip_zero :: ipc_port where
  "ip_zero =
     \<lparr>ip_references = 0, ip_bits = 0, ip_receiver_name = 0, ip_data = 0, ip_mscount = 0, ip_srights = 0,
      ip_sorights = 0, ip_nsrequest = 0, ip_pdrequest = 0, ip_dnrequests = None, ip_pset = 0, ip_seqno = 0,
      ip_msgcount = 0, ip_qlimit = 0, ip_messages = ipc_mqueue_init, ip_blocked = [], ip_subsystem = 0,
      ip_flags = 0\<rparr>"

definition ipc_port_alloc_special :: "kernel \<Rightarrow> ipc_space_t \<Rightarrow> ipc_port_t \<times> kernel" where
  "ipc_port_alloc_special s space =
     (let (port, s) = kalloc s
      in if port = IP_NULL then (IP_NULL, s)
         else (port, s\<lparr>k_ports := (k_ports s)(port \<mapsto>
                 ipc_port_init (ip_zero\<lparr>ip_references := 1, ip_bits := io_makebits True IOT_PORT 0\<rparr>) space 1)\<rparr>))"

definition ipc_port_dealloc_special ::
  "destroy_kmsg \<Rightarrow> kernel \<Rightarrow> ipc_port_t \<Rightarrow> ipc_space_t \<Rightarrow> kernel option" where
  "ipc_port_dealloc_special destroy s port space = do {
     s \<leftarrow> port_write s port (\<lambda>p. p\<lparr>ip_receiver_name := MACH_PORT_NULL, ip_data := IS_NULL\<rparr>);
     s \<leftarrow> ipc_port_set_mscount s port 0;
     s \<leftarrow> port_write s port (\<lambda>p. p\<lparr>ip_seqno := 0\<rparr>);
     ipc_port_destroy destroy s port }"

end
