(* ===== verification/IPC_Kmsg.thy ===== *)
theory IPC_Kmsg
  imports IPC_Port
begin

text \<open>
  Destruction of kernel messages (\<open>ipc_kmsg_clean_body\<close>, \<open>ipc_kmsg_clean_partial\<close>, \<open>ipc_kmsg_clean\<close> and
  \<open>ipc_kmsg_destroy\<close> of \<^verbatim>\<open>ipc/ipc_kmsg.c\<close>) and of the rights they carry (\<open>ipc_object_destroy\<close> of
  \<^verbatim>\<open>ipc/ipc_object.c\<close>).

  Cleaning a message destroys rights, which sends notifications and destroys ports, which destroys
  further messages. The code curtails that recursion with the thread's queue \<open>ith_messages\<close>: a message
  destroyed while another one is being cleaned is only queued. So the \<open>destroy\<close> argument of the
  routines below is \<open>kmsg_enqueue\<close> inside the cleaning loop and \<open>ipc_kmsg_destroy\<close> everywhere else.
\<close>

definition ipc_object_destroy ::
  "destroy_kmsg \<Rightarrow> kernel \<Rightarrow> ipc_object_t \<Rightarrow> mach_msg_type_name_t \<Rightarrow> kernel option" where
  "ipc_object_destroy destroy s object msgt_name =
     (if msgt_name = MACH_MSG_TYPE_PORT_SEND then ipc_port_release_send destroy s object
      else if msgt_name = MACH_MSG_TYPE_PORT_SEND_ONCE then ipc_notify_send_once destroy s object
      else if msgt_name = MACH_MSG_TYPE_PORT_RECEIVE then ipc_port_release_receive destroy s object
      else None)"

definition destroy_valid ::
  "destroy_kmsg \<Rightarrow> kernel \<Rightarrow> ipc_object_t \<Rightarrow> mach_msg_type_name_t \<Rightarrow> kernel option" where
  "destroy_valid destroy s object msgt_name =
     (if IO_VALID object then ipc_object_destroy destroy s object msgt_name else Some s)"

primrec clean_ool_ports ::
  "destroy_kmsg \<Rightarrow> mach_msg_type_name_t \<Rightarrow> ipc_object_t list \<Rightarrow> kernel \<Rightarrow> kernel option" where
  "clean_ool_ports destroy disposition [] s = Some s"
| "clean_ool_ports destroy disposition (object # objects) s = do {
     s \<leftarrow> destroy_valid destroy s object disposition;
     clean_ool_ports destroy disposition objects s }"

fun clean_descriptor :: "destroy_kmsg \<Rightarrow> mach_msg_descriptor \<Rightarrow> kernel \<Rightarrow> kernel option" where
  "clean_descriptor destroy (MACH_MSG_PORT_DESCRIPTOR name disposition) s =
     destroy_valid destroy s name disposition"
| "clean_descriptor destroy (MACH_MSG_OOL_PORTS_DESCRIPTOR objects disposition) s =
     clean_ool_ports destroy disposition objects s"
| "clean_descriptor destroy (MACH_MSG_OOL_DESCRIPTOR address sz) s = Some s"
| "clean_descriptor destroy (MACH_MSG_OOL_VOLATILE_DESCRIPTOR address sz) s = Some s"

primrec clean_descriptors ::
  "destroy_kmsg \<Rightarrow> mach_msg_descriptor list \<Rightarrow> kernel \<Rightarrow> kernel option" where
  "clean_descriptors destroy [] s = Some s"
| "clean_descriptors destroy (d # ds) s = do {
     s \<leftarrow> clean_descriptor destroy d s;
     clean_descriptors destroy ds s }"

definition ipc_kmsg_clean_body :: "destroy_kmsg \<Rightarrow> kernel \<Rightarrow> ipc_kmsg \<Rightarrow> nat \<Rightarrow> kernel option" where
  "ipc_kmsg_clean_body destroy s kmsg number = clean_descriptors destroy (take number (ikm_body kmsg)) s"

definition ipc_kmsg_clean_partial ::
  "destroy_kmsg \<Rightarrow> kernel \<Rightarrow> ipc_kmsg \<Rightarrow> nat \<Rightarrow> kernel option" where
  "ipc_kmsg_clean_partial destroy s kmsg number = do {
     s \<leftarrow> ipc_object_destroy destroy s (msgh_remote_port kmsg) (MACH_MSGH_BITS_REMOTE (msgh_bits kmsg));
     s \<leftarrow> destroy_valid destroy s (msgh_local_port kmsg) (MACH_MSGH_BITS_LOCAL (msgh_bits kmsg));
     ipc_kmsg_clean_body destroy s kmsg number }"

definition ipc_kmsg_clean :: "destroy_kmsg \<Rightarrow> kernel \<Rightarrow> ipc_kmsg \<Rightarrow> kernel option" where
  "ipc_kmsg_clean destroy s kmsg = do {
     s \<leftarrow> destroy_valid destroy s (msgh_remote_port kmsg) (MACH_MSGH_BITS_REMOTE (msgh_bits kmsg));
     s \<leftarrow> destroy_valid destroy s (msgh_local_port kmsg) (MACH_MSGH_BITS_LOCAL (msgh_bits kmsg));
     if msgh_bits kmsg AND MACH_MSGH_BITS_COMPLEX \<noteq> 0
     then ipc_kmsg_clean_body destroy s kmsg (length (ikm_body kmsg)) else Some s }"

definition kmsg_enqueue :: destroy_kmsg where
  "kmsg_enqueue s kmsg = Some (s\<lparr>ith_messages := ith_messages s @ [kmsg]\<rparr>)"

text \<open>The loop of \<open>ipc_kmsg_destroy\<close>: the message stays in the queue while it is cleaned.\<close>

partial_function (option) kmsg_drain :: "kernel \<Rightarrow> kernel option" where
  "kmsg_drain s =
     (case ith_messages s of
        [] \<Rightarrow> Some s
      | kmsg # kmsgs \<Rightarrow>
          Option.bind (ipc_kmsg_clean kmsg_enqueue s kmsg) (\<lambda>s.
          kmsg_drain (s\<lparr>ith_messages := tl (ith_messages s)\<rparr>)))"

declare kmsg_drain.simps [code]

definition ipc_kmsg_destroy :: destroy_kmsg where
  "ipc_kmsg_destroy s kmsg =
     (if ith_messages s = [] then kmsg_drain (s\<lparr>ith_messages := [kmsg]\<rparr>) else kmsg_enqueue s kmsg)"

end
