(* ===== verification/IPC_Right.thy ===== *)
theory IPC_Right
  imports IPC_Kmsg
begin

text \<open>
  Rights (\<^verbatim>\<open>ipc/ipc_right.c\<close>): lookup, dead-name requests, destruction, user references, and the
  movement of rights between a space and a message. Every routine works on the entry of a name in the
  space at an address; the long \<open>switch\<close> statements of the code are one definition per case.
\<close>

section \<open>Lookup\<close>

definition ipc_right_lookup_write ::
  "kernel \<Rightarrow> ipc_space_t \<Rightarrow> mach_port_t \<Rightarrow> (kern_return_t \<times> ipc_entry_ref option \<times> kernel) option" where
  "ipc_right_lookup_write s space name = do {
     is \<leftarrow> k_spaces s space;
     if \<not> is_active is then Some (KERN_INVALID_TASK, None, s)
     else do {
       (r, s) \<leftarrow> k_entry_lookup s space name;
       (case r of None \<Rightarrow> Some (KERN_INVALID_NAME, None, s)
        | Some entry \<Rightarrow> Some (KERN_SUCCESS, Some entry, s)) } }"

definition ipc_right_reverse ::
  "kernel \<Rightarrow> ipc_space_t \<Rightarrow> ipc_object_t \<Rightarrow> ((mach_port_t \<times> ipc_entry_ref) option \<times> kernel) option" where
  "ipc_right_reverse s space port = do {
     p \<leftarrow> k_ports s port;
     if \<not> ip_active p then Some (None, s)
     else if ip_receiver p = space then do {
       (r, s) \<leftarrow> k_entry_lookup s space (ip_receiver_name p);
       entry \<leftarrow> r;
       Some (Some (ip_receiver_name p, entry), s) }
     else k_hash_lookup s space port }"

section \<open>Dead-name requests\<close>

definition ipc_right_dncancel ::
  "kernel \<Rightarrow> ipc_space_t \<Rightarrow> ipc_port_t \<Rightarrow> mach_port_t \<Rightarrow> ipc_entry_ref \<Rightarrow> (ipc_port_t \<times> kernel) option" where
  "ipc_right_dncancel s space port name entry = do {
     e \<leftarrow> k_entry s space entry;
     (dnrequest, s) \<leftarrow> ipc_port_dncancel s port name (of_nat (ie_request e));
     s \<leftarrow> k_entry_write s space entry (\<lambda>e. e\<lparr>ie_request := 0\<rparr>);
     Some (dnrequest, s) }"

definition ipc_right_dncancel_macro ::
  "kernel \<Rightarrow> ipc_space_t \<Rightarrow> ipc_port_t \<Rightarrow> mach_port_t \<Rightarrow> ipc_entry_ref \<Rightarrow> (ipc_port_t \<times> kernel) option" where
  "ipc_right_dncancel_macro s space port name entry = do {
     e \<leftarrow> k_entry s space entry;
     if ie_request e = 0 then Some (IP_NULL, s) else ipc_right_dncancel s space port name entry }"

definition notify_dnrequest :: "kernel \<Rightarrow> ipc_port_t \<Rightarrow> mach_port_t \<Rightarrow> kernel option" where
  "notify_dnrequest s dnrequest name =
     (if dnrequest \<noteq> IP_NULL then ipc_notify_port_deleted ipc_kmsg_destroy s dnrequest name else Some s)"

definition ipc_right_inuse :: "kernel \<Rightarrow> ipc_space_t \<Rightarrow> mach_port_t \<Rightarrow> ipc_entry_ref \<Rightarrow> bool option" where
  "ipc_right_inuse s space name entry = do {
     e \<leftarrow> k_entry s space entry;
     Some (IE_BITS_TYPE (ie_bits e) \<noteq> MACH_PORT_TYPE_NONE) }"

definition ipc_right_check ::
  "kernel \<Rightarrow> ipc_space_t \<Rightarrow> ipc_port_t \<Rightarrow> mach_port_t \<Rightarrow> ipc_entry_ref \<Rightarrow> (bool \<times> kernel) option" where
  "ipc_right_check s space port name entry = do {
     p \<leftarrow> k_ports s port;
     if ip_active p then Some (False, s)
     else do {
       e \<leftarrow> k_entry s space entry;
       let bits = ie_bits e;
       s \<leftarrow> (if bits AND MACH_PORT_TYPE_SEND \<noteq> 0 then k_hash_delete s space port name entry else Some s);
       s \<leftarrow> ipc_port_release s port;
       let bits = (bits AND NOT IE_BITS_TYPE_MASK) OR MACH_PORT_TYPE_DEAD_NAME;
       let bits = (if ie_request e \<noteq> 0 then bits + 1 else bits);
       s \<leftarrow> k_entry_write s space entry (\<lambda>e. e\<lparr>ie_request := 0, ie_bits := bits, ie_object := IO_NULL\<rparr>);
       Some (True, s) } }"

text \<open>One round of \<open>ipc_right_dnrequest\<close>: it returns, or the request table of the port has to grow.\<close>

datatype dnrequest_outcome = DN_RETURN kern_return_t ipc_port_t kernel | DN_GROW ipc_port_t kernel

definition dnrequest_dead ::
  "kernel \<Rightarrow> ipc_space_t \<Rightarrow> mach_port_t \<Rightarrow> ipc_entry_ref \<Rightarrow> ipc_entry_bits_t \<Rightarrow> bool \<Rightarrow> ipc_port_t \<Rightarrow> dnrequest_outcome option" where
  "dnrequest_dead s space name entry bits immediate notify =
     (if bits AND MACH_PORT_TYPE_DEAD_NAME \<noteq> 0 \<and> immediate \<and> notify \<noteq> IP_NULL then
        if MACH_PORT_UREFS_OVERFLOW (IE_BITS_UREFS bits) 1 then Some (DN_RETURN KERN_UREFS_OVERFLOW IP_NULL s)
        else do {
          s \<leftarrow> k_entry_write s space entry (\<lambda>e. e\<lparr>ie_bits := bits + 1\<rparr>);
          s \<leftarrow> ipc_notify_dead_name ipc_kmsg_destroy s notify name;
          Some (DN_RETURN KERN_SUCCESS IP_NULL s) }
      else if bits AND MACH_PORT_TYPE_PORT_OR_DEAD \<noteq> 0 then Some (DN_RETURN KERN_INVALID_ARGUMENT IP_NULL s)
      else Some (DN_RETURN KERN_INVALID_RIGHT IP_NULL s))"

definition dnrequest_step ::
  "kernel \<Rightarrow> ipc_space_t \<Rightarrow> mach_port_t \<Rightarrow> bool \<Rightarrow> ipc_port_t \<Rightarrow> dnrequest_outcome option" where
  "dnrequest_step s space name immediate notify = do {
     (kr, r, s) \<leftarrow> ipc_right_lookup_write s space name;
     (case r of
        None \<Rightarrow> Some (DN_RETURN kr IP_NULL s)
      | Some entry \<Rightarrow> do {
          e \<leftarrow> k_entry s space entry;
          if ie_bits e AND MACH_PORT_TYPE_PORT_RIGHTS \<noteq> 0 then do {
            let port = ie_object e;
            (dead, s) \<leftarrow> ipc_right_check s space port name entry;
            if \<not> dead then do {
              (previous, s) \<leftarrow> ipc_right_dncancel_macro s space port name entry;
              if notify = IP_NULL then Some (DN_RETURN KERN_SUCCESS previous s)
              else do {
                (kr, request, s) \<leftarrow> ipc_port_dnrequest s port name notify;
                if kr \<noteq> KERN_SUCCESS then Some (DN_GROW port s)
                else do {
                  s \<leftarrow> k_entry_write s space entry (\<lambda>e. e\<lparr>ie_request := unat request\<rparr>);
                  Some (DN_RETURN KERN_SUCCESS previous s) } } }
            else do {
              e \<leftarrow> k_entry s space entry;
              dnrequest_dead s space name entry (ie_bits e) immediate notify } }
          else dnrequest_dead s space name entry (ie_bits e) immediate notify }) }"

fun ipc_right_dnrequest ::
  "(kernel \<Rightarrow> kernel) list \<Rightarrow> kernel \<Rightarrow> ipc_space_t \<Rightarrow> mach_port_t \<Rightarrow> bool \<Rightarrow> ipc_port_t \<Rightarrow>
   (kern_return_t \<times> ipc_port_t \<times> kernel) option" where
  "ipc_right_dnrequest ws s space name immediate notify = do {
     step \<leftarrow> dnrequest_step s space name immediate notify;
     (case step of
        DN_RETURN kr previous s \<Rightarrow> Some (kr, previous, s)
      | DN_GROW port s \<Rightarrow>
          (case ws of
             [] \<Rightarrow> None
           | others # ws \<Rightarrow> do {
               (kr, s) \<leftarrow> ipc_port_dngrow others s port ITS_SIZE_NONE;
               if kr \<noteq> KERN_SUCCESS then Some (kr, IP_NULL, s)
               else ipc_right_dnrequest ws s space name immediate notify })) }"

declare ipc_right_dnrequest.simps [simp del]

section \<open>Destroying a right\<close>

text \<open>The rest of \<open>ipc_right_clean\<close> and \<open>ipc_right_destroy\<close> once the right has left the entry.\<close>

definition right_drop ::
  "kernel \<Rightarrow> ipc_port_t \<Rightarrow> mach_port_t \<Rightarrow> natural_t \<Rightarrow> ipc_port_t \<Rightarrow> bool \<Rightarrow> kernel option" where
  "right_drop s port name type dnrequest subsystem = do {
     (nsrequest, mscount, s) \<leftarrow>
       (if type AND MACH_PORT_TYPE_SEND \<noteq> 0 then drop_srights s port else Some (IP_NULL, 0, s));
     s \<leftarrow> (if type AND MACH_PORT_TYPE_RECEIVE \<noteq> 0 then do {
             p \<leftarrow> k_ports s port;
             let s = (if subsystem \<and> ip_subsystem p \<noteq> 0 then k_call s (SUBSYSTEM_DEALLOCATE (ip_subsystem p)) else s);
             s \<leftarrow> ipc_port_clear_receiver s port;
             ipc_port_destroy ipc_kmsg_destroy s port }
           else if type AND MACH_PORT_TYPE_SEND_ONCE \<noteq> 0 then ipc_notify_send_once ipc_kmsg_destroy s port
           else ip_release s port);
     s \<leftarrow> notify_nsrequest ipc_kmsg_destroy s nsrequest mscount;
     notify_dnrequest s dnrequest name }"

definition port_right_type :: "natural_t \<Rightarrow> bool" where
  "port_right_type type \<longleftrightarrow>
     type = MACH_PORT_TYPE_SEND \<or> type = MACH_PORT_TYPE_RECEIVE \<or>
     type = MACH_PORT_TYPE_SEND_RECEIVE \<or> type = MACH_PORT_TYPE_SEND_ONCE"

definition ipc_right_clean :: "kernel \<Rightarrow> ipc_space_t \<Rightarrow> mach_port_t \<Rightarrow> ipc_entry_ref \<Rightarrow> kernel option" where
  "ipc_right_clean s space name entry = do {
     e \<leftarrow> k_entry s space entry;
     let type = IE_BITS_TYPE (ie_bits e);
     if type = MACH_PORT_TYPE_DEAD_NAME then Some s
     else if type = MACH_PORT_TYPE_PORT_SET then ipc_pset_destroy s (ie_object e)
     else if port_right_type type then do {
       let port = ie_object e;
       p \<leftarrow> k_ports s port;
       if \<not> ip_active p then do {
         s \<leftarrow> ip_release s port;
         ip_check_unlock s port }
       else do {
         (dnrequest, s) \<leftarrow> ipc_right_dncancel_macro s space port name entry;
         right_drop s port name type dnrequest False } }
     else None }"

definition ipc_right_destroy ::
  "kernel \<Rightarrow> ipc_space_t \<Rightarrow> mach_port_t \<Rightarrow> ipc_entry_ref \<Rightarrow> (kern_return_t \<times> kernel) option" where
  "ipc_right_destroy s space name entry = do {
     e \<leftarrow> k_entry s space entry;
     let type = IE_BITS_TYPE (ie_bits e);
     s \<leftarrow>
       (if type = MACH_PORT_TYPE_DEAD_NAME then k_entry_dealloc s space name entry
        else if type = MACH_PORT_TYPE_PORT_SET then do {
          s \<leftarrow> k_entry_write s space entry (\<lambda>e. e\<lparr>ie_object := IO_NULL\<rparr>);
          s \<leftarrow> k_entry_dealloc s space name entry;
          ipc_pset_destroy s (ie_object e) }
        else if port_right_type type then do {
          let port = ie_object e;
          s \<leftarrow> (if type = MACH_PORT_TYPE_SEND then k_hash_delete s space port name entry else Some s);
          p \<leftarrow> k_ports s port;
          if \<not> ip_active p then do {
            s \<leftarrow> ip_release s port;
            s \<leftarrow> ip_check_unlock s port;
            s \<leftarrow> k_entry_write s space entry (\<lambda>e. e\<lparr>ie_request := 0, ie_object := IO_NULL\<rparr>);
            k_entry_dealloc s space name entry }
          else do {
            (dnrequest, s) \<leftarrow> ipc_right_dncancel_macro s space port name entry;
            s \<leftarrow> k_entry_write s space entry (\<lambda>e. e\<lparr>ie_object := IO_NULL\<rparr>);
            s \<leftarrow> k_entry_dealloc s space name entry;
            right_drop s port name type dnrequest True } }
        else None);
     Some (KERN_SUCCESS, s) }"

section \<open>User references\<close>

definition dealloc_dead_name ::
  "kernel \<Rightarrow> ipc_space_t \<Rightarrow> mach_port_t \<Rightarrow> ipc_entry_ref \<Rightarrow> ipc_entry_bits_t \<Rightarrow> kernel option" where
  "dealloc_dead_name s space name entry bits =
     (if IE_BITS_UREFS bits = 1 then k_entry_dealloc s space name entry
      else k_entry_write s space entry (\<lambda>e. e\<lparr>ie_bits := bits - 1\<rparr>))"

text \<open>A send-once right leaves its entry and is turned into a send-once notification.\<close>

definition dealloc_send_once ::
  "kernel \<Rightarrow> ipc_space_t \<Rightarrow> ipc_port_t \<Rightarrow> mach_port_t \<Rightarrow> ipc_entry_ref \<Rightarrow> kernel option" where
  "dealloc_send_once s space port name entry = do {
     (dnrequest, s) \<leftarrow> ipc_right_dncancel_macro s space port name entry;
     s \<leftarrow> k_entry_write s space entry (\<lambda>e. e\<lparr>ie_object := IO_NULL\<rparr>);
     s \<leftarrow> k_entry_dealloc s space name entry;
     s \<leftarrow> ipc_notify_send_once ipc_kmsg_destroy s port;
     notify_dnrequest s dnrequest name }"

text \<open>The last user reference of a pure send right goes: the right leaves its entry.\<close>

definition dealloc_send ::
  "kernel \<Rightarrow> ipc_space_t \<Rightarrow> ipc_port_t \<Rightarrow> mach_port_t \<Rightarrow> ipc_entry_ref \<Rightarrow> (ipc_port_t \<times> kernel) option" where
  "dealloc_send s space port name entry = do {
     (dnrequest, s) \<leftarrow> ipc_right_dncancel_macro s space port name entry;
     s \<leftarrow> k_hash_delete s space port name entry;
     s \<leftarrow> ip_release s port;
     s \<leftarrow> k_entry_write s space entry (\<lambda>e. e\<lparr>ie_object := IO_NULL\<rparr>);
     s \<leftarrow> k_entry_dealloc s space name entry;
     Some (dnrequest, s) }"

definition ipc_right_dealloc ::
  "kernel \<Rightarrow> ipc_space_t \<Rightarrow> mach_port_t \<Rightarrow> ipc_entry_ref \<Rightarrow> (kern_return_t \<times> kernel) option" where
  "ipc_right_dealloc s space name entry = do {
     e \<leftarrow> k_entry s space entry;
     let bits = ie_bits e;
     let type = IE_BITS_TYPE bits;
     let port = ie_object e;
     if type = MACH_PORT_TYPE_DEAD_NAME then do {
       s \<leftarrow> dealloc_dead_name s space name entry bits;
       Some (KERN_SUCCESS, s) }
     else if type = MACH_PORT_TYPE_SEND_ONCE then do {
       (dead, s) \<leftarrow> ipc_right_check s space port name entry;
       if dead then do {
         e \<leftarrow> k_entry s space entry;
         s \<leftarrow> dealloc_dead_name s space name entry (ie_bits e);
         Some (KERN_SUCCESS, s) }
       else do {
         s \<leftarrow> dealloc_send_once s space port name entry;
         Some (KERN_SUCCESS, s) } }
     else if type = MACH_PORT_TYPE_SEND then do {
       (dead, s) \<leftarrow> ipc_right_check s space port name entry;
       if dead then do {
         e \<leftarrow> k_entry s space entry;
         s \<leftarrow> dealloc_dead_name s space name entry (ie_bits e);
         Some (KERN_SUCCESS, s) }
       else if IE_BITS_UREFS bits = 1 then do {
         (nsrequest, mscount, s) \<leftarrow> drop_srights s port;
         (dnrequest, s) \<leftarrow> dealloc_send s space port name entry;
         s \<leftarrow> notify_nsrequest ipc_kmsg_destroy s nsrequest mscount;
         s \<leftarrow> notify_dnrequest s dnrequest name;
         Some (KERN_SUCCESS, s) }
       else do {
         s \<leftarrow> k_entry_write s space entry (\<lambda>e. e\<lparr>ie_bits := bits - 1\<rparr>);
         Some (KERN_SUCCESS, s) } }
     else if type = MACH_PORT_TYPE_SEND_RECEIVE then
       (if IE_BITS_UREFS bits = 1 then do {
          (nsrequest, mscount, s) \<leftarrow> drop_srights s port;
          s \<leftarrow> k_entry_write s space entry
                 (\<lambda>e. e\<lparr>ie_bits := bits AND NOT (IE_BITS_UREFS_MASK OR MACH_PORT_TYPE_SEND)\<rparr>);
          s \<leftarrow> notify_nsrequest ipc_kmsg_destroy s nsrequest mscount;
          Some (KERN_SUCCESS, s) }
        else do {
          s \<leftarrow> k_entry_write s space entry (\<lambda>e. e\<lparr>ie_bits := bits - 1\<rparr>);
          Some (KERN_SUCCESS, s) })
     else Some (KERN_INVALID_RIGHT, s) }"

definition right_delta_port_set ::
  "kernel \<Rightarrow> ipc_space_t \<Rightarrow> mach_port_t \<Rightarrow> ipc_entry_ref \<Rightarrow> mach_port_delta_t \<Rightarrow> (kern_return_t \<times> kernel) option" where
  "right_delta_port_set s space name entry delta = do {
     e \<leftarrow> k_entry s space entry;
     if ie_bits e AND MACH_PORT_TYPE_PORT_SET = 0 then Some (KERN_INVALID_RIGHT, s)
     else if delta = 0 then Some (KERN_SUCCESS, s)
     else if delta \<noteq> - 1 then Some (KERN_INVALID_VALUE, s)
     else do {
       s \<leftarrow> k_entry_write s space entry (\<lambda>e. e\<lparr>ie_object := IO_NULL\<rparr>);
       s \<leftarrow> k_entry_dealloc s space name entry;
       s \<leftarrow> ipc_pset_destroy s (ie_object e);
       Some (KERN_SUCCESS, s) } }"

definition right_delta_receive ::
  "kernel \<Rightarrow> ipc_space_t \<Rightarrow> mach_port_t \<Rightarrow> ipc_entry_ref \<Rightarrow> mach_port_delta_t \<Rightarrow> (kern_return_t \<times> kernel) option" where
  "right_delta_receive s space name entry delta = do {
     e \<leftarrow> k_entry s space entry;
     let bits = ie_bits e;
     let port = ie_object e;
     if bits AND MACH_PORT_TYPE_RECEIVE = 0 then Some (KERN_INVALID_RIGHT, s)
     else if delta = 0 then Some (KERN_SUCCESS, s)
     else if delta \<noteq> - 1 then Some (KERN_INVALID_VALUE, s)
     else do {
       (dnrequest, s) \<leftarrow>
         (if bits AND MACH_PORT_TYPE_SEND \<noteq> 0 then do {
            let bits = (bits AND NOT IE_BITS_TYPE_MASK) OR MACH_PORT_TYPE_DEAD_NAME;
            let bits = (if ie_request e \<noteq> 0 then bits + 1 else bits);
            s \<leftarrow> k_entry_write s space entry (\<lambda>e. e\<lparr>ie_request := 0, ie_bits := bits, ie_object := IO_NULL\<rparr>);
            Some (IP_NULL, s) }
          else do {
            (dnrequest, s) \<leftarrow> ipc_right_dncancel_macro s space port name entry;
            s \<leftarrow> k_entry_write s space entry (\<lambda>e. e\<lparr>ie_object := IO_NULL\<rparr>);
            s \<leftarrow> k_entry_dealloc s space name entry;
            Some (dnrequest, s) });
       s \<leftarrow> ipc_port_clear_receiver s port;
       s \<leftarrow> ipc_port_destroy ipc_kmsg_destroy s port;
       s \<leftarrow> notify_dnrequest s dnrequest name;
       Some (KERN_SUCCESS, s) } }"

definition right_delta_send_once ::
  "kernel \<Rightarrow> ipc_space_t \<Rightarrow> mach_port_t \<Rightarrow> ipc_entry_ref \<Rightarrow> mach_port_delta_t \<Rightarrow> (kern_return_t \<times> kernel) option" where
  "right_delta_send_once s space name entry delta = do {
     e \<leftarrow> k_entry s space entry;
     let port = ie_object e;
     if ie_bits e AND MACH_PORT_TYPE_SEND_ONCE = 0 then Some (KERN_INVALID_RIGHT, s)
     else do {
       (dead, s) \<leftarrow> ipc_right_check s space port name entry;
       if dead then Some (KERN_INVALID_RIGHT, s)
       else if sint delta > 0 \<or> sint delta < - 1 then Some (KERN_INVALID_VALUE, s)
       else if delta = 0 then Some (KERN_SUCCESS, s)
       else do {
         s \<leftarrow> dealloc_send_once s space port name entry;
         Some (KERN_SUCCESS, s) } } }"

definition right_delta_dead_name ::
  "kernel \<Rightarrow> ipc_space_t \<Rightarrow> mach_port_t \<Rightarrow> ipc_entry_ref \<Rightarrow> mach_port_delta_t \<Rightarrow> (kern_return_t \<times> kernel) option" where
  "right_delta_dead_name s space name entry delta = do {
     e \<leftarrow> k_entry s space entry;
     (wrong, s) \<leftarrow>
       (if ie_bits e AND MACH_PORT_TYPE_SEND_RIGHTS \<noteq> 0 then do {
          (dead, s) \<leftarrow> ipc_right_check s space (ie_object e) name entry;
          Some (\<not> dead, s) }
        else Some (ie_bits e AND MACH_PORT_TYPE_DEAD_NAME = 0, s));
     if wrong then Some (KERN_INVALID_RIGHT, s)
     else do {
       e \<leftarrow> k_entry s space entry;
       let bits = ie_bits e;
       let urefs = IE_BITS_UREFS bits;
       if MACH_PORT_UREFS_UNDERFLOW urefs delta then Some (KERN_INVALID_VALUE, s)
       else if MACH_PORT_UREFS_OVERFLOW urefs delta then Some (KERN_UREFS_OVERFLOW, s)
       else if urefs + delta = 0 then do {
         s \<leftarrow> k_entry_dealloc s space name entry;
         Some (KERN_SUCCESS, s) }
       else do {
         s \<leftarrow> k_entry_write s space entry (\<lambda>e. e\<lparr>ie_bits := bits + delta\<rparr>);
         Some (KERN_SUCCESS, s) } } }"

definition right_delta_send ::
  "kernel \<Rightarrow> ipc_space_t \<Rightarrow> mach_port_t \<Rightarrow> ipc_entry_ref \<Rightarrow> mach_port_delta_t \<Rightarrow> (kern_return_t \<times> kernel) option" where
  "right_delta_send s space name entry delta = do {
     e \<leftarrow> k_entry s space entry;
     let bits = ie_bits e;
     let port = ie_object e;
     let urefs = IE_BITS_UREFS bits;
     if bits AND MACH_PORT_TYPE_SEND = 0 then Some (KERN_INVALID_RIGHT, s)
     else do {
       (dead, s) \<leftarrow> ipc_right_check s space port name entry;
       if dead then Some (KERN_INVALID_RIGHT, s)
       else if MACH_PORT_UREFS_UNDERFLOW urefs delta then Some (KERN_INVALID_VALUE, s)
       else if MACH_PORT_UREFS_OVERFLOW (urefs + 1) delta then Some (KERN_UREFS_OVERFLOW, s)
       else if urefs + delta = 0 then do {
         (nsrequest, mscount, s) \<leftarrow> drop_srights s port;
         (dnrequest, s) \<leftarrow>
           (if bits AND MACH_PORT_TYPE_RECEIVE \<noteq> 0 then do {
              s \<leftarrow> k_entry_write s space entry
                     (\<lambda>e. e\<lparr>ie_bits := bits AND NOT (IE_BITS_UREFS_MASK OR MACH_PORT_TYPE_SEND)\<rparr>);
              Some (IP_NULL, s) }
            else dealloc_send s space port name entry);
         s \<leftarrow> notify_nsrequest ipc_kmsg_destroy s nsrequest mscount;
         s \<leftarrow> notify_dnrequest s dnrequest name;
         Some (KERN_SUCCESS, s) }
       else do {
         s \<leftarrow> k_entry_write s space entry (\<lambda>e. e\<lparr>ie_bits := bits + delta\<rparr>);
         Some (KERN_SUCCESS, s) } } }"

definition ipc_right_delta ::
  "kernel \<Rightarrow> ipc_space_t \<Rightarrow> mach_port_t \<Rightarrow> ipc_entry_ref \<Rightarrow> natural_t \<Rightarrow> mach_port_delta_t \<Rightarrow> (kern_return_t \<times> kernel) option" where
  "ipc_right_delta s space name entry right delta =
     (if right = MACH_PORT_RIGHT_PORT_SET then right_delta_port_set s space name entry delta
      else if right = MACH_PORT_RIGHT_RECEIVE then right_delta_receive s space name entry delta
      else if right = MACH_PORT_RIGHT_SEND_ONCE then right_delta_send_once s space name entry delta
      else if right = MACH_PORT_RIGHT_DEAD_NAME then right_delta_dead_name s space name entry delta
      else if right = MACH_PORT_RIGHT_SEND then right_delta_send s space name entry delta
      else None)"

definition ipc_right_info ::
  "kernel \<Rightarrow> ipc_space_t \<Rightarrow> mach_port_t \<Rightarrow> ipc_entry_ref \<Rightarrow> (kern_return_t \<times> natural_t \<times> natural_t \<times> kernel) option" where
  "ipc_right_info s space name entry = do {
     e \<leftarrow> k_entry s space entry;
     s \<leftarrow> (if ie_bits e AND MACH_PORT_TYPE_SEND_RIGHTS \<noteq> 0 then do {
             (dead, s) \<leftarrow> ipc_right_check s space (ie_object e) name entry;
             Some s }
           else Some s);
     e \<leftarrow> k_entry s space entry;
     let type = IE_BITS_TYPE (ie_bits e);
     let type = (if ie_request e \<noteq> 0 then type OR MACH_PORT_TYPE_DNREQUEST else type);
     Some (KERN_SUCCESS, type, IE_BITS_UREFS (ie_bits e), s) }"

section \<open>Moving a right into a message\<close>

definition ipc_right_copyin_check ::
  "kernel \<Rightarrow> ipc_space_t \<Rightarrow> mach_port_t \<Rightarrow> ipc_entry_ref \<Rightarrow> mach_msg_type_name_t \<Rightarrow> bool option" where
  "ipc_right_copyin_check s space name entry msgt_name = do {
     e \<leftarrow> k_entry s space entry;
     let bits = ie_bits e;
     if msgt_name = MACH_MSG_TYPE_MAKE_SEND \<or> msgt_name = MACH_MSG_TYPE_MAKE_SEND_ONCE \<or>
        msgt_name = MACH_MSG_TYPE_MOVE_RECEIVE
     then Some (bits AND MACH_PORT_TYPE_RECEIVE \<noteq> 0)
     else if msgt_name = MACH_MSG_TYPE_COPY_SEND \<or> msgt_name = MACH_MSG_TYPE_MOVE_SEND \<or>
        msgt_name = MACH_MSG_TYPE_MOVE_SEND_ONCE
     then (if bits AND MACH_PORT_TYPE_DEAD_NAME \<noteq> 0 then Some True
           else if bits AND MACH_PORT_TYPE_SEND_RIGHTS = 0 then Some False
           else do {
             p \<leftarrow> k_ports s (ie_object e);
             if \<not> ip_active p then Some True
             else if msgt_name = MACH_MSG_TYPE_MOVE_SEND_ONCE then Some (bits AND MACH_PORT_TYPE_SEND_ONCE \<noteq> 0)
             else Some (bits AND MACH_PORT_TYPE_SEND \<noteq> 0) })
     else None }"

type_synonym copyin_result = "(kern_return_t \<times> ipc_object_t \<times> ipc_port_t \<times> kernel) option"

abbreviation copyin_fail :: "kernel \<Rightarrow> copyin_result" where
  "copyin_fail s \<equiv> Some (KERN_INVALID_RIGHT, IO_NULL, IP_NULL, s)"

definition copyin_make_send :: "kernel \<Rightarrow> ipc_space_t \<Rightarrow> mach_port_t \<Rightarrow> ipc_entry_ref \<Rightarrow> copyin_result" where
  "copyin_make_send s space name entry = do {
     e \<leftarrow> k_entry s space entry;
     let port = ie_object e;
     if ie_bits e AND MACH_PORT_TYPE_RECEIVE = 0 then copyin_fail s
     else do {
       s \<leftarrow> port_write s port (\<lambda>p. p\<lparr>ip_mscount := ip_mscount p + 1, ip_srights := ip_srights p + 1\<rparr>);
       s \<leftarrow> ip_reference s port;
       Some (KERN_SUCCESS, port, IP_NULL, s) } }"

definition copyin_make_send_once :: "kernel \<Rightarrow> ipc_space_t \<Rightarrow> mach_port_t \<Rightarrow> ipc_entry_ref \<Rightarrow> copyin_result" where
  "copyin_make_send_once s space name entry = do {
     e \<leftarrow> k_entry s space entry;
     let port = ie_object e;
     if ie_bits e AND MACH_PORT_TYPE_RECEIVE = 0 then copyin_fail s
     else do {
       s \<leftarrow> port_write s port (\<lambda>p. p\<lparr>ip_sorights := ip_sorights p + 1\<rparr>);
       s \<leftarrow> ip_reference s port;
       Some (KERN_SUCCESS, port, IP_NULL, s) } }"

definition copyin_move_receive :: "kernel \<Rightarrow> ipc_space_t \<Rightarrow> mach_port_t \<Rightarrow> ipc_entry_ref \<Rightarrow> copyin_result" where
  "copyin_move_receive s space name entry = do {
     e \<leftarrow> k_entry s space entry;
     let bits = ie_bits e;
     let port = ie_object e;
     if bits AND MACH_PORT_TYPE_RECEIVE = 0 then copyin_fail s
     else do {
       (dnrequest, s) \<leftarrow>
         (if bits AND MACH_PORT_TYPE_SEND \<noteq> 0 then do {
            s \<leftarrow> k_hash_insert s space port name entry;
            s \<leftarrow> ip_reference s port;
            Some (IP_NULL, s) }
          else do {
            (dnrequest, s) \<leftarrow> ipc_right_dncancel_macro s space port name entry;
            s \<leftarrow> k_entry_write s space entry (\<lambda>e. e\<lparr>ie_object := IO_NULL\<rparr>);
            Some (dnrequest, s) });
       s \<leftarrow> k_entry_write s space entry (\<lambda>e. e\<lparr>ie_bits := bits AND NOT MACH_PORT_TYPE_RECEIVE\<rparr>);
       s \<leftarrow> ipc_port_clear_receiver s port;
       s \<leftarrow> port_write s port (\<lambda>p. p\<lparr>ip_receiver_name := MACH_PORT_NULL, ip_data := IP_NULL\<rparr>);
       Some (KERN_SUCCESS, port, dnrequest, s) } }"

definition copyin_copy_dead :: "kernel \<Rightarrow> bool \<Rightarrow> copyin_result" where
  "copyin_copy_dead s deadok = (if \<not> deadok then copyin_fail s else Some (KERN_SUCCESS, IO_DEAD, IP_NULL, s))"

definition copyin_move_dead :: "kernel \<Rightarrow> ipc_space_t \<Rightarrow> ipc_entry_ref \<Rightarrow> bool \<Rightarrow> copyin_result" where
  "copyin_move_dead s space entry deadok = do {
     e \<leftarrow> k_entry s space entry;
     let bits = ie_bits e;
     if \<not> deadok then copyin_fail s
     else do {
       s \<leftarrow> k_entry_write s space entry
              (\<lambda>e. e\<lparr>ie_bits := (if IE_BITS_UREFS bits = 1 then bits AND NOT MACH_PORT_TYPE_DEAD_NAME else bits - 1)\<rparr>);
       Some (KERN_SUCCESS, IO_DEAD, IP_NULL, s) } }"

definition copyin_copy_send :: "kernel \<Rightarrow> ipc_space_t \<Rightarrow> mach_port_t \<Rightarrow> ipc_entry_ref \<Rightarrow> bool \<Rightarrow> copyin_result" where
  "copyin_copy_send s space name entry deadok = do {
     e \<leftarrow> k_entry s space entry;
     let bits = ie_bits e;
     let port = ie_object e;
     if bits AND MACH_PORT_TYPE_DEAD_NAME \<noteq> 0 then copyin_copy_dead s deadok
     else if bits AND MACH_PORT_TYPE_SEND_RIGHTS = 0 then copyin_fail s
     else do {
       (dead, s) \<leftarrow> ipc_right_check s space port name entry;
       if dead then copyin_copy_dead s deadok
       else if bits AND MACH_PORT_TYPE_SEND = 0 then copyin_fail s
       else do {
         s \<leftarrow> port_write s port (\<lambda>p. p\<lparr>ip_srights := ip_srights p + 1\<rparr>);
         s \<leftarrow> ip_reference s port;
         Some (KERN_SUCCESS, port, IP_NULL, s) } } }"

definition copyin_move_send :: "kernel \<Rightarrow> ipc_space_t \<Rightarrow> mach_port_t \<Rightarrow> ipc_entry_ref \<Rightarrow> bool \<Rightarrow> copyin_result" where
  "copyin_move_send s space name entry deadok = do {
     e \<leftarrow> k_entry s space entry;
     let bits = ie_bits e;
     let port = ie_object e;
     if bits AND MACH_PORT_TYPE_DEAD_NAME \<noteq> 0 then copyin_move_dead s space entry deadok
     else if bits AND MACH_PORT_TYPE_SEND_RIGHTS = 0 then copyin_fail s
     else do {
       (dead, s) \<leftarrow> ipc_right_check s space port name entry;
       if dead then copyin_move_dead s space entry deadok
       else if bits AND MACH_PORT_TYPE_SEND = 0 then copyin_fail s
       else if IE_BITS_UREFS bits = 1 then do {
         (dnrequest, s) \<leftarrow>
           (if bits AND MACH_PORT_TYPE_RECEIVE \<noteq> 0 then do {
              s \<leftarrow> ip_reference s port;
              Some (IP_NULL, s) }
            else do {
              (dnrequest, s) \<leftarrow> ipc_right_dncancel_macro s space port name entry;
              s \<leftarrow> k_hash_delete s space port name entry;
              s \<leftarrow> k_entry_write s space entry (\<lambda>e. e\<lparr>ie_object := IO_NULL\<rparr>);
              Some (dnrequest, s) });
         s \<leftarrow> k_entry_write s space entry
                (\<lambda>e. e\<lparr>ie_bits := bits AND NOT (IE_BITS_UREFS_MASK OR MACH_PORT_TYPE_SEND)\<rparr>);
         Some (KERN_SUCCESS, port, dnrequest, s) }
       else do {
         s \<leftarrow> port_write s port (\<lambda>p. p\<lparr>ip_srights := ip_srights p + 1\<rparr>);
         s \<leftarrow> ip_reference s port;
         s \<leftarrow> k_entry_write s space entry (\<lambda>e. e\<lparr>ie_bits := bits - 1\<rparr>);
         Some (KERN_SUCCESS, port, IP_NULL, s) } } }"

definition copyin_move_send_once ::
  "kernel \<Rightarrow> ipc_space_t \<Rightarrow> mach_port_t \<Rightarrow> ipc_entry_ref \<Rightarrow> bool \<Rightarrow> copyin_result" where
  "copyin_move_send_once s space name entry deadok = do {
     e \<leftarrow> k_entry s space entry;
     let bits = ie_bits e;
     let port = ie_object e;
     if bits AND MACH_PORT_TYPE_DEAD_NAME \<noteq> 0 then copyin_move_dead s space entry deadok
     else if bits AND MACH_PORT_TYPE_SEND_RIGHTS = 0 then copyin_fail s
     else do {
       (dead, s) \<leftarrow> ipc_right_check s space port name entry;
       if dead then copyin_move_dead s space entry deadok
       else if bits AND MACH_PORT_TYPE_SEND_ONCE = 0 then copyin_fail s
       else do {
         (dnrequest, s) \<leftarrow> ipc_right_dncancel_macro s space port name entry;
         s \<leftarrow> k_entry_write s space entry
                (\<lambda>e. e\<lparr>ie_object := IO_NULL, ie_bits := bits AND NOT MACH_PORT_TYPE_SEND_ONCE\<rparr>);
         Some (KERN_SUCCESS, port, dnrequest, s) } } }"

definition ipc_right_copyin ::
  "kernel \<Rightarrow> ipc_space_t \<Rightarrow> mach_port_t \<Rightarrow> ipc_entry_ref \<Rightarrow> mach_msg_type_name_t \<Rightarrow> bool \<Rightarrow> copyin_result" where
  "ipc_right_copyin s space name entry msgt_name deadok =
     (if msgt_name = MACH_MSG_TYPE_MAKE_SEND then copyin_make_send s space name entry
      else if msgt_name = MACH_MSG_TYPE_MAKE_SEND_ONCE then copyin_make_send_once s space name entry
      else if msgt_name = MACH_MSG_TYPE_MOVE_RECEIVE then copyin_move_receive s space name entry
      else if msgt_name = MACH_MSG_TYPE_COPY_SEND then copyin_copy_send s space name entry deadok
      else if msgt_name = MACH_MSG_TYPE_MOVE_SEND then copyin_move_send s space name entry deadok
      else if msgt_name = MACH_MSG_TYPE_MOVE_SEND_ONCE then copyin_move_send_once s space name entry deadok
      else None)"

definition ipc_right_copyin_undo ::
  "kernel \<Rightarrow> ipc_space_t \<Rightarrow> mach_port_t \<Rightarrow> ipc_entry_ref \<Rightarrow> mach_msg_type_name_t \<Rightarrow> ipc_object_t \<Rightarrow> ipc_port_t \<Rightarrow> kernel option" where
  "ipc_right_copyin_undo s space name entry msgt_name object soright = do {
     e \<leftarrow> k_entry s space entry;
     let bits = ie_bits e;
     s \<leftarrow>
       (if soright \<noteq> IP_NULL then
          k_entry_write s space entry
            (\<lambda>e. e\<lparr>ie_bits := (bits AND NOT IE_BITS_RIGHT_MASK) OR MACH_PORT_TYPE_DEAD_NAME OR 2\<rparr>)
        else if IE_BITS_TYPE bits = MACH_PORT_TYPE_NONE then
          k_entry_write s space entry
            (\<lambda>e. e\<lparr>ie_bits := (bits AND NOT IE_BITS_RIGHT_MASK) OR MACH_PORT_TYPE_DEAD_NAME OR 1\<rparr>)
        else if IE_BITS_TYPE bits = MACH_PORT_TYPE_DEAD_NAME then
          (if msgt_name \<noteq> MACH_MSG_TYPE_COPY_SEND
           then k_entry_write s space entry (\<lambda>e. e\<lparr>ie_bits := bits + 1\<rparr>) else Some s)
        else do {
          s \<leftarrow> (if msgt_name \<noteq> MACH_MSG_TYPE_COPY_SEND
                  then k_entry_write s space entry (\<lambda>e. e\<lparr>ie_bits := bits + 1\<rparr>) else Some s);
          (dead, s) \<leftarrow> ipc_right_check s space object name entry;
          Some s });
     if object \<noteq> IO_DEAD then ipc_object_release s object else Some s }"

definition ipc_right_copyin_two ::
  "kernel \<Rightarrow> ipc_space_t \<Rightarrow> mach_port_t \<Rightarrow> ipc_entry_ref \<Rightarrow> copyin_result" where
  "ipc_right_copyin_two s space name entry = do {
     e \<leftarrow> k_entry s space entry;
     let bits = ie_bits e;
     let port = ie_object e;
     let urefs = IE_BITS_UREFS bits;
     if bits AND MACH_PORT_TYPE_SEND = 0 then copyin_fail s
     else if urefs < 2 then copyin_fail s
     else do {
       (dead, s) \<leftarrow> ipc_right_check s space port name entry;
       if dead then copyin_fail s
       else if urefs = 2 then do {
         (dnrequest, s) \<leftarrow>
           (if bits AND MACH_PORT_TYPE_RECEIVE \<noteq> 0 then do {
              s \<leftarrow> port_write s port (\<lambda>p. p\<lparr>ip_srights := ip_srights p + 1\<rparr>);
              s \<leftarrow> ip_reference s port;
              s \<leftarrow> ip_reference s port;
              Some (IP_NULL, s) }
            else do {
              (dnrequest, s) \<leftarrow> ipc_right_dncancel_macro s space port name entry;
              s \<leftarrow> k_hash_delete s space port name entry;
              s \<leftarrow> port_write s port (\<lambda>p. p\<lparr>ip_srights := ip_srights p + 1\<rparr>);
              s \<leftarrow> ip_reference s port;
              s \<leftarrow> k_entry_write s space entry (\<lambda>e. e\<lparr>ie_object := IO_NULL\<rparr>);
              Some (dnrequest, s) });
         s \<leftarrow> k_entry_write s space entry
                (\<lambda>e. e\<lparr>ie_bits := bits AND NOT (IE_BITS_UREFS_MASK OR MACH_PORT_TYPE_SEND)\<rparr>);
         Some (KERN_SUCCESS, port, dnrequest, s) }
       else do {
         s \<leftarrow> port_write s port (\<lambda>p. p\<lparr>ip_srights := ip_srights p + 2\<rparr>);
         s \<leftarrow> ip_reference s port;
         s \<leftarrow> ip_reference s port;
         s \<leftarrow> k_entry_write s space entry (\<lambda>e. e\<lparr>ie_bits := bits - 2\<rparr>);
         Some (KERN_SUCCESS, port, IP_NULL, s) } } }"

section \<open>Moving a right out of a message\<close>

definition copyout_send ::
  "kernel \<Rightarrow> ipc_space_t \<Rightarrow> mach_port_t \<Rightarrow> ipc_entry_ref \<Rightarrow> bool \<Rightarrow> ipc_object_t \<Rightarrow> (kern_return_t \<times> kernel) option" where
  "copyout_send s space name entry overflow port = do {
     e \<leftarrow> k_entry s space entry;
     let bits = ie_bits e;
     let urefs = IE_BITS_UREFS bits;
     if bits AND MACH_PORT_TYPE_SEND \<noteq> 0 \<and> urefs + 1 = MACH_PORT_UREFS_MAX then
       (if overflow then do {
          s \<leftarrow> port_write s port (\<lambda>p. p\<lparr>ip_srights := ip_srights p - 1\<rparr>);
          s \<leftarrow> ip_release s port;
          Some (KERN_SUCCESS, s) }
        else Some (KERN_UREFS_OVERFLOW, s))
     else do {
       s \<leftarrow>
         (if bits AND MACH_PORT_TYPE_SEND \<noteq> 0 then do {
            s \<leftarrow> port_write s port (\<lambda>p. p\<lparr>ip_srights := ip_srights p - 1\<rparr>);
            ip_release s port }
          else if bits AND MACH_PORT_TYPE_RECEIVE \<noteq> 0 then ip_release s port
          else k_hash_insert s space port name entry);
       s \<leftarrow> k_entry_write s space entry (\<lambda>e. e\<lparr>ie_bits := (bits OR MACH_PORT_TYPE_SEND) + 1\<rparr>);
       Some (KERN_SUCCESS, s) } }"

definition copyout_receive ::
  "kernel \<Rightarrow> ipc_space_t \<Rightarrow> mach_port_t \<Rightarrow> ipc_entry_ref \<Rightarrow> ipc_object_t \<Rightarrow> (kern_return_t \<times> kernel) option" where
  "copyout_receive s space name entry port = do {
     e \<leftarrow> k_entry s space entry;
     let bits = ie_bits e;
     p \<leftarrow> k_ports s port;
     let dest = ip_destination p;
     s \<leftarrow> port_write s port (\<lambda>p. p\<lparr>ip_receiver_name := name, ip_data := space\<rparr>);
     s \<leftarrow> (if bits AND MACH_PORT_TYPE_SEND \<noteq> 0 then do {
             s \<leftarrow> ip_release s port;
             k_hash_delete s space port name entry }
           else Some s);
     s \<leftarrow> k_entry_write s space entry (\<lambda>e. e\<lparr>ie_bits := bits OR MACH_PORT_TYPE_RECEIVE\<rparr>);
     s \<leftarrow> (if dest \<noteq> IP_NULL then ipc_port_release s dest else Some s);
     Some (KERN_SUCCESS, s) }"

definition ipc_right_copyout ::
  "kernel \<Rightarrow> ipc_space_t \<Rightarrow> mach_port_t \<Rightarrow> ipc_entry_ref \<Rightarrow> mach_msg_type_name_t \<Rightarrow> bool \<Rightarrow> ipc_object_t \<Rightarrow>
   (kern_return_t \<times> kernel) option" where
  "ipc_right_copyout s space name entry msgt_name overflow object =
     (if msgt_name = MACH_MSG_TYPE_PORT_SEND_ONCE then do {
        s \<leftarrow> k_entry_write s space entry (\<lambda>e. e\<lparr>ie_bits := ie_bits e OR (MACH_PORT_TYPE_SEND_ONCE OR 1)\<rparr>);
        Some (KERN_SUCCESS, s) }
      else if msgt_name = MACH_MSG_TYPE_PORT_SEND then copyout_send s space name entry overflow object
      else if msgt_name = MACH_MSG_TYPE_PORT_RECEIVE then copyout_receive s space name entry object
      else None)"

section \<open>Renaming\<close>

definition ipc_right_rename ::
  "kernel \<Rightarrow> ipc_space_t \<Rightarrow> mach_port_t \<Rightarrow> ipc_entry_ref \<Rightarrow> mach_port_t \<Rightarrow> ipc_entry_ref \<Rightarrow> (kern_return_t \<times> kernel) option" where
  "ipc_right_rename s space oname oentry nname nentry = do {
     e \<leftarrow> k_entry s space oentry;
     (bits, request, object, s) \<leftarrow>
       (if ie_request e \<noteq> 0 then do {
          (dead, s) \<leftarrow> ipc_right_check s space (ie_object e) oname oentry;
          if dead then do {
            e \<leftarrow> k_entry s space oentry;
            Some (ie_bits e, 0, IO_NULL, s) }
          else do {
            s \<leftarrow> ipc_port_dnrename s (ie_object e) (of_nat (ie_request e)) oname nname;
            s \<leftarrow> k_entry_write s space oentry (\<lambda>e. e\<lparr>ie_request := 0\<rparr>);
            Some (ie_bits e, ie_request e, ie_object e, s) } }
        else Some (ie_bits e, 0, ie_object e, s));
     s \<leftarrow> k_entry_write s space nentry
            (\<lambda>e. e\<lparr>ie_bits := ie_bits e OR (bits AND IE_BITS_RIGHT_MASK), ie_request := request, ie_object := object\<rparr>);
     let type = IE_BITS_TYPE bits;
     s \<leftarrow>
       (if type = MACH_PORT_TYPE_SEND then do {
          s \<leftarrow> k_hash_delete s space object oname oentry;
          k_hash_insert s space object nname nentry }
        else if type = MACH_PORT_TYPE_RECEIVE \<or> type = MACH_PORT_TYPE_SEND_RECEIVE then
          port_write s object (\<lambda>p. p\<lparr>ip_receiver_name := nname\<rparr>)
        else if type = MACH_PORT_TYPE_PORT_SET then
          pset_write s object (\<lambda>p. p\<lparr>ips_local_name := nname\<rparr>)
        else if type = MACH_PORT_TYPE_SEND_ONCE \<or> type = MACH_PORT_TYPE_DEAD_NAME then Some s
        else None);
     s \<leftarrow> k_entry_write s space oentry (\<lambda>e. e\<lparr>ie_object := IO_NULL\<rparr>);
     s \<leftarrow> k_entry_dealloc s space oname oentry;
     Some (KERN_SUCCESS, s) }"

end
