(* ===== verification/IPC_Object.thy ===== *)
theory IPC_Object
  imports IPC_Right
begin

text \<open>
  Objects (\<^verbatim>\<open>ipc/ipc_object.c\<close>): translation of names, allocation of ports, port sets and dead
  names, copyin and copyout of capabilities, renaming; and the routines of \<^verbatim>\<open>ipc/ipc_port.c\<close> and
  \<^verbatim>\<open>ipc/ipc_pset.c\<close> that are built on them. The windows of \<open>IPC_Entry\<close> (places where growing the
  table drops the lock of the space) are threaded through.
\<close>

definition k_entry_alloc ::
  "kernel \<Rightarrow> ipc_space_t \<Rightarrow> window list \<Rightarrow> (kern_return_t \<times> (mach_port_t \<times> ipc_entry_ref) option \<times> kernel \<times> window list) option" where
  "k_entry_alloc s space ws = do {
     is \<leftarrow> k_spaces s space;
     (kr, r, is, g, ws) \<leftarrow> ipc_entry_alloc (ipc_table_entries s) space is (k_ghash s) ws;
     Some (kr, r, s\<lparr>k_spaces := (k_spaces s)(space \<mapsto> is), k_ghash := g\<rparr>, ws) }"

definition k_entry_alloc_name ::
  "kernel \<Rightarrow> ipc_space_t \<Rightarrow> mach_port_t \<Rightarrow> window list \<Rightarrow> (kern_return_t \<times> ipc_entry_ref option \<times> kernel \<times> window list) option" where
  "k_entry_alloc_name s space name ws = do {
     is \<leftarrow> k_spaces s space;
     (kr, r, is, g, ws) \<leftarrow> ipc_entry_alloc_name (ipc_table_entries s) space is (k_ghash s) name ws;
     Some (kr, r, s\<lparr>k_spaces := (k_spaces s)(space \<mapsto> is), k_ghash := g\<rparr>, ws) }"

definition k_entry_get ::
  "kernel \<Rightarrow> ipc_space_t \<Rightarrow> ((mach_port_t \<times> ipc_entry_ref \<times> kernel) option) option" where
  "k_entry_get s space = do {
     is \<leftarrow> k_spaces s space;
     Some (map_option (\<lambda>(name, entry, is). (name, entry, s\<lparr>k_spaces := (k_spaces s)(space \<mapsto> is)\<rparr>)) (ipc_entry_get is)) }"

definition k_grow_table ::
  "kernel \<Rightarrow> ipc_space_t \<Rightarrow> natural_t \<Rightarrow> window list \<Rightarrow> (kern_return_t \<times> kernel \<times> window list) option" where
  "k_grow_table s space target ws = do {
     is \<leftarrow> k_spaces s space;
     (kr, locked, is, g, ws) \<leftarrow> ipc_entry_grow_table (ipc_table_entries s) space is (k_ghash s) target ws;
     Some (kr, s\<lparr>k_spaces := (k_spaces s)(space \<mapsto> is), k_ghash := g\<rparr>, ws) }"

section \<open>Translation\<close>

definition ipc_object_translate ::
  "kernel \<Rightarrow> ipc_space_t \<Rightarrow> mach_port_t \<Rightarrow> natural_t \<Rightarrow> (kern_return_t \<times> ipc_object_t \<times> kernel) option" where
  "ipc_object_translate s space name right = do {
     (kr, r, s) \<leftarrow> ipc_right_lookup_write s space name;
     (case r of
        None \<Rightarrow> Some (kr, IO_NULL, s)
      | Some entry \<Rightarrow> do {
          e \<leftarrow> k_entry s space entry;
          if ie_bits e AND MACH_PORT_TYPE right = 0 then Some (KERN_INVALID_RIGHT, IO_NULL, s)
          else Some (KERN_SUCCESS, ie_object e, s) }) }"

section \<open>Allocation\<close>

definition ipc_object_alloc_dead ::
  "kernel \<Rightarrow> ipc_space_t \<Rightarrow> window list \<Rightarrow> (kern_return_t \<times> mach_port_t \<times> kernel \<times> window list) option" where
  "ipc_object_alloc_dead s space ws = do {
     (kr, r, s, ws) \<leftarrow> k_entry_alloc s space ws;
     (case r of
        None \<Rightarrow> Some (kr, MACH_PORT_NULL, s, ws)
      | Some (name, entry) \<Rightarrow> do {
          s \<leftarrow> k_entry_write s space entry (\<lambda>e. e\<lparr>ie_bits := ie_bits e OR (MACH_PORT_TYPE_DEAD_NAME OR 1)\<rparr>);
          Some (KERN_SUCCESS, name, s, ws) }) }"

definition ipc_object_alloc_dead_name ::
  "kernel \<Rightarrow> ipc_space_t \<Rightarrow> mach_port_t \<Rightarrow> window list \<Rightarrow> (kern_return_t \<times> kernel \<times> window list) option" where
  "ipc_object_alloc_dead_name s space name ws = do {
     (kr, r, s, ws) \<leftarrow> k_entry_alloc_name s space name ws;
     (case r of
        None \<Rightarrow> Some (kr, s, ws)
      | Some entry \<Rightarrow> do {
          inuse \<leftarrow> ipc_right_inuse s space name entry;
          if inuse then Some (KERN_NAME_EXISTS, s, ws)
          else do {
            s \<leftarrow> k_entry_write s space entry (\<lambda>e. e\<lparr>ie_bits := ie_bits e OR (MACH_PORT_TYPE_DEAD_NAME OR 1)\<rparr>);
            Some (KERN_SUCCESS, s, ws) } }) }"

definition ips_zero :: ipc_pset where
  "ips_zero = \<lparr>ips_references = 0, ips_bits = 0, ips_local_name = 0, ips_messages = ipc_mqueue_init\<rparr>"

text \<open>A new object: one reference, for the entry, and the active bit with its type.\<close>

definition io_create :: "kernel \<Rightarrow> ipc_object_t \<Rightarrow> natural_t \<Rightarrow> kernel" where
  "io_create s object otype =
     (if otype = IOT_PORT
      then s\<lparr>k_ports := (k_ports s)(object \<mapsto> ip_zero\<lparr>ip_references := 1, ip_bits := io_makebits True otype 0\<rparr>)\<rparr>
      else s\<lparr>k_psets := (k_psets s)(object \<mapsto> ips_zero\<lparr>ips_references := 1, ips_bits := io_makebits True otype 0\<rparr>)\<rparr>)"

definition ipc_object_alloc ::
  "kernel \<Rightarrow> ipc_space_t \<Rightarrow> natural_t \<Rightarrow> natural_t \<Rightarrow> natural_t \<Rightarrow> window list \<Rightarrow>
   (kern_return_t \<times> mach_port_t \<times> ipc_object_t \<times> kernel \<times> window list) option" where
  "ipc_object_alloc s space otype type urefs ws = do {
     let (object, s) = kalloc s;
     if object = IO_NULL then Some (KERN_RESOURCE_SHORTAGE, MACH_PORT_NULL, IO_NULL, s, ws)
     else do {
       (kr, r, s, ws) \<leftarrow> k_entry_alloc s space ws;
       (case r of
          None \<Rightarrow> Some (kr, MACH_PORT_NULL, IO_NULL, s, ws)
        | Some (name, entry) \<Rightarrow> do {
            s \<leftarrow> k_entry_write s space entry
                   (\<lambda>e. e\<lparr>ie_bits := ie_bits e OR (type OR urefs), ie_object := object\<rparr>);
            Some (KERN_SUCCESS, name, object, io_create s object otype, ws) }) } }"

definition ipc_object_alloc_name ::
  "kernel \<Rightarrow> ipc_space_t \<Rightarrow> natural_t \<Rightarrow> natural_t \<Rightarrow> natural_t \<Rightarrow> mach_port_t \<Rightarrow> window list \<Rightarrow>
   (kern_return_t \<times> ipc_object_t \<times> kernel \<times> window list) option" where
  "ipc_object_alloc_name s space otype type urefs name ws = do {
     let (object, s) = kalloc s;
     if object = IO_NULL then Some (KERN_RESOURCE_SHORTAGE, IO_NULL, s, ws)
     else do {
       (kr, r, s, ws) \<leftarrow> k_entry_alloc_name s space name ws;
       (case r of
          None \<Rightarrow> Some (kr, IO_NULL, s, ws)
        | Some entry \<Rightarrow> do {
            inuse \<leftarrow> ipc_right_inuse s space name entry;
            if inuse then Some (KERN_NAME_EXISTS, IO_NULL, s, ws)
            else do {
              s \<leftarrow> k_entry_write s space entry
                     (\<lambda>e. e\<lparr>ie_bits := ie_bits e OR (type OR urefs), ie_object := object\<rparr>);
              Some (KERN_SUCCESS, object, io_create s object otype, ws) } }) } }"

definition ipc_port_alloc ::
  "kernel \<Rightarrow> ipc_space_t \<Rightarrow> window list \<Rightarrow> (kern_return_t \<times> mach_port_t \<times> ipc_port_t \<times> kernel \<times> window list) option" where
  "ipc_port_alloc s space ws = do {
     (kr, name, port, s, ws) \<leftarrow> ipc_object_alloc s space IOT_PORT MACH_PORT_TYPE_RECEIVE 0 ws;
     if kr \<noteq> KERN_SUCCESS then Some (kr, MACH_PORT_NULL, IP_NULL, s, ws)
     else do {
       s \<leftarrow> port_write s port (\<lambda>p. ipc_port_init p space name);
       Some (KERN_SUCCESS, name, port, s, ws) } }"

definition ipc_port_alloc_name ::
  "kernel \<Rightarrow> ipc_space_t \<Rightarrow> mach_port_t \<Rightarrow> window list \<Rightarrow> (kern_return_t \<times> ipc_port_t \<times> kernel \<times> window list) option" where
  "ipc_port_alloc_name s space name ws = do {
     (kr, port, s, ws) \<leftarrow> ipc_object_alloc_name s space IOT_PORT MACH_PORT_TYPE_RECEIVE 0 name ws;
     if kr \<noteq> KERN_SUCCESS then Some (kr, IP_NULL, s, ws)
     else do {
       s \<leftarrow> port_write s port (\<lambda>p. ipc_port_init p space name);
       Some (KERN_SUCCESS, port, s, ws) } }"

definition ipc_pset_alloc ::
  "kernel \<Rightarrow> ipc_space_t \<Rightarrow> window list \<Rightarrow> (kern_return_t \<times> mach_port_t \<times> ipc_pset_t \<times> kernel \<times> window list) option" where
  "ipc_pset_alloc s space ws = do {
     (kr, name, pset, s, ws) \<leftarrow> ipc_object_alloc s space IOT_PORT_SET MACH_PORT_TYPE_PORT_SET 0 ws;
     if kr \<noteq> KERN_SUCCESS then Some (kr, MACH_PORT_NULL, IPS_NULL, s, ws)
     else do {
       s \<leftarrow> pset_write s pset (\<lambda>p. p\<lparr>ips_local_name := name, ips_messages := ipc_mqueue_init\<rparr>);
       Some (KERN_SUCCESS, name, pset, s, ws) } }"

definition ipc_pset_alloc_name ::
  "kernel \<Rightarrow> ipc_space_t \<Rightarrow> mach_port_t \<Rightarrow> window list \<Rightarrow> (kern_return_t \<times> ipc_pset_t \<times> kernel \<times> window list) option" where
  "ipc_pset_alloc_name s space name ws = do {
     (kr, pset, s, ws) \<leftarrow> ipc_object_alloc_name s space IOT_PORT_SET MACH_PORT_TYPE_PORT_SET 0 name ws;
     if kr \<noteq> KERN_SUCCESS then Some (kr, IPS_NULL, s, ws)
     else do {
       s \<leftarrow> pset_write s pset (\<lambda>p. p\<lparr>ips_local_name := name, ips_messages := ipc_mqueue_init\<rparr>);
       Some (KERN_SUCCESS, pset, s, ws) } }"

section \<open>Copyin\<close>

text \<open>The routine panics on any other type name: \<open>None\<close>.\<close>

definition ipc_object_copyin_type :: "mach_msg_type_name_t \<Rightarrow> mach_msg_type_name_t option" where
  "ipc_object_copyin_type msgt_name =
     (if msgt_name = 0 then Some 0
      else if msgt_name = MACH_MSG_TYPE_MOVE_RECEIVE then Some MACH_MSG_TYPE_PORT_RECEIVE
      else if msgt_name = MACH_MSG_TYPE_MOVE_SEND_ONCE \<or> msgt_name = MACH_MSG_TYPE_MAKE_SEND_ONCE
      then Some MACH_MSG_TYPE_PORT_SEND_ONCE
      else if msgt_name = MACH_MSG_TYPE_MOVE_SEND \<or> msgt_name = MACH_MSG_TYPE_MAKE_SEND \<or>
              msgt_name = MACH_MSG_TYPE_COPY_SEND
      then Some MACH_MSG_TYPE_PORT_SEND
      else None)"

definition ipc_object_copyin ::
  "kernel \<Rightarrow> ipc_space_t \<Rightarrow> mach_port_t \<Rightarrow> mach_msg_type_name_t \<Rightarrow> (kern_return_t \<times> ipc_object_t \<times> kernel) option" where
  "ipc_object_copyin s space name msgt_name = do {
     (kr, r, s) \<leftarrow> ipc_right_lookup_write s space name;
     (case r of
        None \<Rightarrow> Some (kr, IO_NULL, s)
      | Some entry \<Rightarrow> do {
          (kr, object, soright, s) \<leftarrow> ipc_right_copyin s space name entry msgt_name True;
          e \<leftarrow> k_entry s space entry;
          s \<leftarrow> (if IE_BITS_TYPE (ie_bits e) = MACH_PORT_TYPE_NONE then k_entry_dealloc s space name entry else Some s);
          s \<leftarrow> (if kr = KERN_SUCCESS then notify_dnrequest s soright name else Some s);
          Some (kr, object, s) }) }"

definition ipc_object_copyin_from_kernel ::
  "kernel \<Rightarrow> ipc_object_t \<Rightarrow> mach_msg_type_name_t \<Rightarrow> kernel option" where
  "ipc_object_copyin_from_kernel s object msgt_name =
     (if msgt_name = MACH_MSG_TYPE_MOVE_RECEIVE then do {
        s \<leftarrow> ipc_port_set_mscount s object 0;
        port_write s object (\<lambda>p. p\<lparr>ip_receiver_name := MACH_PORT_NULL, ip_data := IP_NULL\<rparr>) }
      else if msgt_name = MACH_MSG_TYPE_COPY_SEND then do {
        p \<leftarrow> k_ports s object;
        s \<leftarrow> (if ip_active p then port_write s object (\<lambda>p. p\<lparr>ip_srights := ip_srights p + 1\<rparr>) else Some s);
        ip_reference s object }
      else if msgt_name = MACH_MSG_TYPE_MAKE_SEND then do {
        s \<leftarrow> ip_reference s object;
        port_write s object (\<lambda>p. p\<lparr>ip_mscount := ip_mscount p + 1, ip_srights := ip_srights p + 1\<rparr>) }
      else if msgt_name = MACH_MSG_TYPE_MOVE_SEND then Some s
      else if msgt_name = MACH_MSG_TYPE_MAKE_SEND_ONCE then do {
        s \<leftarrow> ip_reference s object;
        port_write s object (\<lambda>p. p\<lparr>ip_sorights := ip_sorights p + 1\<rparr>) }
      else if msgt_name = MACH_MSG_TYPE_MOVE_SEND_ONCE then Some s
      else None)"

section \<open>Copyout\<close>

text \<open>
  One round of the loop of \<open>ipc_object_copyout\<close>: the entry to copy out to, a final answer, or the
  table has to grow.
\<close>

datatype copyout_outcome =
    CO_RETURN kern_return_t kernel
  | CO_ENTRY mach_port_t ipc_entry_ref kernel
  | CO_GROW kernel

definition copyout_fresh ::
  "kernel \<Rightarrow> ipc_space_t \<Rightarrow> ipc_object_t \<Rightarrow> mach_port_t \<Rightarrow> ipc_entry_ref \<Rightarrow> copyout_outcome option" where
  "copyout_fresh s space object name entry = do {
     p \<leftarrow> k_ports s object;
     if \<not> ip_active p then do {
       s \<leftarrow> k_entry_dealloc s space name entry;
       Some (CO_RETURN KERN_INVALID_CAPABILITY s) }
     else do {
       s \<leftarrow> k_entry_write s space entry (\<lambda>e. e\<lparr>ie_object := object\<rparr>);
       Some (CO_ENTRY name entry s) } }"

definition copyout_step ::
  "kernel \<Rightarrow> ipc_space_t \<Rightarrow> ipc_object_t \<Rightarrow> mach_msg_type_name_t \<Rightarrow> copyout_outcome option" where
  "copyout_step s space object msgt_name = do {
     is \<leftarrow> k_spaces s space;
     if \<not> is_active is then Some (CO_RETURN KERN_INVALID_TASK s)
     else do {
       (r, s) \<leftarrow> (if msgt_name \<noteq> MACH_MSG_TYPE_PORT_SEND_ONCE then ipc_right_reverse s space object else Some (None, s));
       (case r of
          Some (name, entry) \<Rightarrow> Some (CO_ENTRY name entry s)
        | None \<Rightarrow> do {
            got \<leftarrow> k_entry_get s space;
            (case got of
               None \<Rightarrow> Some (CO_GROW s)
             | Some (name, entry, s) \<Rightarrow> copyout_fresh s space object name entry) }) } }"

lemma k_grow_table_windows: "k_grow_table s space target ws = Some (KERN_SUCCESS, s', ws') \<Longrightarrow> target = ITS_SIZE_NONE \<Longrightarrow> length ws' < length ws"
  by (auto simp: k_grow_table_def bind_eq_Some_conv dest: ipc_entry_grow_table_windows)

function ipc_object_copyout ::
  "kernel \<Rightarrow> ipc_space_t \<Rightarrow> ipc_object_t \<Rightarrow> mach_msg_type_name_t \<Rightarrow> bool \<Rightarrow> window list \<Rightarrow>
   (kern_return_t \<times> mach_port_t \<times> kernel \<times> window list) option" where
  "ipc_object_copyout s space object msgt_name overflow ws = do {
     step \<leftarrow> copyout_step s space object msgt_name;
     (case step of
        CO_RETURN kr s \<Rightarrow> Some (kr, MACH_PORT_NULL, s, ws)
      | CO_ENTRY name entry s \<Rightarrow> do {
          (kr, s) \<leftarrow> ipc_right_copyout s space name entry msgt_name overflow object;
          Some (kr, if kr = KERN_SUCCESS then name else MACH_PORT_NULL, s, ws) }
      | CO_GROW s \<Rightarrow>
          (case k_grow_table s space ITS_SIZE_NONE ws of
             None \<Rightarrow> None
           | Some (kr, s, ws') \<Rightarrow>
               if kr \<noteq> KERN_SUCCESS then Some (kr, MACH_PORT_NULL, s, ws')
               else ipc_object_copyout s space object msgt_name overflow ws')) }"
  by pat_completeness auto
termination
  by (relation "measure (\<lambda>(s, space, object, msgt_name, overflow, ws). length ws)") (auto dest: k_grow_table_windows)

declare ipc_object_copyout.simps [simp del]

definition ipc_object_copyout_name ::
  "kernel \<Rightarrow> ipc_space_t \<Rightarrow> ipc_object_t \<Rightarrow> mach_msg_type_name_t \<Rightarrow> bool \<Rightarrow> mach_port_t \<Rightarrow> window list \<Rightarrow>
   (kern_return_t \<times> kernel \<times> window list) option" where
  "ipc_object_copyout_name s space object msgt_name overflow name ws = do {
     (kr, r, s, ws) \<leftarrow> k_entry_alloc_name s space name ws;
     (case r of
        None \<Rightarrow> Some (kr, s, ws)
      | Some entry \<Rightarrow> do {
          (rev, s) \<leftarrow> (if msgt_name \<noteq> MACH_MSG_TYPE_PORT_SEND_ONCE then ipc_right_reverse s space object else Some (None, s));
          (case rev of
             Some (oname, oentry) \<Rightarrow>
               if name \<noteq> oname then do {
                 e \<leftarrow> k_entry s space entry;
                 s \<leftarrow> (if IE_BITS_TYPE (ie_bits e) = MACH_PORT_TYPE_NONE then k_entry_dealloc s space name entry else Some s);
                 Some (KERN_RIGHT_EXISTS, s, ws) }
               else do {
                 (kr, s) \<leftarrow> ipc_right_copyout s space name entry msgt_name overflow object;
                 Some (kr, s, ws) }
           | None \<Rightarrow> do {
               inuse \<leftarrow> ipc_right_inuse s space name entry;
               if inuse then Some (KERN_NAME_EXISTS, s, ws)
               else do {
                 step \<leftarrow> copyout_fresh s space object name entry;
                 (case step of
                    CO_ENTRY name entry s \<Rightarrow> do {
                      (kr, s) \<leftarrow> ipc_right_copyout s space name entry msgt_name overflow object;
                      Some (kr, s, ws) }
                  | CO_RETURN kr s \<Rightarrow> Some (kr, s, ws)
                  | CO_GROW s \<Rightarrow> None) } }) }) }"

definition ipc_object_copyout_dest ::
  "kernel \<Rightarrow> ipc_space_t \<Rightarrow> ipc_object_t \<Rightarrow> mach_msg_type_name_t \<Rightarrow> (mach_port_t \<times> kernel) option" where
  "ipc_object_copyout_dest s space object msgt_name = do {
     s \<leftarrow> ip_release s object;
     p \<leftarrow> k_ports s object;
     if msgt_name = MACH_MSG_TYPE_PORT_SEND then do {
       let name = (if ip_receiver p = space then ip_receiver_name p else MACH_PORT_NULL);
       (nsrequest, mscount, s) \<leftarrow> drop_srights s object;
       s \<leftarrow> notify_nsrequest ipc_kmsg_destroy s nsrequest mscount;
       Some (name, s) }
     else if msgt_name = MACH_MSG_TYPE_PORT_SEND_ONCE then
       (if ip_receiver p = space then do {
          s \<leftarrow> port_write s object (\<lambda>p. p\<lparr>ip_sorights := ip_sorights p - 1\<rparr>);
          Some (ip_receiver_name p, s) }
        else do {
          s \<leftarrow> ip_reference s object;
          s \<leftarrow> ipc_notify_send_once ipc_kmsg_destroy s object;
          Some (MACH_PORT_NULL, s) })
     else None }"

definition ipc_port_copyout_send ::
  "kernel \<Rightarrow> ipc_port_t \<Rightarrow> ipc_space_t \<Rightarrow> window list \<Rightarrow> (mach_port_t \<times> kernel \<times> window list) option" where
  "ipc_port_copyout_send s sright space ws =
     (if IP_VALID sright then do {
        (kr, name, s, ws) \<leftarrow> ipc_object_copyout s space sright MACH_MSG_TYPE_PORT_SEND True ws;
        if kr \<noteq> KERN_SUCCESS then do {
          s \<leftarrow> ipc_port_release_send ipc_kmsg_destroy s sright;
          Some (if kr = KERN_INVALID_CAPABILITY then MACH_PORT_DEAD else MACH_PORT_NULL, s, ws) }
        else Some (name, s, ws) }
      else Some (sright, s, ws))"

section \<open>Renaming\<close>

definition ipc_object_rename ::
  "kernel \<Rightarrow> ipc_space_t \<Rightarrow> mach_port_t \<Rightarrow> mach_port_t \<Rightarrow> window list \<Rightarrow> (kern_return_t \<times> kernel \<times> window list) option" where
  "ipc_object_rename s space oname nname ws = do {
     (kr, r, s, ws) \<leftarrow> k_entry_alloc_name s space nname ws;
     (case r of
        None \<Rightarrow> Some (kr, s, ws)
      | Some nentry \<Rightarrow> do {
          inuse \<leftarrow> ipc_right_inuse s space nname nentry;
          if inuse then Some (KERN_NAME_EXISTS, s, ws)
          else do {
            (r, s) \<leftarrow> (if oname = nname then Some (None, s) else k_entry_lookup s space oname);
            (case r of
               None \<Rightarrow> do {
                 s \<leftarrow> k_entry_dealloc s space nname nentry;
                 Some (KERN_INVALID_NAME, s, ws) }
             | Some oentry \<Rightarrow> do {
                 (kr, s) \<leftarrow> ipc_right_rename s space oname oentry nname nentry;
                 Some (kr, s, ws) }) } }) }"

end
