(* ===== verification/IPC_Example.thy ===== *)
theory IPC_Example
  imports IPC_Object
begin

text \<open>
  A small concrete kernel for the examples of the development: one space at address 32 with a table
  of four entries (a dead name, a pure send right, a receive right), two live ports and a dead one.
\<close>

definition kx_port :: "natural_t \<Rightarrow> mach_port_t \<Rightarrow> ipc_port" where
  "kx_port receiver name =
     ipc_port_init (ip_zero\<lparr>ip_references := 2, ip_bits := io_makebits True IOT_PORT 0\<rparr>) receiver name"

definition kx_entry :: "ipc_entry_bits_t \<Rightarrow> ipc_object_t \<Rightarrow> nat \<Rightarrow> ipc_entry" where
  "kx_entry bits object index = \<lparr>ie_bits = bits, ie_object = object, ie_request = 0, ie_index = index\<rparr>"

definition kx_space :: ipc_space where
  "kx_space =
     \<lparr>is_references = 1, is_active = True, is_growing = False,
      is_table = [kx_entry IE_BITS_GEN_MASK IO_NULL 2, kx_entry 0x100002 IO_NULL 0,
                  kx_entry 0x10002 0x1000 0, kx_entry 0x20000 0x2000 0],
      is_table_next = 1, is_tree = ipc_splay_tree_init, is_tree_total = 0, is_tree_small = 0,
      is_tree_hash = 0, is_fast = False\<rparr>"

definition kx :: kernel where
  "kx =
     \<lparr>k_spaces = [32 \<mapsto> kx_space], k_ghash = \<lparr>ipc_hash_global_mask = 0, ipc_hash_global_table = [[]]\<rparr>,
      k_ports = [0x1000 \<mapsto> (kx_port 48 0x500)\<lparr>ip_srights := 1\<rparr>, 0x2000 \<mapsto> kx_port 32 0x300,
                 0x3000 \<mapsto> (kx_port 7 0)\<lparr>ip_bits := 0\<rparr>],
      k_psets = Map.empty, k_threads = (\<lambda>_. \<lparr>ith_state = MACH_MSG_SUCCESS, ith_kmsg = None, ith_seqno = 0, ith_msize = 0\<rparr>),
      current_thread = 1, ith_messages = [], ipc_port_timestamp_data = 8, ipc_space_kernel = 64,
      ipc_table_entries = [4, 8, 8], ipc_table_dnrequests = [2, 4, 8, 0], k_memory = (\<lambda>n. 0x10000), k_calls = []\<rparr>"

lemma kx_simps [simp]:
  "k_spaces kx 32 = Some kx_space" "k_entry kx 32 (TABLE_ENTRY 1) = Some (kx_entry 0x100002 IO_NULL 0)"
  "k_entry kx 32 (TABLE_ENTRY 2) = Some (kx_entry 0x10002 0x1000 0)"
  "k_entry kx 32 (TABLE_ENTRY 3) = Some (kx_entry 0x20000 0x2000 0)"
  "k_ports kx 0x1000 = Some ((kx_port 48 0x500)\<lparr>ip_srights := 1\<rparr>)" "k_ports kx 0x2000 = Some (kx_port 32 0x300)"
  "k_ports kx 0x3000 = Some ((kx_port 7 0)\<lparr>ip_bits := 0\<rparr>)"
  by (simp_all add: kx_def k_entry_def kx_space_def ie_at_def)

lemma kx_entry_simps [simp]:
  "ie_bits (kx_entry b io i) = b" "ie_object (kx_entry b io i) = io" "ie_request (kx_entry b io i) = 0"
  "ie_index (kx_entry b io i) = i"
  by (simp_all add: kx_entry_def)

lemma kx_port_active [simp]: "ip_active (kx_port r n)" "ip_active ((kx_port r n)\<lparr>ip_srights := k\<rparr>)"
  "\<not> ip_active ((kx_port r n)\<lparr>ip_bits := 0\<rparr>)"
  by (simp_all add: kx_port_def ip_active_def io_active_bits_def ipc_port_init_def io_makebits_def
    IO_BITS_ACTIVE_def IOT_PORT_def IP_BIT_NMS_def)

lemma kx_fields:
  "ipc_space_kernel kx = 64" "k_memory kx = (\<lambda>n. 0x10000)" "ith_messages kx = []" "current_thread kx = 1"
  "k_psets kx = Map.empty" "k_calls kx = []" "ipc_port_timestamp_data kx = 8"
  by (simp_all add: kx_def)

lemma kx_port_fields:
  "ip_data (kx_port r n) = r" "ip_references (kx_port r n) = 2" "ip_receiver_name (kx_port r n) = n"
  by (simp_all add: kx_port_def ipc_port_init_def)

end
