(* ===== verification/IPC_Right_Facts.thy ===== *)
theory IPC_Right_Facts
  imports IPC_Example
begin

text \<open>
  Facts on rights (\<open>IPC_Right\<close>) that hold in every state: the tests of the code on the type of an
  entry, the user reference checks, and the agreement of the routines that treat the same right.
\<close>

section \<open>Type tests\<close>

lemma type_test_mask:
  "t AND NOT IE_BITS_TYPE_MASK = 0 \<Longrightarrow> bits AND t = IE_BITS_TYPE bits AND t" for t bits :: natural_t
  by (rule bit_word_eqI) (auto simp: IE_BITS_TYPE_def natural_eq_iff bit_and_iff bit_not_iff)

lemma type_masks:
  "MACH_PORT_TYPE_SEND AND NOT IE_BITS_TYPE_MASK = 0" "MACH_PORT_TYPE_RECEIVE AND NOT IE_BITS_TYPE_MASK = 0"
  "MACH_PORT_TYPE_SEND_ONCE AND NOT IE_BITS_TYPE_MASK = 0" "MACH_PORT_TYPE_PORT_SET AND NOT IE_BITS_TYPE_MASK = 0"
  "MACH_PORT_TYPE_DEAD_NAME AND NOT IE_BITS_TYPE_MASK = 0" "MACH_PORT_TYPE_SEND_RIGHTS AND NOT IE_BITS_TYPE_MASK = 0"
  "MACH_PORT_TYPE_PORT_RIGHTS AND NOT IE_BITS_TYPE_MASK = 0" "MACH_PORT_TYPE_PORT_OR_DEAD AND NOT IE_BITS_TYPE_MASK = 0"
  by code_simp+

lemmas type_tests = type_masks [THEN type_test_mask]

text \<open>The value of every test on an entry whose type is known.\<close>

lemma type_tests_of:
  assumes "IE_BITS_TYPE bits = t"
  shows "bits AND MACH_PORT_TYPE_SEND = t AND MACH_PORT_TYPE_SEND"
    "bits AND MACH_PORT_TYPE_RECEIVE = t AND MACH_PORT_TYPE_RECEIVE"
    "bits AND MACH_PORT_TYPE_SEND_ONCE = t AND MACH_PORT_TYPE_SEND_ONCE"
    "bits AND MACH_PORT_TYPE_PORT_SET = t AND MACH_PORT_TYPE_PORT_SET"
    "bits AND MACH_PORT_TYPE_DEAD_NAME = t AND MACH_PORT_TYPE_DEAD_NAME"
    "bits AND MACH_PORT_TYPE_SEND_RIGHTS = t AND MACH_PORT_TYPE_SEND_RIGHTS"
    "bits AND MACH_PORT_TYPE_PORT_RIGHTS = t AND MACH_PORT_TYPE_PORT_RIGHTS"
    "bits AND MACH_PORT_TYPE_PORT_OR_DEAD = t AND MACH_PORT_TYPE_PORT_OR_DEAD"
  using assms type_tests [of bits] by simp_all

lemma tests_SEND:
  assumes "IE_BITS_TYPE bits = MACH_PORT_TYPE_SEND"
  shows "bits AND MACH_PORT_TYPE_SEND \<noteq> 0" "bits AND MACH_PORT_TYPE_RECEIVE = 0" "bits AND MACH_PORT_TYPE_SEND_ONCE = 0"
    "bits AND MACH_PORT_TYPE_PORT_SET = 0" "bits AND MACH_PORT_TYPE_DEAD_NAME = 0" "bits AND MACH_PORT_TYPE_SEND_RIGHTS \<noteq> 0"
    "bits AND MACH_PORT_TYPE_PORT_RIGHTS \<noteq> 0" "bits AND MACH_PORT_TYPE_PORT_OR_DEAD \<noteq> 0"
  using type_tests_of [OF assms] by (simp_all add: MACH_PORT_TYPE_values)

lemma tests_RECEIVE:
  assumes "IE_BITS_TYPE bits = MACH_PORT_TYPE_RECEIVE"
  shows "bits AND MACH_PORT_TYPE_SEND = 0" "bits AND MACH_PORT_TYPE_RECEIVE \<noteq> 0" "bits AND MACH_PORT_TYPE_SEND_ONCE = 0"
    "bits AND MACH_PORT_TYPE_PORT_SET = 0" "bits AND MACH_PORT_TYPE_DEAD_NAME = 0" "bits AND MACH_PORT_TYPE_SEND_RIGHTS = 0"
    "bits AND MACH_PORT_TYPE_PORT_RIGHTS \<noteq> 0" "bits AND MACH_PORT_TYPE_PORT_OR_DEAD \<noteq> 0"
  using type_tests_of [OF assms] by (simp_all add: MACH_PORT_TYPE_values)

lemma tests_SEND_RECEIVE:
  assumes "IE_BITS_TYPE bits = MACH_PORT_TYPE_SEND_RECEIVE"
  shows "bits AND MACH_PORT_TYPE_SEND \<noteq> 0" "bits AND MACH_PORT_TYPE_RECEIVE \<noteq> 0" "bits AND MACH_PORT_TYPE_SEND_ONCE = 0"
    "bits AND MACH_PORT_TYPE_PORT_SET = 0" "bits AND MACH_PORT_TYPE_DEAD_NAME = 0" "bits AND MACH_PORT_TYPE_SEND_RIGHTS \<noteq> 0"
    "bits AND MACH_PORT_TYPE_PORT_RIGHTS \<noteq> 0" "bits AND MACH_PORT_TYPE_PORT_OR_DEAD \<noteq> 0"
  using type_tests_of [OF assms] by (simp_all add: MACH_PORT_TYPE_values)

lemma tests_SEND_ONCE:
  assumes "IE_BITS_TYPE bits = MACH_PORT_TYPE_SEND_ONCE"
  shows "bits AND MACH_PORT_TYPE_SEND = 0" "bits AND MACH_PORT_TYPE_RECEIVE = 0" "bits AND MACH_PORT_TYPE_SEND_ONCE \<noteq> 0"
    "bits AND MACH_PORT_TYPE_PORT_SET = 0" "bits AND MACH_PORT_TYPE_DEAD_NAME = 0" "bits AND MACH_PORT_TYPE_SEND_RIGHTS \<noteq> 0"
    "bits AND MACH_PORT_TYPE_PORT_RIGHTS \<noteq> 0" "bits AND MACH_PORT_TYPE_PORT_OR_DEAD \<noteq> 0"
  using type_tests_of [OF assms] by (simp_all add: MACH_PORT_TYPE_values)

lemma tests_PORT_SET:
  assumes "IE_BITS_TYPE bits = MACH_PORT_TYPE_PORT_SET"
  shows "bits AND MACH_PORT_TYPE_SEND = 0" "bits AND MACH_PORT_TYPE_RECEIVE = 0" "bits AND MACH_PORT_TYPE_SEND_ONCE = 0"
    "bits AND MACH_PORT_TYPE_PORT_SET \<noteq> 0" "bits AND MACH_PORT_TYPE_DEAD_NAME = 0" "bits AND MACH_PORT_TYPE_SEND_RIGHTS = 0"
    "bits AND MACH_PORT_TYPE_PORT_RIGHTS = 0" "bits AND MACH_PORT_TYPE_PORT_OR_DEAD = 0"
  using type_tests_of [OF assms] by (simp_all add: MACH_PORT_TYPE_values)

lemma tests_DEAD_NAME:
  assumes "IE_BITS_TYPE bits = MACH_PORT_TYPE_DEAD_NAME"
  shows "bits AND MACH_PORT_TYPE_SEND = 0" "bits AND MACH_PORT_TYPE_RECEIVE = 0" "bits AND MACH_PORT_TYPE_SEND_ONCE = 0"
    "bits AND MACH_PORT_TYPE_PORT_SET = 0" "bits AND MACH_PORT_TYPE_DEAD_NAME \<noteq> 0" "bits AND MACH_PORT_TYPE_SEND_RIGHTS = 0"
    "bits AND MACH_PORT_TYPE_PORT_RIGHTS = 0" "bits AND MACH_PORT_TYPE_PORT_OR_DEAD \<noteq> 0"
  using type_tests_of [OF assms] by (simp_all add: MACH_PORT_TYPE_values)

lemma type_distinct:
  "MACH_PORT_TYPE_SEND \<noteq> MACH_PORT_TYPE_RECEIVE" "MACH_PORT_TYPE_SEND \<noteq> MACH_PORT_TYPE_SEND_RECEIVE"
  "MACH_PORT_TYPE_SEND \<noteq> MACH_PORT_TYPE_SEND_ONCE" "MACH_PORT_TYPE_SEND \<noteq> MACH_PORT_TYPE_PORT_SET"
  "MACH_PORT_TYPE_SEND \<noteq> MACH_PORT_TYPE_DEAD_NAME" "MACH_PORT_TYPE_SEND \<noteq> MACH_PORT_TYPE_NONE"
  "MACH_PORT_TYPE_RECEIVE \<noteq> MACH_PORT_TYPE_SEND" "MACH_PORT_TYPE_RECEIVE \<noteq> MACH_PORT_TYPE_SEND_RECEIVE"
  "MACH_PORT_TYPE_RECEIVE \<noteq> MACH_PORT_TYPE_SEND_ONCE" "MACH_PORT_TYPE_RECEIVE \<noteq> MACH_PORT_TYPE_PORT_SET"
  "MACH_PORT_TYPE_RECEIVE \<noteq> MACH_PORT_TYPE_DEAD_NAME" "MACH_PORT_TYPE_RECEIVE \<noteq> MACH_PORT_TYPE_NONE"
  "MACH_PORT_TYPE_SEND_RECEIVE \<noteq> MACH_PORT_TYPE_SEND" "MACH_PORT_TYPE_SEND_RECEIVE \<noteq> MACH_PORT_TYPE_RECEIVE"
  "MACH_PORT_TYPE_SEND_RECEIVE \<noteq> MACH_PORT_TYPE_SEND_ONCE" "MACH_PORT_TYPE_SEND_RECEIVE \<noteq> MACH_PORT_TYPE_PORT_SET"
  "MACH_PORT_TYPE_SEND_RECEIVE \<noteq> MACH_PORT_TYPE_DEAD_NAME" "MACH_PORT_TYPE_SEND_RECEIVE \<noteq> MACH_PORT_TYPE_NONE"
  "MACH_PORT_TYPE_SEND_ONCE \<noteq> MACH_PORT_TYPE_SEND" "MACH_PORT_TYPE_SEND_ONCE \<noteq> MACH_PORT_TYPE_RECEIVE"
  "MACH_PORT_TYPE_SEND_ONCE \<noteq> MACH_PORT_TYPE_SEND_RECEIVE" "MACH_PORT_TYPE_SEND_ONCE \<noteq> MACH_PORT_TYPE_PORT_SET"
  "MACH_PORT_TYPE_SEND_ONCE \<noteq> MACH_PORT_TYPE_DEAD_NAME" "MACH_PORT_TYPE_SEND_ONCE \<noteq> MACH_PORT_TYPE_NONE"
  "MACH_PORT_TYPE_PORT_SET \<noteq> MACH_PORT_TYPE_SEND" "MACH_PORT_TYPE_PORT_SET \<noteq> MACH_PORT_TYPE_RECEIVE"
  "MACH_PORT_TYPE_PORT_SET \<noteq> MACH_PORT_TYPE_SEND_RECEIVE" "MACH_PORT_TYPE_PORT_SET \<noteq> MACH_PORT_TYPE_SEND_ONCE"
  "MACH_PORT_TYPE_PORT_SET \<noteq> MACH_PORT_TYPE_DEAD_NAME" "MACH_PORT_TYPE_PORT_SET \<noteq> MACH_PORT_TYPE_NONE"
  "MACH_PORT_TYPE_DEAD_NAME \<noteq> MACH_PORT_TYPE_SEND" "MACH_PORT_TYPE_DEAD_NAME \<noteq> MACH_PORT_TYPE_RECEIVE"
  "MACH_PORT_TYPE_DEAD_NAME \<noteq> MACH_PORT_TYPE_SEND_RECEIVE" "MACH_PORT_TYPE_DEAD_NAME \<noteq> MACH_PORT_TYPE_SEND_ONCE"
  "MACH_PORT_TYPE_DEAD_NAME \<noteq> MACH_PORT_TYPE_PORT_SET" "MACH_PORT_TYPE_DEAD_NAME \<noteq> MACH_PORT_TYPE_NONE"
  "MACH_PORT_TYPE_NONE \<noteq> MACH_PORT_TYPE_SEND" "MACH_PORT_TYPE_NONE \<noteq> MACH_PORT_TYPE_RECEIVE"
  "MACH_PORT_TYPE_NONE \<noteq> MACH_PORT_TYPE_SEND_RECEIVE" "MACH_PORT_TYPE_NONE \<noteq> MACH_PORT_TYPE_SEND_ONCE"
  "MACH_PORT_TYPE_NONE \<noteq> MACH_PORT_TYPE_PORT_SET" "MACH_PORT_TYPE_NONE \<noteq> MACH_PORT_TYPE_DEAD_NAME"
  by (simp_all add: MACH_PORT_TYPE_values)

lemmas type_simps = type_distinct tests_SEND tests_RECEIVE tests_SEND_RECEIVE tests_SEND_ONCE tests_PORT_SET tests_DEAD_NAME

section \<open>User references\<close>

lemma UREFS_UNDERFLOW_minus_1: "MACH_PORT_UREFS_UNDERFLOW u (- 1) \<longleftrightarrow> u = 0"
  by (auto simp: MACH_PORT_UREFS_UNDERFLOW_def word_less_nat_alt unat_eq_zero)

lemma UREFS_OVERFLOW_minus_1: "\<not> MACH_PORT_UREFS_OVERFLOW u (- 1)"
  by (simp add: MACH_PORT_UREFS_OVERFLOW_def)

lemma right_consts:
  "MACH_PORT_RIGHT_DEAD_NAME \<noteq> MACH_PORT_RIGHT_PORT_SET" "MACH_PORT_RIGHT_DEAD_NAME \<noteq> MACH_PORT_RIGHT_RECEIVE"
  "MACH_PORT_RIGHT_DEAD_NAME \<noteq> MACH_PORT_RIGHT_SEND_ONCE" "MACH_PORT_RIGHT_SEND \<noteq> MACH_PORT_RIGHT_PORT_SET"
  "MACH_PORT_RIGHT_SEND \<noteq> MACH_PORT_RIGHT_RECEIVE" "MACH_PORT_RIGHT_SEND \<noteq> MACH_PORT_RIGHT_SEND_ONCE"
  "MACH_PORT_RIGHT_SEND \<noteq> MACH_PORT_RIGHT_DEAD_NAME" "MACH_PORT_RIGHT_SEND_ONCE \<noteq> MACH_PORT_RIGHT_PORT_SET"
  "MACH_PORT_RIGHT_SEND_ONCE \<noteq> MACH_PORT_RIGHT_RECEIVE" "MACH_PORT_RIGHT_RECEIVE \<noteq> MACH_PORT_RIGHT_PORT_SET"
  by code_simp+

text \<open>The right that \<open>ipc_right_dealloc\<close> releases a user reference of.\<close>

definition dealloc_right :: "natural_t \<Rightarrow> natural_t" where
  "dealloc_right type =
     (if type = MACH_PORT_TYPE_DEAD_NAME then MACH_PORT_RIGHT_DEAD_NAME
      else if type = MACH_PORT_TYPE_SEND_ONCE then MACH_PORT_RIGHT_SEND_ONCE
      else MACH_PORT_RIGHT_SEND)"

lemma ipc_right_check_active:
  "k_ports s port = Some p \<Longrightarrow> ip_active p \<Longrightarrow> ipc_right_check s space port name entry = Some (False, s)"
  by (simp add: ipc_right_check_def)

text \<open>
  C27: \<^verbatim>\<open>ipc_right_dealloc\<close> is, as its comment says, \<^verbatim>\<open>ipc_right_delta\<close> with a delta of -1 for
  the right that the entry denotes: for a dead name, and for a send, send-once or send-receive entry
  of a live port that has a user reference, the two calls have the same result and leave the same
  kernel state, notifications included.
\<close>

theorem right_dealloc_is_delta:
  assumes e: "k_entry s space entry = Some e"
    and t: "IE_BITS_TYPE (ie_bits e) \<in> {MACH_PORT_TYPE_DEAD_NAME, MACH_PORT_TYPE_SEND_ONCE,
              MACH_PORT_TYPE_SEND, MACH_PORT_TYPE_SEND_RECEIVE}"
    and u: "IE_BITS_UREFS (ie_bits e) \<noteq> 0"
    and live: "IE_BITS_TYPE (ie_bits e) = MACH_PORT_TYPE_DEAD_NAME \<or>
               (\<exists>p. k_ports s (ie_object e) = Some p \<and> ip_active p)"
  shows "ipc_right_dealloc s space name entry =
    ipc_right_delta s space name entry (dealloc_right (IE_BITS_TYPE (ie_bits e))) (- 1)"
proof -
  consider "IE_BITS_TYPE (ie_bits e) = MACH_PORT_TYPE_DEAD_NAME" | "IE_BITS_TYPE (ie_bits e) = MACH_PORT_TYPE_SEND_ONCE"
    | "IE_BITS_TYPE (ie_bits e) = MACH_PORT_TYPE_SEND" | "IE_BITS_TYPE (ie_bits e) = MACH_PORT_TYPE_SEND_RECEIVE"
    using t by blast
  then show ?thesis
  proof cases
    case 1
    then show ?thesis using e u
      by (simp add: ipc_right_dealloc_def ipc_right_delta_def dealloc_right_def right_delta_dead_name_def
        dealloc_dead_name_def type_simps right_consts Let_def
        UREFS_UNDERFLOW_minus_1 UREFS_OVERFLOW_minus_1)
  next
    case 2
    then show ?thesis using e u live
      by (auto simp: ipc_right_dealloc_def ipc_right_delta_def dealloc_right_def right_delta_send_once_def
        type_simps right_consts Let_def ipc_right_check_active)
  next
    case 3
    then show ?thesis using e u live
      by (auto simp: ipc_right_dealloc_def ipc_right_delta_def dealloc_right_def right_delta_send_def
        type_simps right_consts Let_def ipc_right_check_active
        UREFS_UNDERFLOW_minus_1 UREFS_OVERFLOW_minus_1)
  next
    case 4
    then show ?thesis using e u live
      by (auto simp: ipc_right_dealloc_def ipc_right_delta_def dealloc_right_def right_delta_send_def notify_dnrequest_def
        type_simps right_consts Let_def ipc_right_check_active
        UREFS_UNDERFLOW_minus_1 UREFS_OVERFLOW_minus_1)
  qed
qed


lemma IE_BITS_literals:
  "IE_BITS_TYPE 0x100002 = MACH_PORT_TYPE_DEAD_NAME" "IE_BITS_UREFS 0x100002 = 2"
  "IE_BITS_TYPE 0x10002 = MACH_PORT_TYPE_SEND" "IE_BITS_UREFS 0x10002 = 2"
  "IE_BITS_TYPE 0x20000 = MACH_PORT_TYPE_RECEIVE" "IE_BITS_UREFS 0x20000 = 0"
  by code_simp+

theorem right_dealloc_is_delta_witness:
  "ipc_right_dealloc kx 32 0x200 (TABLE_ENTRY 2) =
     ipc_right_delta kx 32 0x200 (TABLE_ENTRY 2) (dealloc_right MACH_PORT_TYPE_SEND) (- 1)"
  using right_dealloc_is_delta [of kx 32 "TABLE_ENTRY 2" "kx_entry 0x10002 0x1000 0" "0x200"]
  by (simp add: IE_BITS_literals)

section \<open>Copyin\<close>

lemmas copyin_defs =
  copyin_make_send_def copyin_make_send_once_def copyin_move_receive_def copyin_copy_send_def
  copyin_move_send_def copyin_move_send_once_def copyin_copy_dead_def copyin_move_dead_def

lemma msg_types_neq:
  "MACH_MSG_TYPE_MAKE_SEND \<noteq> MACH_MSG_TYPE_MAKE_SEND_ONCE" "MACH_MSG_TYPE_MAKE_SEND \<noteq> MACH_MSG_TYPE_MOVE_RECEIVE"
  "MACH_MSG_TYPE_MAKE_SEND_ONCE \<noteq> MACH_MSG_TYPE_MOVE_RECEIVE" "MACH_MSG_TYPE_COPY_SEND \<noteq> MACH_MSG_TYPE_MOVE_SEND"
  "MACH_MSG_TYPE_COPY_SEND \<noteq> MACH_MSG_TYPE_MAKE_SEND" "MACH_MSG_TYPE_COPY_SEND \<noteq> MACH_MSG_TYPE_MAKE_SEND_ONCE"
  "MACH_MSG_TYPE_COPY_SEND \<noteq> MACH_MSG_TYPE_MOVE_RECEIVE" "MACH_MSG_TYPE_COPY_SEND \<noteq> MACH_MSG_TYPE_MOVE_SEND_ONCE"
  "MACH_MSG_TYPE_MOVE_SEND \<noteq> MACH_MSG_TYPE_MAKE_SEND" "MACH_MSG_TYPE_MOVE_SEND \<noteq> MACH_MSG_TYPE_MAKE_SEND_ONCE"
  "MACH_MSG_TYPE_MOVE_SEND \<noteq> MACH_MSG_TYPE_MOVE_RECEIVE" "MACH_MSG_TYPE_MOVE_SEND \<noteq> MACH_MSG_TYPE_MOVE_SEND_ONCE"
  "MACH_MSG_TYPE_MOVE_SEND_ONCE \<noteq> MACH_MSG_TYPE_MAKE_SEND" "MACH_MSG_TYPE_MOVE_SEND_ONCE \<noteq> MACH_MSG_TYPE_MAKE_SEND_ONCE"
  "MACH_MSG_TYPE_MOVE_SEND_ONCE \<noteq> MACH_MSG_TYPE_MOVE_RECEIVE"
  by (simp_all add: msg_type_defs)

lemmas msg_types_distinct = msg_types_neq msg_types_neq [symmetric]

definition succeeds :: "copyin_result \<Rightarrow> bool" where
  "succeeds r = (\<forall>x. r = Some x \<longrightarrow> fst x = KERN_SUCCESS)"

lemma succeeds_Some [simp]: "succeeds (Some (kr, x)) \<longleftrightarrow> kr = KERN_SUCCESS"
  by (simp add: succeeds_def)

lemma succeeds_bind: "(\<And>x. m = Some x \<Longrightarrow> succeeds (f x)) \<Longrightarrow> succeeds (m \<bind> f)"
  by (cases m) (simp_all add: succeeds_def)

lemma succeeds_case_prod: "(\<And>x y. p = (x, y) \<Longrightarrow> succeeds (f x y)) \<Longrightarrow> succeeds (case p of (x, y) \<Rightarrow> f x y)"
  by (cases p) simp

lemmas succeeds_intros = succeeds_bind succeeds_case_prod

definition decided :: "bool \<Rightarrow> kernel \<Rightarrow> copyin_result \<Rightarrow> bool" where
  "decided ok s r \<longleftrightarrow> (if ok then succeeds r else r = copyin_fail s)"

lemma decided_True [simp]: "decided True s r \<longleftrightarrow> succeeds r"
  by (simp add: decided_def)

lemma decided_False [simp]: "decided False s r \<longleftrightarrow> r = copyin_fail s"
  by (simp add: decided_def)

lemma succeeds_check:
  assumes "k_ports s port = Some p" "ip_active p \<Longrightarrow> succeeds (f (False, s))" "\<And>s'. \<not> ip_active p \<Longrightarrow> succeeds (f (True, s'))"
  shows "succeeds (ipc_right_check s space port name entry \<bind> f)"
  using assms by (cases "ip_active p") (auto simp: ipc_right_check_def Let_def intro!: succeeds_bind)

lemma copyin_receive_decided:
  assumes "k_entry s space entry = Some e"
  shows "decided (ie_bits e AND MACH_PORT_TYPE_RECEIVE \<noteq> 0) s (copyin_make_send s space name entry)"
    and "decided (ie_bits e AND MACH_PORT_TYPE_RECEIVE \<noteq> 0) s (copyin_make_send_once s space name entry)"
    and "decided (ie_bits e AND MACH_PORT_TYPE_RECEIVE \<noteq> 0) s (copyin_move_receive s space name entry)"
  using assms by (auto simp: decided_def copyin_defs Let_def intro!: succeeds_intros)

lemma succeeds_dead [simp]: "succeeds (copyin_copy_dead s True)" "succeeds (copyin_move_dead s space entry True)"
  by (auto simp: copyin_defs Let_def intro!: succeeds_intros)

definition send_decision :: "kernel \<Rightarrow> ipc_entry \<Rightarrow> ipc_entry_bits_t \<Rightarrow> bool option" where
  "send_decision s e type =
     (if ie_bits e AND MACH_PORT_TYPE_DEAD_NAME \<noteq> 0 then Some True
      else if ie_bits e AND MACH_PORT_TYPE_SEND_RIGHTS = 0 then Some False
      else map_option (\<lambda>p. ip_active p \<longrightarrow> ie_bits e AND type \<noteq> 0) (k_ports s (ie_object e)))"

lemma copyin_send_decided:
  assumes e: "k_entry s space entry = Some e"
  shows "send_decision s e MACH_PORT_TYPE_SEND = Some ok \<Longrightarrow> decided ok s (copyin_copy_send s space name entry True)"
    and "send_decision s e MACH_PORT_TYPE_SEND = Some ok \<Longrightarrow> decided ok s (copyin_move_send s space name entry True)"
    and "send_decision s e MACH_PORT_TYPE_SEND_ONCE = Some ok \<Longrightarrow> decided ok s (copyin_move_send_once s space name entry True)"
proof -
  show "decided ok s (copyin_copy_send s space name entry True)" if "send_decision s e MACH_PORT_TYPE_SEND = Some ok"
    using e that unfolding copyin_copy_send_def send_decision_def
    by (auto simp: Let_def ipc_right_check_active split: if_splits intro!: succeeds_check) (auto intro!: succeeds_intros)
  show "decided ok s (copyin_move_send s space name entry True)" if "send_decision s e MACH_PORT_TYPE_SEND = Some ok"
    using e that unfolding copyin_move_send_def send_decision_def
    by (auto simp: Let_def ipc_right_check_active split: if_splits intro!: succeeds_check) (auto intro!: succeeds_intros)
  show "decided ok s (copyin_move_send_once s space name entry True)" if "send_decision s e MACH_PORT_TYPE_SEND_ONCE = Some ok"
    using e that unfolding copyin_move_send_once_def send_decision_def
    by (auto simp: Let_def ipc_right_check_active split: if_splits intro!: succeeds_check) (auto intro!: succeeds_intros)
qed

lemma copyin_check_send:
  assumes "k_entry s space entry = Some e"
  shows "ipc_right_copyin_check s space name entry MACH_MSG_TYPE_COPY_SEND = send_decision s e MACH_PORT_TYPE_SEND"
    and "ipc_right_copyin_check s space name entry MACH_MSG_TYPE_MOVE_SEND = send_decision s e MACH_PORT_TYPE_SEND"
    and "ipc_right_copyin_check s space name entry MACH_MSG_TYPE_MOVE_SEND_ONCE = send_decision s e MACH_PORT_TYPE_SEND_ONCE"
  using assms by (cases "k_ports s (ie_object e)"; simp add: ipc_right_copyin_check_def send_decision_def Let_def msg_types_distinct)+

lemma copyin_check_decided:
  assumes c: "ipc_right_copyin_check s space name entry msgt_name = Some ok"
  shows "decided ok s (ipc_right_copyin s space name entry msgt_name True)"
proof -
  obtain e where e: "k_entry s space entry = Some e"
    using c by (auto simp: ipc_right_copyin_check_def bind_eq_Some_conv)
  consider "msgt_name \<in> {MACH_MSG_TYPE_MAKE_SEND, MACH_MSG_TYPE_MAKE_SEND_ONCE, MACH_MSG_TYPE_MOVE_RECEIVE}"
    | "msgt_name = MACH_MSG_TYPE_COPY_SEND" | "msgt_name = MACH_MSG_TYPE_MOVE_SEND" | "msgt_name = MACH_MSG_TYPE_MOVE_SEND_ONCE"
    using c e by (auto simp: ipc_right_copyin_check_def Let_def split: if_splits)
  then show ?thesis
  proof cases
    case 1
    then have "ok = (ie_bits e AND MACH_PORT_TYPE_RECEIVE \<noteq> 0)"
      using c e by (auto simp: ipc_right_copyin_check_def Let_def)
    then show ?thesis
      using 1 copyin_receive_decided [OF e, of name] by (auto simp: ipc_right_copyin_def msg_types_distinct)
  qed (use c copyin_send_decided [OF e, of ok name] in \<open>simp_all add: copyin_check_send [OF e] ipc_right_copyin_def msg_types_distinct\<close>)
qed

text \<open>
  C21: \<^verbatim>\<open>ipc_right_copyin_check\<close> decides exactly what its comment promises, whether a subsequent
  \<^verbatim>\<open>ipc_right_copyin\<close> that accepts dead rights succeeds: when it answers no, the copyin fails with
  \<^verbatim>\<open>KERN_INVALID_RIGHT\<close> and changes nothing; when it answers yes, a copyin that returns has
  succeeded. This holds for every type of transfer and every kind of entry.
\<close>

theorem copyin_check_decides_copyin:
  assumes "ipc_right_copyin_check s space name entry msgt_name = Some ok"
  shows "if ok
    then \<forall>kr object soright s'.
           ipc_right_copyin s space name entry msgt_name True = Some (kr, object, soright, s') \<longrightarrow> kr = KERN_SUCCESS
    else ipc_right_copyin s space name entry msgt_name True = Some (KERN_INVALID_RIGHT, IO_NULL, IP_NULL, s)"
  using copyin_check_decided [OF assms] by (auto simp: decided_def succeeds_def)

theorem copyin_check_decides_copyin_witness:
  "ipc_right_copyin_check kx 32 0x200 (TABLE_ENTRY 2) MACH_MSG_TYPE_MOVE_RECEIVE = Some False \<and>
   ipc_right_copyin kx 32 0x200 (TABLE_ENTRY 2) MACH_MSG_TYPE_MOVE_RECEIVE True =
     Some (KERN_INVALID_RIGHT, IO_NULL, IP_NULL, kx)"
  using copyin_check_decides_copyin [of kx 32 "0x200" "TABLE_ENTRY 2" MACH_MSG_TYPE_MOVE_RECEIVE False]
  by (simp add: ipc_right_copyin_check_def MACH_PORT_TYPE_values)

section \<open>User references\<close>

lemma same_bits_UREFS_add:
  assumes "0 \<le> uint (IE_BITS_UREFS b) + sint d" "uint (IE_BITS_UREFS b) + sint d < 65536"
  shows "IE_BITS_TYPE (b + d) = IE_BITS_TYPE b" "IE_BITS_GEN (b + d) = IE_BITS_GEN b"
    "(b + d) AND IE_BITS_COLLISION = b AND IE_BITS_COLLISION"
  using hi_UREFS_add [OF assms] by (simp_all add: TYPE_hi GEN_hi COLLISION_hi)

lemma uint_inc_UREFS: "uint (IE_BITS_UREFS b) < 65535 \<Longrightarrow> uint (IE_BITS_UREFS b + 1) = uint (IE_BITS_UREFS b) + 1"
  using uint_UREFS_bounds [of b] by (simp add: uint_word_ariths)

lemma UREFS_le_MAX: "IE_BITS_UREFS b \<le> MACH_PORT_UREFS_MAX"
  using uint_UREFS_bounds [of b] by (simp add: word_le_def MACH_PORT_UREFS_MAX_def)

lemma UREFS_sum_0_iff:
  assumes "0 \<le> uint (IE_BITS_UREFS b) + sint d"
  shows "IE_BITS_UREFS b + d = 0 \<longleftrightarrow> uint (IE_BITS_UREFS b) + sint d = 0"
proof -
  have "uint (IE_BITS_UREFS b + d) = uint (IE_BITS_UREFS b) + sint d"
    using assms uint_UREFS_bounds [of b] sint_lt [of d] by (intro uint_add_sint) auto
  then show ?thesis by (metis uint_0_iff)
qed

text \<open>
  C28: \<^verbatim>\<open>ipc_right_delta\<close> on the send right of a live port does signed arithmetic on the user
  references and refuses to leave their range: a sum below zero is \<^verbatim>\<open>KERN_INVALID_VALUE\<close>, a sum above
  65534 is \<^verbatim>\<open>KERN_UREFS_OVERFLOW\<close>, both with the state unchanged, and any other nonzero sum becomes
  the new count, in 1 to 65534, while the type, the generation and the collision bit of the entry and
  everything else in the kernel stay as they were.
\<close>

theorem send_delta_user_references:
  assumes e: "k_entry s space entry = Some e"
    and t: "IE_BITS_TYPE (ie_bits e) \<in> {MACH_PORT_TYPE_SEND, MACH_PORT_TYPE_SEND_RECEIVE}"
    and p: "k_ports s (ie_object e) = Some p" "ip_active p"
    and u: "uint (IE_BITS_UREFS (ie_bits e)) < 65535"
    and n: "n = uint (IE_BITS_UREFS (ie_bits e)) + sint delta"
    and r: "r = ipc_right_delta s space name entry MACH_PORT_RIGHT_SEND delta"
  shows "(n < 0 \<longrightarrow> r = Some (KERN_INVALID_VALUE, s)) \<and>
         (n > 65534 \<longrightarrow> r = Some (KERN_UREFS_OVERFLOW, s)) \<and>
         (n \<in> {1..65534} \<longrightarrow>
            (\<exists>b s'. r = Some (KERN_SUCCESS, s') \<and> k_entry_write s space entry (\<lambda>e. e\<lparr>ie_bits := b\<rparr>) = Some s' \<and>
               uint (IE_BITS_UREFS b) = n \<and> IE_BITS_TYPE b = IE_BITS_TYPE (ie_bits e) \<and>
               IE_BITS_GEN b = IE_BITS_GEN (ie_bits e) \<and>
               b AND IE_BITS_COLLISION = ie_bits e AND IE_BITS_COLLISION))"
proof -
  let ?b = "ie_bits e"
  have under: "MACH_PORT_UREFS_UNDERFLOW (IE_BITS_UREFS ?b) delta \<longleftrightarrow> n < 0"
    using UREFS_UNDERFLOW_iff [OF UREFS_le_MAX] n by simp
  have "IE_BITS_UREFS ?b + 1 \<le> MACH_PORT_UREFS_MAX"
    using u uint_inc_UREFS [OF u] by (simp add: word_le_def MACH_PORT_UREFS_MAX_def)
  then have over: "MACH_PORT_UREFS_OVERFLOW (IE_BITS_UREFS ?b + 1) delta \<longleftrightarrow> n > 65534"
    using uint_inc_UREFS [OF u] n by (simp add: UREFS_OVERFLOW_iff)
  have send: "?b AND MACH_PORT_TYPE_SEND \<noteq> 0" using t by (auto simp: type_simps)
  obtain sp where "k_spaces s space = Some sp" using e by (auto simp: k_entry_def)
  then have w: "\<exists>s'. k_entry_write s space entry f = Some s'" for f by (simp add: k_entry_write_def)
  have "r = right_delta_send s space name entry delta" using r by (simp add: ipc_right_delta_def right_consts)
  then have r: "n < 0 \<Longrightarrow> r = Some (KERN_INVALID_VALUE, s)" "n > 65534 \<Longrightarrow> r = Some (KERN_UREFS_OVERFLOW, s)"
    "0 < n \<Longrightarrow> n \<le> 65534 \<Longrightarrow> r = do { s \<leftarrow> k_entry_write s space entry (\<lambda>e. e\<lparr>ie_bits := ?b + delta\<rparr>); Some (KERN_SUCCESS, s) }"
    using e p send under over UREFS_sum_0_iff [of ?b delta] n
    by (simp_all add: right_delta_send_def ipc_right_check_active Let_def)
  show ?thesis
  proof (intro conjI impI)
    assume "n \<in> {1..65534}"
    then show "\<exists>b s'. r = Some (KERN_SUCCESS, s') \<and> k_entry_write s space entry (\<lambda>e. e\<lparr>ie_bits := b\<rparr>) = Some s' \<and>
       uint (IE_BITS_UREFS b) = n \<and> IE_BITS_TYPE b = IE_BITS_TYPE ?b \<and> IE_BITS_GEN b = IE_BITS_GEN ?b \<and>
       b AND IE_BITS_COLLISION = ?b AND IE_BITS_COLLISION"
      using r(3) w [of "\<lambda>e. e\<lparr>ie_bits := ?b + delta\<rparr>"] n same_bits_UREFS_add [of ?b delta] uint_UREFS_add [of ?b delta]
      by (intro exI [of _ "?b + delta"]) auto
  qed (use r(1,2) in simp_all)
qed

theorem send_delta_user_references_witness:
  "ipc_right_delta kx 32 0x200 (TABLE_ENTRY 2) MACH_PORT_RIGHT_SEND 65533 = Some (KERN_UREFS_OVERFLOW, kx)"
  using send_delta_user_references [of kx 32 "TABLE_ENTRY 2" "kx_entry 0x10002 0x1000 0" "(kx_port 48 0x500)\<lparr>ip_srights := 1\<rparr>", OF _ _ _ _ _ refl refl, of 65533 "0x200"]
  by (simp add: IE_BITS_literals)

end
