(* ===== verification/IPC_Kmsg_Facts.thy ===== *)
theory IPC_Kmsg_Facts
  imports IPC_Example "HOL-Library.Sublist"
begin

text \<open>
  The recursion of message destruction. A \<open>destroy\<close> argument stands for the routine that destroys a
  message; the routines that take one are shown here to depend only on what it does in the states they
  reach, which gives the code's own view: while a message is being cleaned, \<open>ipc_kmsg_destroy\<close> only
  appends to the thread's queue, so the recursion is flat.
\<close>

section \<open>Routines that leave the queue of doomed messages alone\<close>

named_theorems ith_kept

lemma bind_SomeE: "m \<bind> f = Some y \<Longrightarrow> (\<And>x. m = Some x \<Longrightarrow> f x = Some y \<Longrightarrow> R) \<Longrightarrow> R"
  by (auto simp: bind_eq_Some_conv)

lemma port_write_ith [ith_kept]: "port_write s port f = Some s' \<Longrightarrow> ith_messages s' = ith_messages s"
  by (auto simp: port_write_def bind_eq_Some_conv)

lemma pset_write_ith [ith_kept]: "pset_write s pset f = Some s' \<Longrightarrow> ith_messages s' = ith_messages s"
  by (auto simp: pset_write_def bind_eq_Some_conv)

lemma imq_write_ith [ith_kept]: "imq_write s mqueue f = Some s' \<Longrightarrow> ith_messages s' = ith_messages s"
  by (auto simp: imq_write_def dest: ith_kept split: ipc_mqueue_ref.splits)

lemma step_ith [simp]:
  "ith_messages (ith_write s th g) = ith_messages s" "ith_messages (thread_go s th) = ith_messages s"
  "ith_messages (k_call s c) = ith_messages s" "ith_messages (snd (kalloc s)) = ith_messages s"
  "ith_messages (snd (ipc_port_timestamp s)) = ith_messages s"
  by (simp_all add: ith_write_def thread_go_def k_call_def kalloc_def ipc_port_timestamp_def)

lemma wake_all_ith [simp]: "ith_messages (wake_all mr ths s) = ith_messages s"
  by (induction ths arbitrary: s) simp_all

lemma pair_ith [ith_kept]:
  "kalloc s = (mem, s') \<Longrightarrow> ith_messages s' = ith_messages s"
  "ipc_port_timestamp s = (t, s') \<Longrightarrow> ith_messages s' = ith_messages s"
  by (auto simp: kalloc_def ipc_port_timestamp_def)

lemma reference_ith [ith_kept]:
  "ip_reference s port = Some s' \<Longrightarrow> ith_messages s' = ith_messages s"
  "ip_release s port = Some s' \<Longrightarrow> ith_messages s' = ith_messages s"
  "ip_check_unlock s port = Some s' \<Longrightarrow> ith_messages s' = ith_messages s"
  "ips_release s pset = Some s' \<Longrightarrow> ith_messages s' = ith_messages s"
  "ips_check_unlock s pset = Some s' \<Longrightarrow> ith_messages s' = ith_messages s"
  by (auto simp: ip_reference_def ip_release_def ip_check_unlock_def ips_release_def ips_check_unlock_def
    bind_eq_Some_conv dest: ith_kept)

lemma ipc_object_release_ith [ith_kept]: "ipc_object_release s object = Some s' \<Longrightarrow> ith_messages s' = ith_messages s"
  by (auto simp: ipc_object_release_def bind_eq_Some_conv dest!: ith_kept split: if_splits)

lemma imq_hand_over_ith [ith_kept]: "imq_hand_over s th port kmsg = Some s' \<Longrightarrow> ith_messages s' = ith_messages s"
  by (auto simp: imq_hand_over_def bind_eq_Some_conv dest!: ith_kept)

lemma ipc_mqueue_deliver_ith [ith_kept]:
  "ipc_mqueue_deliver s port kmsg = Some s' \<Longrightarrow> ith_messages s' = ith_messages s"
  by (auto simp: ipc_mqueue_deliver_def Let_def elim!: bind_SomeE dest!: ith_kept split: list.split_asm)

lemma ipc_port_release_sonce_ith [ith_kept]:
  "ipc_port_release_sonce s port = Some s' \<Longrightarrow> ith_messages s' = ith_messages s"
  by (auto simp: ipc_port_release_sonce_def bind_eq_Some_conv dest!: ith_kept split: if_splits)

lemma drop_srights_ith [ith_kept]:
  "drop_srights s port = Some (nsrequest, mscount, s') \<Longrightarrow> ith_messages s' = ith_messages s"
  by (auto simp: drop_srights_def bind_eq_Some_conv dest!: ith_kept split: if_splits)

lemma check_circularity_ith [ith_kept]:
  "ipc_port_check_circularity s port dest = Some (b, s') \<Longrightarrow> ith_messages s' = ith_messages s"
  by (auto simp: ipc_port_check_circularity_def bind_eq_Some_conv dest!: ith_kept split: if_splits)

section \<open>Two destroy routines that agree\<close>

definition same :: "('a \<Rightarrow> bool) \<Rightarrow> 'a option \<Rightarrow> 'a option \<Rightarrow> bool" where
  "same Q m m' \<longleftrightarrow> m = m' \<and> (\<forall>x. m = Some x \<longrightarrow> Q x)"

lemma same_Some [simp]: "same Q (Some x) (Some y) \<longleftrightarrow> x = y \<and> Q x"
  by (auto simp: same_def)

lemma same_bind: "same Q m m' \<Longrightarrow> (\<And>x. Q x \<Longrightarrow> same R (f x) (g x)) \<Longrightarrow> same R (m \<bind> f) (m' \<bind> g)"
  by (cases m') (auto simp: same_def)

lemma same_bind_same: "(\<And>x. m = Some x \<Longrightarrow> same R (f x) (g x)) \<Longrightarrow> same R (m \<bind> f) (m \<bind> g)"
  by (cases m) (auto simp: same_def)

lemma same_self: "(\<And>x. m = Some x \<Longrightarrow> Q x) \<Longrightarrow> same Q m m"
  by (auto simp: same_def)

lemma sameD: "same Q m m' \<Longrightarrow> m = Some x \<Longrightarrow> m' = Some x \<and> Q x"
  by (auto simp: same_def)

lemma same_sym: "same Q m m' \<Longrightarrow> same Q m' m"
  by (auto simp: same_def)

lemma send_always_unfold:
  "ipc_mqueue_send_always destroy s kmsg = do {
     p \<leftarrow> k_ports s (msgh_remote_port kmsg);
     if ip_receiver p = ipc_space_kernel s then Some (k_call s (IPC_KOBJECT_SERVER kmsg))
     else if msgh_bits kmsg AND MACH_MSGH_BITS_CIRCULAR \<noteq> 0 then destroy s kmsg
     else if ip_active p then ipc_mqueue_deliver s (msgh_remote_port kmsg) kmsg
     else do {
       s \<leftarrow> ip_release s (msgh_remote_port kmsg);
       s \<leftarrow> ip_check_unlock s (msgh_remote_port kmsg);
       destroy s (kmsg\<lparr>msgh_remote_port := MACH_PORT_NULL\<rparr>) } }"
  by (cases "k_ports s (msgh_remote_port kmsg)")
    (simp_all add: ipc_mqueue_send_always_def ipc_mqueue_send_def mqueue_send_loop.simps MACH_SEND_ALWAYS_def Let_def)

lemma port_flush_follows:
  assumes agree: "\<And>s kmsg. Q (ith_messages s) \<Longrightarrow> same (\<lambda>s. Q (ith_messages s)) (d s kmsg) (d' s kmsg)"
  shows "port_flush d0 port s = Some s' \<Longrightarrow> d0 = d \<Longrightarrow> Q (ith_messages s) \<Longrightarrow>
    port_flush d' port s = Some s' \<and> Q (ith_messages s')"
proof (induction rule: port_flush.raw_induct [rotated 1, consumes 1])
  case (1 pf d0 port s s')
  note IH = 1(1) and step = 1(2)
  obtain p where p: "k_ports s port = Some p" using step by (auto elim: bind_SomeE)
  show ?case
  proof (cases "imq_messages (ip_messages p)")
    case Nil
    then show ?thesis using step p 1(4) by (simp add: port_flush.simps)
  next
    case (Cons kmsg kmsgs)
    then obtain s1 s2 s3 where s: "imq_write s (PORT_QUEUE port) (\<lambda>q. q\<lparr>imq_messages := kmsgs\<rparr>) = Some s1"
        "ipc_port_release s1 port = Some s2" "d s2 (kmsg\<lparr>msgh_remote_port := MACH_PORT_NULL\<rparr>) = Some s3" "pf d0 port s3 = Some s'"
      using step p 1(3) by (auto elim!: bind_SomeE)
    have "Q (ith_messages s2)" using s(1,2) 1(4) by (auto dest!: ith_kept)
    then have "d' s2 (kmsg\<lparr>msgh_remote_port := MACH_PORT_NULL\<rparr>) = Some s3 \<and> Q (ith_messages s3)"
      using sameD [OF agree s(3)] by simp
    then show ?thesis using IH [OF s(4) 1(3)] Cons p s(1,2) by (subst (1) port_flush.simps) simp
  qed
qed

locale same_destroy =
  fixes Q :: "ipc_kmsg list \<Rightarrow> bool" and d d' :: destroy_kmsg
  assumes agree: "Q (ith_messages s) \<Longrightarrow> same (\<lambda>s. Q (ith_messages s)) (d s kmsg) (d' s kmsg)"
begin

abbreviation P :: "kernel \<Rightarrow> bool" where "P s \<equiv> Q (ith_messages s)"

lemmas same_intros = same_bind_same agree same_self

lemma send_always: "P s \<Longrightarrow> same P (ipc_mqueue_send_always d s kmsg) (ipc_mqueue_send_always d' s kmsg)"
  unfolding send_always_unfold by (auto intro!: same_intros dest!: ith_kept)

lemma notify:
  assumes "P s"
  shows "same P (ipc_notify_port_deleted d s port name) (ipc_notify_port_deleted d' s port name)"
    and "same P (ipc_notify_no_senders d s port n) (ipc_notify_no_senders d' s port n)"
    and "same P (ipc_notify_send_once d s port) (ipc_notify_send_once d' s port)"
    and "same P (ipc_notify_dead_name d s port name) (ipc_notify_dead_name d' s port name)"
  using assms
  by (auto simp: ipc_notify_port_deleted_def ipc_notify_no_senders_def ipc_notify_send_once_def ipc_notify_dead_name_def
    Let_def split: prod.split intro!: send_always same_self dest!: ith_kept)

lemma release_send: "P s \<Longrightarrow> same P (ipc_port_release_send d s port) (ipc_port_release_send d' s port)"
  unfolding ipc_port_release_send_def notify_nsrequest_def
  by (auto intro!: same_bind_same same_self notify dest!: ith_kept)

lemma dnnotify_loop: "P s \<Longrightarrow> same P (dnnotify_loop d iprs s) (dnnotify_loop d' iprs s)"
proof (induction iprs arbitrary: s)
  case (Cons ipr iprs)
  then show ?case by (auto intro!: same_bind [where Q = P] notify)
qed simp

lemma port_flush:
  assumes "P s"
  shows "same P (port_flush d port s) (port_flush d' port s)"
proof -
  have "port_flush d' port s = Some s' \<and> P s'" if "port_flush d port s = Some s'" for s'
    by (rule port_flush_follows [of Q d d', OF agree that refl assms])
  moreover have "port_flush d port s = Some s' \<and> P s'" if "port_flush d' port s = Some s'" for s'
    by (rule port_flush_follows [of Q d' d, OF same_sym [OF agree] that refl assms])
  ultimately show ?thesis
    unfolding same_def by (metis not_None_eq)
qed

lemma port_destroy_final: "P s \<Longrightarrow> same P (port_destroy_final d s port) (port_destroy_final d' s port)"
  unfolding port_destroy_final_def ipc_port_dnnotify_def Let_def
  by (auto split: prod.split option.split if_split_asm intro!: same_bind_same same_bind [where Q = P] port_flush notify dnnotify_loop same_self
    elim!: bind_SomeE dest!: ith_kept)

lemma release_receive_with:
  assumes "\<And>s. P s \<Longrightarrow> same P (f s port) (g s port)" "P s"
  shows "same P (release_receive_with f s port) (release_receive_with g s port)"
  using assms unfolding release_receive_with_def Let_def
  by (auto split: if_split_asm intro!: same_bind_same same_bind [where Q = P] same_self dest!: ith_kept)

lemma notify_port_destroyed:
  "P s \<Longrightarrow> same P (ipc_notify_port_destroyed d s port right) (ipc_notify_port_destroyed d' s port right)"
  unfolding ipc_notify_port_destroyed_def Let_def
  by (auto split: prod.split intro!: send_always same_bind_same release_receive_with port_destroy_final dest!: ith_kept)

lemma port_destroy: "P s \<Longrightarrow> same P (ipc_port_destroy d s port) (ipc_port_destroy d' s port)"
  unfolding ipc_port_destroy_def Let_def
  by (auto intro!: same_bind_same notify_port_destroyed port_destroy_final dest!: ith_kept)

lemma object_destroy: "P s \<Longrightarrow> same P (ipc_object_destroy d s object msgt) (ipc_object_destroy d' s object msgt)"
  unfolding ipc_object_destroy_def ipc_port_release_receive_def
  by (auto intro!: release_send notify release_receive_with port_destroy same_self)

lemma destroy_valid: "P s \<Longrightarrow> same P (destroy_valid d s object msgt) (destroy_valid d' s object msgt)"
  unfolding destroy_valid_def by (auto intro!: object_destroy)

lemma clean_ool_ports: "P s \<Longrightarrow> same P (clean_ool_ports d msgt objects s) (clean_ool_ports d' msgt objects s)"
proof (induction objects arbitrary: s)
  case (Cons object objects)
  then show ?case by (auto intro!: same_bind [where Q = P] destroy_valid)
qed simp

lemma clean_descriptors: "P s \<Longrightarrow> same P (clean_descriptors d ds s) (clean_descriptors d' ds s)"
proof (induction ds arbitrary: s)
  case (Cons a ds)
  have "same P (clean_descriptor d a s) (clean_descriptor d' a s)"
    using Cons.prems by (cases a) (auto intro!: destroy_valid clean_ool_ports)
  then show ?case using Cons.IH by (auto intro!: same_bind [where Q = P])
qed simp

lemma kmsg_clean: "P s \<Longrightarrow> same P (ipc_kmsg_clean d s kmsg) (ipc_kmsg_clean d' s kmsg)"
  unfolding ipc_kmsg_clean_def ipc_kmsg_clean_body_def
  by (auto intro!: same_bind [where Q = P] destroy_valid clean_descriptors)

end

section \<open>The recursion is flat\<close>

interpretation busy: same_destroy "\<lambda>ks. ks \<noteq> []" ipc_kmsg_destroy kmsg_enqueue
  by unfold_locales (simp add: ipc_kmsg_destroy_def kmsg_enqueue_def)

text \<open>
  C22: \<^verbatim>\<open>ipc_kmsg_destroy\<close> does not recur. While the thread is cleaning a message, cleaning any
  message with the real destroy routine, which may destroy ports, flush their queues and send
  notifications, is cleaning it with the routine that just appends to \<^verbatim>\<open>ith_messages\<close>, and the queue is
  still not empty afterwards.
\<close>

theorem kmsg_clean_does_not_recur:
  assumes "ith_messages s \<noteq> []"
  shows "ipc_kmsg_clean ipc_kmsg_destroy s kmsg = ipc_kmsg_clean kmsg_enqueue s kmsg \<and>
    (\<forall>s'. ipc_kmsg_clean ipc_kmsg_destroy s kmsg = Some s' \<longrightarrow> ith_messages s' \<noteq> [])"
  using busy.kmsg_clean [of s kmsg] assms by (simp add: same_def)

definition kx_message :: ipc_kmsg where
  "kx_message = ipc_notify_init_dead_name\<lparr>msgh_remote_port := 0x2000, ikm_data := [0x100]\<rparr>"

theorem kmsg_clean_does_not_recur_witness:
  "ipc_kmsg_clean ipc_kmsg_destroy (kx\<lparr>ith_messages := [kx_message]\<rparr>) kx_message =
     ipc_kmsg_clean kmsg_enqueue (kx\<lparr>ith_messages := [kx_message]\<rparr>) kx_message"
  using kmsg_clean_does_not_recur [of "kx\<lparr>ith_messages := [kx_message]\<rparr>" kx_message] by simp

interpretation appends: same_destroy "prefix ks" kmsg_enqueue kmsg_enqueue for ks
  by unfold_locales (auto simp: kmsg_enqueue_def prefix_def)

text \<open>
  Cleaning a message inside the loop of \<^verbatim>\<open>ipc_kmsg_destroy\<close> only appends to the queue of doomed
  messages: every message that was queued is still queued, in the same order and in front of the new
  ones. So the message the loop removes after cleaning is the one it cleaned.
\<close>

theorem kmsg_clean_appends:
  assumes "ipc_kmsg_clean kmsg_enqueue s kmsg = Some s'"
  shows "\<exists>doomed. ith_messages s' = ith_messages s @ doomed"
  using appends.kmsg_clean [of "ith_messages s" s kmsg] assms by (auto simp: same_def prefix_def)

definition kx_doomed :: ipc_kmsg where
  "kx_doomed = ipc_notify_init_dead_name\<lparr>msgh_remote_port := 0x3000, ikm_data := [0x100]\<rparr>"

lemma kx_clean:
  "ipc_kmsg_clean kmsg_enqueue kx kx_doomed = Some (kx\<lparr>
     k_memory := (\<lambda>n. 0x10000),
     k_ports := (k_ports kx)(0x3000 \<mapsto> (kx_port 7 0)\<lparr>ip_bits := 0, ip_references := 1\<rparr>),
     ith_messages := [ipc_notify_init_send_once]\<rparr>)"
proof -
  have f: "MACH_MSGH_BITS_REMOTE (msgh_bits kx_doomed) = MACH_MSG_TYPE_PORT_SEND_ONCE" "msgh_remote_port kx_doomed = 0x3000"
    "msgh_local_port kx_doomed = 0" "msgh_bits kx_doomed AND MACH_MSGH_BITS_COMPLEX = 0" "IO_VALID 0x3000" "\<not> IO_VALID 0"
    "msgh_bits ipc_notify_init_send_once AND MACH_MSGH_BITS_CIRCULAR = 0"
    "ipc_notify_init_send_once\<lparr>msgh_remote_port := MACH_PORT_NULL\<rparr> = ipc_notify_init_send_once"
    by code_simp+
  show ?thesis
    by (simp add: ipc_kmsg_clean_def f destroy_valid_def ipc_object_destroy_def msg_type_defs ipc_notify_send_once_def kalloc_def
       send_always_unfold ip_release_def port_write_def ip_check_unlock_def kmsg_enqueue_def kx_fields kx_port_fields)
qed

theorem kmsg_clean_appends_witness:
  "ipc_kmsg_clean kmsg_enqueue kx kx_doomed \<noteq> None \<and>
   (\<exists>doomed. ith_messages (the (ipc_kmsg_clean kmsg_enqueue kx kx_doomed)) = ith_messages kx @ doomed)"
  using kmsg_clean_appends [OF kx_clean] by (simp add: kx_clean)
end
