(* ===== verification/IPC_Kmsg_Term.thy ===== *)
theory IPC_Kmsg_Term
  imports IPC_Kmsg_Facts
begin

text \<open>
  The loop of \<open>ipc_kmsg_destroy\<close> ends. Two measures bound it: the receive rights that messages anywhere
  in the kernel carry, together with the backup ports that can still put one into a message, and the
  rights carried by the messages that wait to be cleaned.
\<close>

section \<open>The rights that messages carry\<close>

fun descriptor_objects :: "mach_msg_descriptor \<Rightarrow> (ipc_object_t \<times> mach_msg_type_name_t) list" where
  "descriptor_objects (MACH_MSG_PORT_DESCRIPTOR name disposition) = [(name, disposition)]"
| "descriptor_objects (MACH_MSG_OOL_PORTS_DESCRIPTOR objects disposition) = map (\<lambda>x. (x, disposition)) objects"
| "descriptor_objects (MACH_MSG_OOL_DESCRIPTOR address sz) = []"
| "descriptor_objects (MACH_MSG_OOL_VOLATILE_DESCRIPTOR address sz) = []"

definition valid_objects :: "(ipc_object_t \<times> mach_msg_type_name_t) list \<Rightarrow> (ipc_object_t \<times> mach_msg_type_name_t) list" where
  "valid_objects = filter (\<lambda>(object, disposition). IO_VALID object)"

definition kmsg_body_objects :: "ipc_kmsg \<Rightarrow> (ipc_object_t \<times> mach_msg_type_name_t) list" where
  "kmsg_body_objects kmsg =
     (if msgh_bits kmsg AND MACH_MSGH_BITS_COMPLEX \<noteq> 0 then concat (map descriptor_objects (ikm_body kmsg)) else [])"

definition kmsg_objects :: "ipc_kmsg \<Rightarrow> (ipc_object_t \<times> mach_msg_type_name_t) list" where
  "kmsg_objects kmsg = valid_objects
     ([(msgh_remote_port kmsg, MACH_MSGH_BITS_REMOTE (msgh_bits kmsg)),
       (msgh_local_port kmsg, MACH_MSGH_BITS_LOCAL (msgh_bits kmsg))] @ kmsg_body_objects kmsg)"

definition receives :: "(ipc_object_t \<times> mach_msg_type_name_t) list \<Rightarrow> nat" where
  "receives objects = length (filter (\<lambda>(object, disposition). disposition = MACH_MSG_TYPE_PORT_RECEIVE) objects)"

lemma objects_simps [simp]:
  "valid_objects [] = []" "valid_objects (xs @ ys) = valid_objects xs @ valid_objects ys"
  "valid_objects ((object, disposition) # xs) =
     (if IO_VALID object then (object, disposition) # valid_objects xs else valid_objects xs)"
  "receives [] = 0" "receives (xs @ ys) = receives xs + receives ys"
  "receives ((object, disposition) # xs) = (if disposition = MACH_MSG_TYPE_PORT_RECEIVE then 1 else 0) + receives xs"
  by (simp_all add: valid_objects_def receives_def)

definition kmsg_receives :: "ipc_kmsg \<Rightarrow> nat" where
  "kmsg_receives kmsg = receives (kmsg_objects kmsg)"

definition queue_receives :: "ipc_kmsg list \<Rightarrow> nat" where
  "queue_receives kmsgs = sum_list (map kmsg_receives kmsgs)"

lemma queue_receives_simps [simp]:
  "queue_receives [] = 0" "queue_receives (k # ks) = kmsg_receives k + queue_receives ks"
  "queue_receives (ks @ ls) = queue_receives ks + queue_receives ls"
  by (simp_all add: queue_receives_def)

definition port_receives :: "ipc_port \<Rightarrow> nat" where
  "port_receives p = (if ip_pdrequest p = IP_NULL then 0 else 1) + queue_receives (imq_messages (ip_messages p))"

definition kernel_receives :: "kernel \<Rightarrow> nat" where
  "kernel_receives s =
     (\<Sum>port \<in> dom (k_ports s). port_receives (the (k_ports s port))) +
     (\<Sum>pset \<in> dom (k_psets s). queue_receives (imq_messages (ips_messages (the (k_psets s pset))))) +
     queue_receives (ith_messages s)"

definition finite_kernel :: "kernel \<Rightarrow> bool" where
  "finite_kernel s \<longleftrightarrow> finite (dom (k_ports s)) \<and> finite (dom (k_psets s))"

lemma sum_dom_update:
  fixes f :: "'b \<Rightarrow> nat"
  assumes "finite (dom m)" "m k = Some x"
  shows "(\<Sum>i \<in> dom (m(k \<mapsto> y)). f (the ((m(k \<mapsto> y)) i))) + f x = (\<Sum>i \<in> dom m. f (the (m i))) + f y"
proof -
  have d: "dom (m(k \<mapsto> y)) = dom m" using assms by auto
  have k: "k \<in> dom m" using assms by auto
  have "(\<Sum>i \<in> dom m. f (the ((m(k \<mapsto> y)) i))) = f y + (\<Sum>i \<in> dom m - {k}. f (the (m i)))"
    by (subst sum.remove [OF assms(1) k]) (auto intro: sum.cong)
  moreover have "(\<Sum>i \<in> dom m. f (the (m i))) = f x + (\<Sum>i \<in> dom m - {k}. f (the (m i)))"
    using assms by (subst sum.remove [OF assms(1) k]) auto
  ultimately show ?thesis using d by simp
qed

lemma sum_dom_delete:
  fixes f :: "'b \<Rightarrow> nat"
  assumes "finite (dom m)"
  shows "(\<Sum>i \<in> dom (m(k := None)). f (the ((m(k := None)) i))) \<le> (\<Sum>i \<in> dom m. f (the (m i)))"
proof -
  have "(\<Sum>i \<in> dom (m(k := None)). f (the ((m(k := None)) i))) = (\<Sum>i \<in> dom m - {k}. f (the (m i)))"
    by (auto intro: sum.cong)
  also have "\<dots> \<le> (\<Sum>i \<in> dom m. f (the (m i)))" using assms by (intro sum_mono2) auto
  finally show ?thesis .
qed

section \<open>Receive rights are not created\<close>

definition gains :: "int \<Rightarrow> kernel \<Rightarrow> kernel \<Rightarrow> bool" where
  "gains n s s' \<longleftrightarrow> (finite_kernel s \<longrightarrow> finite_kernel s' \<and> int (kernel_receives s') \<le> int (kernel_receives s) + n)"

lemma port_write_gains:
  assumes "port_write s port f = Some s'" "\<And>p. k_ports s port = Some p \<Longrightarrow> int (port_receives (f p)) \<le> int (port_receives p) + n"
  shows "gains n s s'"
proof -
  obtain p where p: "k_ports s port = Some p" "s' = s\<lparr>k_ports := (k_ports s)(port \<mapsto> f p)\<rparr>"
    using assms(1) by (auto simp: port_write_def elim: bind_SomeE)
  show ?thesis
    using sum_dom_update [of "k_ports s" port p port_receives "f p"] assms(2) [OF p(1)] p
    by (auto simp: gains_def finite_kernel_def kernel_receives_def simp del: of_nat_sum)
qed

lemma pset_write_gains:
  assumes "pset_write s pset f = Some s'"
    "\<And>p. int (queue_receives (imq_messages (ips_messages (f p)))) \<le> int (queue_receives (imq_messages (ips_messages p))) + n"
  shows "gains n s s'"
proof -
  obtain p where p: "k_psets s pset = Some p" "s' = s\<lparr>k_psets := (k_psets s)(pset \<mapsto> f p)\<rparr>"
    using assms(1) by (auto simp: pset_write_def elim: bind_SomeE)
  show ?thesis
    using sum_dom_update [of "k_psets s" pset p "\<lambda>p. queue_receives (imq_messages (ips_messages p))" "f p"] assms(2) [of p] p
    by (auto simp: gains_def finite_kernel_def kernel_receives_def simp del: of_nat_sum)
qed

lemma gains_refl [simp]: "gains 0 s s"
  by (simp add: gains_def)

lemma gains_trans: "gains m s t \<Longrightarrow> gains n t u \<Longrightarrow> m + n \<le> k \<Longrightarrow> gains k s u"
  by (auto simp: gains_def)

lemma gains_same:
  "k_ports s' = k_ports s \<Longrightarrow> k_psets s' = k_psets s \<Longrightarrow> ith_messages s' = ith_messages s \<Longrightarrow> gains 0 s s'"
  by (simp add: gains_def finite_kernel_def kernel_receives_def)

lemma imq_enqueue_gains:
  "imq_write s mqueue (\<lambda>q. q\<lparr>imq_messages := imq_messages q @ [kmsg]\<rparr>) = Some s' \<Longrightarrow> gains (int (kmsg_receives kmsg)) s s'"
  by (cases mqueue)
    (auto simp: imq_write_def port_receives_def elim!: port_write_gains pset_write_gains)

lemma imq_threads_gains: "imq_write s mqueue (\<lambda>q. q\<lparr>imq_threads := ths\<rparr>) = Some s' \<Longrightarrow> gains 0 s s'"
  by (cases mqueue)
    (auto simp: imq_write_def port_receives_def elim!: port_write_gains pset_write_gains)

named_theorems no_gain

lemma port_write_no_gain: "port_write s port f = Some s' \<Longrightarrow> (\<And>p. ip_pdrequest (f p) = ip_pdrequest p) \<Longrightarrow>
   (\<And>p. imq_messages (ip_messages (f p)) = imq_messages (ip_messages p)) \<Longrightarrow> gains 0 s s'"
  by (erule port_write_gains) (simp add: port_receives_def)

lemma ip_release_no_gain [no_gain]: "ip_release s port = Some s' \<Longrightarrow> gains 0 s s'"
  unfolding ip_release_def by (erule port_write_no_gain) simp_all

lemma ip_reference_no_gain [no_gain]: "ip_reference s port = Some s' \<Longrightarrow> gains 0 s s'"
  unfolding ip_reference_def by (erule port_write_no_gain) simp_all

lemma ips_release_no_gain [no_gain]: "ips_release s pset = Some s' \<Longrightarrow> gains 0 s s'"
  unfolding ips_release_def by (erule pset_write_gains) simp_all

lemma ip_check_unlock_no_gain [no_gain]: "ip_check_unlock s port = Some s' \<Longrightarrow> gains 0 s s'"
  using sum_dom_delete [of "k_ports s" port_receives port]
  by (auto simp: ip_check_unlock_def gains_def finite_kernel_def kernel_receives_def simp del: of_nat_sum elim!: bind_SomeE)

lemma ips_check_unlock_no_gain [no_gain]: "ips_check_unlock s pset = Some s' \<Longrightarrow> gains 0 s s'"
  using sum_dom_delete [of "k_psets s" "\<lambda>p. queue_receives (imq_messages (ips_messages p))" pset]
  by (auto simp: ips_check_unlock_def gains_def finite_kernel_def kernel_receives_def simp del: of_nat_sum elim!: bind_SomeE)

lemma object_release_no_gain [no_gain]: "ipc_object_release s object = Some s' \<Longrightarrow> gains 0 s s'"
  by (auto simp: ipc_object_release_def elim!: bind_SomeE dest!: no_gain intro: gains_trans split: if_splits)

lemma pair_no_gain [no_gain]:
  "kalloc s = (mem, s') \<Longrightarrow> gains 0 s s'" "ipc_port_timestamp s = (t, s') \<Longrightarrow> gains 0 s s'"
  by (auto simp: kalloc_def ipc_port_timestamp_def intro!: gains_same)

lemma step_receives [simp]:
  "kernel_receives (ith_write s th g) = kernel_receives s" "finite_kernel (ith_write s th g) = finite_kernel s"
  "kernel_receives (thread_go s th) = kernel_receives s" "finite_kernel (thread_go s th) = finite_kernel s"
  "kernel_receives (k_call s c) = kernel_receives s" "finite_kernel (k_call s c) = finite_kernel s"
  by (simp_all add: ith_write_def thread_go_def k_call_def kernel_receives_def finite_kernel_def)

lemma wake_all_receives [simp]:
  "kernel_receives (wake_all mr ths s) = kernel_receives s" "finite_kernel (wake_all mr ths s) = finite_kernel s"
  by (induction ths arbitrary: s) simp_all

lemma imq_hand_over_no_gain [no_gain]: "imq_hand_over s th port kmsg = Some s' \<Longrightarrow> gains 0 s s'"
  by (auto simp: imq_hand_over_def Let_def gains_def elim!: bind_SomeE dest!: port_write_no_gain)

lemma ipc_mqueue_deliver_gains:
  assumes "ipc_mqueue_deliver s port kmsg = Some s'"
  shows "gains (int (kmsg_receives kmsg)) s s'"
proof -
  obtain s1 mqueue and q :: ipc_mqueue where 1: "port_write s port (\<lambda>p. p\<lparr>ip_msgcount := ip_msgcount p + 1\<rparr>) = Some s1"
    and 2: "(case imq_threads q of [] \<Rightarrow> imq_write s1 mqueue (\<lambda>q. q\<lparr>imq_messages := imq_messages q @ [kmsg]\<rparr>)
        | receiver # ths \<Rightarrow> do {
          s \<leftarrow> imq_write s1 mqueue (\<lambda>q. q\<lparr>imq_threads := ths\<rparr>);
          imq_hand_over s receiver port kmsg }) = Some s'"
    using assms unfolding ipc_mqueue_deliver_def Let_def by (elim bind_SomeE) (rule that; assumption)
  have "gains 0 s s1" by (rule port_write_no_gain [OF 1]) simp_all
  moreover have "gains (int (kmsg_receives kmsg)) s1 s'"
    using 2 by (auto split: list.split_asm elim!: bind_SomeE dest!: imq_enqueue_gains imq_threads_gains no_gain simp: gains_def)
  ultimately show ?thesis by (rule gains_trans) simp
qed

lemma ipc_port_release_sonce_no_gain [no_gain]: "ipc_port_release_sonce s port = Some s' \<Longrightarrow> gains 0 s s'"
  by (auto simp: ipc_port_release_sonce_def gains_def elim!: bind_SomeE dest!: no_gain port_write_no_gain split: if_splits)

lemma drop_srights_no_gain [no_gain]: "drop_srights s port = Some (nsrequest, mscount, s') \<Longrightarrow> gains 0 s s'"
  by (auto simp: drop_srights_def gains_def elim!: bind_SomeE dest!: no_gain port_write_no_gain split: if_splits)

lemma check_circularity_no_gain [no_gain]: "ipc_port_check_circularity s port dest = Some (b, s') \<Longrightarrow> gains 0 s s'"
  by (auto simp: ipc_port_check_circularity_def gains_def elim!: bind_SomeE dest!: no_gain port_write_no_gain split: if_splits)

lemma kmsg_enqueue_gains: "kmsg_enqueue s kmsg = Some s' \<Longrightarrow> gains (int (kmsg_receives kmsg)) s s'"
  by (auto simp: kmsg_enqueue_def gains_def finite_kernel_def kernel_receives_def)

lemma orphan_invalid [simp]: "\<not> IO_VALID MACH_PORT_NULL"
  by (simp add: IO_VALID_def MACH_PORT_NULL_def IO_NULL_def)

lemma kmsg_receives_orphan: "kmsg_receives (kmsg\<lparr>msgh_remote_port := MACH_PORT_NULL\<rparr>) \<le> kmsg_receives kmsg"
  by (simp add: kmsg_receives_def kmsg_objects_def kmsg_body_objects_def)

lemma send_always_gains:
  assumes "ipc_mqueue_send_always kmsg_enqueue s kmsg = Some s'"
  shows "gains (int (kmsg_receives kmsg)) s s'"
  using assms kmsg_receives_orphan [of kmsg] unfolding send_always_unfold
  by (auto split: if_split_asm elim!: bind_SomeE dest!: kmsg_enqueue_gains no_gain ipc_mqueue_deliver_gains simp: gains_def)

lemma template_receives [simp]:
  "kmsg_receives (ipc_notify_init_port_deleted\<lparr>msgh_remote_port := port, ikm_data := d\<rparr>) = 0"
  "kmsg_receives (ipc_notify_init_no_senders\<lparr>msgh_remote_port := port, ikm_data := d\<rparr>) = 0"
  "kmsg_receives (ipc_notify_init_send_once\<lparr>msgh_remote_port := port\<rparr>) = 0"
  "kmsg_receives (ipc_notify_init_dead_name\<lparr>msgh_remote_port := port, ikm_data := d\<rparr>) = 0"
  "kmsg_receives (ipc_notify_init_port_destroyed\<lparr>msgh_remote_port := port,
     ikm_body := [MACH_MSG_PORT_DESCRIPTOR right MACH_MSG_TYPE_PORT_RECEIVE]\<rparr>) \<le> 1"
  by (simp_all add: kmsg_receives_def kmsg_objects_def kmsg_body_objects_def notify_templates MACH_MSGH_BITS_def
    MACH_MSGH_BITS_REMOTE_def MACH_MSGH_BITS_REMOTE_MASK_def MACH_MSGH_BITS_COMPLEX_def msg_type_defs)

lemma notify_no_gain [no_gain]:
  "ipc_notify_port_deleted kmsg_enqueue s port name = Some s' \<Longrightarrow> gains 0 s s'"
  "ipc_notify_no_senders kmsg_enqueue s port n = Some s' \<Longrightarrow> gains 0 s s'"
  "ipc_notify_send_once kmsg_enqueue s port = Some s' \<Longrightarrow> gains 0 s s'"
  "ipc_notify_dead_name kmsg_enqueue s port name = Some s' \<Longrightarrow> gains 0 s s'"
  by (auto simp: ipc_notify_port_deleted_def ipc_notify_no_senders_def ipc_notify_send_once_def ipc_notify_dead_name_def
    Let_def gains_def split: prod.split_asm if_split_asm dest!: no_gain send_always_gains)

lemma release_send_no_gain [no_gain]: "ipc_port_release_send kmsg_enqueue s port = Some s' \<Longrightarrow> gains 0 s s'"
  by (auto simp: ipc_port_release_send_def notify_nsrequest_def gains_def split: if_split_asm
    elim!: bind_SomeE dest!: no_gain)

lemma dnnotify_loop_no_gain [no_gain]: "dnnotify_loop kmsg_enqueue iprs s = Some s' \<Longrightarrow> gains 0 s s'"
proof (induction iprs arbitrary: s)
  case (Cons ipr iprs)
  then show ?case by (fastforce simp: gains_def split: if_split_asm elim!: bind_SomeE dest!: no_gain)
qed simp

lemma imq_pop_gains:
  assumes "imq_write s (PORT_QUEUE port) (\<lambda>q. q\<lparr>imq_messages := kmsgs\<rparr>) = Some s'" "k_ports s port = Some p"
    "imq_messages (ip_messages p) = kmsg # kmsgs"
  shows "gains (- int (kmsg_receives kmsg)) s s'"
  using assms by (auto simp: imq_write_def port_receives_def elim!: port_write_gains)

lemma port_flush_no_gain [no_gain]: "port_flush kmsg_enqueue port s = Some s' \<Longrightarrow> gains 0 s s'"
proof -
  have "port_flush d port s = Some s' \<Longrightarrow> d = kmsg_enqueue \<Longrightarrow> gains 0 s s'" for d
  proof (induction rule: port_flush.raw_induct [rotated 1, consumes 1])
    case (1 pf d port s s')
    obtain p where p: "k_ports s port = Some p" using 1(2) by (auto elim: bind_SomeE)
    show ?case
    proof (cases "imq_messages (ip_messages p)")
      case Nil
      then show ?thesis using 1(2) p by simp
    next
      case (Cons kmsg kmsgs)
      then obtain s1 s2 s3 where s: "imq_write s (PORT_QUEUE port) (\<lambda>q. q\<lparr>imq_messages := kmsgs\<rparr>) = Some s1"
          "ipc_port_release s1 port = Some s2" "kmsg_enqueue s2 (kmsg\<lparr>msgh_remote_port := MACH_PORT_NULL\<rparr>) = Some s3" "pf d port s3 = Some s'"
        using 1(2,3) p by (auto elim!: bind_SomeE)
      show ?thesis
        using imq_pop_gains [OF s(1) p Cons] object_release_no_gain [OF s(2)] kmsg_enqueue_gains [OF s(3)] 1(1) [OF s(4) 1(3)]
          kmsg_receives_orphan [of kmsg]
        by (auto simp: gains_def)
    qed
  qed
  then show "port_flush kmsg_enqueue port s = Some s' \<Longrightarrow> gains 0 s s'" by blast
qed

lemma port_destroy_final_no_gain [no_gain]:
  assumes "port_destroy_final kmsg_enqueue s port = Some s'"
  shows "gains 0 s s'"
  using assms unfolding port_destroy_final_def Let_def ipc_port_dnnotify_def
  by (auto simp: gains_def split: prod.split_asm if_split_asm option.split_asm elim!: bind_SomeE dest!: no_gain port_write_no_gain)

lemma release_receive_with_gains:
  assumes "release_receive_with f s port = Some s'" "\<And>s s'. f s port = Some s' \<Longrightarrow> gains 0 s s'"
  shows "gains 0 s s'"
  using assms unfolding release_receive_with_def Let_def
  by (fastforce simp: gains_def split: if_split_asm elim!: bind_SomeE dest!: no_gain)

lemma notify_port_destroyed_gains:
  assumes "ipc_notify_port_destroyed kmsg_enqueue s port right = Some s'"
  shows "gains 1 s s'"
  using assms template_receives(5) [where port = port and right = right] unfolding ipc_notify_port_destroyed_def Let_def
  by (auto simp: gains_def split: prod.split_asm if_split_asm elim!: bind_SomeE
    dest!: no_gain send_always_gains release_receive_with_gains)

lemma port_destroy_no_gain [no_gain]:
  assumes "ipc_port_destroy kmsg_enqueue s port = Some s'"
  shows "gains 0 s s'"
proof -
  obtain p where p: "k_ports s port = Some p" using assms by (auto simp: ipc_port_destroy_def elim: bind_SomeE)
  show ?thesis
  proof (cases "ip_pdrequest p = IP_NULL")
    case True
    then show ?thesis using assms p by (auto simp: ipc_port_destroy_def dest!: no_gain)
  next
    case False
    let ?f = "\<lambda>p. p\<lparr>ip_pdrequest := IP_NULL, ip_receiver_name := MACH_PORT_NULL, ip_data := IP_NULL\<rparr>"
    obtain s1 b s2 where s: "port_write s port ?f = Some s1" "ipc_port_check_circularity s1 port (ip_pdrequest p) = Some (b, s2)"
      and r: "(if \<not> b then ipc_notify_port_destroyed kmsg_enqueue s2 (ip_pdrequest p) port
        else do {
          s \<leftarrow> ipc_port_release_sonce s2 (ip_pdrequest p);
          port_destroy_final kmsg_enqueue s port }) = Some s'"
      using assms p False unfolding ipc_port_destroy_def Let_def by (auto elim!: bind_SomeE)
    have "gains (- 1) s s1" using p False by (intro port_write_gains [OF s(1)]) (auto simp: port_receives_def)
    moreover have "gains 0 s1 s2" using s(2) by (rule no_gain)
    moreover have "gains 1 s2 s'"
      using r by (auto simp: gains_def split: if_split_asm elim!: bind_SomeE dest!: no_gain notify_port_destroyed_gains)
    ultimately show ?thesis by (auto simp: gains_def)
  qed
qed

lemma object_destroy_no_gain [no_gain]: "ipc_object_destroy kmsg_enqueue s object msgt = Some s' \<Longrightarrow> gains 0 s s'"
  by (auto simp: ipc_object_destroy_def ipc_port_release_receive_def split: if_split_asm
    dest!: no_gain elim!: release_receive_with_gains)

lemma destroy_valid_no_gain [no_gain]: "destroy_valid kmsg_enqueue s object msgt = Some s' \<Longrightarrow> gains 0 s s'"
  by (auto simp: destroy_valid_def split: if_split_asm dest!: no_gain)

lemma clean_ool_ports_no_gain [no_gain]: "clean_ool_ports kmsg_enqueue msgt objects s = Some s' \<Longrightarrow> gains 0 s s'"
proof (induction objects arbitrary: s)
  case (Cons object objects)
  then show ?case by (fastforce simp: gains_def elim!: bind_SomeE dest!: no_gain)
qed simp

lemma clean_descriptors_no_gain [no_gain]: "clean_descriptors kmsg_enqueue ds s = Some s' \<Longrightarrow> gains 0 s s'"
proof (induction ds arbitrary: s)
  case (Cons a ds)
  have "gains 0 s s1" if "clean_descriptor kmsg_enqueue a s = Some s1" for s1
    using that by (cases a) (auto dest!: no_gain)
  with Cons show ?case by (fastforce simp: gains_def elim!: bind_SomeE)
qed simp

lemma kmsg_clean_no_gain [no_gain]: "ipc_kmsg_clean kmsg_enqueue s kmsg = Some s' \<Longrightarrow> gains 0 s s'"
  by (auto simp: ipc_kmsg_clean_def ipc_kmsg_clean_body_def gains_def split: if_split_asm elim!: bind_SomeE dest!: no_gain)

section \<open>Without receive rights, the doomed messages get lighter\<close>

definition doomed_weight :: "ipc_kmsg list \<Rightarrow> nat" where
  "doomed_weight kmsgs = sum_list (map (\<lambda>k. 1 + 2 * length (kmsg_objects k)) kmsgs)"

lemma doomed_weight_simps [simp]:
  "doomed_weight [] = 0" "doomed_weight (k # ks) = 1 + 2 * length (kmsg_objects k) + doomed_weight ks"
  "doomed_weight (ks @ ls) = doomed_weight ks + doomed_weight ls"
  by (simp_all add: doomed_weight_def)

abbreviation doom :: "kernel \<Rightarrow> nat" where "doom s \<equiv> doomed_weight (ith_messages s)"

lemma template_facts [simp]:
  "kmsg_objects (ipc_notify_init_no_senders\<lparr>ikm_data := d, msgh_remote_port := MACH_PORT_NULL\<rparr>) = []"
  "kmsg_objects (ipc_notify_init_send_once\<lparr>msgh_remote_port := MACH_PORT_NULL\<rparr>) = []"
  "msgh_bits ipc_notify_init_no_senders AND MACH_MSGH_BITS_CIRCULAR = 0"
  "msgh_bits ipc_notify_init_send_once AND MACH_MSGH_BITS_CIRCULAR = 0"
  by (simp_all add: kmsg_objects_def kmsg_body_objects_def notify_templates MACH_MSGH_BITS_def
    MACH_MSGH_BITS_CIRCULAR_def MACH_MSGH_BITS_COMPLEX_def msg_type_defs)

lemma send_always_doom:
  assumes "ipc_mqueue_send_always kmsg_enqueue s kmsg = Some s'" "msgh_bits kmsg AND MACH_MSGH_BITS_CIRCULAR = 0"
    "kmsg_objects (kmsg\<lparr>msgh_remote_port := MACH_PORT_NULL\<rparr>) = []"
  shows "doom s' \<le> doom s + 1"
  using assms unfolding send_always_unfold
  by (auto split: if_split_asm elim!: bind_SomeE dest!: ith_kept simp: kmsg_enqueue_def)

lemma notify_doom:
  "ipc_notify_no_senders kmsg_enqueue s port n = Some s' \<Longrightarrow> doom s' \<le> doom s + 1"
  "ipc_notify_send_once kmsg_enqueue s port = Some s' \<Longrightarrow> doom s' \<le> doom s + 1"
  by (auto simp: ipc_notify_no_senders_def ipc_notify_send_once_def Let_def split: prod.split_asm if_split_asm
    dest!: ith_kept send_always_doom)

lemma release_send_doom: "ipc_port_release_send kmsg_enqueue s port = Some s' \<Longrightarrow> doom s' \<le> doom s + 1"
  by (auto simp: ipc_port_release_send_def notify_nsrequest_def split: if_split_asm
    elim!: bind_SomeE dest!: ith_kept notify_doom)

lemma destroy_valid_doom:
  assumes "destroy_valid kmsg_enqueue s object msgt = Some s'" "receives (valid_objects [(object, msgt)]) = 0"
  shows "doom s' \<le> doom s + length (valid_objects [(object, msgt)])"
  using assms by (auto simp: destroy_valid_def ipc_object_destroy_def split: if_split_asm dest!: release_send_doom notify_doom)

lemma clean_ool_ports_doom:
  "clean_ool_ports kmsg_enqueue msgt objects s = Some s' \<Longrightarrow> receives (valid_objects (map (\<lambda>x. (x, msgt)) objects)) = 0 \<Longrightarrow>
   doom s' \<le> doom s + length (valid_objects (map (\<lambda>x. (x, msgt)) objects))"
proof (induction objects arbitrary: s)
  case (Cons object objects)
  then obtain s1 where s1: "destroy_valid kmsg_enqueue s object msgt = Some s1" "clean_ool_ports kmsg_enqueue msgt objects s1 = Some s'"
    by (auto elim: bind_SomeE)
  show ?case
    using destroy_valid_doom [OF s1(1)] Cons.IH [OF s1(2)] Cons.prems(2) by (auto split: if_split_asm)
qed simp

lemma clean_descriptor_doom:
  "clean_descriptor kmsg_enqueue a s = Some s' \<Longrightarrow> receives (valid_objects (descriptor_objects a)) = 0 \<Longrightarrow>
   doom s' \<le> doom s + length (valid_objects (descriptor_objects a))"
  by (cases a) (auto dest: destroy_valid_doom clean_ool_ports_doom)

lemma clean_descriptors_doom:
  "clean_descriptors kmsg_enqueue ds s = Some s' \<Longrightarrow> receives (valid_objects (concat (map descriptor_objects ds))) = 0 \<Longrightarrow>
   doom s' \<le> doom s + length (valid_objects (concat (map descriptor_objects ds)))"
proof (induction ds arbitrary: s)
  case (Cons a ds)
  then obtain s1 where s1: "clean_descriptor kmsg_enqueue a s = Some s1" "clean_descriptors kmsg_enqueue ds s1 = Some s'"
    by (auto elim: bind_SomeE)
  show ?case
    using clean_descriptor_doom [OF s1(1)] Cons.IH [OF s1(2)] Cons.prems(2) by simp
qed simp

lemma kmsg_clean_doom:
  assumes "ipc_kmsg_clean kmsg_enqueue s kmsg = Some s'" "kmsg_receives kmsg = 0"
  shows "doom s' \<le> doom s + length (kmsg_objects kmsg)"
proof -
  let ?r = "[(msgh_remote_port kmsg, MACH_MSGH_BITS_REMOTE (msgh_bits kmsg))]"
  let ?l = "[(msgh_local_port kmsg, MACH_MSGH_BITS_LOCAL (msgh_bits kmsg))]"
  have o: "kmsg_objects kmsg = valid_objects ?r @ valid_objects ?l @ valid_objects (kmsg_body_objects kmsg)"
    by (simp add: kmsg_objects_def)
  have r: "receives (valid_objects ?r) = 0" "receives (valid_objects ?l) = 0" "receives (valid_objects (kmsg_body_objects kmsg)) = 0"
    using assms(2) unfolding kmsg_receives_def o by (simp_all del: objects_simps(3))
  obtain s1 s2 where s: "destroy_valid kmsg_enqueue s (msgh_remote_port kmsg) (MACH_MSGH_BITS_REMOTE (msgh_bits kmsg)) = Some s1"
      "destroy_valid kmsg_enqueue s1 (msgh_local_port kmsg) (MACH_MSGH_BITS_LOCAL (msgh_bits kmsg)) = Some s2"
      "(if msgh_bits kmsg AND MACH_MSGH_BITS_COMPLEX \<noteq> 0
        then ipc_kmsg_clean_body kmsg_enqueue s2 kmsg (length (ikm_body kmsg)) else Some s2) = Some s'"
    using assms(1) unfolding ipc_kmsg_clean_def by (elim bind_SomeE) (rule that)
  have "doom s' \<le> doom s2 + length (valid_objects (kmsg_body_objects kmsg))"
    using s(3) r(3) by (auto simp: kmsg_body_objects_def ipc_kmsg_clean_body_def split: if_split_asm dest: clean_descriptors_doom)
  then show ?thesis
    using destroy_valid_doom [OF s(1) r(1)] destroy_valid_doom [OF s(2) r(2)] unfolding o by (simp del: objects_simps(3))
qed

section \<open>The loop ends\<close>

inductive drain_step :: "kernel \<Rightarrow> kernel \<Rightarrow> bool" where
  "ith_messages s = kmsg # kmsgs \<Longrightarrow> ipc_kmsg_clean kmsg_enqueue s kmsg = Some s' \<Longrightarrow>
     drain_step s (s'\<lparr>ith_messages := tl (ith_messages s')\<rparr>)"

lemma clean_keeps_head:
  "ith_messages s = kmsg # kmsgs \<Longrightarrow> ipc_kmsg_clean kmsg_enqueue s kmsg = Some s' \<Longrightarrow>
   \<exists>doomed. ith_messages s' = kmsg # kmsgs @ doomed"
  using appends.kmsg_clean [of "ith_messages s" s kmsg] by (auto simp: same_def prefix_def)

lemma drain_step_decreases:
  assumes "drain_step s t" "finite_kernel s"
  shows "finite_kernel t \<and>
    (kernel_receives t < kernel_receives s \<or> kernel_receives t = kernel_receives s \<and> doom t < doom s)"
  using assms(1)
proof cases
  case (1 kmsg kmsgs s')
  have g: "finite_kernel s'" "kernel_receives s' \<le> kernel_receives s"
    using kmsg_clean_no_gain [OF 1(3)] assms(2) by (auto simp: gains_def)
  obtain doomed where d: "ith_messages s' = kmsg # kmsgs @ doomed" using clean_keeps_head [OF 1(2,3)] ..
  have r: "kernel_receives t + kmsg_receives kmsg = kernel_receives s'"
    using 1(1) d by (simp add: kernel_receives_def)
  have "doom t < doom s" if "kmsg_receives kmsg = 0"
    using kmsg_clean_doom [OF 1(3) that] 1(1,2) d by simp
  then show ?thesis using g r 1(1) by (auto simp: finite_kernel_def)
qed

lemma drain_step_induct [consumes 1]:
  assumes "finite_kernel s" and "\<And>s. finite_kernel s \<Longrightarrow> (\<And>t. drain_step s t \<Longrightarrow> R t) \<Longrightarrow> R s"
  shows "R s"
  using assms(1)
proof (induction s rule: wf_induct_rule [OF wf_measures [of "[kernel_receives, doom]"]])
  case (1 s)
  then show ?case using assms(2) [OF 1(2)] drain_step_decreases by fastforce
qed

text \<open>
  C7: the loop of \<^verbatim>\<open>ipc_kmsg_destroy\<close> over the queue of doomed messages ends, although cleaning a
  message can destroy ports and so doom further messages: in a kernel with finitely many ports and
  port sets it returns with an empty queue, unless one of the finitely many cleaning steps itself fails.
\<close>

theorem kmsg_destroy_loop_ends:
  assumes "finite_kernel s"
  shows "(\<exists>s'. kmsg_drain s = Some s' \<and> ith_messages s' = []) \<or>
    (\<exists>t kmsg kmsgs. drain_step\<^sup>*\<^sup>* s t \<and> ith_messages t = kmsg # kmsgs \<and> ipc_kmsg_clean kmsg_enqueue t kmsg = None)"
  using assms
proof (induction s rule: drain_step_induct)
  case (1 s)
  show ?case
  proof (cases "ith_messages s")
    case Nil
    then show ?thesis by (simp add: kmsg_drain.simps)
  next
    case (Cons kmsg kmsgs)
    show ?thesis
    proof (cases "ipc_kmsg_clean kmsg_enqueue s kmsg")
      case None
      then show ?thesis using Cons by blast
    next
      case (Some s')
      let ?t = "s'\<lparr>ith_messages := tl (ith_messages s')\<rparr>"
      have step: "drain_step s ?t" using Cons Some by (rule drain_step.intros)
      have "kmsg_drain s = kmsg_drain ?t" using Cons Some by (subst kmsg_drain.simps) simp
      then show ?thesis using 1(2) [OF step] converse_rtranclp_into_rtranclp [of drain_step, OF step] by metis
    qed
  qed
qed

theorem kmsg_destroy_loop_ends_witness:
  "finite_kernel (kx\<lparr>ith_messages := [kx_doomed]\<rparr>) \<and>
   ((\<exists>s'. kmsg_drain (kx\<lparr>ith_messages := [kx_doomed]\<rparr>) = Some s' \<and> ith_messages s' = []) \<or>
    (\<exists>t kmsg kmsgs. drain_step\<^sup>*\<^sup>* (kx\<lparr>ith_messages := [kx_doomed]\<rparr>) t \<and> ith_messages t = kmsg # kmsgs \<and>
       ipc_kmsg_clean kmsg_enqueue t kmsg = None))"
proof -
  have f: "finite_kernel (kx\<lparr>ith_messages := [kx_doomed]\<rparr>)" by (simp add: finite_kernel_def kx_def)
  show ?thesis using kmsg_destroy_loop_ends [OF f] f by blast
qed

end
