(* ===== verification/IPC_Port_Facts.thy ===== *)
theory IPC_Port_Facts
  imports IPC_Kmsg_Facts
begin

text \<open>
  Facts on ports (\<open>IPC_Port\<close>): receive rights in transit never form a cycle, the table of dead-name
  requests implements a finite map, and the counters of a port.
\<close>

section \<open>Receive rights in transit\<close>

text \<open>All that the walk along a chain of messages in transit looks at.\<close>

definition transit :: "kernel \<Rightarrow> ipc_port_t \<Rightarrow> (bool \<times> ipc_port_t) option" where
  "transit s port = map_option (\<lambda>p. (in_transit p, ip_destination p)) (k_ports s port)"

lemma transit_base_unfold:
  "transit_base s q =
     (case transit s q of None \<Rightarrow> None | Some (t, d) \<Rightarrow> if t then transit_base s d else Some q)"
  by (subst transit_base.simps) (cases "k_ports s q"; simp add: transit_def)

lemma transit_base_induct [consumes 1, case_names base step]:
  assumes "transit_base s q = Some b"
    and base: "\<And>d. transit s b = Some (False, d) \<Longrightarrow> R b"
    and step: "\<And>q d. transit s q = Some (True, d) \<Longrightarrow> transit_base s d = Some b \<Longrightarrow> R d \<Longrightarrow> R q"
  shows "R q"
proof -
  have "transit_base t q = Some c \<Longrightarrow> t = s \<Longrightarrow> c = b \<Longrightarrow> transit_base s q = Some b \<and> R q" for t c
  proof (induction rule: transit_base.raw_induct [rotated 1, consumes 1])
    case (1 f t q c)
    obtain p where p: "k_ports s q = Some p" using 1(2,3) by (auto elim: bind_SomeE)
    show ?case
    proof (cases "in_transit p")
      case True
      then have f: "f s (ip_destination p) = Some b" and t: "transit s q = Some (True, ip_destination p)"
        using 1(2-4) p by (simp_all add: transit_def)
      then show ?thesis using 1(1) [OF f refl refl] step [OF t] transit_base_unfold [of s q] by simp
    next
      case False
      then have t: "transit s q = Some (False, ip_destination p)" and "q = b"
        using 1(2-4) p by (simp_all add: transit_def)
      then show ?thesis using base [of "ip_destination p"] transit_base_unfold [of s q] by simp
    qed
  qed
  then show ?thesis using assms(1) by blast
qed

text \<open>
  A link from \<open>port\<close>, which is not in transit in \<open>s\<close>, to \<open>dest\<close>, added in \<open>s'\<close>.
\<close>

definition linked :: "ipc_port_t \<Rightarrow> ipc_port_t \<Rightarrow> kernel \<Rightarrow> kernel \<Rightarrow> bool" where
  "linked port dest s s' \<longleftrightarrow>
     (\<exists>d. transit s port = Some (False, d)) \<and> transit s' = (transit s)(port \<mapsto> (True, dest))"

lemma linked_other_base:
  assumes "linked port dest s s'" "transit_base s q = Some b" "b \<noteq> port"
  shows "transit_base s' q = Some b"
  using assms(2)
proof (induction rule: transit_base_induct)
  case (base d)
  then show ?case using assms transit_base_unfold [of s' b] by (auto simp: linked_def)
next
  case (step q d)
  then show ?case using assms(1) transit_base_unfold [of s' q] by (auto simp: linked_def)
qed

lemma linked_port_base:
  assumes "linked port dest s s'" "transit_base s q = Some port"
  shows "transit_base s' q = transit_base s' dest"
  using assms(2)
proof (induction rule: transit_base_induct)
  case (base d)
  then show ?case using assms transit_base_unfold [of s' port] by (simp add: linked_def)
next
  case (step q d)
  then show ?case using assms(1) transit_base_unfold [of s' q] by (auto simp: linked_def)
qed

lemma linked_cycle:
  assumes l: "linked port dest s s'" and c: "transit_base s dest = Some port"
  shows "transit_base s' dest = None"
proof (rule ccontr)
  assume "transit_base s' dest \<noteq> None"
  then obtain b where "transit_base s' dest = Some b" by blast
  then have "transit_base s dest = Some port \<longrightarrow> False"
  proof (induction rule: transit_base_induct)
    case (base d)
    then show ?case using l transit_base_unfold [of s b] by (auto simp: linked_def split: if_splits)
  next
    case (step q d)
    then show ?case using l c transit_base_unfold [of s q] by (auto simp: linked_def split: if_splits)
  qed
  with c show False by simp
qed

lemma check_circularity_eq:
  assumes "k_ports s dest = Some d" "transit_base s dest = Some base"
  shows "ipc_port_check_circularity s port dest =
    (if port = dest \<or> port = base then Some (True, s)
     else do {
       s \<leftarrow> ip_reference s dest;
       s \<leftarrow> port_write s port (\<lambda>p. p\<lparr>ip_data := dest\<rparr>);
       Some (False, s) })"
  using assms by (auto simp: ipc_port_check_circularity_def transit_base.simps [of s dest])

lemma in_transit_link:
  "ip_active p \<Longrightarrow> ip_receiver_name p = MACH_PORT_NULL \<Longrightarrow> in_transit (p\<lparr>ip_data := d\<rparr>) \<longleftrightarrow> d \<noteq> IP_NULL"
  by (simp add: in_transit_def ip_active_def)

lemma in_transit_references [simp]: "in_transit (p\<lparr>ip_references := n\<rparr>) = in_transit p"
  by (simp add: in_transit_def ip_active_def)

text \<open>
  C4: \<^verbatim>\<open>ipc_port_check_circularity\<close> is exact and keeps receive rights in transit acyclic. For a
  port in limbo and a destination, in a kernel where every chain of messages in transit ends, the walk
  ends; the answer is true exactly when putting the port in transit to the destination would close a
  cycle, and then nothing changed; otherwise the port is now in transit to the destination and every
  chain still ends.
\<close>

theorem check_circularity_exact:
  assumes p: "k_ports s port = Some p" "ip_active p" "ip_receiver_name p = MACH_PORT_NULL" "ip_destination p = IP_NULL"
    and dest: "dest \<noteq> IP_NULL" "k_ports s dest \<noteq> None"
    and ends: "\<forall>q. k_ports s q \<noteq> None \<longrightarrow> transit_base s q \<noteq> None"
  shows "\<exists>circular s'. ipc_port_check_circularity s port dest = Some (circular, s') \<and>
    (circular \<longleftrightarrow> transit_base (s\<lparr>k_ports := (k_ports s)(port \<mapsto> p\<lparr>ip_data := dest\<rparr>)\<rparr>) dest = None) \<and>
    (circular \<longrightarrow> s' = s) \<and>
    (\<not> circular \<longrightarrow> map_option ip_destination (k_ports s' port) = Some dest \<and>
       (\<forall>q. k_ports s' q \<noteq> None \<longrightarrow> transit_base s' q \<noteq> None))"
proof -
  let ?l = "s\<lparr>k_ports := (k_ports s)(port \<mapsto> p\<lparr>ip_data := dest\<rparr>)\<rparr>"
  obtain d where d: "k_ports s dest = Some d" using dest(2) by blast
  obtain base where base: "transit_base s dest = Some base" using ends dest(2) by blast
  have t: "transit s port = Some (False, IP_NULL)" using p by (simp add: transit_def in_transit_def)
  have l: "linked port dest s ?l"
    using t in_transit_link [OF p(2,3), of dest] dest(1) by (auto simp: linked_def transit_def fun_eq_iff)
  have self: "port = dest \<Longrightarrow> base = port" using base t transit_base_unfold [of s port] by simp
  show ?thesis
  proof (cases "port = base")
    case True
    then show ?thesis using check_circularity_eq [OF d base] base linked_cycle [OF l] by auto
  next
    case False
    let ?s' = "s\<lparr>k_ports := (k_ports s)(dest \<mapsto> d\<lparr>ip_references := ip_references d + 1\<rparr>, port \<mapsto> p\<lparr>ip_data := dest\<rparr>)\<rparr>"
    have "port \<noteq> dest" using False self by auto
    then have c: "ipc_port_check_circularity s port dest = Some (False, ?s')"
      using check_circularity_eq [OF d base] False d p(1) by (simp add: ip_reference_def port_write_def)
    have l': "linked port dest s ?s'"
      using t in_transit_link [OF p(2,3), of dest] dest(1) d \<open>port \<noteq> dest\<close> by (auto simp: linked_def transit_def fun_eq_iff)
    have "transit_base ?s' q \<noteq> None" if q: "k_ports s q \<noteq> None" for q
      using ends q linked_other_base [OF l' base] linked_port_base [OF l', of q] linked_other_base [OF l', of q] False
      by (metis not_None_eq)
    moreover have "transit_base ?l dest \<noteq> None" using linked_other_base [OF l base] False by auto
    ultimately show ?thesis using c dest(2) p(1) by auto
  qed
qed

definition kx_limbo :: kernel where
  "kx_limbo = kx\<lparr>k_ports := (k_ports kx)(0x4000 \<mapsto> kx_port 0 0)\<rparr>"

theorem check_circularity_exact_witness:
  "\<exists>circular s'. ipc_port_check_circularity kx_limbo 0x4000 0x2000 = Some (circular, s') \<and>
     (circular \<longleftrightarrow> transit_base (kx_limbo\<lparr>k_ports := (k_ports kx_limbo)(0x4000 \<mapsto> (kx_port 0 0)\<lparr>ip_data := 0x2000\<rparr>)\<rparr>) 0x2000 = None)"
proof -
  have t: "transit_base kx_limbo q \<noteq> None" if "k_ports kx_limbo q \<noteq> None" for q
    using that transit_base.simps [of kx_limbo q]
    by (auto simp: kx_limbo_def kx_def in_transit_def kx_port_fields MACH_PORT_NULL_def IO_NULL_def split: if_splits)
  have *: "k_ports kx_limbo 0x4000 = Some (kx_port 0 0)" "k_ports kx_limbo 0x2000 \<noteq> None"
    by (simp_all add: kx_limbo_def)
  show ?thesis
    using check_circularity_exact [OF *(1), of "0x2000"] t *(2) by (simp add: kx_port_fields MACH_PORT_NULL_def IO_NULL_def) blast
qed

section \<open>The table of dead-name requests\<close>

fun free_chain :: "ipc_port_request list \<Rightarrow> natural_t \<Rightarrow> nat list \<Rightarrow> bool" where
  "free_chain t i [] \<longleftrightarrow> i = 0"
| "free_chain t i (j # js) \<longleftrightarrow> i \<noteq> 0 \<and> unat i = j \<and> j < length t \<and> free_chain t (ipr_next (t ! j)) js"

definition dn_free :: "ipc_port_request list \<Rightarrow> nat list \<Rightarrow> bool" where
  "dn_free t js \<longleftrightarrow> distinct js \<and> free_chain t (ipr_next (t ! 0)) js \<and>
     (\<forall>j. 0 < j \<longrightarrow> j < length t \<longrightarrow> (ipr_name (t ! j) = MACH_PORT_NULL \<longleftrightarrow> j \<in> set js))"

definition dn_ok :: "ipc_port_requests \<Rightarrow> bool" where
  "dn_ok table \<longleftrightarrow> ipr_table table \<noteq> [] \<and> length (ipr_table table) < 2 ^ 32 \<and> (\<exists>js. dn_free (ipr_table table) js)"

definition dn_requests :: "ipc_port_requests \<Rightarrow> natural_t \<Rightarrow> (mach_port_t \<times> ipc_port_t) option" where
  "dn_requests table index =
     (if index \<noteq> 0 \<and> unat index < length (ipr_table table) \<and> ipr_name (ipr_table table ! unat index) \<noteq> MACH_PORT_NULL
      then Some (ipr_name (ipr_table table ! unat index), ipr_soright (ipr_table table ! unat index)) else None)"

lemma free_chain_bounds: "free_chain t i js \<Longrightarrow> j \<in> set js \<Longrightarrow> 0 < j \<and> j < length t"
  by (induction t i js rule: free_chain.induct) (auto simp: unat_gt_0)

lemma free_chain_update: "k \<notin> set js \<Longrightarrow> free_chain (t[k := r]) i js = free_chain t i js"
  by (induction t i js rule: free_chain.induct) auto

lemma unat_eq_unat: "unat i = unat j \<longleftrightarrow> i = j" for i j :: natural_t
  by (simp add: word_unat_eq_iff)

text \<open>Taking the first free slot and giving a slot back, on the bare table.\<close>

definition dn_take :: "ipc_port_request list \<Rightarrow> nat \<Rightarrow> mach_port_t \<Rightarrow> ipc_port_t \<Rightarrow> ipc_port_request list" where
  "dn_take t j name soright =
     t[0 := (t ! 0)\<lparr>ipr_notify := ipr_next (t ! j)\<rparr>, j := (t ! j)\<lparr>ipr_name := name, ipr_notify := soright\<rparr>]"

definition dn_give :: "ipc_port_request list \<Rightarrow> natural_t \<Rightarrow> ipc_port_request list" where
  "dn_give t index =
     t[unat index := (t ! unat index)\<lparr>ipr_name := MACH_PORT_NULL, ipr_notify := ipr_next (t ! 0)\<rparr>,
       0 := (t ! 0)\<lparr>ipr_notify := index\<rparr>]"

lemma dn_free_take:
  assumes "dn_free t (j # js)" "name \<noteq> MACH_PORT_NULL" "t \<noteq> []"
  shows "dn_free (dn_take t j name soright) js"
proof -
  have c: "free_chain t (ipr_next (t ! j)) js" and d: "j \<notin> set js" "distinct js" "j < length t" "0 < j"
    using assms(1) by (auto simp: dn_free_def unat_gt_0)
  have z: "0 \<notin> set js" using free_chain_bounds [OF c] by blast
  have "free_chain (dn_take t j name soright) (ipr_next (t ! j)) js"
    using c d(1) z by (simp add: dn_take_def free_chain_update)
  then show ?thesis
    using assms d z by (auto simp: dn_free_def dn_take_def nth_list_update)
qed

lemma dn_free_give:
  assumes f: "dn_free t js" and i: "index \<noteq> 0" "unat index < length t" "ipr_name (t ! unat index) \<noteq> MACH_PORT_NULL"
  shows "dn_free (dn_give t index) (unat index # js)"
proof -
  have c: "free_chain t (ipr_next (t ! 0)) js" using f by (simp add: dn_free_def)
  have p: "0 < unat index" using i(1) by (simp add: unat_gt_0)
  have n: "unat index \<notin> set js" using f i p by (auto simp: dn_free_def)
  have z: "0 \<notin> set js" using free_chain_bounds [OF c] by blast
  have "free_chain (dn_give t index) (ipr_next (t ! 0)) js"
    using c n z by (simp add: dn_give_def free_chain_update)
  moreover have "0 < length t" using i(2) by linarith
  ultimately show ?thesis
    using f i n z p by (auto simp: dn_free_def dn_give_def nth_list_update)
qed

lemma dn_give_take:
  assumes "dn_free t (unat index # js)" "index \<noteq> 0"
  shows "dn_give (dn_take t (unat index) name soright) index = t"
proof -
  have "unat (ipr_next (t ! 0)) = unat index" using assms by (simp add: dn_free_def)
  then have "ipr_next (t ! 0) = index" by (simp add: unat_eq_unat)
  with assms have *: "unat index < length t" "ipr_name (t ! unat index) = MACH_PORT_NULL" "ipr_next (t ! 0) = index" "0 < unat index"
    by (auto simp: dn_free_def unat_gt_0)
  then have "0 < length t" by linarith
  then show ?thesis
    using * unfolding dn_give_def dn_take_def by (intro nth_equalityI) (auto simp: nth_list_update)
qed

lemma dn_take_code:
  "ipr_write (ipr_set_head table (ipr_next (ipr_table table ! unat index))) index (\<lambda>r. r\<lparr>ipr_name := name, ipr_notify := soright\<rparr>) =
     table\<lparr>ipr_table := dn_take (ipr_table table) (unat index) name soright\<rparr>" if "index \<noteq> 0"
  using that by (simp add: ipr_write_def ipr_set_head_def dn_take_def unat_eq_0)

lemma dn_give_code:
  "ipr_set_head (ipr_write table index (\<lambda>r. r\<lparr>ipr_name := MACH_PORT_NULL, ipr_notify := ipr_head table\<rparr>)) index =
     table\<lparr>ipr_table := dn_give (ipr_table table) index\<rparr>" if "index \<noteq> 0"
  using that by (simp add: ipr_write_def ipr_set_head_def ipr_head_def dn_give_def unat_eq_0)

lemma dnrequest_code:
  assumes "k_ports s port = Some p" "ip_dnrequests p = Some table"
  shows "ipc_port_dnrequest s port name soright =
    (if ipr_head table = 0 then Some (KERN_NO_SPACE, 0, s)
     else Some (KERN_SUCCESS, ipr_head table, s\<lparr>k_ports := (k_ports s)(port \<mapsto> p\<lparr>ip_dnrequests :=
       Some (table\<lparr>ipr_table := dn_take (ipr_table table) (unat (ipr_head table)) name soright\<rparr>)\<rparr>)\<rparr>))"
  using assms by (simp add: ipc_port_dnrequest_def Let_def dn_take_code port_write_def)

lemma dncancel_code:
  assumes "k_ports s port = Some p" "ip_dnrequests p = Some table" "index \<noteq> 0"
  shows "ipc_port_dncancel s port name index =
    Some (ipr_soright (ipr_table table ! unat index), s\<lparr>k_ports := (k_ports s)(port \<mapsto> p\<lparr>ip_dnrequests :=
       Some (table\<lparr>ipr_table := dn_give (ipr_table table) index\<rparr>)\<rparr>)\<rparr>)"
  using assms by (simp add: ipc_port_dncancel_def Let_def dn_give_code port_write_def)

lemma dn_free_head:
  assumes "dn_free t js"
  shows "js = [] \<longleftrightarrow> ipr_next (t ! 0) = 0" and "js = j # js' \<Longrightarrow> j = unat (ipr_next (t ! 0))"
  using assms by (cases js; auto simp: dn_free_def)+

lemma dn_requests_take:
  assumes "dn_free (ipr_table table) (unat index # js)" "index \<noteq> 0" "name \<noteq> MACH_PORT_NULL"
  shows "dn_requests (table\<lparr>ipr_table := dn_take (ipr_table table) (unat index) name soright\<rparr>) =
    (dn_requests table)(index \<mapsto> (name, soright))"
proof -
  have "unat index < length (ipr_table table)" using assms by (simp add: dn_free_def)
  then show ?thesis
    using assms(2,3) by (auto simp: dn_requests_def dn_take_def fun_eq_iff nth_list_update unat_eq_0 unat_eq_unat)
qed

lemma dn_requests_give:
  assumes "dn_requests table index = Some r"
  shows "dn_requests (table\<lparr>ipr_table := dn_give (ipr_table table) index\<rparr>) = (dn_requests table)(index := None)"
  using assms by (auto simp: dn_requests_def dn_give_def fun_eq_iff nth_list_update unat_eq_0 unat_eq_unat split: if_splits)

lemma dn_requestsD:
  "dn_requests table index = Some (name, soright) \<Longrightarrow> index \<noteq> 0 \<and> unat index < length (ipr_table table) \<and>
     ipr_name (ipr_table table ! unat index) = name \<and> name \<noteq> MACH_PORT_NULL \<and> ipr_soright (ipr_table table ! unat index) = soright"
  by (auto simp: dn_requests_def split: if_splits)

text \<open>
  C25: the table of dead-name requests of a port implements a finite map from request indices to
  requests. \<^verbatim>\<open>ipc_port_dnrequest\<close> on a well-formed table either finds every slot in use and reports
  \<^verbatim>\<open>KERN_NO_SPACE\<close> without changing anything, or stores the request at an index that had none, keeping
  every other request and the table well-formed.
\<close>

theorem dnrequest_refines_map:
  assumes p: "k_ports s port = Some p" "ip_dnrequests p = Some table" and ok: "dn_ok table" and name: "name \<noteq> MACH_PORT_NULL"
  shows "(\<forall>index. index \<noteq> 0 \<and> unat index < length (ipr_table table) \<longrightarrow> dn_requests table index \<noteq> None) \<and>
       ipc_port_dnrequest s port name soright = Some (KERN_NO_SPACE, 0, s) \<or>
     (\<exists>index table'. dn_requests table index = None \<and> dn_ok table' \<and>
       dn_requests table' = (dn_requests table)(index \<mapsto> (name, soright)) \<and>
       ipc_port_dnrequest s port name soright =
         Some (KERN_SUCCESS, index, s\<lparr>k_ports := (k_ports s)(port \<mapsto> p\<lparr>ip_dnrequests := Some table'\<rparr>)\<rparr>))"
proof -
  obtain js where js: "dn_free (ipr_table table) js" using ok by (auto simp: dn_ok_def)
  show ?thesis
  proof (cases js)
    case Nil
    then have "ipr_head table = 0" using dn_free_head(1) [OF js] by (simp add: ipr_head_def)
    moreover have "dn_requests table index \<noteq> None" if "index \<noteq> 0" "unat index < length (ipr_table table)" for index
      using js Nil that by (simp add: dn_requests_def dn_free_def unat_gt_0)
    ultimately show ?thesis using dnrequest_code [OF p] by simp
  next
    case (Cons j js')
    let ?i = "ipr_head table" and ?t = "table\<lparr>ipr_table := dn_take (ipr_table table) (unat (ipr_head table)) name soright\<rparr>"
    have i: "?i \<noteq> 0" "dn_free (ipr_table table) (unat ?i # js')"
      using dn_free_head [OF js] js Cons by (auto simp: ipr_head_def)
    have "dn_requests table ?i = None" using i by (simp add: dn_requests_def dn_free_def unat_gt_0)
    moreover have "dn_ok ?t"
      using dn_free_take [OF i(2) name] ok by (auto simp: dn_ok_def dn_take_def)
    ultimately show ?thesis using dn_requests_take [OF i(2,1) name] dnrequest_code [OF p] i(1) by auto
  qed
qed

text \<open>
  \<^verbatim>\<open>ipc_port_dncancel\<close> of a registered request returns its send-once right, removes it from the
  map and keeps every other request and the table well-formed.
\<close>

theorem dncancel_refines_map:
  assumes p: "k_ports s port = Some p" "ip_dnrequests p = Some table" and ok: "dn_ok table"
    and r: "dn_requests table index = Some (name, soright)"
  shows "\<exists>table'. dn_ok table' \<and> dn_requests table' = (dn_requests table)(index := None) \<and>
    ipc_port_dncancel s port name index =
      Some (soright, s\<lparr>k_ports := (k_ports s)(port \<mapsto> p\<lparr>ip_dnrequests := Some table'\<rparr>)\<rparr>)"
proof -
  obtain js where js: "dn_free (ipr_table table) js" using ok by (auto simp: dn_ok_def)
  let ?t = "table\<lparr>ipr_table := dn_give (ipr_table table) index\<rparr>"
  have "dn_ok ?t"
    using dn_free_give [OF js] dn_requestsD [OF r] ok by (auto simp: dn_ok_def dn_give_def)
  then show ?thesis
    using dncancel_code [OF p] dn_requests_give [OF r] dn_requestsD [OF r] by (intro exI [of _ ?t]) simp
qed

text \<open>
  Cancelling a dead-name request undoes registering it: after a successful \<^verbatim>\<open>ipc_port_dnrequest\<close>
  the \<^verbatim>\<open>ipc_port_dncancel\<close> of the index it returned hands back the same send-once right and leaves
  the kernel exactly as it was, free list included.
\<close>

theorem dnrequest_dncancel_roundtrip:
  assumes p: "k_ports s port = Some p" "ip_dnrequests p = Some table" and ok: "dn_ok table"
    and r: "ipc_port_dnrequest s port name soright = Some (KERN_SUCCESS, index, s')"
  shows "ipc_port_dncancel s' port name index = Some (soright, s)"
proof -
  obtain js where js: "dn_free (ipr_table table) js" using ok by (auto simp: dn_ok_def)
  let ?t = "table\<lparr>ipr_table := dn_take (ipr_table table) (unat index) name soright\<rparr>"
  have i: "index = ipr_head table" "index \<noteq> 0" "s' = s\<lparr>k_ports := (k_ports s)(port \<mapsto> p\<lparr>ip_dnrequests := Some ?t\<rparr>)\<rparr>"
    using r dnrequest_code [OF p, of name soright] by (auto split: if_splits)
  then obtain js' where f: "dn_free (ipr_table table) (unat index # js')"
    using dn_free_head [OF js] js by (cases js) (auto simp: ipr_head_def)
  then have l: "unat index < length (ipr_table table)" by (simp add: dn_free_def)
  have "ipc_port_dncancel s' port name index = Some (ipr_soright (ipr_table ?t ! unat index),
      s'\<lparr>k_ports := (k_ports s')(port \<mapsto> p\<lparr>ip_dnrequests := Some (?t\<lparr>ipr_table := dn_give (ipr_table ?t) index\<rparr>)\<rparr>)\<rparr>)"
    using dncancel_code [of s' port "p\<lparr>ip_dnrequests := Some ?t\<rparr>" ?t index name] i by simp
  moreover have "dn_give (ipr_table ?t) index = ipr_table table" using dn_give_take [OF f i(2)] by simp
  moreover have "ipr_soright (ipr_table ?t ! unat index) = soright" using l by (simp add: dn_take_def)
  moreover have "(k_ports s)(port \<mapsto> p) = k_ports s" using p(1) by auto
  moreover have "p\<lparr>ip_dnrequests := Some table\<rparr> = p" using p(2) by (cases p) simp
  ultimately show ?thesis using i(3) by simp
qed

definition kx_requests :: "ipc_port_request list \<Rightarrow> ipc_port_requests" where
  "kx_requests rs = \<lparr>ipr_address = 0x5000, ipr_size = 0, ipr_table = rs\<rparr>"

definition kx_dn :: "ipc_port_request list \<Rightarrow> kernel" where
  "kx_dn rs = kx\<lparr>k_ports := [0x1000 \<mapsto> (kx_port 48 0x500)\<lparr>ip_dnrequests := Some (kx_requests rs)\<rparr>]\<rparr>"

abbreviation kx_empty :: "ipc_port_request list" where
  "kx_empty \<equiv> [\<lparr>ipr_notify = 1, ipr_name = 0\<rparr>, \<lparr>ipr_notify = 0, ipr_name = 0\<rparr>]"

abbreviation kx_full :: "ipc_port_request list" where
  "kx_full \<equiv> [\<lparr>ipr_notify = 0, ipr_name = 0\<rparr>, \<lparr>ipr_notify = 0x2000, ipr_name = 0x200\<rparr>]"

lemma kx_dn_ok: "dn_ok (kx_requests kx_empty)" "dn_ok (kx_requests kx_full)"
proof -
  have "dn_free kx_empty [1]" "dn_free kx_full []"
    by (auto simp: dn_free_def MACH_PORT_NULL_def less_2_cases_iff)
  then show "dn_ok (kx_requests kx_empty)" "dn_ok (kx_requests kx_full)"
    unfolding dn_ok_def kx_requests_def by auto
qed

lemma kx_dn_port: "k_ports (kx_dn rs) 0x1000 = Some ((kx_port 48 0x500)\<lparr>ip_dnrequests := Some (kx_requests rs)\<rparr>)"
  by (simp add: kx_dn_def)

lemma kx_dn_table: "ip_dnrequests ((kx_port r n)\<lparr>ip_dnrequests := t\<rparr>) = t"
  by simp

theorem dnrequest_refines_map_witness:
  "(\<exists>index table'. dn_requests (kx_requests kx_empty) index = None \<and> dn_ok table' \<and>
       dn_requests table' = (dn_requests (kx_requests kx_empty))(index \<mapsto> (0x200, 0x2000)))"
proof -
  have "dn_requests (kx_requests kx_empty) 1 = None" "unat (1 :: natural_t) < length (ipr_table (kx_requests kx_empty))"
    by (simp_all add: dn_requests_def kx_requests_def MACH_PORT_NULL_def)
  moreover have "(1 :: natural_t) \<noteq> 0" "(0x200 :: natural_t) \<noteq> MACH_PORT_NULL" by (simp_all add: MACH_PORT_NULL_def)
  ultimately show ?thesis
    using dnrequest_refines_map [OF kx_dn_port kx_dn_table kx_dn_ok(1)] by blast
qed

theorem dncancel_refines_map_witness:
  "\<exists>table'. dn_ok table' \<and> dn_requests table' = (dn_requests (kx_requests kx_full))(1 := None) \<and>
    ipc_port_dncancel (kx_dn kx_full) 0x1000 0x200 1 = Some (0x2000, (kx_dn kx_full)\<lparr>k_ports :=
      (k_ports (kx_dn kx_full))(0x1000 \<mapsto> (kx_port 48 0x500)\<lparr>ip_dnrequests := Some table'\<rparr>)\<rparr>)"
  using dncancel_refines_map [OF kx_dn_port _ kx_dn_ok(2), where name = "0x200" and soright = "0x2000" and index = 1]
  by (simp add: dn_requests_def MACH_PORT_NULL_def kx_requests_def)

theorem dnrequest_dncancel_roundtrip_witness:
  "\<exists>s'. ipc_port_dnrequest (kx_dn kx_empty) 0x1000 0x200 0x2000 = Some (KERN_SUCCESS, 1, s') \<and>
     ipc_port_dncancel s' 0x1000 0x200 1 = Some (0x2000, kx_dn kx_empty)"
proof -
  obtain s' where s': "ipc_port_dnrequest (kx_dn kx_empty) 0x1000 0x200 0x2000 = Some (KERN_SUCCESS, 1, s')"
    using dnrequest_code [OF kx_dn_port, of kx_empty] by (simp add: ipr_head_def kx_requests_def)
  then show ?thesis
    using dnrequest_dncancel_roundtrip [OF kx_dn_port _ kx_dn_ok(1) s'] by simp
qed

subsection \<open>Growing the table\<close>

lemma dngrow_free_eq:
  "a < n \<Longrightarrow> dngrow_free [a..<n] free =
    (map (\<lambda>i. \<lparr>ipr_notify = (if i = a then free else of_nat (i - 1)), ipr_name = MACH_PORT_NULL\<rparr>) [a..<n], of_nat (n - 1))"
proof (induction "n - a" arbitrary: a free)
  case (Suc m)
  show ?case
  proof (cases "Suc a < n")
    case True
    then show ?thesis
      using Suc by (simp add: upt_conv_Cons [of a n] dngrow_free.simps)
  next
    case False
    then have "n = Suc a" using Suc.prems by simp
    then show ?thesis by simp
  qed
qed simp

lemma free_chain_grow:
  assumes "free_chain t i js" "length t \<le> length t'" "\<And>j. 0 < j \<Longrightarrow> j < length t \<Longrightarrow> t' ! j = t ! j"
  shows "free_chain t' i js"
  using assms by (induction t i js rule: free_chain.induct) (auto simp: unat_gt_0)

lemma free_chain_new:
  assumes "free_chain t' head js" "0 < a" "n \<le> length t'" "length t' < 2 ^ 32"
    and new: "\<And>i. a \<le> i \<Longrightarrow> i < n \<Longrightarrow> ipr_next (t' ! i) = (if i = a then head else of_nat (i - 1))"
  shows "a < n \<Longrightarrow> free_chain t' (of_nat (n - 1)) (rev [a..<n] @ js)"
  using assms(3) new
proof (induction n)
  case (Suc m)
  have m: "unat (of_nat m :: natural_t) = m"
    using Suc.prems assms(4) by (simp add: unat_of_nat take_bit_nat_eq_self)
  show ?case
  proof (cases "a = m")
    case True
    then show ?thesis using Suc.prems m assms(1,2) by (auto simp flip: unat_eq_0)
  next
    case False
    then show ?thesis using Suc m assms(2) by (auto simp flip: unat_eq_0)
  qed
qed simp

definition dn_grown :: "ipc_port_request list \<Rightarrow> nat \<Rightarrow> ipc_port_request list" where
  "dn_grown t n = (let (new, free) = dngrow_free [length t..<n] (ipr_next (t ! 0))
     in \<lparr>ipr_notify = free, ipr_name = MACH_PORT_NULL\<rparr> # tl t @ new)"

lemma dn_grown_facts:
  assumes "t \<noteq> []" "length t < n"
  shows "length (dn_grown t n) = n"
    and "0 < j \<Longrightarrow> j < length t \<Longrightarrow> dn_grown t n ! j = t ! j"
    and "length t \<le> j \<Longrightarrow> j < n \<Longrightarrow>
      dn_grown t n ! j = \<lparr>ipr_notify = (if j = length t then ipr_next (t ! 0) else of_nat (j - 1)), ipr_name = MACH_PORT_NULL\<rparr>"
    and "ipr_next (dn_grown t n ! 0) = of_nat (n - 1)"
proof -
  obtain r rs where t: "t = r # rs" using assms(1) by (cases t) auto
  show "length (dn_grown t n) = n" "ipr_next (dn_grown t n ! 0) = of_nat (n - 1)"
    using assms(2) t by (simp_all add: dn_grown_def dngrow_free_eq)
  show "dn_grown t n ! j = t ! j" if "0 < j" "j < length t"
    using assms(2) t that by (auto simp: dn_grown_def dngrow_free_eq nth_append nth_Cons')
  show "dn_grown t n ! j = \<lparr>ipr_notify = (if j = length t then ipr_next (t ! 0) else of_nat (j - 1)), ipr_name = MACH_PORT_NULL\<rparr>"
    if "length t \<le> j" "j < n"
    using assms(2) t that by (auto simp: dn_grown_def dngrow_free_eq nth_append nth_Cons' simp del: upt_Suc)
qed

lemma dn_free_grown:
  assumes f: "dn_free t js" and t: "t \<noteq> []" "length t < n" "n < 2 ^ 32"
  shows "dn_free (dn_grown t n) (rev [length t..<n] @ js)"
proof -
  note g = dn_grown_facts [OF t(1,2)]
  have c: "free_chain (dn_grown t n) (ipr_next (t ! 0)) js"
    by (rule free_chain_grow [of t]) (use f t g in \<open>auto simp: dn_free_def\<close>)
  have b: "0 < j \<and> j < length t" if "j \<in> set js" for j
    using free_chain_bounds [of t _ js j] f that by (auto simp: dn_free_def)
  have "free_chain (dn_grown t n) (of_nat (n - 1)) (rev [length t..<n] @ js)"
    using c t g by (intro free_chain_new [where head = "ipr_next (t ! 0)"]) auto
  moreover have "distinct (rev [length t..<n] @ js)" using f b by (force simp: dn_free_def)
  moreover have "ipr_name (dn_grown t n ! j) = MACH_PORT_NULL \<longleftrightarrow> j \<in> set (rev [length t..<n] @ js)"
    if j: "0 < j" "j < n" for j
  proof (cases "j < length t")
    case True
    then show ?thesis using g(2) [OF j(1) True] f j by (auto simp: dn_free_def)
  next
    case False
    then show ?thesis using g(3) [of j] j by auto
  qed
  ultimately show ?thesis using g by (auto simp: dn_free_def)
qed

lemma dn_requests_grown:
  assumes "ipr_table table \<noteq> []" "length (ipr_table table) < n"
  shows "dn_requests \<lparr>ipr_address = a, ipr_size = i, ipr_table = dn_grown (ipr_table table) n\<rparr> = dn_requests table"
proof
  fix index
  show "dn_requests \<lparr>ipr_address = a, ipr_size = i, ipr_table = dn_grown (ipr_table table) n\<rparr> index = dn_requests table index"
    using dn_grown_facts [OF assms] assms(2) unat_gt_0 [of index]
    by (cases "unat index < length (ipr_table table)") (auto simp: dn_requests_def)
qed

text \<open>The state in which \<open>ipc_port_dngrow\<close> allocates, and a window in which the port stays as it is.\<close>

definition port_kept :: "(kernel \<Rightarrow> kernel) \<Rightarrow> ipc_port_t \<Rightarrow> bool" where
  "port_kept others port \<longleftrightarrow> (\<forall>s. k_ports (others s) port = k_ports s port)"

lemma dngrow_code:
  assumes p: "k_ports s port = Some p" "ip_active p" "ip_dnrequests p = Some table"
    and more: "target = ITS_SIZE_NONE \<or> ipc_table_dnrequests s ! ipr_size table < unat target"
    and its: "its = (if target = ITS_SIZE_NONE then Suc (ipr_size table)
                     else its_search (ipc_table_dnrequests s) (Suc (ipr_size table)) (unat target))"
      "ipc_table_dnrequests s ! its \<noteq> 0"
    and mem: "k_memory s 0 \<noteq> 0" and kept: "port_kept others port" and live: "ip_references p \<noteq> 0"
    and len: "length (ipr_table table) = ipc_table_dnrequests s ! ipr_size table"
  shows "\<exists>s'. ipc_port_dngrow others s port target = Some (KERN_SUCCESS, s') \<and>
    k_ports s' port = Some (if Suc (ipr_size table) = its
      then p\<lparr>ip_dnrequests := Some \<lparr>ipr_address = k_memory s 0, ipr_size = its,
        ipr_table = dn_grown (ipr_table table) (ipc_table_dnrequests s ! its)\<rparr>\<rparr> else p)"
proof -
  let ?s1 = "s\<lparr>k_ports := (k_ports s)(port \<mapsto> p\<lparr>ip_references := ip_references p + 1\<rparr>)\<rparr>"
  let ?s2 = "others (snd (kalloc ?s1))"
  have k2: "k_ports ?s2 port = Some (p\<lparr>ip_references := ip_references p + 1\<rparr>)"
    using kept by (simp add: port_kept_def kalloc_def)
  have active: "ip_active (p\<lparr>ip_references := n\<rparr>) = ip_active p" for n by (simp add: ip_active_def)
  have eta: "p\<lparr>ip_references := ip_references p\<rparr> = p" by simp
  have a: "k_memory ?s1 0 = k_memory s 0" by simp
  have r: "\<not> (target \<noteq> ITS_SIZE_NONE \<and> unat target \<le> ipc_table_dnrequests s ! ipr_size table)"
    using more by auto
  have f: "(if target \<noteq> ITS_SIZE_NONE then its_search (ipc_table_dnrequests s) (Suc (ipr_size table)) (unat target) else Suc (ipr_size table)) = its"
    using its(1) by simp
  have n: "\<not> (target \<noteq> ITS_SIZE_NONE \<and> ipc_table_dnrequests s ! its = 0)" using its(2) by simp
  show ?thesis
    unfolding ipc_port_dngrow_def using k2
    by (simp only: p(1) Option.bind.simps Let_def option.case p(3) Suc_eq_plus1 [symmetric] r f n if_False simp_thms)
      (simp add: ip_reference_def ip_release_def port_write_def kalloc_def p its(2) mem active eta len dn_grown_def
        ip_check_unlock_def live ipr_head_def split: prod.split)
qed

text \<open>
  C26: growing the table of dead-name requests of a live port by one size, while no other thread
  touches the port, keeps every registered request at its index, gives the new table the next size and
  a free slot, and keeps it well-formed.
\<close>

theorem dngrow_keeps_requests:
  assumes p: "k_ports s port = Some p" "ip_active p" "ip_dnrequests p = Some table" "ip_references p \<noteq> 0"
    and ok: "dn_ok table" "length (ipr_table table) = ipc_table_dnrequests s ! ipr_size table"
    and sizes: "ipc_table_dnrequests s ! ipr_size table < ipc_table_dnrequests s ! Suc (ipr_size table)"
      "ipc_table_dnrequests s ! Suc (ipr_size table) < 2 ^ 32"
    and mem: "k_memory s 0 \<noteq> 0" and kept: "port_kept others port"
  shows "\<exists>s' table'. ipc_port_dngrow others s port ITS_SIZE_NONE = Some (KERN_SUCCESS, s') \<and>
    k_ports s' port = Some (p\<lparr>ip_dnrequests := Some table'\<rparr>) \<and>
    dn_ok table' \<and> dn_requests table' = dn_requests table \<and> ipr_head table' \<noteq> 0 \<and>
    ipr_size table' = Suc (ipr_size table) \<and> length (ipr_table table') = ipc_table_dnrequests s ! ipr_size table'"
proof -
  let ?n = "ipc_table_dnrequests s ! Suc (ipr_size table)"
  let ?t = "\<lparr>ipr_address = k_memory s 0, ipr_size = Suc (ipr_size table), ipr_table = dn_grown (ipr_table table) ?n\<rparr>"
  obtain s' where s': "ipc_port_dngrow others s port ITS_SIZE_NONE = Some (KERN_SUCCESS, s')"
      "k_ports s' port = Some (p\<lparr>ip_dnrequests := Some ?t\<rparr>)"
    using dngrow_code [OF p(1-3), of ITS_SIZE_NONE "Suc (ipr_size table)"] sizes mem kept p(4) ok(2) by auto
  have t: "ipr_table table \<noteq> []" "length (ipr_table table) < ?n" using ok sizes by (auto simp: dn_ok_def)
  obtain js where "dn_free (ipr_table table) js" using ok(1) by (auto simp: dn_ok_def)
  then have f: "dn_free (dn_grown (ipr_table table) ?n) (rev [length (ipr_table table)..<?n] @ js)"
    using dn_free_grown t sizes(2) by blast
  have "dn_ok ?t" unfolding dn_ok_def using f dn_grown_facts(1) [OF t] sizes(2) t by auto
  moreover have "ipr_head ?t \<noteq> 0" using dn_free_head(1) [OF f] t(2) by (simp add: ipr_head_def)
  ultimately show ?thesis using s' dn_requests_grown [OF t] dn_grown_facts(1) [OF t] by auto
qed

theorem dngrow_keeps_requests_witness:
  "\<exists>s' table'. ipc_port_dngrow id (kx_dn kx_full) 0x1000 ITS_SIZE_NONE = Some (KERN_SUCCESS, s') \<and>
     dn_ok table' \<and> dn_requests table' = dn_requests (kx_requests kx_full) \<and> ipr_head table' \<noteq> 0"
  using dngrow_keeps_requests [OF kx_dn_port _ kx_dn_table _ kx_dn_ok(2), of id]
  by (auto simp: kx_requests_def kx_dn_def kx_def port_kept_def ip_active_def kx_port_fields kx_port_active [unfolded ip_active_def])

lemma its_search_ge: "i \<le> its_search its i target"
proof (induction its i target rule: its_search.induct)
  case (1 its i target)
  then show ?case using its_search.simps [of its i target] by (cases "i < length its \<and> its ! i \<noteq> 0 \<and> its ! i < target") auto
qed

lemma its_search_gt:
  "i < length its \<Longrightarrow> its ! i \<noteq> 0 \<Longrightarrow> its ! i < target \<Longrightarrow> i < its_search its i target"
  using its_search_ge [of "Suc i" its target] its_search.simps [of its i target] by simp

text \<open>
  \<^verbatim>\<open>ipc_port_dngrow\<close> with a target above the next table size does not grow an existing table:
  the search for a large enough size skips the next one, and the check that nobody else has grown the
  table compares with the next size only. The routine returns \<^verbatim>\<open>KERN_SUCCESS\<close> and the port has its old
  table, which is smaller than the target.
\<close>

theorem dngrow_large_target_has_no_effect:
  assumes p: "k_ports s port = Some p" "ip_active p" "ip_dnrequests p = Some table" "ip_references p \<noteq> 0"
    and len: "length (ipr_table table) = ipc_table_dnrequests s ! ipr_size table"
    and sizes: "Suc (ipr_size table) < length (ipc_table_dnrequests s)"
      "ipc_table_dnrequests s ! ipr_size table < ipc_table_dnrequests s ! Suc (ipr_size table)"
      "ipc_table_dnrequests s ! Suc (ipr_size table) < unat target"
      "ipc_table_dnrequests s ! its_search (ipc_table_dnrequests s) (Suc (ipr_size table)) (unat target) \<noteq> 0"
    and mem: "k_memory s 0 \<noteq> 0" and kept: "port_kept others port" and t: "target \<noteq> ITS_SIZE_NONE"
  shows "\<exists>s'. ipc_port_dngrow others s port target = Some (KERN_SUCCESS, s') \<and> k_ports s' port = Some p \<and>
    length (ipr_table table) < unat target"
proof -
  have "Suc (ipr_size table) < its_search (ipc_table_dnrequests s) (Suc (ipr_size table)) (unat target)"
    using its_search_gt [OF sizes(1)] sizes by simp
  then show ?thesis
    using dngrow_code [OF p(1-3) _ refl _ mem kept p(4) len, of target] t sizes len by auto
qed

theorem dngrow_large_target_has_no_effect_witness:
  "\<exists>s'. ipc_port_dngrow id (kx_dn kx_full) 0x1000 7 = Some (KERN_SUCCESS, s') \<and>
     k_ports s' 0x1000 = k_ports (kx_dn kx_full) 0x1000"
proof -
  have i: "its_search [2, 4, 8, 0] (Suc 0) 7 = 2" by (simp add: its_search.simps)
  show ?thesis
    using dngrow_large_target_has_no_effect [OF kx_dn_port _ kx_dn_table, where others = id and target = 7] i
    by (auto simp: kx_requests_def kx_dn_def kx_def port_kept_def kx_port_fields ITS_SIZE_NONE_def
      ip_active_def kx_port_active [unfolded ip_active_def])
qed

end
