(* ===== verification/IPC_Mqueue_Facts.thy ===== *)
theory IPC_Mqueue_Facts
  imports IPC_Kmsg_Facts
begin

text \<open>
  Facts on message queues (\<open>IPC_Mqueue\<close>): messages are received in the order they were sent, moving a
  port in and out of a port set keeps its messages and their order, and who is woken.
\<close>

section \<open>Sending and receiving\<close>

lemma send_loop_deliver:
  assumes "k_ports s port = Some p" "ip_active p" "ip_msgcount p < ip_qlimit p"
  shows "mqueue_send_loop destroy port kmsg option timeout s ws =
    do { s \<leftarrow> ipc_mqueue_deliver s port kmsg; Some (MACH_MSG_SUCCESS, s, ws) }"
  using assms by (subst mqueue_send_loop.simps) simp

text \<open>The state after a message is queued at an idle port, one with no receiver waiting and in no port set.\<close>

definition queued :: "ipc_kmsg \<Rightarrow> ipc_port \<Rightarrow> ipc_port" where
  "queued kmsg p = p\<lparr>ip_msgcount := ip_msgcount p + 1,
     ip_messages := (ip_messages p)\<lparr>imq_messages := imq_messages (ip_messages p) @ [kmsg]\<rparr>\<rparr>"

definition idle :: "kernel \<Rightarrow> ipc_port \<Rightarrow> bool" where
  "idle s p \<longleftrightarrow> ip_active p \<and> ip_pset p = IPS_NULL \<and> imq_threads (ip_messages p) = [] \<and> ip_receiver p \<noteq> ipc_space_kernel s \<and>
     ip_blocked p = []"

lemma send_idle:
  assumes "k_ports s port = Some p" "idle s p" "ip_msgcount p < ip_qlimit p" "msgh_remote_port kmsg = port"
    "msgh_bits kmsg AND MACH_MSGH_BITS_CIRCULAR = 0"
  shows "ipc_mqueue_send destroy s kmsg option timeout ws =
    Some (MACH_MSG_SUCCESS, s\<lparr>k_ports := (k_ports s)(port \<mapsto> queued kmsg p)\<rparr>, ws)"
  using assms send_loop_deliver [of s port p destroy kmsg option timeout ws]
  by (simp add: ipc_mqueue_send_def Let_def idle_def ipc_mqueue_deliver_def port_write_def imq_at_def imq_write_def queued_def)

lemma idle_queued: "idle s p \<Longrightarrow> idle (s\<lparr>k_ports := m\<rparr>) (queued kmsg p)"
  by (simp add: idle_def queued_def ip_active_def)

definition dequeued :: "ipc_port \<Rightarrow> ipc_port" where
  "dequeued p = p\<lparr>ip_messages := (ip_messages p)\<lparr>imq_messages := tl (imq_messages (ip_messages p))\<rparr>,
     ip_seqno := ip_seqno p + 1, ip_msgcount := ip_msgcount p - 1\<rparr>"

lemma dequeued_simps [simp]:
  "imq_messages (ip_messages (dequeued p)) = tl (imq_messages (ip_messages p))" "ip_seqno (dequeued p) = ip_seqno p + 1"
  by (simp_all add: dequeued_def)

lemma idle_dequeued: "idle s p \<Longrightarrow> idle (s\<lparr>k_ports := m\<rparr>) (dequeued p)"
  by (simp add: idle_def dequeued_def ip_active_def)

lemma receive_idle:
  assumes "k_ports s port = Some p" "idle s p" "imq_messages (ip_messages p) = kmsg # kmsgs" "msgh_remote_port kmsg = port"
    "msgh_size kmsg \<le> max_size - trailer"
  shows "ipc_mqueue_receive s (PORT_QUEUE port) option max_size timeout trailer None ws =
    Some (MACH_MSG_SUCCESS, Some (kmsg, ip_seqno p), s\<lparr>k_ports := (k_ports s)(port \<mapsto> dequeued p)\<rparr>, ws)"
  using assms
  by (simp add: ipc_mqueue_receive_def mqueue_receive_loop.simps imq_at_def imq_write_def port_write_def
    ipc_mqueue_finish_receive_def idle_def dequeued_def ip_active_def not_less)

primrec send_all :: "destroy_kmsg \<Rightarrow> natural_t \<Rightarrow> natural_t \<Rightarrow> ipc_kmsg list \<Rightarrow> kernel \<Rightarrow> kernel option" where
  "send_all destroy option timeout [] s = Some s"
| "send_all destroy option timeout (kmsg # kmsgs) s = do {
     (mr, s, ws) \<leftarrow> ipc_mqueue_send destroy s kmsg option timeout [];
     if mr = MACH_MSG_SUCCESS then send_all destroy option timeout kmsgs s else None }"

primrec receive_all ::
  "ipc_mqueue_ref \<Rightarrow> natural_t \<Rightarrow> natural_t \<Rightarrow> natural_t \<Rightarrow> natural_t \<Rightarrow> nat \<Rightarrow> kernel \<Rightarrow> ((ipc_kmsg \<times> natural_t) list \<times> kernel) option" where
  "receive_all mqueue option max_size timeout trailer 0 s = Some ([], s)"
| "receive_all mqueue option max_size timeout trailer (Suc n) s = do {
     (mr, r, s, ws) \<leftarrow> ipc_mqueue_receive s mqueue option max_size timeout trailer None [];
     x \<leftarrow> (if mr = MACH_MSG_SUCCESS then r else None);
     (xs, s) \<leftarrow> receive_all mqueue option max_size timeout trailer n s;
     Some (x # xs, s) }"

definition plain :: "ipc_port_t \<Rightarrow> ipc_kmsg \<Rightarrow> bool" where
  "plain port kmsg \<longleftrightarrow> msgh_remote_port kmsg = port \<and> msgh_bits kmsg AND MACH_MSGH_BITS_CIRCULAR = 0"

lemma send_all_idle:
  assumes "k_ports s port = Some p" "idle s p" "unat (ip_msgcount p) + length kmsgs \<le> unat (ip_qlimit p)" "list_all (plain port) kmsgs"
  shows "send_all destroy option timeout kmsgs s = Some (s\<lparr>k_ports := (k_ports s)(port \<mapsto> fold queued kmsgs p)\<rparr>)"
  using assms
proof (induction kmsgs arbitrary: s p)
  case Nil
  then have "(k_ports s)(port \<mapsto> p) = k_ports s" by auto
  then show ?case by simp
next
  case (Cons kmsg kmsgs)
  let ?s = "s\<lparr>k_ports := (k_ports s)(port \<mapsto> queued kmsg p)\<rparr>"
  have l: "ip_msgcount p < ip_qlimit p" using Cons.prems(3) by (simp add: word_less_nat_alt)
  have "unat (ip_msgcount p + 1) = unat (ip_msgcount p) + 1"
    using Cons.prems(3) unsigned_less [of "ip_qlimit p", where ?'a = nat] by (simp add: unat_word_ariths)
  then have "unat (ip_msgcount (queued kmsg p)) + length kmsgs \<le> unat (ip_qlimit (queued kmsg p))"
    using Cons.prems(3) by (simp add: queued_def)
  then have "send_all destroy option timeout kmsgs ?s = Some (?s\<lparr>k_ports := (k_ports ?s)(port \<mapsto> fold queued kmsgs (queued kmsg p))\<rparr>)"
    using Cons.prems by (intro Cons.IH) (auto intro: idle_queued)
  then show ?case using send_idle [OF Cons.prems(1,2) l] Cons.prems(4) by (simp add: plain_def del: fun_upd_apply)
qed

definition numbered :: "ipc_kmsg list \<Rightarrow> natural_t \<Rightarrow> (ipc_kmsg \<times> natural_t) list" where
  "numbered kmsgs seqno = zip kmsgs (map (\<lambda>i. seqno + of_nat i) [0..<length kmsgs])"

lemma numbered_Cons: "numbered (kmsg # kmsgs) seqno = (kmsg, seqno) # numbered kmsgs (seqno + 1)"
  unfolding numbered_def by (simp add: upt_conv_Cons map_Suc_upt [symmetric] comp_def add.assoc del: upt_Suc)

lemma receive_all_idle:
  assumes "k_ports s port = Some p" "idle s p" "imq_messages (ip_messages p) = kmsgs" "list_all (plain port) kmsgs"
    "list_all (\<lambda>kmsg. msgh_size kmsg \<le> max_size - trailer) kmsgs"
  shows "receive_all (PORT_QUEUE port) option max_size timeout trailer (length kmsgs) s =
    Some (numbered kmsgs (ip_seqno p), s\<lparr>k_ports := (k_ports s)(port \<mapsto> (dequeued ^^ length kmsgs) p)\<rparr>)"
  using assms
proof (induction kmsgs arbitrary: s p)
  case Nil
  then have "(k_ports s)(port \<mapsto> p) = k_ports s" by auto
  then show ?case by (simp add: numbered_def)
next
  case (Cons kmsg kmsgs)
  let ?s = "s\<lparr>k_ports := (k_ports s)(port \<mapsto> dequeued p)\<rparr>"
  have "receive_all (PORT_QUEUE port) option max_size timeout trailer (length kmsgs) ?s =
      Some (numbered kmsgs (ip_seqno (dequeued p)), ?s\<lparr>k_ports := (k_ports ?s)(port \<mapsto> (dequeued ^^ length kmsgs) (dequeued p))\<rparr>)"
    using Cons.prems by (intro Cons.IH) (auto intro: idle_dequeued)
  then show ?case
    using receive_idle [OF Cons.prems(1-3)] Cons.prems(4,5)
    by (simp add: plain_def numbered_Cons funpow_swap1 del: fun_upd_apply)
qed

lemma fold_queued:
  "fold queued kmsgs p = p\<lparr>ip_msgcount := ip_msgcount p + of_nat (length kmsgs),
     ip_messages := (ip_messages p)\<lparr>imq_messages := imq_messages (ip_messages p) @ kmsgs\<rparr>\<rparr>"
proof (induction kmsgs arbitrary: p)
  case (Cons kmsg kmsgs)
  then show ?case by (simp add: queued_def algebra_simps)
qed simp

lemma funpow_dequeued:
  "(dequeued ^^ n) p = p\<lparr>ip_messages := (ip_messages p)\<lparr>imq_messages := drop n (imq_messages (ip_messages p))\<rparr>,
     ip_seqno := ip_seqno p + of_nat n, ip_msgcount := ip_msgcount p - of_nat n\<rparr>"
proof (induction n)
  case (Suc n)
  then show ?case by (simp add: dequeued_def drop_Suc tl_drop algebra_simps)
qed simp

text \<open>
  C10: messages come out of a port in the order in which they went in. Take an active port that is not the
  kernel's and in no port set, with an empty queue and nobody waiting to receive or to send, and a list of messages to it
  for which its queue limit has room, none of them marked circular and each no larger than the receive buffer less the
  trailer. Sending them, and then receiving that many times without a scatter list, returns exactly these messages in this
  order with consecutive sequence numbers, and leaves the kernel as it was but for the sequence number of
  the port.
\<close>

theorem send_receive_fifo:
  assumes p: "k_ports s port = Some p" "idle s p" "ip_messages p = ipc_mqueue_init" "ip_msgcount p = 0"
    and room: "length kmsgs \<le> unat (ip_qlimit p)"
    and kmsgs: "list_all (plain port) kmsgs" "list_all (\<lambda>kmsg. msgh_size kmsg \<le> max_size - trailer) kmsgs"
  shows "\<exists>s'. send_all destroy option timeout kmsgs s = Some s' \<and>
    receive_all (PORT_QUEUE port) option' max_size timeout' trailer (length kmsgs) s' =
      Some (numbered kmsgs (ip_seqno p),
            s\<lparr>k_ports := (k_ports s)(port \<mapsto> p\<lparr>ip_seqno := ip_seqno p + of_nat (length kmsgs)\<rparr>)\<rparr>)"
proof -
  let ?q = "fold queued kmsgs p"
  let ?s = "s\<lparr>k_ports := (k_ports s)(port \<mapsto> ?q)\<rparr>"
  have q: "idle ?s ?q" "imq_messages (ip_messages ?q) = kmsgs" "ip_seqno ?q = ip_seqno p"
    using p by (simp_all add: fold_queued idle_def ip_active_def ipc_mqueue_init_def)
  have "(dequeued ^^ length kmsgs) ?q = p\<lparr>ip_seqno := ip_seqno p + of_nat (length kmsgs)\<rparr>"
    using p(3,4) by (simp add: funpow_dequeued fold_queued ipc_mqueue_init_def)
  then show ?thesis
    using send_all_idle [OF p(1,2) _ kmsgs(1), of destroy option timeout] room p(4)
      receive_all_idle [OF _ q(1,2) kmsgs, where option = option' and timeout = timeout'] q(3) by simp
qed

theorem send_receive_fifo_witness:
  "\<exists>s'. send_all ipc_kmsg_destroy 0 0 [kx_message, kx_message\<lparr>msgh_id := 5\<rparr>] kx = Some s' \<and>
     receive_all (PORT_QUEUE 0x2000) 0 256 0 8 (Suc (Suc 0)) s' =
       Some ([(kx_message, 0), (kx_message\<lparr>msgh_id := 5\<rparr>, 1)],
             kx\<lparr>k_ports := (k_ports kx)(0x2000 \<mapsto> (kx_port 32 0x300)\<lparr>ip_seqno := 2\<rparr>)\<rparr>)"
proof -
  have i: "idle kx (kx_port 32 0x300)"
    by (simp add: idle_def kx_port_fields kx_fields) (simp add: kx_port_def ipc_port_init_def ipc_mqueue_init_def)
  have q: "ip_messages (kx_port 32 0x300) = ipc_mqueue_init" "ip_msgcount (kx_port 32 0x300) = 0" "ip_seqno (kx_port 32 0x300) = 0"
    "unat (ip_qlimit (kx_port 32 0x300)) = 5"
    by (simp_all add: kx_port_def ipc_port_init_def MACH_PORT_QLIMIT_DEFAULT_def)
  have m: "list_all (plain 0x2000) [kx_message, kx_message\<lparr>msgh_id := 5\<rparr>]"
    "list_all (\<lambda>kmsg. msgh_size kmsg \<le> 256 - 8) [kx_message, kx_message\<lparr>msgh_id := 5\<rparr>]"
    by code_simp+
  show ?thesis
    using send_receive_fifo [OF kx_simps(6) i q(1,2) _ m, of ipc_kmsg_destroy 0 0 0 0] q(3,4)
    by (simp add: numbered_def upt_rec del: send_all.simps receive_all.simps)
qed

section \<open>Port sets\<close>

lemma imq_write_twice:
  "imq_write s mqueue f = Some s' \<Longrightarrow> imq_write s' mqueue g = imq_write s mqueue (\<lambda>q. g (f q))"
  by (cases mqueue) (auto simp: imq_write_def port_write_def pset_write_def elim!: bind_SomeE)

lemma imq_at_write: "imq_at s mqueue = Some q \<Longrightarrow> \<exists>s'. imq_write s mqueue f = Some s' \<and> imq_at s' mqueue = Some (f q)"
  by (cases mqueue) (auto simp: imq_at_def imq_write_def port_write_def pset_write_def)

lemma imq_write_id: "imq_at s mqueue \<noteq> None \<Longrightarrow> imq_write s mqueue (\<lambda>q. q) = Some s"
  by (cases mqueue) (auto simp: imq_at_def imq_write_def port_write_def pset_write_def fun_upd_idem)

lemma mqueue_move_loop_unattended:
  assumes "imq_at s dest = Some q" "imq_threads q = []"
  shows "mqueue_move_loop dest port kmsgs s =
    do { s \<leftarrow> imq_write s dest (\<lambda>q. q\<lparr>imq_messages := imq_messages q @ filter (\<lambda>k. msgh_remote_port k = port) kmsgs\<rparr>);
         Some (filter (\<lambda>k. msgh_remote_port k \<noteq> port) kmsgs, s) }"
  using assms
proof (induction kmsgs arbitrary: s q)
  case Nil
  then show ?case using imq_write_id [of s dest] by simp
next
  case (Cons kmsg kmsgs)
  show ?case
  proof (cases "msgh_remote_port kmsg = port")
    case True
    obtain s' where s': "imq_write s dest (\<lambda>q. q\<lparr>imq_messages := imq_messages q @ [kmsg]\<rparr>) = Some s'"
        "imq_at s' dest = Some (q\<lparr>imq_messages := imq_messages q @ [kmsg]\<rparr>)"
      using imq_at_write [OF Cons.prems(1)] by blast
    then show ?thesis
      using Cons.IH [OF s'(2)] Cons.prems True imq_write_twice [OF s'(1)] by simp
  next
    case False
    then show ?thesis using Cons.IH [OF Cons.prems] imq_at_write [OF Cons.prems(1)] by (auto split: bind_splits)
  qed
qed

definition set_queue :: "ipc_kmsg list \<Rightarrow> ipc_mqueue \<Rightarrow> ipc_mqueue" where
  "set_queue kmsgs q = q\<lparr>imq_messages := kmsgs\<rparr>"

abbreviation port_queue :: "ipc_port \<Rightarrow> ipc_kmsg list" where "port_queue p \<equiv> imq_messages (ip_messages p)"
abbreviation pset_queue :: "ipc_pset \<Rightarrow> ipc_kmsg list" where "pset_queue ps \<equiv> imq_messages (ips_messages ps)"

lemma imq_no_threads: "imq_threads q = [] \<Longrightarrow> q\<lparr>imq_messages := kmsgs, imq_threads := []\<rparr> = q\<lparr>imq_messages := kmsgs\<rparr>"
  for q :: ipc_mqueue
  by (cases q) simp

lemma kernel_update_order: "s\<lparr>k_psets := y, k_ports := x\<rparr> = s\<lparr>k_ports := x, k_psets := y\<rparr>"
  by simp

lemma pset_add_unattended:
  assumes p: "k_ports s port = Some p" "imq_threads (ip_messages p) = []" "list_all (\<lambda>k. msgh_remote_port k = port) (port_queue p)"
    and ps: "k_psets s pset = Some ps" "imq_threads (ips_messages ps) = []"
  shows "ipc_pset_add s pset port = Some (s\<lparr>
    k_ports := (k_ports s)(port \<mapsto> p\<lparr>ip_pset := pset, ip_messages := set_queue [] (ip_messages p)\<rparr>),
    k_psets := (k_psets s)(pset \<mapsto> ps\<lparr>ips_references := ips_references ps + 1,
      ips_messages := set_queue (pset_queue ps @ port_queue p) (ips_messages ps)\<rparr>)\<rparr>)"
proof -
  have f: "filter (\<lambda>k. msgh_remote_port k = port) (port_queue p) = port_queue p"
    "filter (\<lambda>k. msgh_remote_port k \<noteq> port) (port_queue p) = []"
    using p(3) by (auto simp: list_all_iff)
  show ?thesis
    using assms by (simp add: ipc_pset_add_def port_write_def ips_reference_def pset_write_def ipc_mqueue_move_def imq_at_def
      mqueue_move_loop_unattended f imq_write_def ipc_mqueue_changed_def set_queue_def imq_no_threads kernel_update_order)
qed

lemma pset_remove_unattended:
  assumes p: "k_ports s port = Some p" "imq_threads (ip_messages p) = []"
    and ps: "k_psets s pset = Some ps"
  shows "ipc_pset_remove s pset port = Some (s\<lparr>
    k_ports := (k_ports s)(port \<mapsto> p\<lparr>ip_pset := IPS_NULL,
      ip_messages := set_queue (port_queue p @ filter (\<lambda>k. msgh_remote_port k = port) (pset_queue ps)) (ip_messages p)\<rparr>),
    k_psets := (k_psets s)(pset \<mapsto> ps\<lparr>ips_references := ips_references ps - 1,
      ips_messages := set_queue (filter (\<lambda>k. msgh_remote_port k \<noteq> port) (pset_queue ps)) (ips_messages ps)\<rparr>)\<rparr>)"
  using assms by (simp add: ipc_pset_remove_def port_write_def ips_release_def pset_write_def ipc_mqueue_move_def imq_at_def
      mqueue_move_loop_unattended imq_write_def set_queue_def)

text \<open>
  C29: adding a port to a port set and removing it again loses, duplicates and reorders no message.
  When nobody waits to receive, \<^verbatim>\<open>ipc_pset_add\<close> appends the messages of the port to those of the set,
  and \<^verbatim>\<open>ipc_pset_remove\<close> afterwards gives the port back exactly its messages in their order and leaves
  those of the other members alone: the kernel is as it was, reference count of the set included.
\<close>

theorem pset_add_remove_roundtrip:
  assumes p: "k_ports s port = Some p" "imq_threads (ip_messages p) = []" "ip_pset p = IPS_NULL"
      "list_all (\<lambda>k. msgh_remote_port k = port) (port_queue p)"
    and ps: "k_psets s pset = Some ps" "imq_threads (ips_messages ps) = []"
      "list_all (\<lambda>k. msgh_remote_port k \<noteq> port) (pset_queue ps)"
  shows "\<exists>s'. ipc_pset_add s pset port = Some s' \<and>
    map_option pset_queue (k_psets s' pset) = Some (pset_queue ps @ port_queue p) \<and>
    map_option port_queue (k_ports s' port) = Some [] \<and>
    ipc_pset_remove s' pset port = Some s"
proof -
  let ?p = "p\<lparr>ip_pset := pset, ip_messages := set_queue [] (ip_messages p)\<rparr>"
  let ?ps = "ps\<lparr>ips_references := ips_references ps + 1, ips_messages := set_queue (pset_queue ps @ port_queue p) (ips_messages ps)\<rparr>"
  let ?s = "s\<lparr>k_ports := (k_ports s)(port \<mapsto> ?p), k_psets := (k_psets s)(pset \<mapsto> ?ps)\<rparr>"
  have f: "filter (\<lambda>k. msgh_remote_port k = port) (pset_queue ps @ port_queue p) = port_queue p"
    "filter (\<lambda>k. msgh_remote_port k \<noteq> port) (pset_queue ps @ port_queue p) = pset_queue ps"
    using p(4) ps(3) by (auto simp: list_all_iff filter_empty_conv)
  have e: "p\<lparr>ip_pset := IPS_NULL\<rparr> = p" using p(3) by (cases p) simp
  have "ipc_pset_remove ?s pset port = Some (s\<lparr>k_ports := (k_ports s)(port \<mapsto> p), k_psets := (k_psets s)(pset \<mapsto> ps)\<rparr>)"
    using pset_remove_unattended [of ?s port ?p pset ?ps] p(2) f e by (simp add: set_queue_def)
  moreover have "(k_ports s)(port \<mapsto> p) = k_ports s" "(k_psets s)(pset \<mapsto> ps) = k_psets s" using p(1) ps(1) by auto
  ultimately show ?thesis using pset_add_unattended [OF p(1,2,4) ps(1,2)] by (simp add: set_queue_def)
qed

definition kx_set :: kernel where
  "kx_set = kx\<lparr>k_psets := [0x6000 \<mapsto> \<lparr>ips_references = 1, ips_bits = io_makebits True IOT_PORT_SET 0,
       ips_local_name = 0x700, ips_messages = ipc_mqueue_init\<lparr>imq_messages := [kx_doomed]\<rparr>\<rparr>],
     k_ports := (k_ports kx)(0x2000 \<mapsto> queued kx_message (kx_port 32 0x300))\<rparr>"

theorem pset_add_remove_roundtrip_witness:
  "\<exists>s'. ipc_pset_add kx_set 0x6000 0x2000 = Some s' \<and>
     map_option pset_queue (k_psets s' 0x6000) = Some [kx_doomed, kx_message] \<and>
     ipc_pset_remove s' 0x6000 0x2000 = Some kx_set"
proof -
  let ?p = "queued kx_message (kx_port 32 0x300)"
  let ?ps = "\<lparr>ips_references = 1, ips_bits = io_makebits True IOT_PORT_SET 0, ips_local_name = 0x700,
    ips_messages = ipc_mqueue_init\<lparr>imq_messages := [kx_doomed]\<rparr>\<rparr>"
  have "imq_threads (ip_messages ?p) = []" "ip_pset ?p = IPS_NULL" "port_queue ?p = [kx_message]"
    by (simp_all add: queued_def kx_port_def ipc_port_init_def ipc_mqueue_init_def)
  moreover have "msgh_remote_port kx_message = 0x2000" "msgh_remote_port kx_doomed = 0x3000"
    by (simp_all add: kx_message_def kx_doomed_def)
  ultimately show ?thesis
    using pset_add_remove_roundtrip [of kx_set "0x2000" ?p "0x6000" ?ps] by (auto simp: kx_set_def ipc_mqueue_init_def)
qed

section \<open>Waking senders\<close>

lemma qlimit_wakeup_eq:
  "qlimit_wakeup n ths s = (drop n ths, wake_all MACH_MSG_SUCCESS (take n ths) s)"
  by (induction n ths s rule: qlimit_wakeup.induct) simp_all

lemma wake_all_facts:
  "k_calls (wake_all mr ths s) = k_calls s @ map THREAD_GO ths"
  "k_ports (wake_all mr ths s) = k_ports s"
  "ith_state (k_threads (wake_all mr ths s) th) = (if th \<in> set ths then mr else ith_state (k_threads s th))"
  by (induction ths arbitrary: s) (auto simp: thread_go_def k_call_def ith_write_def)

text \<open>
  C30: raising the queue limit of a port wakes as many blocked senders as there are new places, the
  ones that have waited longest first and in this order, each with the state \<^verbatim>\<open>MACH_MSG_SUCCESS\<close>;
  lowering it wakes nobody. The new limit is stored in both cases.
\<close>

theorem set_qlimit_wakes_oldest:
  assumes p: "k_ports s port = Some p"
    and n: "n = (if qlimit > ip_qlimit p then unat (qlimit - ip_qlimit p) else 0)"
  shows "\<exists>s'. ipc_port_set_qlimit s port qlimit = Some s' \<and>
    k_ports s' port = Some (p\<lparr>ip_blocked := drop n (ip_blocked p), ip_qlimit := qlimit\<rparr>) \<and>
    k_calls s' = k_calls s @ map THREAD_GO (take n (ip_blocked p)) \<and>
    (\<forall>th. ith_state (k_threads s' th) =
       (if th \<in> set (take n (ip_blocked p)) then MACH_MSG_SUCCESS else ith_state (k_threads s th)))"
  using p n by (auto simp: ipc_port_set_qlimit_def qlimit_wakeup_eq port_write_def wake_all_facts)

theorem set_qlimit_wakes_oldest_witness:
  "\<exists>s'. ipc_port_set_qlimit (kx\<lparr>k_ports := [0x2000 \<mapsto> (kx_port 32 0x300)\<lparr>ip_blocked := [9, 4, 6]\<rparr>]\<rparr>) 0x2000 7 = Some s' \<and>
     k_calls s' = [THREAD_GO 9, THREAD_GO 4]"
  using set_qlimit_wakes_oldest [of "kx\<lparr>k_ports := [0x2000 \<mapsto> (kx_port 32 0x300)\<lparr>ip_blocked := [9, 4, 6]\<rparr>]\<rparr>" "0x2000"
      "(kx_port 32 0x300)\<lparr>ip_blocked := [9, 4, 6]\<rparr>" 2 7]
  by (auto simp: kx_port_def ipc_port_init_def MACH_PORT_QLIMIT_DEFAULT_def kx_fields)

end
