(* ===== verification/IPC_Entry_Dealloc.thy ===== *)
theory IPC_Entry_Dealloc
  imports IPC_Entry_Inv
begin

text \<open>
  Deallocation of a table entry that has collisions: one of the tree entries with the same index
  moves into the table. With it, \<open>ipc_entry_dealloc\<close> as a whole removes one name from the map that the
  space represents.
\<close>

section \<open>Cutting the tree at an index\<close>

lemma less_make_iff: "i \<le> 16777215 \<Longrightarrow> n < MACH_PORT_MAKE (of_nat i) 0 \<longleftrightarrow> name_index n < i"
  using less_MACH_PORT_MAKE_0 [OF of_nat_index_less, of i n] unat_of_nat_index [of i]
  by (simp add: word_less_nat_alt)

lemma map_of_filter_fst: "map_of (filter (\<lambda>x. P (fst x)) xs) = (map_of xs) |` Collect P"
  by (induction xs) (auto simp: restrict_map_def fun_eq_iff)

lemma split_pieces:
  assumes "ist_ok splay" "i \<le> 16777215" "ipc_splay_tree_split splay (MACH_PORT_MAKE (of_nat i) 0) = (rest, small)"
  shows "ist_ok rest" "ist_ok small"
    "ist_inorder rest = filter (\<lambda>x. i \<le> name_index (fst x)) (ist_inorder splay)"
    "ist_inorder small = filter (\<lambda>x. name_index (fst x) < i) (ist_inorder splay)"
proof -
  note s = ipc_splay_tree_split_inorder [OF assms(1), of "MACH_PORT_MAKE (of_nat i) 0"]
    ipc_splay_tree_split_ok [OF assms(1), of "MACH_PORT_MAKE (of_nat i) 0"]
  show "ist_ok rest" "ist_ok small" using s(3,4) assms(3) by auto
  show "ist_inorder small = filter (\<lambda>x. name_index (fst x) < i) (ist_inorder splay)"
    using s(2) assms(3) by (simp add: less_make_iff [OF assms(2)])
  show "ist_inorder rest = filter (\<lambda>x. i \<le> name_index (fst x)) (ist_inorder splay)"
    using s(1) assms(3) less_make_iff [OF assms(2)] by (simp add: not_less flip: not_le)
qed

lemma index_less: "name_index m < name_index n \<Longrightarrow> m < n"
  using MACH_PORT_INDEX_mono [of n m] by (force simp: word_le_nat_alt not_le [symmetric])

text \<open>Putting pieces with ascending indices back together.\<close>

lemma join_pieces:
  assumes "ist_ok splay" "ist_ok small"
    and "\<And>m n. m \<in> dom (map_of (ist_inorder small)) \<Longrightarrow> n \<in> dom (map_of (ist_inorder splay)) \<Longrightarrow> name_index m < name_index n"
  shows "ist_ok (ipc_splay_tree_join splay small)"
    "map_of (ist_inorder (ipc_splay_tree_join splay small)) = map_of (ist_inorder splay) ++ map_of (ist_inorder small)"
    "length (ist_inorder (ipc_splay_tree_join splay small)) = length (ist_inorder splay) + length (ist_inorder small)"
proof -
  have "m < n" if "m \<in> fst ` set (ist_inorder small)" "n \<in> fst ` set (ist_inorder splay)" for m n
    using assms(3) [of m n] that by (auto simp: dom_map_of_conv_image_fst intro: index_less)
  then show "ist_ok (ipc_splay_tree_join splay small)"
    by (intro ipc_splay_tree_join_ok [OF assms(1,2)])
  show "map_of (ist_inorder (ipc_splay_tree_join splay small)) = map_of (ist_inorder splay) ++ map_of (ist_inorder small)"
    "length (ist_inorder (ipc_splay_tree_join splay small)) = length (ist_inorder splay) + length (ist_inorder small)"
    by (simp_all add: ipc_splay_tree_join_inorder [OF assms(1,2)])
qed

text \<open>The tree part of \<open>dealloc_collision\<close>.\<close>

definition take_collision ::
  "ipc_entry ipc_splay_tree \<Rightarrow> nat \<Rightarrow> (mach_port_t \<times> ipc_entry \<times> bool \<times> ipc_entry ipc_splay_tree) option" where
  "take_collision tree0 index =
     (case ipc_splay_tree_split tree0 (MACH_PORT_MAKE (of_nat (index + 1)) 0) of (tree, collisions) \<Rightarrow>
      case ipc_splay_tree_split collisions (MACH_PORT_MAKE (of_nat index) 0) of (collisions, small) \<Rightarrow>
      case ipc_splay_tree_pick collisions of
        None \<Rightarrow> None
      | Some (tname, tentry) \<Rightarrow>
         (let collisions = ipc_splay_tree_delete collisions tname; more = (ipc_splay_tree_pick collisions \<noteq> None)
          in Some (tname, tentry, more,
               ipc_splay_tree_join (if more then ipc_splay_tree_join tree collisions else tree) small)))"

lemma take_collision_correct:
  assumes ok: "ist_ok tree0" and i: "i < 16777215" and c: "i \<in> name_index ` dom (map_of (ist_inorder tree0))"
  obtains tname tentry more tree' where "take_collision tree0 i = Some (tname, tentry, more, tree')"
    "map_of (ist_inorder tree0) tname = Some tentry" "name_index tname = i"
    "more \<longleftrightarrow> i \<in> name_index ` dom ((map_of (ist_inorder tree0))(tname := None))"
    "ist_ok tree'" "map_of (ist_inorder tree') = (map_of (ist_inorder tree0))(tname := None)"
    "Suc (length (ist_inorder tree')) = length (ist_inorder tree0)"
proof -
  let ?m = "map_of (ist_inorder tree0)"
  obtain tree c0 where s1: "ipc_splay_tree_split tree0 (MACH_PORT_MAKE (of_nat (i + 1)) 0) = (tree, c0)" by fastforce
  note p1 = split_pieces [OF ok _ s1]
  obtain coll small where s2: "ipc_splay_tree_split c0 (MACH_PORT_MAKE (of_nat i) 0) = (coll, small)" by fastforce
  have p1: "ist_ok tree" "ist_ok c0" "map_of (ist_inorder tree) = ?m |` {n. i < name_index n}"
    "ist_inorder c0 = filter (\<lambda>x. name_index (fst x) < i + 1) (ist_inorder tree0)"
    "ist_inorder tree = filter (\<lambda>x. i + 1 \<le> name_index (fst x)) (ist_inorder tree0)"
    using p1 i map_of_filter_fst [of "\<lambda>n. i + 1 \<le> name_index n" "ist_inorder tree0"] by (auto simp: Suc_le_eq)
  note q2 = split_pieces [OF p1(2) _ s2]
  have p2: "ist_ok coll" "ist_ok small" "map_of (ist_inorder coll) = ?m |` {n. name_index n = i}"
    "map_of (ist_inorder small) = ?m |` {n. name_index n < i}"
    using q2 i map_of_filter_fst [of "\<lambda>n. name_index n < Suc i \<and> i \<le> name_index n" "ist_inorder tree0"]
      map_of_filter_fst [of "\<lambda>n. name_index n < Suc i \<and> name_index n < i" "ist_inorder tree0"]
    by (auto simp: p1(4) fun_eq_iff restrict_map_def)
  have len: "length (ist_inorder tree) + (length (ist_inorder coll) + length (ist_inorder small)) = length (ist_inorder tree0)"
    using sum_length_filter_compl [of "\<lambda>x. i + 1 \<le> name_index (fst x)" "ist_inorder tree0"]
      sum_length_filter_compl [of "\<lambda>x. i \<le> name_index (fst x)" "ist_inorder c0"] q2(3,4) i
    by (simp add: p1(4,5) not_le less_Suc_eq_le not_less_eq_eq)
  obtain n where "n \<in> dom ?m" "name_index n = i" using c by auto
  then have "map_of (ist_inorder coll) n \<noteq> None" by (auto simp: p2(3))
  then have "ipc_splay_tree_pick coll \<noteq> None" using ipc_splay_tree_pick_None [OF p2(1)] by auto
  then obtain tname tentry where pick: "ipc_splay_tree_pick coll = Some (tname, tentry)" by auto
  have t: "map_of (ist_inorder coll) tname = Some tentry" by (rule ipc_splay_tree_pick_Some [OF p2(1) pick])
  then have t': "?m tname = Some tentry" "name_index tname = i" by (auto simp: p2(3) restrict_map_def split: if_splits)
  have tn: "map_of (ist_inorder coll) tname \<noteq> None" using t by simp
  let ?c = "ipc_splay_tree_delete coll tname"
  note dm = st.delete_map [OF p2(1) tn] and dok = st.delete_ok [OF p2(1) tn] and dl = st.delete_length [OF p2(1) tn]
  let ?more = "ipc_splay_tree_pick ?c \<noteq> None"
  have more: "?more \<longleftrightarrow> ist_inorder ?c \<noteq> []" using ipc_splay_tree_pick_None [OF dok] by simp
  have "ist_inorder ?c \<noteq> [] \<longleftrightarrow> map_of (ist_inorder ?c) \<noteq> Map.empty" by simp
  also have "\<dots> \<longleftrightarrow> i \<in> name_index ` dom (?m(tname := None))"
    unfolding dm p2(3) by (auto simp: fun_eq_iff restrict_map_def image_iff)
  finally have m2: "?more \<longleftrightarrow> i \<in> name_index ` dom (?m(tname := None))" using more by simp
  have o1: "name_index m < name_index n" if "m \<in> dom (map_of (ist_inorder ?c))" "n \<in> dom (map_of (ist_inorder tree))" for m n
    using that unfolding dm p1(3) p2(3) by (auto simp: restrict_map_def split: if_splits)
  let ?jt = "if ?more then ipc_splay_tree_join tree ?c else tree"
  have jt: "ist_ok ?jt" "map_of (ist_inorder ?jt) = map_of (ist_inorder tree) ++ map_of (ist_inorder ?c)"
    "length (ist_inorder ?jt) = length (ist_inorder tree) + length (ist_inorder ?c)"
    using join_pieces [OF p1(1) dok o1] p1(1) more by (cases ?more; simp)+
  have o2: "name_index m < name_index n" if "m \<in> dom (map_of (ist_inorder small))" "n \<in> dom (map_of (ist_inorder ?jt))" for m n
    using that unfolding jt(2) dm p1(3) p2(3,4) by (auto simp: restrict_map_def split: if_splits)
  have j: "ist_ok (ipc_splay_tree_join ?jt small)"
    "map_of (ist_inorder (ipc_splay_tree_join ?jt small)) = map_of (ist_inorder ?jt) ++ map_of (ist_inorder small)"
    "length (ist_inorder (ipc_splay_tree_join ?jt small)) = length (ist_inorder ?jt) + length (ist_inorder small)"
    by (rule join_pieces [OF jt(1) p2(2) o2]; assumption)+
  have "map_of (ist_inorder (ipc_splay_tree_join ?jt small)) = ?m(tname := None)"
    unfolding j(2) jt(2) dm p1(3) p2(3,4) using t'(2)
    by (auto simp: fun_eq_iff map_add_def restrict_map_def split: option.splits)
  moreover have "take_collision tree0 i = Some (tname, tentry, ?more, ipc_splay_tree_join ?jt small)"
    using s1 s2 pick by (simp add: take_collision_def Let_def)
  ultimately show thesis using that t' m2 j(1,3) jt(3) dl len by simp
qed
section \<open>A tree entry that has moved into the table\<close>

lemma collision_moved:
  assumes ok: "table_ok {name} t fs" "tree_ok {name} t fs tm" "counts_ok tab is" "hashes_ok {name} space is g"
    and t: "t = is_table is" "tm = is_tree_map is" "u = is_table is'" "tm' = is_tree_map is'"
    and i: "0 < i" "i < length t" "i \<notin> set fs" "name = entry_name i (t ! i)"
    and e: "tm tname = Some e" "name_index tname = i"
    and tree: "tm' = tm(tname := None)" "ist_ok (is_tree is')" "Suc (length (ist_inorder (is_tree is'))) = length (ist_inorder (is_tree is))"
    and cnt: "is_tree_total is' = is_tree_total is - 1" "is_tree_small is' = is_tree_small is" "is_table_next is' = is_table_next is" "is_fast is' = is_fast is"
    and u: "length u = length t" "\<And>k. k < length t \<Longrightarrow> k \<noteq> i \<Longrightarrow> ie_bits (u ! k) = ie_bits (t ! k) \<and> ie_object (u ! k) = ie_object (t ! k) \<and> ie_request (u ! k) = ie_request (t ! k)"
    and ui: "IE_BITS_TYPE (ie_bits (u ! i)) = IE_BITS_TYPE (ie_bits e)" "IE_BITS_GEN (ie_bits (u ! i)) = MACH_PORT_GEN tname"
      "bit (ie_bits (u ! i)) 23 \<longleftrightarrow> i \<in> name_index ` dom tm'" "right_of (u ! i) = right_of e"
    and h: "hash_ok u" "hashed u = pure_set {} u" "ghash_ok g'"
      "gnodes g' = (if pure_send e then gnodes g - {(space, tname, ie_object e)} else gnodes g)"
      "is_tree_hash is' = (if pure_send e then is_tree_hash is - 1 else is_tree_hash is)"
  shows "space_ok tab {} space is' g' \<and> rights is' = (rights is)(name := None)"
proof -
  note d = table_okD [OF ok(1)] and te = tree_okD [OF ok(2)]
  have img: "name_index ` dom tm = insert i (name_index ` dom tm')"
    using index_image_delete [of tm tname e] e tree(1) by simp
  have nt: "n \<noteq> name" if "tm n = Some x" for n x
    using te(2) [OF that] i d(2) by (auto simp: name_index_entry_name gen_entry_name)
  have used: "in_use (u ! i)" using te(1) [OF e(1)] nt [OF e(1)] ui(1) by (simp add: in_use_def)
  have same: "in_use (u ! k) = in_use (t ! k)" "entry_name k (u ! k) = entry_name k (t ! k)" "right_of (u ! k) = right_of (t ! k)"
    if "k < length t" "k \<noteq> i" for k
    using u(2) [OF that] by (simp_all add: in_use_def entry_name_def MACH_PORT_MAKEB_def right_of_def)
  have "table_ok {} u fs"
  proof (rule table_okI)
    show "chain u 0 fs" by (rule chain_cong [OF d(3)]) (use u(2) d(1,5) i in auto)
    show "\<not> in_use (u ! 0)" "IE_BITS_GEN (ie_bits (u ! 0)) = IE_BITS_GEN_MASK" using d(1,6,7) u(2) [of 0] same(1) [of 0] i by auto
    show "ie_bits (u ! k) AND NOT IE_BITS_GEN_MASK = 0 \<and> ie_object (u ! k) = IO_NULL" if "k \<in> set fs" for k
      using d(5) [OF that] d(8) [OF that] u(2) [of k] i(3) that by (cases "k = i") auto
    show "in_use (u ! k) \<or> entry_name k (u ! k) \<in> {}" if "0 < k" "k < length u" "k \<notin> set fs" for k
      using used that d(9) [of k] same [of k] u(1) i d(2) entry_name_index [of k i "t ! k" "t ! i"] by (cases "k = i") auto
  qed (use d u(1) in auto)
  moreover have "tree_ok {} u fs tm'"
  proof (rule tree_okI)
    show "MACH_PORT_VALID n \<and> (in_use x \<or> n \<in> {}) \<and> IE_BITS_GEN (ie_bits x) = 0 \<and> \<not> bit (ie_bits x) 23"
      if "tm' n = Some x" for n x
      using that te(1) [of n x] nt [of n x] by (auto simp: tree(1) split: if_splits)
    show "name_index n \<notin> set fs \<and> IE_BITS_GEN (ie_bits (u ! name_index n)) \<noteq> MACH_PORT_GEN n"
      if "tm' n = Some x" "0 < name_index n" "name_index n < length u" for n x
    proof (cases "name_index n = i")
      case True
      have "n \<noteq> tname" using that(1) by (auto simp: tree(1))
      then have "MACH_PORT_GEN n \<noteq> MACH_PORT_GEN tname" using True e(2) name_eqI [of n tname] by argo
      then show ?thesis using True i(3) ui(2) by simp
    next
      case False
      have "tm n = Some x" using that(1) by (simp add: tree(1) split: if_splits)
      then show ?thesis using that te(2) [of n x] u(1) u(2) [of "name_index n"] False by simp
    qed
    show "bit (ie_bits (u ! k)) 23 \<longleftrightarrow> k \<in> name_index ` dom tm'" if "k < length u" for k
    proof (cases "k = i")
      case False
      have "k \<in> name_index ` dom tm \<longleftrightarrow> k \<in> name_index ` dom tm'"
        unfolding img using False by blast
      then show ?thesis using that te(3) [of k] u(1) u(2) [of k] False by simp
    qed (use ui(3) in simp)
  qed
  moreover have "counts_ok tab is'"
  proof -
    have "small_indices tab is' = small_indices tab is"
      using img i(2) u(1) cnt(3) by (auto simp: small_indices_def simp flip: t)
    then show ?thesis using ok(3) cnt tree(2,3) u(1) by (auto simp: counts_ok_def t)
  qed
  moreover have "hashes_ok {} space is' g'"
  proof -
    have g: "(space, n, io) \<in> gnodes g \<longleftrightarrow> (\<exists>x. tm n = Some x \<and> pure_send x \<and> ie_object x = io)" for n io
      using ok(4) nt by (auto simp: hashes_ok_pure_set t)
    have g': "(space, n, io) \<in> gnodes g' \<longleftrightarrow> (\<exists>x. tm' n = Some x \<and> pure_send x \<and> ie_object x = io)" for n io
      using g [of n io] e(1) by (auto simp: h(4) tree(1))
    have "{n. \<exists>io. (space, n, io) \<in> gnodes g'} = (if pure_send e then {n. \<exists>io. (space, n, io) \<in> gnodes g} - {tname} else {n. \<exists>io. (space, n, io) \<in> gnodes g})"
      using e(1) by (auto simp: g g' tree(1) split: if_splits)
    moreover have "pure_send e \<Longrightarrow> tname \<in> {n. \<exists>io. (space, n, io) \<in> gnodes g}" using e(1) by (simp add: g)
    moreover have "is_tree_hash is = card {n. \<exists>io. (space, n, io) \<in> gnodes g}" using ok(4) by (simp add: hashes_ok_pure_set)
    ultimately have "is_tree_hash is' = card {n. \<exists>io. (space, n, io) \<in> gnodes g'}" using h(5) by (auto simp: card_Diff_singleton)
    then show ?thesis using h g' by (auto simp: hashes_ok_pure_set t)
  qed
  moreover have "rights is' m = ((rights is)(name := None)) m" for m
  proof -
    have tab: "table_entry_of t tname = None" using te(2) [OF e(1)] e(2) i by (auto simp: table_entry_of_def Let_def)
    have nm: "name_index name = i" "MACH_PORT_GEN name = IE_BITS_GEN (ie_bits (t ! i))"
      using i d(2) by (simp_all add: name_index_entry_name gen_entry_name)
    have tm: "tm name = None" using nt [of name] by (cases "tm name") auto
    show ?thesis
    proof (cases "name_index m = i")
      case True
      have "table_entry_of u m = (if m = tname then Some (u ! i) else None)"
        using True used ui(2) e(2) i u(1) name_eqI [of m tname] by (auto simp: table_entry_of_def Let_def)
      moreover have "table_entry_of t m = None" if "m \<noteq> name"
        using that True nm name_eqI [of m name] by (auto simp: table_entry_of_def Let_def)
      ultimately show ?thesis
        using tab tm nt [OF e(1)] e(1) ui(4) tree(1) by (auto simp: rights_eq simp flip: t)
    next
      case False
      then have "m \<noteq> name" "m \<noteq> tname" using nm e(2) by auto
      moreover have "map_option right_of (table_entry_of u m) = map_option right_of (table_entry_of t m)"
        using False same [of "name_index m"] u(1) u(2) [of "name_index m"] by (auto simp: table_entry_of_def Let_def)
      moreover have "is_tree_map is' m = is_tree_map is m" using tree(1) t \<open>m \<noteq> tname\<close> by simp
      ultimately show ?thesis using t(1,3) by (simp add: rights_eq' cong: option.case_cong)
    qed
  qed
  ultimately show ?thesis by (auto simp: space_ok_def t)
qed

section \<open>\<open>ipc_entry_dealloc\<close>\<close>

lemma dealloc_collision_eq:
  "dealloc_collision space is g index =
     (case take_collision (is_tree is) index of None \<Rightarrow> None
      | Some (tname, tentry, again, tree) \<Rightarrow>
        (let is1 = is\<lparr>is_table := (is_table is)[index := (is_table is ! index)
              \<lparr>ie_bits := ie_bits tentry OR MACH_PORT_GEN tname, ie_object := ie_object tentry, ie_request := ie_request tentry\<rparr>]\<rparr>
         in case (if pure_send tentry
                  then (case ipc_hash_global_delete is1 g space (ie_object tentry) tname of (is, g) \<Rightarrow>
                          map_option (\<lambda>table. (is\<lparr>is_table := table\<rparr>, g))
                            (ipc_hash_local_insert (is_table is) (ie_object tentry) index))
                  else Some (is1, g)) of
              None \<Rightarrow> None
            | Some (is2, g) \<Rightarrow>
                (let is3 = is2\<lparr>is_tree_total := is_tree_total is2 - 1\<rparr> in
                 Some ((if again then is3\<lparr>is_table := (is_table is3)[index := (is_table is3 ! index)
                     \<lparr>ie_bits := ie_bits (is_table is3 ! index) OR IE_BITS_COLLISION\<rparr>]\<rparr> else is3)\<lparr>is_tree := tree\<rparr>, g))))"
proof -
  obtain tree c0 where s1: "ipc_splay_tree_split (is_tree is) (MACH_PORT_MAKE (of_nat (index + 1)) 0) = (tree, c0)" by fastforce
  obtain coll small where s2: "ipc_splay_tree_split c0 (MACH_PORT_MAKE (of_nat index) 0) = (coll, small)" by fastforce
  show ?thesis
  proof (cases "ipc_splay_tree_pick coll")
    case None
    then show ?thesis using s1 s2 by (simp add: dealloc_collision_def take_collision_def)
  next
    case (Some p)
    obtain tname tentry where p: "p = (tname, tentry)" by fastforce
    show ?thesis
      using s1 s2 Some p
      by (cases "ipc_splay_tree_pick (ipc_splay_tree_delete coll tname)")
        (auto simp: dealloc_collision_def take_collision_def Let_def split: prod.split option.split)
  qed
qed

lemma pure_set_moved:
  assumes "length u = length t" "length t \<le> 16777215" "0 < i" "i < length t" "name = entry_name i (t ! i)"
    "\<And>k. k < length t \<Longrightarrow> k \<noteq> i \<Longrightarrow> ie_bits (u ! k) = ie_bits (t ! k)"
  shows "pure_set {} u = (if pure_send (u ! i) then insert i (pure_set {name} t) else pure_set {name} t)"
proof -
  have "k \<in> pure_set {} u \<longleftrightarrow> k \<in> (if pure_send (u ! i) then insert i (pure_set {name} t) else pure_set {name} t)" for k
  proof (cases "k = i \<or> length t \<le> k")
    case False
    then have "entry_name k (t ! k) \<noteq> name"
      using assms(2,4,5) entry_name_index [of k i "t ! k" "t ! i"] by auto
    then show ?thesis using False assms(1) assms(6) [of k] by (simp add: pure_set_def)
  qed (use assms(1,3-5) in \<open>auto simp: pure_set_def\<close>)
  then show ?thesis by blast
qed

lemma right_of_moved:
  assumes "IE_BITS_GEN (ie_bits e) = 0"
  shows "right_of (x\<lparr>ie_bits := ie_bits e OR MACH_PORT_GEN n, ie_object := ie_object e, ie_request := ie_request e\<rparr>) = right_of e"
    "right_of (x\<lparr>ie_bits := (ie_bits e OR MACH_PORT_GEN n) OR IE_BITS_COLLISION, ie_object := ie_object e, ie_request := ie_request e\<rparr>) = right_of e"
proof -
  have "(ie_bits e OR MACH_PORT_GEN n) AND IE_BITS_RIGHT_MASK = ie_bits e AND IE_BITS_RIGHT_MASK"
    using MACH_PORT_GEN_fields(4) [of n] free_bits(4) [of "MACH_PORT_GEN n"] by (simp add: bit.conj_disj_distrib2)
  then show "right_of (x\<lparr>ie_bits := ie_bits e OR MACH_PORT_GEN n, ie_object := ie_object e, ie_request := ie_request e\<rparr>) = right_of e"
    "right_of (x\<lparr>ie_bits := (ie_bits e OR MACH_PORT_GEN n) OR IE_BITS_COLLISION, ie_object := ie_object e, ie_request := ie_request e\<rparr>) = right_of e"
    by (simp_all add: right_of_def RIGHT_MASK_collision)
qed

text \<open>The reverse tables after the move, before the collision bit is set.\<close>

lemma hash_moved:
  assumes h: "hashes_ok {name} space is g" and i: "0 < i" "i < is_table_size is" "name = entry_name i (is_table is ! i)"
    and e: "is_tree_map is tname = Some e" "tname \<noteq> name"
    and t1: "t1 = (is_table is)[i := x]" "ie_index x = ie_index (is_table is ! i)" "ie_object x = ie_object e"
    and is1: "is_table is1 = t1"
  obtains t2 g' where "(if pure_send e
      then (case ipc_hash_global_delete is1 g space (ie_object e) tname of (is, g) \<Rightarrow>
              map_option (\<lambda>table. (is\<lparr>is_table := table\<rparr>, g)) (ipc_hash_local_insert (is_table is) (ie_object e) i))
      else Some (is1, g)) =
      Some (is1\<lparr>is_tree_hash := (if pure_send e then is_tree_hash is1 - 1 else is_tree_hash is1), is_table := t2\<rparr>, g')"
    "same_entries t1 t2" "hash_ok t2"
    "hashed t2 = (if pure_send e then insert i (pure_set {name} (is_table is)) else pure_set {name} (is_table is))"
    "ghash_ok g'" "gnodes g' = (if pure_send e then gnodes g - {(space, tname, ie_object e)} else gnodes g)"
proof -
  let ?t = "is_table is"
  have hh: "hash_ok ?t" "hashed ?t = pure_set {name} ?t" "ghash_ok g" using h by (auto simp: hashes_ok_pure_set)
  have ni: "i \<notin> pure_set {name} ?t" using i(3) by (simp add: pure_set_def)
  have l: "length t1 = length ?t" using t1(1) by simp
  have ix: "ie_index (t1 ! k) = ie_index (?t ! k)" for k using t1(1,2) by (simp add: nth_update_if)
  have ob: "ie_object (t1 ! k) = ie_object (?t ! k)" if "k \<in> hashed ?t" for k
    using that ni hh(2) t1(1) by (cases "k = i") (simp_all add: nth_update_if)
  note t1h = hash_ok_cong [OF hh(1) l ix ob]
  show thesis
  proof (cases "pure_send e")
    case False
    moreover have "is1\<lparr>is_tree_hash := is_tree_hash is1, is_table := t1\<rparr> = is1" using is1 by (cases is1) simp
    ultimately show thesis using that [of t1 g] t1h hh by simp
  next
    case True
    have "(space, tname, ie_object e) \<in> gnodes g" using h e True by (auto simp: hashes_ok_pure_set)
    note gd = ipc_hash_global_delete_correct [OF hh(3) this, of is1]
    obtain g' where g': "ipc_hash_global_delete is1 g space (ie_object e) tname = (is1\<lparr>is_tree_hash := is_tree_hash is1 - 1\<rparr>, g')"
      by (simp add: ipc_hash_global_delete_def Let_def)
    have "t1 ! i = x" "length t1 = length ?t" using t1(1) i(2) by auto
    then obtain t2 where t2: "ipc_hash_local_insert t1 (ie_object e) i = Some t2" "hash_ok t2" "hashed t2 = insert i (hashed t1)" "same_entries t1 t2"
      using ipc_hash_local_insert_correct [OF t1h(1) i(1), of "ie_object e"] i(2) ni t1h(2) hh(2) t1(3) by metis
    show thesis
      using that [of t2 g'] True g' gd t2 is1 t1h(2) hh(2) by simp
  qed
qed

lemma dealloc_collision_correct:
  assumes ok: "table_ok {name} (is_table is) fs" "tree_ok {name} (is_table is) fs (is_tree_map is)" "counts_ok tab is" "hashes_ok {name} space is g"
    and i: "0 < i" "i < is_table_size is" "i \<notin> set fs" "name = entry_name i (is_table is ! i)"
    and c: "bit (ie_bits (is_table is ! i)) 23"
  shows "\<exists>is' g'. dealloc_collision space is g i = Some (is', g') \<and>
    space_ok tab {} space is' g' \<and> rights is' = (rights is)(name := None) \<and>
    (\<forall>x. fst x \<noteq> space \<longrightarrow> (x \<in> gnodes g' \<longleftrightarrow> x \<in> gnodes g))"
proof -
  let ?t = "is_table is"
  note d = table_okD [OF ok(1)] and te = tree_okD [OF ok(2)]
  have img: "i \<in> name_index ` dom (is_tree_map is)" using te(3) [OF i(2)] c by simp
  have o: "ist_ok (is_tree is)" using ok(3) by (simp add: counts_ok_def)
  have b: "i < 16777215" using i(2) d(2) by linarith
  obtain tname e again tree' where t: "take_collision (is_tree is) i = Some (tname, e, again, tree')"
      "is_tree_map is tname = Some e" "name_index tname = i"
      "again \<longleftrightarrow> i \<in> name_index ` dom ((is_tree_map is)(tname := None))"
      "ist_ok tree'" "map_of (ist_inorder tree') = (is_tree_map is)(tname := None)"
      "Suc (length (ist_inorder tree')) = length (ist_inorder (is_tree is))"
    using take_collision_correct [OF o b img] .
  have e: "in_use e \<or> tname = name" "IE_BITS_GEN (ie_bits e) = 0" "\<not> bit (ie_bits e) 23" using te(1) [OF t(2)] by auto
  have "MACH_PORT_GEN name = IE_BITS_GEN (ie_bits (?t ! i))" using i(4) by (simp add: gen_entry_name)
  then have tn: "tname \<noteq> name" using te(2) [OF t(2)] t(3) i by auto
  let ?x = "(?t ! i)\<lparr>ie_bits := ie_bits e OR MACH_PORT_GEN tname, ie_object := ie_object e, ie_request := ie_request e\<rparr>"
  let ?is1 = "is\<lparr>is_table := ?t[i := ?x]\<rparr>"
  have x: "ie_index ?x = ie_index (?t ! i)" "ie_object ?x = ie_object e" "is_table ?is1 = ?t[i := ?x]" by simp_all
  obtain t2 g' where h: "(if pure_send e
      then (case ipc_hash_global_delete ?is1 g space (ie_object e) tname of (is, g) \<Rightarrow>
              map_option (\<lambda>table. (is\<lparr>is_table := table\<rparr>, g)) (ipc_hash_local_insert (is_table is) (ie_object e) i))
      else Some (?is1, g)) =
      Some (?is1\<lparr>is_tree_hash := (if pure_send e then is_tree_hash ?is1 - 1 else is_tree_hash ?is1), is_table := t2\<rparr>, g')"
    "same_entries (?t[i := ?x]) t2" "hash_ok t2"
    "hashed t2 = (if pure_send e then insert i (pure_set {name} ?t) else pure_set {name} ?t)"
    "ghash_ok g'" "gnodes g' = (if pure_send e then gnodes g - {(space, tname, ie_object e)} else gnodes g)"
    by (rule hash_moved [OF ok(4) i(1,2,4) t(2) tn refl x]) (rule that)
  have s: "length t2 = length ?t" "\<And>k. k < length ?t \<Longrightarrow> ie_bits (t2 ! k) = ie_bits (?t[i := ?x] ! k) \<and>
      ie_object (t2 ! k) = ie_object (?t[i := ?x] ! k) \<and> ie_request (t2 ! k) = ie_request (?t[i := ?x] ! k)"
    using h(2) by (auto simp: same_entries_iff)
  define u where "u = (if again then t2[i := (t2 ! i)\<lparr>ie_bits := ie_bits (t2 ! i) OR IE_BITS_COLLISION\<rparr>] else t2)"
  define is' where "is' = is\<lparr>is_table := u, is_tree_hash := (if pure_send e then is_tree_hash is - 1 else is_tree_hash is),
    is_tree_total := is_tree_total is - 1, is_tree := tree'\<rparr>"
  have eq: "dealloc_collision space is g i = Some (is', g')"
    unfolding dealloc_collision_eq using t(1) h(1) by (simp add: u_def is'_def Let_def)
  have sim: "similar t2 u" by (simp add: u_def similar_collision)
  have ui: "ie_object (u ! i) = ie_object e" "ie_request (u ! i) = ie_request e"
      "ie_bits (u ! i) = (if again then (ie_bits e OR MACH_PORT_GEN tname) OR IE_BITS_COLLISION else ie_bits e OR MACH_PORT_GEN tname)"
    using s(2) [OF i(2)] s(1) i(2) by (auto simp: u_def)
  have uk: "ie_bits (u ! k) = ie_bits (?t ! k) \<and> ie_object (u ! k) = ie_object (?t ! k) \<and> ie_request (u ! k) = ie_request (?t ! k)"
    if "k < length ?t" "k \<noteq> i" for k
    using s(2) [OF that(1)] that by (auto simp: u_def)
  have ul: "length u = length ?t" using s(1) by (simp add: u_def)
  have hu: "hash_ok u" "hashed u = hashed t2"
    using hash_ok_cong [OF h(3) similar_length [OF sim] similarD(6) [OF sim]] similarD(4) [OF sim] hashed_less [OF h(3)] by auto
  have "pure_send (u ! i) = pure_send e" using ui(3) by (simp add: COLLISION_fields or_GEN_fields)
  then have pu: "hashed u = pure_set {} u"
    using pure_set_moved [OF ul d(2) i(1,2,4)] uk hu(2) h(4) by simp
  have "space_ok tab {} space is' g' \<and> rights is' = (rights is)(name := None)"
  proof (rule collision_moved [OF ok refl refl refl refl i t(2,3)])
    show "right_of (is_table is' ! i) = right_of e"
      using ui right_of_moved [OF e(2), where x = "u ! i" and n = tname] by (auto simp: is'_def right_of_def)
  qed (use t e ui uk ul hu(1) pu h(5,6) in \<open>auto simp: is'_def COLLISION_fields or_GEN_fields\<close>)
  then show ?thesis using eq h(6) by auto
qed

text \<open>
  C1: \<^verbatim>\<open>ipc_entry_dealloc\<close> removes exactly one name. In a well-formed space whose only unfinished
  entry is the one to be deallocated, the call returns, whether the entry is in the table, in the tree,
  or in the table with collisions that move a tree entry into its place; the space is well-formed
  again, its free list, its reverse hash tables and its counters included, it maps every other name to
  the same right as before and the deallocated name to none, and the global reverse table keeps the
  entries of the other spaces.
\<close>

theorem entry_dealloc_removes_name:
  assumes ok: "space_ok tab {name} space is g" and a: "allocated is name entry" and null: "ie_object (ie_at is entry) = IO_NULL"
  shows "\<exists>is' g'. ipc_entry_dealloc tab space is g name entry = Some (is', g') \<and>
    space_ok tab {} space is' g' \<and> rights is' = (rights is)(name := None) \<and>
    (\<forall>x. fst x \<noteq> space \<longrightarrow> (x \<in> gnodes g' \<longleftrightarrow> x \<in> gnodes g))"
proof -
  obtain fs where fs: "table_ok {name} (is_table is) fs" "tree_ok {name} (is_table is) fs (is_tree_map is)"
    and c: "counts_ok tab is" "hashes_ok {name} space is g"
    using ok by (auto simp: space_ok_def)
  note d = table_okD [OF fs(1)]
  show ?thesis
  proof (cases entry)
    case (TABLE_ENTRY i)
    then have i: "0 < i" "i < is_table_size is" "name = entry_name i (is_table is ! i)" "i \<notin> set fs"
      using a d(3) by (auto simp: allocated_def)
    have ni: "name_index name = i" using i d(2) by (simp add: name_index_entry_name)
    have obj: "ie_object (is_table is ! i) = IO_NULL" using null TABLE_ENTRY by (simp add: ie_at_def)
    show ?thesis
    proof (cases "bit (ie_bits (is_table is ! i)) 23")
      case True
      then have "is_tree_map is \<noteq> Map.empty" using tree_okD(3) [OF fs(2) i(2)] by auto
      then have "\<not> is_fast is" using c(1) is_tree_total_zero [OF c(1)] by (auto simp: counts_ok_def)
      then show ?thesis
        using dealloc_collision_correct [OF fs c i(1,2,4,3) True] True TABLE_ENTRY i ni
        by (simp add: ipc_entry_dealloc_def Let_def is_table_entry_def COLLISION_iff)
    next
      case False
      then show ?thesis
        using free_list_push_correct [OF fs c i(1,2,4) obj False i(3)] TABLE_ENTRY i ni
        by (simp add: ipc_entry_dealloc_def Let_def is_table_entry_def COLLISION_iff)
    qed
  next
    case (TREE_ENTRY m)
    then have m: "m = name" "name \<in> dom (is_tree_map is)" using a by (auto simp: allocated_def)
    then obtain e where e: "is_tree_map is name = Some e" by auto
    then have "\<not> is_fast is" using c(1) is_tree_total_zero [OF c(1)] by (auto simp: counts_ok_def)
    then show ?thesis
      using dealloc_tree_correct [OF fs c e] TREE_ENTRY by (simp add: ipc_entry_dealloc_def Let_def is_table_entry_def)
  qed
qed

text \<open>
  C8: \<^verbatim>\<open>ipc_entry_lookup\<close> finds a name in a well-formed space exactly when the space has it, and
  answers with the entry that holds its right; the lookup only reshapes the splay tree. The one
  exception is the name with index 0 and generation 0xff, which position 0 of the table hides; in a
  fast space the name must have an index inside the table, as the code does not check it.
\<close>

theorem entry_lookup_correct:
  assumes ok: "space_ok tab {} space is g" and l: "ipc_entry_lookup is name = (r, is')"
    and "\<not> shadowed name" "is_fast is \<longrightarrow> name_index name < is_table_size is"
  shows "(r = None \<longleftrightarrow> rights is name = None) \<and>
    (\<forall>entry. r = Some entry \<longrightarrow> rights is name = Some (right_of (ie_at is' entry))) \<and>
    rights is' = rights is \<and> space_ok tab {} space is' g"
proof -
  obtain fs where fs: "table_ok {} (is_table is) fs" "tree_ok {} (is_table is) fs (is_tree_map is)"
    and c: "counts_ok tab is" "hashes_ok {} space is g"
    using ok by (auto simp: space_ok_def)
  have f: "r = find_entry is name" and rs: "resplayed is is'"
    using ipc_entry_lookup_correct [OF fs c(1) l] assms(3,4) by auto
  note d = resplayedD [OF rs]
  have at: "ie_at is' entry = ie_at is entry" for entry by (simp add: ie_at_def d split: ipc_entry_ref.split)
  have "rights is' = rights is" by (simp add: fun_eq_iff rights_def find_entry_def at d)
  moreover have "space_ok tab {} space is' g"
    using fs c d by (auto simp: space_ok_def counts_ok_def hashes_ok_def small_indices_def)
  ultimately show ?thesis by (auto simp: f rights_def at)
qed

lemma ipc_entry_get_allocated:
  assumes "space_ok tab X space is g" "ipc_entry_get is = Some (name, entry, is')"
  shows "allocated is' name entry"
proof -
  obtain fs where fs: "table_ok X (is_table is) fs" using assms(1) by (auto simp: space_ok_def)
  have "fs \<noteq> []"
    using assms(2) chain_Nil_iff [OF table_okD(3) [OF fs]] by (auto simp: ipc_entry_get_def Let_def)
  then obtain j js where j: "fs = j # js" by (cases fs) auto
  note d = table_okD [OF fs[unfolded j]]
  have jn: "ie_next (is_table is ! 0) = j" "0 < j" "j < is_table_size is" using d(3) d(5) [of j] by auto
  have "is' = is\<lparr>is_table := table_get (is_table is) j\<rparr>" "entry = TABLE_ENTRY j"
    using assms(2) ipc_entry_get_eq [of "is"] jn by (simp_all add: Let_def)
  moreover have "name = entry_name j (ie_at is' entry)"
    using ipc_entry_get_correct [OF assms] calculation(2) by simp
  moreover have "chain (table_get (is_table is) j) 0 js"
    by (rule table_okD(3) [OF table_ok_get [OF fs[unfolded j]]])
  ultimately show ?thesis
    using jn d(4) by (auto simp: allocated_def ie_at_def table_get_nth(1) dest: chain_unique)
qed

lemma in_use_free:
  assumes "ie_bits e AND NOT IE_BITS_GEN_MASK = 0"
  shows "\<not> in_use e"
proof -
  have m: "IE_BITS_TYPE_MASK = NOT IE_BITS_GEN_MASK AND IE_BITS_TYPE_MASK" by code_simp
  have "IE_BITS_TYPE (ie_bits e) = (ie_bits e AND NOT IE_BITS_GEN_MASK) AND IE_BITS_TYPE_MASK"
    unfolding IE_BITS_TYPE_def and.assoc m [symmetric] ..
  then show ?thesis using assms by (simp add: in_use_def MACH_PORT_TYPE_NONE_def)
qed

lemma ipc_entry_get_full:
  assumes "space_ok tab {} space is g" "\<And>i. 0 < i \<Longrightarrow> i < is_table_size is \<Longrightarrow> in_use (is_table is ! i)"
  shows "ipc_entry_get is = None"
proof -
  obtain fs where fs: "table_ok {} (is_table is) fs" using assms(1) by (auto simp: space_ok_def)
  have "\<not> in_use (is_table is ! i)" if "i \<in> set fs" for i
    using table_okD(8) [OF fs that] by (simp add: in_use_free)
  then have "fs = []" using assms(2) table_okD(5) [OF fs] by (cases fs) auto
  then show ?thesis using chain_Nil_iff [OF table_okD(3) [OF fs]] by (simp add: ipc_entry_get_def Let_def)
qed

text \<open>
  C9: \<^verbatim>\<open>ipc_entry_get\<close> takes a fresh name. In a well-formed space the name it returns is valid and
  was not in use, no right under any other name changes, the entry is clean and is the only unfinished
  one, and the space stays well-formed; it fails exactly when every entry of the table
  but the first, which heads the free list, is in use.
\<close>

theorem entry_get_fresh:
  assumes ok: "space_ok tab {} space is g"
  shows "(ipc_entry_get is = None \<longleftrightarrow> (\<forall>i. 0 < i \<and> i < is_table_size is \<longrightarrow> in_use (is_table is ! i))) \<and>
    (\<forall>name entry is'. ipc_entry_get is = Some (name, entry, is') \<longrightarrow>
        rights is name = None \<and> MACH_PORT_VALID name \<and> allocated is' name entry \<and> rights is' = rights is \<and>
        ie_object (ie_at is' entry) = IO_NULL \<and> ie_request (ie_at is' entry) = 0 \<and>
        space_ok tab {name} space is' g)"
proof (intro conjI iffI allI impI)
  fix i
  assume "ipc_entry_get is = None" "0 < i \<and> i < is_table_size is"
  then show "in_use (is_table is ! i)" using ipc_entry_get_None [OF ok] by simp
next
  assume "\<forall>i. 0 < i \<and> i < is_table_size is \<longrightarrow> in_use (is_table is ! i)"
  then show "ipc_entry_get is = None" using ipc_entry_get_full [OF ok] by simp
next
  fix name entry is'
  assume g: "ipc_entry_get is = Some (name, entry, is')"
  note c = ipc_entry_get_correct [OF ok g]
  show "rights is name = None" using c by (simp add: rights_def)
  show "MACH_PORT_VALID name" "rights is' = rights is" "space_ok tab {name} space is' g" using c by simp_all
  show "ie_object (ie_at is' entry) = IO_NULL" "ie_request (ie_at is' entry) = 0" using c by auto
  show "allocated is' name entry" by (rule ipc_entry_get_allocated [OF ok g])
qed

subsection \<open>A small space\<close>

text \<open>
  Four entries: the head of the free list, a pure send right for the port at 0x1000, an entry whose
  bits are an argument, and a free entry. The tree has one name.
  Three choices of the arguments give a well-formed space: an entry that is being deallocated, a full
  entry, and a tree that holds the name with index 0 and generation 0xff.
\<close>

definition ex_space :: "ipc_entry_bits_t \<Rightarrow> mach_port_t \<Rightarrow> ipc_entry_bits_t \<Rightarrow> ipc_space" where
  "ex_space head name bits =
     \<lparr>is_references = 1, is_active = True, is_growing = False,
      is_table = [\<lparr>ie_bits = head, ie_object = 0, ie_request = 3, ie_index = 1\<rparr>,
                  \<lparr>ie_bits = 0x10002, ie_object = 0x1000, ie_request = 0, ie_index = 0\<rparr>,
                  \<lparr>ie_bits = bits, ie_object = 0, ie_request = 0, ie_index = 0\<rparr>,
                  \<lparr>ie_bits = 0, ie_object = 0, ie_request = 0, ie_index = 0\<rparr>],
      is_table_next = 1,
      is_tree = \<lparr>ist_name = name, ist_root = ITE ITE_NULL name \<lparr>ie_bits = 0x100001, ie_object = 0, ie_request = 0, ie_index = 0\<rparr> ITE_NULL,
                 ist_ltree = [], ist_rtree = []\<rparr>,
      is_tree_total = 1, is_tree_small = 0, is_tree_hash = 0, is_fast = False\<rparr>"

definition ex_ghash :: ipc_hash_global where
  "ex_ghash = \<lparr>ipc_hash_global_mask = 0, ipc_hash_global_table = [[]]\<rparr>"

definition ex_case :: "ipc_entry_bits_t \<Rightarrow> mach_port_t \<Rightarrow> ipc_entry_bits_t \<Rightarrow> mach_port_t set \<Rightarrow> bool" where
  "ex_case head name bits X \<longleftrightarrow> (head, name, bits, X) \<in>
     {(0xff000000, 0x207, 0x05800000, {0x205}), (0xff000000, 0x207, 0x05900001, {}), (0xff800000, 0xff, 0x05100001, {})}"

lemma ex_cases:
  shows ex_case_1: "ex_case 0xff000000 0x207 0x05800000 {0x205}"
    and ex_case_2: "ex_case 0xff000000 0x207 0x05900001 {}"
    and ex_case_3: "ex_case 0xff800000 0xff 0x05100001 {}"
  by (simp_all add: ex_case_def)

lemma ex_table_ok:
  assumes "ex_case head name bits X"
  shows "table_ok X (is_table (ex_space head name bits)) [3]"
  using assms unfolding ex_case_def table_ok_def
  by (auto simp: ex_space_def IO_NULL_def in_use_def IE_BITS_TYPE_def IE_BITS_TYPE_MASK_def MACH_PORT_TYPE_values
    IE_BITS_GEN_def IE_BITS_GEN_MASK_def less_Suc_eq entry_name_def MACH_PORT_MAKEB_def MACH_PORT_MAKE_def)

lemma ex_tree_map: "is_tree_map (ex_space head name bits) = [name \<mapsto> \<lparr>ie_bits = 0x100001, ie_object = 0, ie_request = 0, ie_index = 0\<rparr>]"
  by (simp add: ex_space_def ist_inorder_def ist_state_def)

lemma ex_tree_ok:
  assumes "ex_case head name bits X"
  shows "tree_ok X (is_table (ex_space head name bits)) [3] (is_tree_map (ex_space head name bits))"
  using assms unfolding ex_case_def tree_ok_def ex_tree_map
  by (auto simp: ex_space_def in_use_def IE_BITS_TYPE_def IE_BITS_TYPE_MASK_def MACH_PORT_TYPE_values
    IE_BITS_GEN_def IE_BITS_GEN_MASK_def less_Suc_eq MACH_PORT_GEN_def MACH_PORT_INDEX_def MACH_PORT_VALID_def
    MACH_PORT_NULL_def MACH_PORT_DEAD_def)

lemma ex_counts_ok:
  assumes "ex_case head name bits X"
  shows "counts_ok [4, 8] (ex_space head name bits)"
  using assms unfolding ex_case_def counts_ok_def small_indices_def ex_tree_map
  by (auto simp: ex_space_def ist_ok_def ist_inorder_def ist_state_def splayed_def at_name_def MACH_PORT_INDEX_def)

lemma ex_hash_ok: "hash_ok (is_table (ex_space head name bits))" "hashed (is_table (ex_space head name bits)) = {1}"
  by (auto simp: hash_ok_def hashed_def ex_space_def less_Suc_eq ie_index_at_def on_path_def cdist_def IH_LOCAL_HASH_def
    lessThan_Suc)

lemma ex_pure_set:
  assumes "ex_case head name bits X"
  shows "{i. 0 < i \<and> i < is_table_size (ex_space head name bits) \<and> pure_send (is_table (ex_space head name bits) ! i) \<and>
    entry_name i (is_table (ex_space head name bits) ! i) \<notin> X} = {1}"
  using assms unfolding ex_case_def
  by (auto simp: ex_space_def less_Suc_eq IE_BITS_TYPE_def IE_BITS_TYPE_MASK_def MACH_PORT_TYPE_values
    entry_name_def MACH_PORT_MAKEB_def MACH_PORT_MAKE_def IE_BITS_GEN_def IE_BITS_GEN_MASK_def)

lemma ex_space_ok:
  assumes "ex_case head name bits X"
  shows "space_ok [4, 8] X space (ex_space head name bits) ex_ghash"
proof -
  have "ghash_ok ex_ghash" "gnodes ex_ghash = {}" by (auto simp: ghash_ok_def gnodes_def ex_ghash_def)
  then have "hashes_ok X space (ex_space head name bits) ex_ghash"
    unfolding hashes_ok_def ex_tree_map using ex_hash_ok ex_pure_set [OF assms]
    by (simp add: IE_BITS_TYPE_def IE_BITS_TYPE_MASK_def MACH_PORT_TYPE_values) (simp add: ex_space_def)
  then show ?thesis
    using ex_table_ok [OF assms] ex_tree_ok [OF assms] ex_counts_ok [OF assms] by (auto simp: space_ok_def)
qed

theorem entry_dealloc_removes_name_witness:
  "\<exists>is' g'. ipc_entry_dealloc [4, 8] 32 (ex_space 0xff000000 0x207 0x05800000) ex_ghash 0x205 (TABLE_ENTRY 2) = Some (is', g') \<and>
    space_ok [4, 8] {} 32 is' g' \<and> rights is' = (rights (ex_space 0xff000000 0x207 0x05800000))(0x205 := None) \<and>
    (\<forall>x. fst x \<noteq> 32 \<longrightarrow> (x \<in> gnodes g' \<longleftrightarrow> x \<in> gnodes ex_ghash))"
proof (rule entry_dealloc_removes_name [OF ex_space_ok [OF ex_case_1]])
  have "2 \<notin> set gs" if "chain (is_table (ex_space 0xff000000 0x207 0x05800000)) 0 gs" for gs
    using chain_unique [OF that, of "[3]"] ex_table_ok [OF ex_case_1, THEN table_okD(3)] by auto
  moreover have "0x205 = entry_name 2 (is_table (ex_space 0xff000000 0x207 0x05800000) ! 2)" "2 < is_table_size (ex_space 0xff000000 0x207 0x05800000)"
    by (simp_all add: ex_space_def entry_name_def MACH_PORT_MAKEB_def MACH_PORT_MAKE_def IE_BITS_GEN_def IE_BITS_GEN_MASK_def)
  ultimately show "allocated (ex_space 0xff000000 0x207 0x05800000) 0x205 (TABLE_ENTRY 2)" by (simp add: allocated_def)
qed (simp_all add: ie_at_def ex_space_def IO_NULL_def)

theorem entry_lookup_correct_witness:
  "\<exists>r is'. ipc_entry_lookup (ex_space 0xff000000 0x207 0x05900001) 0x207 = (r, is') \<and>
    (r = None \<longleftrightarrow> rights (ex_space 0xff000000 0x207 0x05900001) 0x207 = None) \<and>
    (\<forall>entry. r = Some entry \<longrightarrow> rights (ex_space 0xff000000 0x207 0x05900001) 0x207 = Some (right_of (ie_at is' entry))) \<and>
    rights is' = rights (ex_space 0xff000000 0x207 0x05900001) \<and> space_ok [4, 8] {} 32 is' ex_ghash"
proof -
  obtain r is' where l: "ipc_entry_lookup (ex_space 0xff000000 0x207 0x05900001) 0x207 = (r, is')" by fastforce
  have "\<not> shadowed 0x207" by (simp add: shadowed_def MACH_PORT_INDEX_def)
  moreover have "is_fast (ex_space 0xff000000 0x207 0x05900001) \<longrightarrow> name_index 0x207 < is_table_size (ex_space 0xff000000 0x207 0x05900001)"
    by (simp add: ex_space_def)
  ultimately show ?thesis
    using l entry_lookup_correct [OF ex_space_ok [OF ex_case_2] l] by simp
qed

theorem entry_get_fresh_witness:
  "space_ok [4, 8] {} 32 (ex_space 0xff000000 0x207 0x05900001) ex_ghash \<and>
   (\<exists>name entry is'. ipc_entry_get (ex_space 0xff000000 0x207 0x05900001) = Some (name, entry, is') \<and>
      rights (ex_space 0xff000000 0x207 0x05900001) name = None \<and> allocated is' name entry \<and>
      rights is' = rights (ex_space 0xff000000 0x207 0x05900001) \<and> space_ok [4, 8] {name} 32 is' ex_ghash)"
proof -
  have "\<not> Option.is_none (ipc_entry_get (ex_space 0xff000000 0x207 0x05900001))" by code_simp
  then obtain name entry is' where g: "ipc_entry_get (ex_space 0xff000000 0x207 0x05900001) = Some (name, entry, is')"
    by (auto simp: Option.is_none_def)
  then show ?thesis
    using entry_get_fresh [OF ex_space_ok [OF ex_case_2], THEN conjunct2, rule_format, OF g] ex_space_ok [OF ex_case_2] by blast
qed

text \<open>
  The name with index 0 and generation 0xff can be in a space and is yet never found:
  position 0 of the table, which heads the free list, carries that generation and no right, so
  \<^verbatim>\<open>ipc_entry_lookup\<close> stops there even when the splay tree holds an entry under the name.
\<close>

theorem shadowed_name_not_found:
  assumes ok: "space_ok tab {} space is g" and e: "is_tree_map is name = Some e" and s: "shadowed name"
  shows "rights is name = Some (right_of e) \<and> ipc_entry_lookup is name = (None, is)"
proof -
  obtain fs where fs: "table_ok {} (is_table is) fs" using ok by (auto simp: space_ok_def)
  have "table_entry_of (is_table is) name = None"
    using s by (simp add: table_entry_of_def shadowed_def)
  then have "rights is name = Some (right_of e)" using e by (simp add: rights_eq)
  moreover have "ipc_entry_lookup is name = (None, is)"
    using s table_okD(1,6,7) [OF fs] by (simp add: ipc_entry_lookup_def shadowed_def Let_def in_use_def)
  ultimately show ?thesis by simp
qed

theorem shadowed_name_not_found_witness:
  "MACH_PORT_VALID 0xff \<and> rights (ex_space 0xff800000 0xff 0x05100001) 0xff = Some (0x100001, 0, 0) \<and>
   ipc_entry_lookup (ex_space 0xff800000 0xff 0x05100001) 0xff = (None, ex_space 0xff800000 0xff 0x05100001)"
proof -
  have "shadowed 0xff" by (simp add: shadowed_def MACH_PORT_INDEX_def MACH_PORT_GEN_def IE_BITS_GEN_MASK_def)
  then show ?thesis
    using shadowed_name_not_found [OF ex_space_ok [OF ex_case_3], of "0xff"]
    by (simp add: ex_tree_map right_of_def IE_BITS_RIGHT_MASK_def MACH_PORT_VALID_def MACH_PORT_NULL_def MACH_PORT_DEAD_def)
qed

end
