(* ===== verification/IPC_Queue.thy ===== *)
theory IPC_Queue
  imports Mach_Prelude
begin

text \<open>
  The queues of threads (\<^verbatim>\<open>ipc_thread.c\<close>, \<^verbatim>\<open>ipc_thread.h\<close>) and of messages (\<^verbatim>\<open>ipc_kmsg.h\<close>,
  \<^verbatim>\<open>ipc_kmsg.c\<close>): circular doubly linked lists through the links of their elements, with a base
  pointer to the first one. The rest of the development represents a queue by the list of its
  elements; the theorems here show that the linked structures implement these lists.
\<close>

section \<open>Rings\<close>

text \<open>
  Both kinds of queue link their elements by a pair of functions from addresses to addresses.
  \<open>cyclic next prev xs\<close>: the elements of \<open>xs\<close> are linked in this order and around.
\<close>

definition cyclic :: "(natural_t \<Rightarrow> natural_t) \<Rightarrow> (natural_t \<Rightarrow> natural_t) \<Rightarrow> natural_t list \<Rightarrow> bool" where
  "cyclic next prev xs \<longleftrightarrow> (\<forall>(x, y)\<in>set (zip xs (rotate1 xs)). next x = y \<and> prev y = x)"

definition ring :: "(natural_t \<Rightarrow> natural_t) \<Rightarrow> (natural_t \<Rightarrow> natural_t) \<Rightarrow> natural_t \<Rightarrow> natural_t list \<Rightarrow> bool" where
  "ring next prev base xs \<longleftrightarrow>
     distinct xs \<and> 0 \<notin> set xs \<and> base = (case xs of [] \<Rightarrow> 0 | x # _ \<Rightarrow> x) \<and> cyclic next prev xs"

lemma zip_rotate1:
  assumes "xs \<noteq> []"
  shows "set (zip xs (rotate1 xs)) = insert (last xs, hd xs) (set (zip xs (tl xs)))"
proof -
  have "zip ys (tl ys @ [z]) = zip ys (tl ys) @ [(last ys, z)]" if "ys \<noteq> []" for ys :: "'a list" and z
    using that by (induction ys rule: induct_list012) auto
  from this [OF assms, of "hd xs"] assms show ?thesis by (cases xs) auto
qed

lemma cyclic_rotate1: "cyclic next prev (rotate1 xs) \<longleftrightarrow> cyclic next prev xs"
proof (cases "length xs < 2")
  case False
  then obtain x y ys where xs: "xs = x # y # ys"
    by (cases xs; cases "tl xs") auto
  have "zip ((y # ys) @ [x]) ((ys @ [x]) @ [y]) = zip (y # ys) (ys @ [x]) @ [(x, y)]"
    by (subst zip_append) simp_all
  then show ?thesis by (auto simp: cyclic_def xs)
qed (cases xs; simp)

lemma cyclic_rotate: "cyclic next prev (xs @ ys) \<longleftrightarrow> cyclic next prev (ys @ xs)"
proof (induction xs arbitrary: ys)
  case (Cons x xs)
  have "cyclic next prev (x # xs @ ys) \<longleftrightarrow> cyclic next prev (xs @ ys @ [x])"
    using cyclic_rotate1 [of "next" prev "x # xs @ ys"] by simp
  then show ?case using Cons [of "ys @ [x]"] by simp
qed simp

lemma cyclic_iff:
  "xs \<noteq> [] \<Longrightarrow> cyclic next prev xs \<longleftrightarrow>
     next (last xs) = hd xs \<and> prev (hd xs) = last xs \<and> (\<forall>(x, y)\<in>set (zip xs (tl xs)). next x = y \<and> prev y = x)"
  by (simp add: cyclic_def zip_rotate1)

lemma cyclic_cong:
  assumes "cyclic next prev xs" "\<And>x. x \<in> set xs \<Longrightarrow> next' x = next x" "\<And>x. x \<in> set xs \<Longrightarrow> prev' x = prev x"
  shows "cyclic next' prev' xs"
proof -
  have "x \<in> set xs \<and> y \<in> set xs" if "(x, y) \<in> set (zip xs (rotate1 xs))" for x y
    using that by (metis set_zip_leftD set_zip_rightD set_rotate1)
  then show ?thesis using assms by (fastforce simp: cyclic_def)
qed

lemma ring_cong:
  assumes "ring next prev base xs" "\<And>x. x \<in> set xs \<Longrightarrow> next' x = next x" "\<And>x. x \<in> set xs \<Longrightarrow> prev' x = prev x"
  shows "ring next' prev' base xs"
  using assms cyclic_cong [of "next" prev xs next' prev'] by (auto simp: ring_def)

lemma path_ends:
  assumes "distinct xs" "(x, y) \<in> set (zip xs (tl xs))"
  shows "x \<noteq> last xs" "y \<noteq> hd xs"
  using assms by (induction xs rule: induct_list012) (auto dest: set_zip_leftD set_zip_rightD split: if_splits)

text \<open>Linking a new element before the first one, which is after the last one, and unlinking it.\<close>

lemma cyclic_insert:
  assumes "cyclic next prev xs" "xs \<noteq> []" "distinct (t # xs)"
  shows "cyclic (next(t := hd xs, last xs := t)) (prev(t := last xs, hd xs := t)) (t # xs)"
proof -
  have "zip (t # xs) xs = (t, hd xs) # zip xs (tl xs)" using assms(2) by (cases xs) auto
  moreover have "x \<in> set xs \<and> y \<in> set xs \<and> x \<noteq> last xs \<and> y \<noteq> hd xs \<and> next x = y \<and> prev y = x"
    if "(x, y) \<in> set (zip xs (tl xs))" for x y
    using that assms path_ends [OF _ that]
    by (auto simp: cyclic_iff dest: set_zip_leftD set_zip_rightD intro: list.set_sel(2))
  moreover have "t \<noteq> hd xs" "t \<noteq> last xs" using assms(2,3) by auto
  ultimately show ?thesis using assms(2,3) by (subst cyclic_iff) auto
qed

lemma cyclic_remove:
  assumes "cyclic next prev (t # xs)" "xs \<noteq> []" "distinct (t # xs)"
  shows "next t = hd xs" "prev t = last xs" "next t \<noteq> t"
    "cyclic (next(last xs := hd xs)) (prev(hd xs := last xs)) xs"
proof -
  have z: "zip (t # xs) xs = (t, hd xs) # zip xs (tl xs)" using assms(2) by (cases xs) auto
  have "x \<noteq> last xs \<and> y \<noteq> hd xs \<and> next x = y \<and> prev y = x" if "(x, y) \<in> set (zip xs (tl xs))" for x y
    using that assms path_ends [OF _ that] by (auto simp: cyclic_iff z)
  then show "cyclic (next(last xs := hd xs)) (prev(hd xs := last xs)) xs"
    using assms(2) by (subst cyclic_iff) auto
  show "next t = hd xs" "prev t = last xs" "next t \<noteq> t" using assms by (auto simp: cyclic_iff z)
qed

lemma ring_Nil [simp]: "ring next prev base [] \<longleftrightarrow> base = 0"
  by (auto simp: ring_def cyclic_def)

lemma ring_base: "ring next prev base xs \<Longrightarrow> base = 0 \<longleftrightarrow> xs = []"
  by (cases xs) (auto simp: ring_def)

section \<open>Queues of threads\<close>

text \<open>The links of all threads; a queue is its base pointer.\<close>

record thread_links =
  ith_next :: "natural_t \<Rightarrow> natural_t"
  ith_prev :: "natural_t \<Rightarrow> natural_t"

definition ITH_NULL :: natural_t where "ITH_NULL = 0"

definition ipc_thread_links_init :: "thread_links \<Rightarrow> natural_t \<Rightarrow> thread_links" where
  "ipc_thread_links_init s thread =
     s\<lparr>ith_next := (ith_next s)(thread := thread), ith_prev := (ith_prev s)(thread := thread)\<rparr>"

definition ipc_thread_queue_init :: natural_t where "ipc_thread_queue_init = ITH_NULL"

definition ipc_thread_queue_empty :: "natural_t \<Rightarrow> bool" where
  "ipc_thread_queue_empty queue \<longleftrightarrow> queue = ITH_NULL"

definition ipc_thread_queue_first :: "natural_t \<Rightarrow> natural_t" where
  "ipc_thread_queue_first queue = queue"

definition ipc_thread_rmqueue_first_macro :: "thread_links \<Rightarrow> natural_t \<Rightarrow> natural_t \<Rightarrow> thread_links \<times> natural_t" where
  "ipc_thread_rmqueue_first_macro s queue thread =
     (let next = ith_next s thread in
      if next = thread then (s, ITH_NULL)
      else
        let prev = ith_prev s thread;
            s = s\<lparr>ith_prev := (ith_prev s)(next := prev)\<rparr>;
            s = s\<lparr>ith_next := (ith_next s)(prev := next)\<rparr>
        in (ipc_thread_links_init s thread, next))"

definition ipc_thread_enqueue :: "thread_links \<Rightarrow> natural_t \<Rightarrow> natural_t \<Rightarrow> thread_links \<times> natural_t" where
  "ipc_thread_enqueue s queue thread =
     (let first = queue in
      if first = ITH_NULL then (s, thread)
      else
        let last = ith_prev s first;
            s = s\<lparr>ith_next := (ith_next s)(thread := first)\<rparr>;
            s = s\<lparr>ith_prev := (ith_prev s)(thread := last)\<rparr>;
            s = s\<lparr>ith_prev := (ith_prev s)(first := thread)\<rparr>;
            s = s\<lparr>ith_next := (ith_next s)(last := thread)\<rparr>
        in (s, queue))"

definition ipc_thread_dequeue :: "thread_links \<Rightarrow> natural_t \<Rightarrow> natural_t \<times> thread_links \<times> natural_t" where
  "ipc_thread_dequeue s queue =
     (let first = ipc_thread_queue_first queue in
      if first \<noteq> ITH_NULL then (first, ipc_thread_rmqueue_first_macro s queue first)
      else (first, s, queue))"

definition ipc_thread_rmqueue :: "thread_links \<Rightarrow> natural_t \<Rightarrow> natural_t \<Rightarrow> thread_links \<times> natural_t" where
  "ipc_thread_rmqueue s queue thread =
     (let next = ith_next s thread; prev = ith_prev s thread in
      if next = thread then (s, ITH_NULL)
      else
        let queue = (if queue = thread then next else queue);
            s = s\<lparr>ith_prev := (ith_prev s)(next := prev)\<rparr>;
            s = s\<lparr>ith_next := (ith_next s)(prev := next)\<rparr>
        in (ipc_thread_links_init s thread, queue))"

text \<open>The loop of \<^verbatim>\<open>ipc_thread_inqueue\<close> does not return on links that never come back to the base.\<close>

partial_function (option) inqueue_loop :: "thread_links \<Rightarrow> natural_t \<Rightarrow> natural_t \<Rightarrow> natural_t \<Rightarrow> bool option" where
  "inqueue_loop s base thread next =
     (if next = base then Some False
      else if next = thread then Some True
      else inqueue_loop s base thread (ith_next s next))"

declare inqueue_loop.simps [code]

definition ipc_thread_inqueue :: "thread_links \<Rightarrow> natural_t \<Rightarrow> natural_t \<Rightarrow> bool option" where
  "ipc_thread_inqueue s queue thread =
     (let base = queue in
      if base = ITH_NULL then Some False
      else if base = thread then Some True
      else inqueue_loop s base thread (ith_next s base))"

section \<open>Queues of messages\<close>

record kmsg_links =
  ikm_next :: "natural_t \<Rightarrow> natural_t"
  ikm_prev :: "natural_t \<Rightarrow> natural_t"

definition IKM_NULL :: natural_t where "IKM_NULL = 0"
definition IKM_BOGUS :: natural_t where "IKM_BOGUS = 0xffffff10"

definition ipc_kmsg_queue_init :: natural_t where "ipc_kmsg_queue_init = IKM_NULL"

definition ipc_kmsg_queue_empty :: "natural_t \<Rightarrow> bool" where
  "ipc_kmsg_queue_empty queue \<longleftrightarrow> queue = IKM_NULL"

definition ipc_kmsg_queue_first :: "natural_t \<Rightarrow> natural_t" where
  "ipc_kmsg_queue_first queue = queue"

definition ipc_kmsg_rmqueue_first_macro :: "kmsg_links \<Rightarrow> natural_t \<Rightarrow> natural_t \<Rightarrow> kmsg_links \<times> natural_t" where
  "ipc_kmsg_rmqueue_first_macro s queue kmsg =
     (let next = ikm_next s kmsg;
          (s, queue) =
            (if next = kmsg then (s, IKM_NULL)
             else
               let prev = ikm_prev s kmsg;
                   s = s\<lparr>ikm_prev := (ikm_prev s)(next := prev)\<rparr>;
                   s = s\<lparr>ikm_next := (ikm_next s)(prev := next)\<rparr>
               in (s, next))
      in (s\<lparr>ikm_next := (ikm_next s)(kmsg := IKM_BOGUS), ikm_prev := (ikm_prev s)(kmsg := IKM_BOGUS)\<rparr>, queue))"

definition ipc_kmsg_enqueue :: "kmsg_links \<Rightarrow> natural_t \<Rightarrow> natural_t \<Rightarrow> kmsg_links \<times> natural_t" where
  "ipc_kmsg_enqueue s queue kmsg =
     (let first = queue in
      if first = IKM_NULL then
        (s\<lparr>ikm_next := (ikm_next s)(kmsg := kmsg), ikm_prev := (ikm_prev s)(kmsg := kmsg)\<rparr>, kmsg)
      else
        let last = ikm_prev s first;
            s = s\<lparr>ikm_next := (ikm_next s)(kmsg := first)\<rparr>;
            s = s\<lparr>ikm_prev := (ikm_prev s)(kmsg := last)\<rparr>;
            s = s\<lparr>ikm_prev := (ikm_prev s)(first := kmsg)\<rparr>;
            s = s\<lparr>ikm_next := (ikm_next s)(last := kmsg)\<rparr>
        in (s, queue))"

definition ipc_kmsg_dequeue :: "kmsg_links \<Rightarrow> natural_t \<Rightarrow> natural_t \<times> kmsg_links \<times> natural_t" where
  "ipc_kmsg_dequeue s queue =
     (let first = ipc_kmsg_queue_first queue in
      if first \<noteq> IKM_NULL then (first, ipc_kmsg_rmqueue_first_macro s queue first)
      else (first, s, queue))"

definition ipc_kmsg_rmqueue :: "kmsg_links \<Rightarrow> natural_t \<Rightarrow> natural_t \<Rightarrow> kmsg_links \<times> natural_t" where
  "ipc_kmsg_rmqueue s queue kmsg =
     (let next = ikm_next s kmsg; prev = ikm_prev s kmsg;
          (s, queue) =
            (if next = kmsg then (s, IKM_NULL)
             else
               let queue = (if queue = kmsg then next else queue);
                   s = s\<lparr>ikm_prev := (ikm_prev s)(next := prev)\<rparr>;
                   s = s\<lparr>ikm_next := (ikm_next s)(prev := next)\<rparr>
               in (s, queue))
      in (s\<lparr>ikm_next := (ikm_next s)(kmsg := IKM_BOGUS), ikm_prev := (ikm_prev s)(kmsg := IKM_BOGUS)\<rparr>, queue))"

definition ipc_kmsg_queue_next :: "kmsg_links \<Rightarrow> natural_t \<Rightarrow> natural_t \<Rightarrow> natural_t" where
  "ipc_kmsg_queue_next s queue kmsg =
     (let next = ikm_next s kmsg in if queue = next then IKM_NULL else next)"

section \<open>The contract\<close>

text \<open>
  What both kinds of queue promise. \<open>represents s b xs\<close>: the queue with base \<open>b\<close> has the elements
  \<open>xs\<close>; \<open>ready s t\<close>: the links of \<open>t\<close> are as the code wants them before it queues \<open>t\<close>. Every operation
  also leaves the other queues in the same links alone.
\<close>

locale link_queue =
  fixes represents :: "'s \<Rightarrow> natural_t \<Rightarrow> natural_t list \<Rightarrow> bool"
    and ready :: "'s \<Rightarrow> natural_t \<Rightarrow> bool"
    and enqueue :: "'s \<Rightarrow> natural_t \<Rightarrow> natural_t \<Rightarrow> 's \<times> natural_t"
    and dequeue :: "'s \<Rightarrow> natural_t \<Rightarrow> natural_t \<times> 's \<times> natural_t"
    and rmqueue :: "'s \<Rightarrow> natural_t \<Rightarrow> natural_t \<Rightarrow> 's \<times> natural_t"
  assumes represents_empty: "represents s b [] \<longleftrightarrow> b = 0"
    and represents_elements: "represents s b xs \<Longrightarrow> distinct xs \<and> 0 \<notin> set xs"
    and represents_unique: "represents s b xs \<Longrightarrow> represents s b ys \<Longrightarrow> xs = ys"
    and enqueue_appends: "represents s b xs \<Longrightarrow> t \<notin> set xs \<Longrightarrow> t \<noteq> 0 \<Longrightarrow> ready s t \<Longrightarrow> enqueue s b t = (s', b') \<Longrightarrow>
      represents s' b' (xs @ [t])"
    and enqueue_frame: "represents s b xs \<Longrightarrow> enqueue s b t = (s', b') \<Longrightarrow> represents s c ys \<Longrightarrow>
      t \<notin> set ys \<Longrightarrow> set xs \<inter> set ys = {} \<Longrightarrow> represents s' c ys"
    and enqueue_ready: "represents s b xs \<Longrightarrow> enqueue s b t = (s', b') \<Longrightarrow> ready s u \<Longrightarrow> u \<noteq> t \<Longrightarrow> u \<notin> set xs \<Longrightarrow> ready s' u"
    and dequeue_first: "represents s b xs \<Longrightarrow> dequeue s b = (r, s', b') \<Longrightarrow>
      r = (case xs of [] \<Rightarrow> 0 | x # _ \<Rightarrow> x) \<and> represents s' b' (tl xs) \<and> (xs \<noteq> [] \<longrightarrow> ready s' r)"
    and dequeue_frame: "represents s b xs \<Longrightarrow> dequeue s b = (r, s', b') \<Longrightarrow> represents s c ys \<Longrightarrow>
      set xs \<inter> set ys = {} \<Longrightarrow> represents s' c ys"
    and rmqueue_removes: "represents s b xs \<Longrightarrow> t \<in> set xs \<Longrightarrow> rmqueue s b t = (s', b') \<Longrightarrow>
      represents s' b' (remove1 t xs) \<and> ready s' t"
    and rmqueue_frame: "represents s b xs \<Longrightarrow> t \<in> set xs \<Longrightarrow> rmqueue s b t = (s', b') \<Longrightarrow> represents s c ys \<Longrightarrow>
      set xs \<inter> set ys = {} \<Longrightarrow> represents s' c ys"
begin

lemma enqueue_rmqueue:
  assumes "represents s b xs" "t \<notin> set xs" "t \<noteq> 0" "ready s t" "enqueue s b t = (s', b')" "rmqueue s' b' t = (s'', b'')"
  shows "represents s'' b'' xs \<and> ready s'' t"
  using rmqueue_removes [OF enqueue_appends [OF assms(1-5)] _ assms(6)] assms(2) by (simp add: remove1_append)

text \<open>Any number of elements leave in the order in which they came.\<close>

primrec enqueue_all :: "'s \<Rightarrow> natural_t \<Rightarrow> natural_t list \<Rightarrow> 's \<times> natural_t" where
  "enqueue_all s b [] = (s, b)"
| "enqueue_all s b (t # ts) = (case enqueue s b t of (s', b') \<Rightarrow> enqueue_all s' b' ts)"

primrec dequeue_all :: "nat \<Rightarrow> 's \<Rightarrow> natural_t \<Rightarrow> natural_t list \<times> 's \<times> natural_t" where
  "dequeue_all 0 s b = ([], s, b)"
| "dequeue_all (Suc n) s b = (case dequeue s b of (r, s', b') \<Rightarrow>
     case dequeue_all n s' b' of (rs, s'', b'') \<Rightarrow> (r # rs, s'', b''))"

lemma enqueue_all_appends:
  assumes "represents s b xs" "distinct (xs @ ts)" "0 \<notin> set ts" "\<And>t. t \<in> set ts \<Longrightarrow> ready s t" "enqueue_all s b ts = (s', b')"
  shows "represents s' b' (xs @ ts)"
  using assms
proof (induction ts arbitrary: s b xs)
  case (Cons t ts)
  obtain s1 b1 where e: "enqueue s b t = (s1, b1)" by fastforce
  have "represents s1 b1 (xs @ [t])" using Cons.prems e by (intro enqueue_appends) auto
  moreover have "ready s1 u" if "u \<in> set ts" for u
    using Cons.prems e that by (intro enqueue_ready [OF Cons.prems(1) e]) auto
  ultimately show ?case using Cons.IH [of s1 b1 "xs @ [t]"] Cons.prems e by simp
qed simp

lemma dequeue_all_takes:
  assumes "represents s b (xs @ ys)" "dequeue_all (length xs) s b = (rs, s', b')"
  shows "rs = xs \<and> represents s' b' ys"
  using assms
proof (induction xs arbitrary: s b rs)
  case (Cons x xs)
  obtain r s1 b1 where d: "dequeue s b = (r, s1, b1)" by (metis surj_pair)
  have "r = x" "represents s1 b1 (xs @ ys)" using dequeue_first [OF Cons.prems(1) d] by auto
  then show ?case using Cons.IH [of s1 b1] Cons.prems d by (auto split: prod.splits)
qed simp

lemma fifo:
  assumes "represents s 0 []" "distinct ts" "0 \<notin> set ts" "\<And>t. t \<in> set ts \<Longrightarrow> ready s t"
    "enqueue_all s 0 ts = (s', b')" "dequeue_all (length ts) s' b' = (rs, s'', b'')"
  shows "rs = ts \<and> b'' = 0"
  using dequeue_all_takes [of s' b' ts "[]"] enqueue_all_appends [OF assms(1)] assms(2-) by (simp add: represents_empty)

end

section \<open>Both kinds of queue keep the contract\<close>

lemma ring_ends:
  assumes "ring next prev base xs" "xs \<noteq> []"
  shows "base = hd xs" "prev base = last xs" "base \<in> set xs" "prev base \<in> set xs" "base \<noteq> 0"
  using assms by (cases xs; auto simp: ring_def cyclic_iff)+

lemma ring_enqueue:
  assumes "ring next prev base xs" "xs \<noteq> []" "t \<notin> set xs" "t \<noteq> 0"
  shows "ring (next(t := base, prev base := t)) (prev(t := prev base, base := t)) base (xs @ [t])"
proof -
  have "cyclic (next(t := hd xs, last xs := t)) (prev(t := last xs, hd xs := t)) (t # xs)"
    using assms by (intro cyclic_insert) (auto simp: ring_def)
  then show ?thesis
    using assms ring_ends [OF assms(1,2)] cyclic_rotate [of _ _ "[t]" xs] by (cases xs) (auto simp: ring_def)
qed

lemma ring_single:
  assumes "t \<noteq> 0"
  shows "ring next prev t [t] \<longleftrightarrow> next t = t \<and> prev t = t"
  using assms by (auto simp: ring_def cyclic_def)

lemma ring_remove:
  assumes r: "ring next prev base xs" and t: "t \<in> set xs"
  shows "next t = t \<longleftrightarrow> xs = [t]" "next t \<in> set xs" "prev t \<in> set xs" "next t = t \<Longrightarrow> prev t = t"
    "next t \<noteq> t \<Longrightarrow> prev t \<noteq> t \<and> ring (next(prev t := next t)) (prev(next t := prev t)) (if base = t then next t else base) (remove1 t xs)"
proof -
  obtain ys zs where xs: "xs = ys @ t # zs" using t by (auto simp: in_set_conv_decomp)
  have c: "cyclic next prev (t # zs @ ys)" using r cyclic_rotate [of "next" prev ys "t # zs"] by (simp add: ring_def xs)
  have d: "distinct (t # zs @ ys)" using r by (auto simp: ring_def xs)
  have "(next t = t \<longleftrightarrow> xs = [t]) \<and> next t \<in> set xs \<and> prev t \<in> set xs \<and> (next t = t \<longrightarrow> prev t = t) \<and>
    (next t \<noteq> t \<longrightarrow> prev t \<noteq> t \<and>
       ring (next(prev t := next t)) (prev(next t := prev t)) (if base = t then next t else base) (remove1 t xs))"
  proof (cases "zs @ ys = []")
    case True
    then show ?thesis using c by (auto simp: xs cyclic_def)
  next
    case False
    note e = cyclic_remove [OF c False d]
    have m: "hd (zs @ ys) \<in> set (zs @ ys)" "last (zs @ ys) \<in> set (zs @ ys)" using False by (auto simp del: set_append)
    have "cyclic (next(prev t := next t)) (prev(next t := prev t)) (ys @ zs)"
      using e cyclic_rotate [of _ _ zs ys] by simp
    moreover have "remove1 t xs = ys @ zs" using d by (simp add: xs remove1_append)
    moreover have "(case ys @ zs of [] \<Rightarrow> 0 | x # _ \<Rightarrow> x) = (if base = t then next t else base)"
      using r d e(1) False by (cases ys; cases zs) (auto simp: ring_def xs)
    ultimately have "ring (next(prev t := next t)) (prev(next t := prev t)) (if base = t then next t else base) (remove1 t xs)"
      using r d by (auto simp: ring_def xs)
    moreover have "xs \<noteq> [t]" using False by (cases ys) (auto simp: xs)
    moreover have "next t \<in> set xs" "prev t \<in> set xs" "prev t \<noteq> t" using m d by (auto simp: e xs)
    ultimately show ?thesis using e(3) by blast
  qed
  then show "next t = t \<longleftrightarrow> xs = [t]" "next t \<in> set xs" "prev t \<in> set xs" "next t = t \<Longrightarrow> prev t = t"
    "next t \<noteq> t \<Longrightarrow> prev t \<noteq> t \<and> ring (next(prev t := next t)) (prev(next t := prev t)) (if base = t then next t else base) (remove1 t xs)"
    by blast+
qed

lemma cyclic_nth:
  assumes "cyclic next prev xs" "k < length xs"
  shows "next (xs ! k) = xs ! (Suc k mod length xs)"
proof -
  have "(xs ! k, rotate1 xs ! k) \<in> set (zip xs (rotate1 xs))" using assms(2) by (auto simp: set_zip)
  then show ?thesis using assms nth_rotate1 [OF assms(2)] by (auto simp: cyclic_def)
qed

lemma ring_nth:
  assumes "ring next prev base xs" "k < length xs"
  shows "xs ! k = (next ^^ k) base"
  using assms(2)
proof (induction k)
  case 0
  then show ?case using ring_ends(1) [OF assms(1)] by (cases xs) auto
next
  case (Suc k)
  then show ?case using cyclic_nth [of "next" prev xs k] assms(1) by (simp add: ring_def)
qed

lemma ring_around:
  assumes "ring next prev base xs" "xs \<noteq> []"
  shows "(next ^^ length xs) base = base"
proof -
  obtain n where n: "length xs = Suc n" using assms(2) by (cases xs) auto
  then show ?thesis
    using cyclic_nth [of "next" prev xs n] ring_nth [OF assms(1), of n] ring_ends(1) [OF assms] assms
    by (simp add: ring_def hd_conv_nth)
qed

lemma ring_unique:
  assumes "ring next prev base xs" "ring next prev base ys"
  shows "xs = ys"
proof -
  have short: "\<not> length us < length vs" if u: "ring next prev base us" and v: "ring next prev base vs" for us vs
  proof
    assume l: "length us < length vs"
    then have "us \<noteq> []" using ring_base [OF u] ring_base [OF v] by auto
    then have "vs ! length us = vs ! 0"
      using l ring_around [OF u] ring_nth [OF v, of "length us"] ring_nth [OF v, of 0] by (cases vs) auto
    then show False using l v \<open>us \<noteq> []\<close> nth_eq_iff_index_eq [of vs "length us" 0] by (cases vs) (auto simp: ring_def)
  qed
  have "length xs = length ys" using short [OF assms] short [OF assms(2,1)] by simp
  then show ?thesis using ring_nth [OF assms(1)] ring_nth [OF assms(2)] by (intro nth_equalityI) auto
qed

abbreviation thread_queue :: "thread_links \<Rightarrow> natural_t \<Rightarrow> natural_t list \<Rightarrow> bool" where
  "thread_queue s \<equiv> ring (ith_next s) (ith_prev s)"

definition thread_ready :: "thread_links \<Rightarrow> natural_t \<Rightarrow> bool" where
  "thread_ready s t \<longleftrightarrow> ith_next s t = t \<and> ith_prev s t = t"

abbreviation kmsg_queue :: "kmsg_links \<Rightarrow> natural_t \<Rightarrow> natural_t list \<Rightarrow> bool" where
  "kmsg_queue s \<equiv> ring (ikm_next s) (ikm_prev s)"

lemma thread_enqueue_ring:
  assumes "thread_queue s b xs" "t \<notin> set xs" "t \<noteq> 0" "thread_ready s t" "ipc_thread_enqueue s b t = (s', b')"
  shows "thread_queue s' b' (xs @ [t])"
  using assms ring_enqueue [OF assms(1) _ assms(2,3)] ring_base [OF assms(1)] ring_ends [OF assms(1)]
  by (cases "xs = []")
    (auto simp: ipc_thread_enqueue_def ITH_NULL_def Let_def thread_ready_def ring_single fun_upd_twist)

lemma thread_rmqueue_ring:
  assumes "thread_queue s b xs" "t \<in> set xs" "ipc_thread_rmqueue s b t = (s', b')"
  shows "thread_queue s' b' (remove1 t xs) \<and> thread_ready s' t"
proof (cases "ith_next s t = t")
  case True
  then show ?thesis
    using assms(3) ring_remove(1,4) [OF assms(1,2)] by (auto simp: ipc_thread_rmqueue_def Let_def ITH_NULL_def thread_ready_def)
next
  case False
  note r = ring_remove(5) [OF assms(1,2) False]
  have "t \<notin> set (remove1 t xs)" using assms(1) by (auto simp: ring_def)
  then show ?thesis
    using r False assms(3)
    by (auto simp: ipc_thread_rmqueue_def Let_def thread_ready_def ipc_thread_links_init_def elim!: ring_cong)
qed

lemma thread_rmqueue_frame:
  assumes "thread_queue s b xs" "t \<in> set xs" "ipc_thread_rmqueue s b t = (s', b')" "u \<notin> set xs"
  shows "ith_next s' u = ith_next s u" "ith_prev s' u = ith_prev s u"
  using assms ring_remove(2,3) [OF assms(1,2)]
  by (auto simp: ipc_thread_rmqueue_def Let_def ipc_thread_links_init_def split: if_splits)

lemma thread_enqueue_frame:
  assumes "thread_queue s b xs" "ipc_thread_enqueue s b t = (s', b')" "u \<notin> set xs" "u \<noteq> t"
  shows "ith_next s' u = ith_next s u" "ith_prev s' u = ith_prev s u"
  using assms ring_base [OF assms(1)] ring_ends(3,4) [OF assms(1)]
  by (auto simp: ipc_thread_enqueue_def Let_def ITH_NULL_def split: if_splits)

lemma thread_dequeue_rmqueue:
  assumes "thread_queue s b (x # xs)"
  shows "ipc_thread_dequeue s b = (x, ipc_thread_rmqueue s b x)"
  using assms
  by (auto simp: ring_def ipc_thread_dequeue_def ipc_thread_rmqueue_def ipc_thread_rmqueue_first_macro_def Let_def
    ITH_NULL_def ipc_thread_queue_first_def)

lemma thread_dequeue_empty: "thread_queue s b [] \<Longrightarrow> ipc_thread_dequeue s b = (0, s, 0)"
  by (simp add: ipc_thread_dequeue_def ITH_NULL_def ipc_thread_queue_first_def)

lemma kmsg_enqueue_ring:
  assumes "kmsg_queue s b xs" "t \<notin> set xs" "t \<noteq> 0" "ipc_kmsg_enqueue s b t = (s', b')"
  shows "kmsg_queue s' b' (xs @ [t])"
  using assms ring_enqueue [OF assms(1) _ assms(2,3)] ring_base [OF assms(1)] ring_ends [OF assms(1)]
  by (cases "xs = []") (auto simp: ipc_kmsg_enqueue_def IKM_NULL_def Let_def ring_single fun_upd_twist)

lemma kmsg_enqueue_frame:
  assumes "kmsg_queue s b xs" "ipc_kmsg_enqueue s b t = (s', b')" "u \<notin> set xs" "u \<noteq> t"
  shows "ikm_next s' u = ikm_next s u" "ikm_prev s' u = ikm_prev s u"
  using assms ring_base [OF assms(1)] ring_ends(3,4) [OF assms(1)]
  by (auto simp: ipc_kmsg_enqueue_def Let_def IKM_NULL_def split: if_splits)

lemma kmsg_rmqueue_ring:
  assumes "kmsg_queue s b xs" "t \<in> set xs" "ipc_kmsg_rmqueue s b t = (s', b')"
  shows "kmsg_queue s' b' (remove1 t xs)"
proof (cases "ikm_next s t = t")
  case True
  then show ?thesis
    using assms(3) ring_remove(1,4) [OF assms(1,2)] by (auto simp: ipc_kmsg_rmqueue_def Let_def IKM_NULL_def)
next
  case False
  note r = ring_remove(5) [OF assms(1,2) False]
  have "t \<notin> set (remove1 t xs)" using assms(1) by (auto simp: ring_def)
  then show ?thesis
    using r False assms(3) by (auto simp: ipc_kmsg_rmqueue_def Let_def elim!: ring_cong)
qed

lemma kmsg_rmqueue_frame:
  assumes "kmsg_queue s b xs" "t \<in> set xs" "ipc_kmsg_rmqueue s b t = (s', b')" "u \<notin> set xs"
  shows "ikm_next s' u = ikm_next s u" "ikm_prev s' u = ikm_prev s u"
  using assms ring_remove(2,3) [OF assms(1,2)] by (auto simp: ipc_kmsg_rmqueue_def Let_def split: if_splits)

lemma kmsg_dequeue_rmqueue:
  assumes "kmsg_queue s b (x # xs)"
  shows "ipc_kmsg_dequeue s b = (x, ipc_kmsg_rmqueue s b x)"
  using assms
  by (auto simp: ring_def ipc_kmsg_dequeue_def ipc_kmsg_rmqueue_def ipc_kmsg_rmqueue_first_macro_def Let_def
    IKM_NULL_def ipc_kmsg_queue_first_def)

lemma kmsg_dequeue_empty: "kmsg_queue s b [] \<Longrightarrow> ipc_kmsg_dequeue s b = (0, s, 0)"
  by (simp add: ipc_kmsg_dequeue_def IKM_NULL_def ipc_kmsg_queue_first_def)

interpretation threads: link_queue thread_queue thread_ready ipc_thread_enqueue ipc_thread_dequeue ipc_thread_rmqueue
proof
  fix s b xs c ys t u r s' b'
  assume q: "thread_queue s b xs"
  show "distinct xs \<and> 0 \<notin> set xs" using q by (simp add: ring_def)
  show "thread_queue s b ys \<Longrightarrow> xs = ys" by (rule ring_unique [OF q])
  show "t \<notin> set xs \<Longrightarrow> t \<noteq> 0 \<Longrightarrow> thread_ready s t \<Longrightarrow> ipc_thread_enqueue s b t = (s', b') \<Longrightarrow> thread_queue s' b' (xs @ [t])"
    by (rule thread_enqueue_ring [OF q])
  show "ipc_thread_enqueue s b t = (s', b') \<Longrightarrow> thread_queue s c ys \<Longrightarrow> t \<notin> set ys \<Longrightarrow> set xs \<inter> set ys = {} \<Longrightarrow> thread_queue s' c ys"
    by (elim ring_cong) (blast intro: thread_enqueue_frame [OF q])+
  show "ipc_thread_enqueue s b t = (s', b') \<Longrightarrow> thread_ready s u \<Longrightarrow> u \<noteq> t \<Longrightarrow> u \<notin> set xs \<Longrightarrow> thread_ready s' u"
    using thread_enqueue_frame [OF q] by (simp add: thread_ready_def)
  show "t \<in> set xs \<Longrightarrow> ipc_thread_rmqueue s b t = (s', b') \<Longrightarrow> thread_queue s' b' (remove1 t xs) \<and> thread_ready s' t"
    by (rule thread_rmqueue_ring [OF q])
  show "t \<in> set xs \<Longrightarrow> ipc_thread_rmqueue s b t = (s', b') \<Longrightarrow> thread_queue s c ys \<Longrightarrow> set xs \<inter> set ys = {} \<Longrightarrow> thread_queue s' c ys"
    by (elim ring_cong) (blast intro: thread_rmqueue_frame [OF q])+
  show "r = (case xs of [] \<Rightarrow> 0 | x # _ \<Rightarrow> x) \<and> thread_queue s' b' (tl xs) \<and> (xs \<noteq> [] \<longrightarrow> thread_ready s' r)"
    if "ipc_thread_dequeue s b = (r, s', b')"
    using that q thread_dequeue_empty thread_dequeue_rmqueue [of s b] thread_rmqueue_ring [OF q]
    by (cases xs) fastforce+
  show "thread_queue s' c ys"
    if "ipc_thread_dequeue s b = (r, s', b')" "thread_queue s c ys" "set xs \<inter> set ys = {}"
  proof (cases xs)
    case Nil
    then show ?thesis using that q thread_dequeue_empty [of s b] by simp
  next
    case (Cons x zs)
    then have "ipc_thread_rmqueue s b x = (s', b')" using that q thread_dequeue_rmqueue [of s b] by auto
    then show ?thesis
      using that(3) Cons by (intro ring_cong [OF that(2)] thread_rmqueue_frame [OF q, of x s' b']) auto
  qed
qed simp

interpretation kmsgs: link_queue kmsg_queue "\<lambda>s t. True" ipc_kmsg_enqueue ipc_kmsg_dequeue ipc_kmsg_rmqueue
proof
  fix s b xs c ys t r s' b'
  assume q: "kmsg_queue s b xs"
  show "distinct xs \<and> 0 \<notin> set xs" using q by (simp add: ring_def)
  show "kmsg_queue s b ys \<Longrightarrow> xs = ys" by (rule ring_unique [OF q])
  show "t \<notin> set xs \<Longrightarrow> t \<noteq> 0 \<Longrightarrow> ipc_kmsg_enqueue s b t = (s', b') \<Longrightarrow> kmsg_queue s' b' (xs @ [t])"
    by (rule kmsg_enqueue_ring [OF q])
  show "ipc_kmsg_enqueue s b t = (s', b') \<Longrightarrow> kmsg_queue s c ys \<Longrightarrow> t \<notin> set ys \<Longrightarrow> set xs \<inter> set ys = {} \<Longrightarrow> kmsg_queue s' c ys"
    by (elim ring_cong) (blast intro: kmsg_enqueue_frame [OF q])+
  show "t \<in> set xs \<Longrightarrow> ipc_kmsg_rmqueue s b t = (s', b') \<Longrightarrow> kmsg_queue s' b' (remove1 t xs) \<and> True"
    using kmsg_rmqueue_ring [OF q] by simp
  show "t \<in> set xs \<Longrightarrow> ipc_kmsg_rmqueue s b t = (s', b') \<Longrightarrow> kmsg_queue s c ys \<Longrightarrow> set xs \<inter> set ys = {} \<Longrightarrow> kmsg_queue s' c ys"
    by (elim ring_cong) (blast intro: kmsg_rmqueue_frame [OF q])+
  show "r = (case xs of [] \<Rightarrow> 0 | x # _ \<Rightarrow> x) \<and> kmsg_queue s' b' (tl xs) \<and> (xs \<noteq> [] \<longrightarrow> True)"
    if "ipc_kmsg_dequeue s b = (r, s', b')"
    using that q kmsg_dequeue_empty kmsg_dequeue_rmqueue [of s b] kmsg_rmqueue_ring [OF q]
    by (cases xs) fastforce+
  show "kmsg_queue s' c ys"
    if "ipc_kmsg_dequeue s b = (r, s', b')" "kmsg_queue s c ys" "set xs \<inter> set ys = {}"
  proof (cases xs)
    case Nil
    then show ?thesis using that q kmsg_dequeue_empty [of s b] by simp
  next
    case (Cons x zs)
    then have "ipc_kmsg_rmqueue s b x = (s', b')" using that q kmsg_dequeue_rmqueue [of s b] by auto
    then show ?thesis
      using that(3) Cons by (intro ring_cong [OF that(2)] kmsg_rmqueue_frame [OF q, of x s' b']) auto
  qed
qed simp_all

section \<open>The linked queues implement lists\<close>

lemma inqueue_loop_ring:
  assumes "thread_queue s b xs" "0 < k" "k < length xs"
  shows "inqueue_loop s b t (xs ! k) = Some (t \<in> set (drop k xs))"
  using assms(2,3)
proof (induction "length xs - k" arbitrary: k)
  case (Suc n)
  have b: "b = xs ! 0" using ring_ends(1) [OF assms(1)] Suc.prems by (cases xs) auto
  have x: "xs ! k \<noteq> b" using assms(1) Suc.prems unfolding b by (subst nth_eq_iff_index_eq) (auto simp: ring_def)
  have d: "drop k xs = xs ! k # drop (Suc k) xs" using Suc.prems by (simp add: Cons_nth_drop_Suc)
  have n: "ith_next s (xs ! k) = xs ! (Suc k mod length xs)"
    using cyclic_nth [of _ "ith_prev s"] assms(1) Suc.prems by (simp add: ring_def)
  show ?case
  proof (cases "Suc k = length xs")
    case True
    then show ?thesis using x n d b inqueue_loop.simps [of s b t b] by (subst inqueue_loop.simps) auto
  next
    case False
    then show ?thesis using Suc x n d by (subst inqueue_loop.simps) auto
  qed
qed simp

lemma thread_inqueue_ring:
  assumes "thread_queue s b xs"
  shows "ipc_thread_inqueue s b t = Some (t \<in> set xs)"
proof (cases "length xs < 2")
  case True
  then consider "xs = []" | x where "xs = [x]" by (cases xs) auto
  then show ?thesis
    using assms by cases (auto simp: ipc_thread_inqueue_def ITH_NULL_def ring_def cyclic_def inqueue_loop.simps)
next
  case False
  then obtain x y ys where xs: "xs = x # y # ys" by (cases xs; cases "tl xs") auto
  have "b = x" "b \<noteq> 0" "ith_next s b = xs ! 1" using assms by (auto simp: ring_def cyclic_def xs)
  then show ?thesis
    using inqueue_loop_ring [OF assms, of 1 t] False
    by (auto simp: ipc_thread_inqueue_def ITH_NULL_def xs)
qed

text \<open>
  C24: The linked queue of threads implements a list. On links that represent the list \<open>xs\<close>,
  \<^verbatim>\<open>ipc_thread_enqueue\<close> appends a thread whose links point to itself, \<^verbatim>\<open>ipc_thread_dequeue\<close> returns
  and removes the first thread, \<^verbatim>\<open>ipc_thread_rmqueue\<close> removes any thread of the queue and leaves its
  links pointing to itself, and each of them leaves every disjoint queue in the same links as it is;
  the loop of \<^verbatim>\<open>ipc_thread_inqueue\<close> ends and decides membership.
\<close>

theorem thread_queue_refines_list:
  assumes "thread_queue s b xs" "thread_queue s c ys" "set xs \<inter> set ys = {}"
  shows "(t \<notin> set (xs @ ys) \<and> t \<noteq> ITH_NULL \<and> thread_ready s t \<longrightarrow>
      (case ipc_thread_enqueue s b t of (s', b') \<Rightarrow> thread_queue s' b' (xs @ [t]) \<and> thread_queue s' c ys)) \<and>
    (case ipc_thread_dequeue s b of (r, s', b') \<Rightarrow>
      r = (if xs = [] then ITH_NULL else hd xs) \<and> thread_queue s' b' (tl xs) \<and> thread_queue s' c ys) \<and>
    (t \<in> set xs \<longrightarrow> (case ipc_thread_rmqueue s b t of (s', b') \<Rightarrow>
      thread_queue s' b' (remove1 t xs) \<and> thread_ready s' t \<and> thread_queue s' c ys)) \<and>
    ipc_thread_inqueue s b t = Some (t \<in> set xs)"
  using threads.enqueue_appends [OF assms(1)] threads.enqueue_frame [OF assms(1) _ assms(2)]
    threads.dequeue_first [OF assms(1)] threads.dequeue_frame [OF assms(1) _ assms(2)]
    threads.rmqueue_removes [OF assms(1)] threads.rmqueue_frame [OF assms(1) _ _ assms(2)] assms(3)
  by (auto simp: thread_inqueue_ring [OF assms(1)] ITH_NULL_def split: prod.splits list.splits)

definition ex_threads :: thread_links where
  "ex_threads = \<lparr>ith_next = id(1 := 2, 2 := 1), ith_prev = id(1 := 2, 2 := 1)\<rparr>"

lemma ex_thread_queue: "thread_queue ex_threads 1 [1, 2]" "thread_queue ex_threads 3 [3]" "thread_ready ex_threads 4"
  by (simp_all add: ring_def cyclic_def ex_threads_def thread_ready_def)

theorem thread_queue_refines_list_witness:
  "(case ipc_thread_enqueue ex_threads 1 4 of (s', b') \<Rightarrow> thread_queue s' b' [1, 2, 4] \<and> thread_queue s' 3 [3]) \<and>
   (case ipc_thread_dequeue ex_threads 1 of (r, s', b') \<Rightarrow> r = 1 \<and> thread_queue s' b' [2] \<and> thread_queue s' 3 [3]) \<and>
   (case ipc_thread_rmqueue ex_threads 1 2 of (s', b') \<Rightarrow> thread_queue s' b' [1] \<and> thread_ready s' 2 \<and> thread_queue s' 3 [3]) \<and>
   ipc_thread_inqueue ex_threads 1 2 = Some True"
  using thread_queue_refines_list [OF ex_thread_queue(1,2), of 4] thread_queue_refines_list [OF ex_thread_queue(1,2), of 2]
    ex_thread_queue(3) by (auto simp: ITH_NULL_def)

lemma kmsg_queue_next_ring:
  assumes "kmsg_queue s b xs" "k < length xs"
  shows "ipc_kmsg_queue_next s b (xs ! k) = (if Suc k < length xs then xs ! Suc k else IKM_NULL)"
proof -
  have n: "ikm_next s (xs ! k) = xs ! (Suc k mod length xs)"
    using cyclic_nth [of _ "ikm_prev s"] assms by (simp add: ring_def)
  have b: "b = xs ! 0" using ring_ends(1) [OF assms(1)] assms(2) by (cases xs) auto
  show ?thesis
  proof (cases "Suc k < length xs")
    case True
    then have "xs ! 0 \<noteq> xs ! Suc k" using assms(1) by (subst nth_eq_iff_index_eq) (auto simp: ring_def)
    then show ?thesis using True n b by (simp add: ipc_kmsg_queue_next_def)
  next
    case False
    then have "Suc k = length xs" using assms(2) by simp
    then show ?thesis using n b by (simp add: ipc_kmsg_queue_next_def)
  qed
qed

text \<open>
  The linked queue of messages implements a list. On links that represent the list \<open>xs\<close>,
  \<^verbatim>\<open>ipc_kmsg_enqueue\<close> appends a message, \<^verbatim>\<open>ipc_kmsg_dequeue\<close> returns and removes the first one and
  \<^verbatim>\<open>ipc_kmsg_rmqueue\<close> removes any message of the queue; each leaves every disjoint queue in the same
  links as it is. \<^verbatim>\<open>ipc_kmsg_queue_next\<close> steps through the elements in order and answers
  \<^verbatim>\<open>IKM_NULL\<close> after the last.
\<close>

theorem kmsg_queue_refines_list:
  assumes "kmsg_queue s b xs" "kmsg_queue s c ys" "set xs \<inter> set ys = {}"
  shows "(t \<notin> set (xs @ ys) \<and> t \<noteq> IKM_NULL \<longrightarrow>
      (case ipc_kmsg_enqueue s b t of (s', b') \<Rightarrow> kmsg_queue s' b' (xs @ [t]) \<and> kmsg_queue s' c ys)) \<and>
    (case ipc_kmsg_dequeue s b of (r, s', b') \<Rightarrow>
      r = (if xs = [] then IKM_NULL else hd xs) \<and> kmsg_queue s' b' (tl xs) \<and> kmsg_queue s' c ys) \<and>
    (t \<in> set xs \<longrightarrow> (case ipc_kmsg_rmqueue s b t of (s', b') \<Rightarrow>
      kmsg_queue s' b' (remove1 t xs) \<and> kmsg_queue s' c ys)) \<and>
    (\<forall>k<length xs. ipc_kmsg_queue_next s b (xs ! k) = (if Suc k < length xs then xs ! Suc k else IKM_NULL))"
  using kmsgs.enqueue_appends [OF assms(1)] kmsgs.enqueue_frame [OF assms(1) _ assms(2)]
    kmsgs.dequeue_first [OF assms(1)] kmsgs.dequeue_frame [OF assms(1) _ assms(2)]
    kmsgs.rmqueue_removes [OF assms(1)] kmsgs.rmqueue_frame [OF assms(1) _ _ assms(2)] assms(3)
  by (auto simp: kmsg_queue_next_ring [OF assms(1)] IKM_NULL_def split: prod.splits list.splits)

definition ex_kmsgs :: kmsg_links where
  "ex_kmsgs = \<lparr>ikm_next = (\<lambda>_. IKM_BOGUS)(1 := 2, 2 := 5, 5 := 1, 3 := 3), ikm_prev = (\<lambda>_. IKM_BOGUS)(1 := 5, 2 := 1, 5 := 2, 3 := 3)\<rparr>"

lemma ex_kmsg_queue: "kmsg_queue ex_kmsgs 1 [1, 2, 5]" "kmsg_queue ex_kmsgs 3 [3]"
  by (simp_all add: ring_def cyclic_def ex_kmsgs_def)

theorem kmsg_queue_refines_list_witness:
  "(case ipc_kmsg_enqueue ex_kmsgs 1 4 of (s', b') \<Rightarrow> kmsg_queue s' b' [1, 2, 5, 4] \<and> kmsg_queue s' 3 [3]) \<and>
   (case ipc_kmsg_dequeue ex_kmsgs 1 of (r, s', b') \<Rightarrow> r = 1 \<and> kmsg_queue s' b' [2, 5] \<and> kmsg_queue s' 3 [3]) \<and>
   (case ipc_kmsg_rmqueue ex_kmsgs 1 2 of (s', b') \<Rightarrow> kmsg_queue s' b' [1, 5] \<and> kmsg_queue s' 3 [3]) \<and>
   ipc_kmsg_queue_next ex_kmsgs 1 2 = 5"
proof -
  note w = kmsg_queue_refines_list [OF ex_kmsg_queue]
  show ?thesis using w [of 4] w [of 2] by (auto simp: IKM_NULL_def dest: spec [of _ "1 :: nat"])
qed

end
