(* ===== verification/IPC_Kmsg_Buffer.thy ===== *)
theory IPC_Kmsg_Buffer
  imports IPC_State "HOL-Library.Multiset"
begin

text \<open>
  Message buffers (\<^verbatim>\<open>ipc/ipc_kmsg.c\<close>, \<^verbatim>\<open>ipc/ipc_kmsg.h\<close>): the per-processor cache, the allocation of a
  buffer for a message that a user or the kernel sends, and its release. Sizes are 32-bit words and are
  added as in the code.
\<close>

section \<open>The cache\<close>

definition IKM_STASH :: nat where "IKM_STASH = 16"

text \<open>The cache of one processor: \<^verbatim>\<open>ipc_kmsg_cache[cpu]\<close> and \<^verbatim>\<open>ipc_kmsg_cache_avail[cpu]\<close>.\<close>

record ikm_cache =
  ipc_kmsg_cache :: "natural_t list"
  ipc_kmsg_cache_avail :: nat

primrec cache_scan :: "(natural_t \<Rightarrow> bool) \<Rightarrow> natural_t list \<Rightarrow> nat \<Rightarrow> nat option" where
  "cache_scan P [] i = None"
| "cache_scan P (k # ks) i = (if P k then Some i else cache_scan P ks (Suc i))"

definition ikm_cache_get :: "ikm_cache \<Rightarrow> natural_t option \<times> ikm_cache" where
  "ikm_cache_get c =
     (if ipc_kmsg_cache_avail c \<noteq> 0 then
        (case cache_scan (\<lambda>k. k \<noteq> 0) (ipc_kmsg_cache c) 0 of
           Some i \<Rightarrow> (Some (ipc_kmsg_cache c ! i),
             c\<lparr>ipc_kmsg_cache := (ipc_kmsg_cache c)[i := 0], ipc_kmsg_cache_avail := ipc_kmsg_cache_avail c - 1\<rparr>)
         | None \<Rightarrow> (None, c))
      else (None, c))"

definition ikm_cache_put :: "ikm_cache \<Rightarrow> natural_t \<Rightarrow> bool \<times> ikm_cache" where
  "ikm_cache_put c kmsg =
     (if ipc_kmsg_cache_avail c < IKM_STASH then
        (case cache_scan (\<lambda>k. k = 0) (ipc_kmsg_cache c) 0 of
           Some i \<Rightarrow> (True,
             c\<lparr>ipc_kmsg_cache := (ipc_kmsg_cache c)[i := kmsg], ipc_kmsg_cache_avail := ipc_kmsg_cache_avail c + 1\<rparr>)
         | None \<Rightarrow> (False, c))
      else (False, c))"

definition ikm_cache_init :: ikm_cache where
  "ikm_cache_init = \<lparr>ipc_kmsg_cache = replicate IKM_STASH 0, ipc_kmsg_cache_avail = 0\<rparr>"

section \<open>Buffers\<close>

definition sizeof_mach_msg_header :: natural_t where "sizeof_mach_msg_header = 24"
definition MAX_TRAILER_SIZE :: natural_t where "MAX_TRAILER_SIZE = 20"
definition IKM_OVERHEAD :: natural_t where "IKM_OVERHEAD = 16"
definition IKM_SAVED_KMSG_SIZE :: natural_t where "IKM_SAVED_KMSG_SIZE = 256"
definition IKM_SIZE_NETWORK :: natural_t where "IKM_SIZE_NETWORK = - 1"

definition ikm_plus_overhead :: "natural_t \<Rightarrow> natural_t" where "ikm_plus_overhead sz = sz + IKM_OVERHEAD"
definition ikm_less_overhead :: "natural_t \<Rightarrow> natural_t" where "ikm_less_overhead sz = sz - IKM_OVERHEAD"

definition IKM_SAVED_MSG_SIZE :: natural_t where "IKM_SAVED_MSG_SIZE = ikm_less_overhead IKM_SAVED_KMSG_SIZE"

text \<open>A buffer: where it is, the size it was allocated with, and the message in it.\<close>

record 'm kmsg_buffer =
  ikm_address :: natural_t
  ikm_size :: natural_t
  ikm_msg :: 'm

text \<open>Where a freed buffer goes.\<close>

datatype kmsg_release = NET_KMSG_PUT | IKM_CACHED | IKM_KFREE natural_t

definition ipc_kmsg_free :: "ikm_cache \<Rightarrow> 'm kmsg_buffer \<Rightarrow> kmsg_release \<times> ikm_cache" where
  "ipc_kmsg_free c kmsg =
     (if ikm_size kmsg = IKM_SIZE_NETWORK then (NET_KMSG_PUT, c)
      else if ikm_size kmsg \<noteq> IKM_SAVED_KMSG_SIZE then (IKM_KFREE (ikm_size kmsg), c)
      else (case ikm_cache_put c (ikm_address kmsg) of (stored, c) \<Rightarrow>
              (if stored then IKM_CACHED else IKM_KFREE (ikm_size kmsg), c)))"

text \<open>The macro \<^verbatim>\<open>ikm_free\<close>, which reads the size as a signed number.\<close>

definition ikm_free :: "ikm_cache \<Rightarrow> 'm kmsg_buffer \<Rightarrow> kmsg_release \<times> ikm_cache" where
  "ikm_free c kmsg = (if sint (ikm_size kmsg) > 0 then (IKM_KFREE (ikm_size kmsg), c) else ipc_kmsg_free c kmsg)"

text \<open>
  \<open>msg\<close> is what copying the user's message gives, \<open>None\<close> for a fault. The new message has the given size
  and the trailer of a message from the kernel.
\<close>

definition ipc_kmsg_get ::
  "kernel \<Rightarrow> ikm_cache \<Rightarrow> 'm option \<Rightarrow> natural_t \<Rightarrow> mach_msg_return_t \<times> 'm kmsg_buffer option \<times> kernel \<times> ikm_cache" where
  "ipc_kmsg_get s c msg sz =
     (if sz < sizeof_mach_msg_header \<or> sz AND 3 \<noteq> 0 then (MACH_SEND_MSG_TOO_SMALL, None, s, c)
      else
        let msg_and_trailer_size = sz + MAX_TRAILER_SIZE;
            (kmsg, kmsg_size, s, c) =
              (if msg_and_trailer_size \<le> IKM_SAVED_MSG_SIZE then
                 (case ikm_cache_get c of
                    (Some kmsg, c) \<Rightarrow> (kmsg, IKM_SAVED_KMSG_SIZE, s, c)
                  | (None, c) \<Rightarrow> (case kalloc s of (kmsg, s) \<Rightarrow> (kmsg, ikm_plus_overhead IKM_SAVED_MSG_SIZE, s, c)))
               else (case kalloc s of (kmsg, s) \<Rightarrow> (kmsg, ikm_plus_overhead msg_and_trailer_size, s, c)))
        in if kmsg = 0 then (MACH_SEND_NO_BUFFER, None, s, c)
           else (case msg of
                   None \<Rightarrow> (MACH_SEND_INVALID_DATA, None, s,
                     snd (ikm_free c \<lparr>ikm_address = kmsg, ikm_size = kmsg_size, ikm_msg = ()\<rparr>))
                 | Some m \<Rightarrow> (MACH_MSG_SUCCESS, Some \<lparr>ikm_address = kmsg, ikm_size = kmsg_size, ikm_msg = m\<rparr>, s, c)))"

definition ipc_kmsg_get_from_kernel ::
  "kernel \<Rightarrow> 'm \<Rightarrow> natural_t \<Rightarrow> mach_msg_return_t \<times> 'm kmsg_buffer option \<times> kernel" where
  "ipc_kmsg_get_from_kernel s msg sz =
     (let msg_and_trailer_size = sz + MAX_TRAILER_SIZE;
          msg_and_trailer_size =
            (if msg_and_trailer_size < IKM_SAVED_MSG_SIZE then IKM_SAVED_MSG_SIZE else msg_and_trailer_size);
          (kmsg, s) = kalloc s
      in if kmsg = 0 then (MACH_SEND_NO_BUFFER, None, s)
         else (MACH_MSG_SUCCESS,
           Some \<lparr>ikm_address = kmsg, ikm_size = ikm_plus_overhead msg_and_trailer_size, ikm_msg = msg\<rparr>, s))"

text \<open>\<open>copied\<close> tells whether the copy to user memory succeeded.\<close>

definition ipc_kmsg_put :: "ikm_cache \<Rightarrow> 'm kmsg_buffer \<Rightarrow> bool \<Rightarrow> mach_msg_return_t \<times> ikm_cache" where
  "ipc_kmsg_put c kmsg copied =
     (if copied then MACH_MSG_SUCCESS else MACH_RCV_INVALID_DATA,
      if ikm_size kmsg \<noteq> IKM_SAVED_KMSG_SIZE then snd (ikm_free c kmsg)
      else (case ikm_cache_put c (ikm_address kmsg) of (stored, c) \<Rightarrow> if stored then c else snd (ikm_free c kmsg)))"

definition ipc_kmsg_put_to_kernel :: "ikm_cache \<Rightarrow> 'm kmsg_buffer \<Rightarrow> 'm \<times> ikm_cache" where
  "ipc_kmsg_put_to_kernel c kmsg = (ikm_msg kmsg, snd (ikm_free c kmsg))"

section \<open>Facts on the cache\<close>

text \<open>The counter is the number of buffers in the cache.\<close>

definition cache_ok :: "ikm_cache \<Rightarrow> bool" where
  "cache_ok c \<longleftrightarrow> length (ipc_kmsg_cache c) = IKM_STASH \<and>
     ipc_kmsg_cache_avail c = length (filter (\<lambda>k. k \<noteq> 0) (ipc_kmsg_cache c))"

definition cached :: "ikm_cache \<Rightarrow> natural_t multiset" where
  "cached c = mset (filter (\<lambda>k. k \<noteq> 0) (ipc_kmsg_cache c))"

lemma cache_scan_Some:
  "cache_scan P ks i = Some j \<Longrightarrow> i \<le> j \<and> j < i + length ks \<and> P (ks ! (j - i))"
  by (induction ks arbitrary: i) (fastforce split: if_splits simp: nth_Cons' Suc_diff_Suc)+

lemma cache_scan_None: "cache_scan P ks i = None \<longleftrightarrow> (\<forall>k\<in>set ks. \<not> P k)"
  by (induction ks arbitrary: i) auto

lemma filter_update:
  assumes "i < length ks"
  shows "add_mset (ks ! i) (mset (ks[i := k])) = add_mset k (mset ks)"
  using assms by (simp add: mset_update)

lemma nonzero_update:
  fixes ks :: "natural_t list"
  assumes "i < length ks"
  shows "filter_mset (\<lambda>k. k \<noteq> 0) (mset (ks[i := k])) + (if ks ! i \<noteq> 0 then {#ks ! i#} else {#}) =
    filter_mset (\<lambda>k. k \<noteq> 0) (mset ks) + (if k \<noteq> 0 then {#k#} else {#})"
  using arg_cong [OF filter_update [OF assms, of k], of "filter_mset (\<lambda>k. k \<noteq> 0)"] by (auto split: if_splits)

lemma cache_ok_alt: "cache_ok c \<longleftrightarrow> length (ipc_kmsg_cache c) = IKM_STASH \<and> ipc_kmsg_cache_avail c = size (cached c)"
  by (simp add: cache_ok_def cached_def flip: mset_filter)

lemma cached_alt: "cached c = filter_mset (\<lambda>k. k \<noteq> 0) (mset (ipc_kmsg_cache c))"
  by (simp add: cached_def)

text \<open>
  The buffer cache loses and invents no buffer. In a cache whose counter is right,
  \<^verbatim>\<open>ikm_cache_put\<close> stores a buffer exactly when there are fewer than 16 of them and
  \<^verbatim>\<open>ikm_cache_get\<close> takes one out exactly when there is one; the counter stays right, and the buffers in
  the cache change by just the one stored or taken.
\<close>

theorem ikm_cache_exact:
  assumes "cache_ok c" "kmsg \<noteq> 0"
  shows "(case ikm_cache_put c kmsg of (stored, c') \<Rightarrow>
      cache_ok c' \<and> (stored \<longleftrightarrow> size (cached c) < IKM_STASH) \<and>
      cached c' = (if stored then add_mset kmsg (cached c) else cached c)) \<and>
    (case ikm_cache_get c of
       (None, c') \<Rightarrow> c' = c \<and> cached c = {#}
     | (Some k, c') \<Rightarrow> cache_ok c' \<and> k \<noteq> 0 \<and> cached c = add_mset k (cached c'))"
proof -
  have len: "length (ipc_kmsg_cache c) = IKM_STASH" and av: "ipc_kmsg_cache_avail c = size (cached c)"
    using assms(1) by (simp_all add: cache_ok_alt)
  have "case ikm_cache_put c kmsg of (stored, c') \<Rightarrow>
      cache_ok c' \<and> (stored \<longleftrightarrow> size (cached c) < IKM_STASH) \<and>
      cached c' = (if stored then add_mset kmsg (cached c) else cached c)"
  proof (cases "cache_scan (\<lambda>k. k = 0) (ipc_kmsg_cache c) 0")
    case None
    then have "size (cached c) = IKM_STASH"
      using len by (auto simp: cached_def cache_scan_None filter_id_conv)
    then show ?thesis using assms(1) av by (simp add: ikm_cache_put_def)
  next
    case (Some i)
    then have i: "i < length (ipc_kmsg_cache c)" "ipc_kmsg_cache c ! i = 0" using cache_scan_Some [OF Some] by auto
    then have "size (cached c) < IKM_STASH"
      using length_filter_less [of 0 "ipc_kmsg_cache c" "\<lambda>k. k \<noteq> 0"] nth_mem [OF i(1)] len
      by (simp add: cached_def flip: mset_filter)
    then show ?thesis
      using Some i nonzero_update [OF i(1), of kmsg] assms(2) av len
      by (simp add: ikm_cache_put_def cache_ok_alt cached_alt)
  qed
  moreover have "case ikm_cache_get c of
       (None, c') \<Rightarrow> c' = c \<and> cached c = {#}
     | (Some k, c') \<Rightarrow> cache_ok c' \<and> k \<noteq> 0 \<and> cached c = add_mset k (cached c')"
  proof (cases "cache_scan (\<lambda>k. k \<noteq> 0) (ipc_kmsg_cache c) 0")
    case None
    then have "cached c = {#}" by (auto simp: cached_def cache_scan_None filter_empty_conv)
    then show ?thesis using av by (simp add: ikm_cache_get_def)
  next
    case (Some i)
    then have i: "i < length (ipc_kmsg_cache c)" "ipc_kmsg_cache c ! i \<noteq> 0" using cache_scan_Some [OF Some] by auto
    have u: "cached c = add_mset (ipc_kmsg_cache c ! i) (filter_mset (\<lambda>k. k \<noteq> 0) (mset ((ipc_kmsg_cache c)[i := 0])))"
      using nonzero_update [OF i(1), of 0] i(2) by (simp add: cached_alt)
    then have "ipc_kmsg_cache_avail c \<noteq> 0" using av by simp
    then show ?thesis
      using Some i u av len by (simp add: ikm_cache_get_def cache_ok_alt cached_alt)
  qed
  ultimately show ?thesis by simp
qed

theorem ikm_cache_exact_witness:
  "(case ikm_cache_put ikm_cache_init 0x4000 of (stored, c') \<Rightarrow> cache_ok c' \<and> stored \<and> cached c' = {#0x4000#}) \<and>
   (case ikm_cache_get ikm_cache_init of (None, c') \<Rightarrow> c' = ikm_cache_init | (Some k, c') \<Rightarrow> False)"
proof -
  have c: "cached ikm_cache_init = {#}" by (simp add: cached_def ikm_cache_init_def IKM_STASH_def filter_empty_conv)
  have ok: "cache_ok ikm_cache_init" by (simp add: cache_ok_def ikm_cache_init_def filter_empty_conv IKM_STASH_def)
  show ?thesis
    using ikm_cache_exact [OF ok, of "0x4000"] c by (auto simp: IKM_STASH_def split: prod.splits option.splits)
qed

section \<open>The size of a buffer\<close>

text \<open>
  The buffer that \<^verbatim>\<open>ipc_kmsg_get\<close> hands out holds the message and the largest trailer, as long as
  adding the trailer and the overhead to the size of the message does not wrap around.
\<close>

theorem kmsg_get_buffer_holds_message:
  assumes "ipc_kmsg_get s c msg sz = (mr, Some kmsg, s', c')" "unat sz + 36 < 2 ^ 32"
  shows "unat sz + unat MAX_TRAILER_SIZE \<le> unat (ikm_less_overhead (ikm_size kmsg)) \<and> ikm_address kmsg \<noteq> 0 \<and> msg = Some (ikm_msg kmsg)"
proof -
  have u: "unat (sz + 20) = unat sz + 20" "unat (20 + sz) = unat sz + 20"
    using assms(2) by (simp_all add: unat_word_ariths)
  show ?thesis
    using assms(1) u
    by (auto simp: ipc_kmsg_get_def Let_def MAX_TRAILER_SIZE_def IKM_SAVED_MSG_SIZE_def ikm_less_overhead_def IKM_OVERHEAD_def
      ikm_plus_overhead_def IKM_SAVED_KMSG_SIZE_def word_le_nat_alt split: if_splits prod.splits option.splits)
qed

definition ex_kernel_memory :: "natural_t \<Rightarrow> kernel" where
  "ex_kernel_memory a =
     \<lparr>k_spaces = Map.empty, k_ghash = \<lparr>ipc_hash_global_mask = 0, ipc_hash_global_table = [[]]\<rparr>, k_ports = Map.empty,
      k_psets = Map.empty, k_threads = (\<lambda>_. \<lparr>ith_state = MACH_MSG_SUCCESS, ith_kmsg = None, ith_seqno = 0, ith_msize = 0\<rparr>),
      current_thread = 1, ith_messages = [], ipc_port_timestamp_data = 0, ipc_space_kernel = 64,
      ipc_table_entries = [], ipc_table_dnrequests = [], k_memory = (\<lambda>n. a), k_calls = []\<rparr>"

theorem kmsg_get_buffer_holds_message_witness:
  "\<exists>kmsg s' c'. ipc_kmsg_get (ex_kernel_memory 0x8000) ikm_cache_init (Some ()) 1000 = (MACH_MSG_SUCCESS, Some kmsg, s', c') \<and>
     1000 + unat MAX_TRAILER_SIZE \<le> unat (ikm_less_overhead (ikm_size kmsg)) \<and> ikm_address kmsg \<noteq> 0"
proof -
  have "\<exists>kmsg s' c'. ipc_kmsg_get (ex_kernel_memory 0x8000) ikm_cache_init (Some ()) 1000 = (MACH_MSG_SUCCESS, Some kmsg, s', c')"
    by (simp add: ipc_kmsg_get_def Let_def MAX_TRAILER_SIZE_def IKM_SAVED_MSG_SIZE_def ikm_less_overhead_def IKM_OVERHEAD_def
      IKM_SAVED_KMSG_SIZE_def sizeof_mach_msg_header_def kalloc_def ex_kernel_memory_def)
  then show ?thesis using kmsg_get_buffer_holds_message by fastforce
qed

text \<open>
  Nothing checks that the size of a message leaves room for the trailer. For a size within 20 bytes of \<^verbatim>\<open>2^32\<close> the
  sum with the trailer wraps around to less than 20, \<^verbatim>\<open>ipc_kmsg_get\<close> takes a buffer of 256 bytes and
  copies the whole message, almost four gigabytes, into it.
\<close>

theorem kmsg_get_size_wraps:
  assumes "2 ^ 32 - 20 \<le> unat sz" "sz AND 3 = 0" "ipc_kmsg_cache_avail c = 0" "k_memory s 0 \<noteq> 0"
  shows "\<exists>kmsg s'. ipc_kmsg_get s c (Some m) sz = (MACH_MSG_SUCCESS, Some kmsg, s', c) \<and>
    ikm_size kmsg = IKM_SAVED_KMSG_SIZE \<and> ikm_size kmsg < sz"
proof -
  have "unat sz < 2 ^ 32" using unsigned_less [of sz, where ?'a = nat] by simp
  then have w: "unat (sz + 20) = unat sz + 20 - 2 ^ 32" using assms(1) by (simp add: unat_word_ariths mod_if)
  have "sz + 20 \<le> 240" "24 \<le> sz" "256 < sz" using assms(1) w \<open>unat sz < 2 ^ 32\<close>
    by (simp_all add: word_le_nat_alt word_less_nat_alt)
  then show ?thesis
    using assms(2-4)
    by (simp add: ipc_kmsg_get_def Let_def MAX_TRAILER_SIZE_def IKM_SAVED_MSG_SIZE_def ikm_less_overhead_def IKM_OVERHEAD_def
      ikm_plus_overhead_def IKM_SAVED_KMSG_SIZE_def sizeof_mach_msg_header_def ikm_cache_get_def kalloc_def not_less)
qed

theorem kmsg_get_size_wraps_witness:
  "\<exists>kmsg s'. ipc_kmsg_get (ex_kernel_memory 0x8000) ikm_cache_init (Some ()) 0xfffffff0 =
       (MACH_MSG_SUCCESS, Some kmsg, s', ikm_cache_init) \<and>
     ikm_size kmsg = IKM_SAVED_KMSG_SIZE \<and> ikm_size kmsg < 0xfffffff0"
  using kmsg_get_size_wraps [of "0xfffffff0" ikm_cache_init "ex_kernel_memory 0x8000" "()"]
  by (simp add: ikm_cache_init_def ex_kernel_memory_def)

end
