(* ===== verification/IPC_Kmsg_Copyin.thy ===== *)
theory IPC_Kmsg_Copyin
  imports IPC_Object IPC_Kmsg_Buffer
begin

text \<open>
  Copying a message in (\<^verbatim>\<open>ipc/ipc_kmsg.c\<close>): the port names in its header and body become pointers to
  objects, and the rights move from the space of the sender to the message.

  The answers of the VM system, which copies out-of-line memory, are arguments, collected in the record
  \<open>vm_calls\<close>. The descriptors that follow the header of a user's message are a function from positions,
  because the code may read past the end of the message.
\<close>

section \<open>The message of a user\<close>

datatype user_descriptor =
    USER_PORT_DESCRIPTOR mach_port_t mach_msg_type_name_t
  | USER_OOL_DESCRIPTOR natural_t natural_t bool natural_t
  | USER_OOL_VOLATILE_DESCRIPTOR natural_t natural_t bool natural_t
  | USER_OOL_PORTS_DESCRIPTOR natural_t natural_t mach_msg_type_name_t
  | USER_BAD_DESCRIPTOR natural_t

text \<open>
  The fields in the order of the C structures: the name and disposition of a port; the address, size,
  \<open>deallocate\<close> and copy option of memory; the address, count and disposition of an array of ports.
\<close>

record user_msg =
  u_bits :: natural_t
  u_remote_port :: mach_port_t
  u_local_port :: mach_port_t
  u_id :: natural_t
  u_descriptor_count :: natural_t
  u_descriptors :: "nat \<Rightarrow> user_descriptor"
  u_data :: "natural_t list"

record vm_calls =
  vm_page_size :: natural_t
  ipc_kmsg_max_vm_space :: natural_t
  msg_ool_size_small :: natural_t
  vm_map_copyin_page_list :: "natural_t \<Rightarrow> natural_t \<Rightarrow> natural_t option"
  vm_map_copyin :: "natural_t \<Rightarrow> natural_t \<Rightarrow> natural_t option"
  vm_readable :: "natural_t \<Rightarrow> natural_t \<Rightarrow> bool"
  vm_word :: "natural_t \<Rightarrow> natural_t"

definition vm_round_page :: "vm_calls \<Rightarrow> natural_t \<Rightarrow> natural_t" where
  "vm_round_page vm x = (x + (vm_page_size vm - 1)) AND NOT (vm_page_size vm - 1)"

definition MACH_MSG_PHYSICAL_COPY :: natural_t where "MACH_MSG_PHYSICAL_COPY = 0"
definition MACH_MSG_VIRTUAL_COPY :: natural_t where "MACH_MSG_VIRTUAL_COPY = 1"

definition MACH_MSG_TYPE_PORT_ANY_SEND :: "mach_msg_type_name_t \<Rightarrow> bool" where
  "MACH_MSG_TYPE_PORT_ANY_SEND x \<longleftrightarrow> MACH_MSG_TYPE_MOVE_SEND \<le> x \<and> x \<le> MACH_MSG_TYPE_MAKE_SEND_ONCE"

definition MACH_MSGH_BITS_PORTS_MASK :: natural_t where
  "MACH_MSGH_BITS_PORTS_MASK = MACH_MSGH_BITS_REMOTE_MASK OR MACH_MSGH_BITS_LOCAL_MASK"

definition MACH_MSGH_BITS_OTHER :: "natural_t \<Rightarrow> natural_t" where
  "MACH_MSGH_BITS_OTHER bits = bits AND NOT MACH_MSGH_BITS_PORTS_MASK"

section \<open>The header\<close>

text \<open>
  The destination and reply objects, each with the send-once right of a dead-name request that has to
  be told of the loss of the name; or the error.
\<close>

record header_ports =
  hp_dest :: ipc_object_t
  hp_dest_soright :: ipc_port_t
  hp_reply :: ipc_object_t
  hp_reply_soright :: ipc_port_t

type_synonym header_result = "((mach_msg_return_t + header_ports) \<times> kernel) option"

definition dealloc_if_none :: "kernel \<Rightarrow> ipc_space_t \<Rightarrow> mach_port_t \<Rightarrow> ipc_entry_ref \<Rightarrow> kernel option" where
  "dealloc_if_none s space name entry = do {
     e \<leftarrow> k_entry s space entry;
     if IE_BITS_TYPE (ie_bits e) = MACH_PORT_TYPE_NONE then k_entry_dealloc s space name entry else Some s }"

text \<open>The same name for the destination and the reply port.\<close>

definition copyin_header_same ::
  "kernel \<Rightarrow> ipc_space_t \<Rightarrow> mach_port_t \<Rightarrow> mach_msg_type_name_t \<Rightarrow> mach_msg_type_name_t \<Rightarrow> header_result" where
  "copyin_header_same s space name dest_type reply_type = do {
     (r, s) \<leftarrow> k_entry_lookup s space name;
     (case r of
        None \<Rightarrow> Some (Inl MACH_SEND_INVALID_DEST, s)
      | Some entry \<Rightarrow> do {
          ok \<leftarrow> ipc_right_copyin_check s space name entry reply_type;
          if \<not> ok then Some (Inl MACH_SEND_INVALID_REPLY, s)
          else if dest_type = MACH_MSG_TYPE_MOVE_SEND_ONCE \<or> reply_type = MACH_MSG_TYPE_MOVE_SEND_ONCE
          then Some (Inl MACH_SEND_INVALID_DEST, s)
          else if dest_type = MACH_MSG_TYPE_MAKE_SEND \<or> dest_type = MACH_MSG_TYPE_MAKE_SEND_ONCE \<or>
            reply_type = MACH_MSG_TYPE_MAKE_SEND \<or> reply_type = MACH_MSG_TYPE_MAKE_SEND_ONCE then do {
            (kr, dest_port, dest_soright, s) \<leftarrow> ipc_right_copyin s space name entry dest_type False;
            if kr \<noteq> KERN_SUCCESS then Some (Inl MACH_SEND_INVALID_DEST, s)
            else do {
              (kr, reply_port, reply_soright, s) \<leftarrow> ipc_right_copyin s space name entry reply_type True;
              Some (Inr \<lparr>hp_dest = dest_port, hp_dest_soright = dest_soright,
                         hp_reply = reply_port, hp_reply_soright = reply_soright\<rparr>, s) } }
          else if dest_type = MACH_MSG_TYPE_COPY_SEND \<and> reply_type = MACH_MSG_TYPE_COPY_SEND then do {
            (kr, dest_port, dest_soright, s) \<leftarrow> ipc_right_copyin s space name entry dest_type False;
            if kr \<noteq> KERN_SUCCESS then Some (Inl MACH_SEND_INVALID_DEST, s)
            else do {
              (reply_port, s) \<leftarrow> ipc_port_copy_send s dest_port;
              Some (Inr \<lparr>hp_dest = dest_port, hp_dest_soright = dest_soright,
                         hp_reply = reply_port, hp_reply_soright = IP_NULL\<rparr>, s) } }
          else if dest_type = MACH_MSG_TYPE_MOVE_SEND \<and> reply_type = MACH_MSG_TYPE_MOVE_SEND then do {
            (kr, dest_port, dest_soright, s) \<leftarrow> ipc_right_copyin_two s space name entry;
            if kr \<noteq> KERN_SUCCESS then Some (Inl MACH_SEND_INVALID_DEST, s)
            else do {
              s \<leftarrow> dealloc_if_none s space name entry;
              Some (Inr \<lparr>hp_dest = dest_port, hp_dest_soright = dest_soright,
                         hp_reply = dest_port, hp_reply_soright = IP_NULL\<rparr>, s) } }
          else do {
            (kr, dest_port, soright, s) \<leftarrow> ipc_right_copyin s space name entry MACH_MSG_TYPE_MOVE_SEND False;
            if kr \<noteq> KERN_SUCCESS then Some (Inl MACH_SEND_INVALID_DEST, s)
            else do {
              s \<leftarrow> dealloc_if_none s space name entry;
              (reply_port, s) \<leftarrow> ipc_port_copy_send s dest_port;
              Some (Inr (if dest_type = MACH_MSG_TYPE_MOVE_SEND
                then \<lparr>hp_dest = dest_port, hp_dest_soright = soright, hp_reply = reply_port, hp_reply_soright = IP_NULL\<rparr>
                else \<lparr>hp_dest = dest_port, hp_dest_soright = IP_NULL, hp_reply = reply_port, hp_reply_soright = soright\<rparr>), s) } } }) }"

text \<open>No reply port.\<close>

definition copyin_header_dest ::
  "kernel \<Rightarrow> ipc_space_t \<Rightarrow> mach_port_t \<Rightarrow> mach_port_t \<Rightarrow> mach_msg_type_name_t \<Rightarrow> header_result" where
  "copyin_header_dest s space dest_name reply_name dest_type = do {
     (r, s) \<leftarrow> k_entry_lookup s space dest_name;
     (case r of
        None \<Rightarrow> Some (Inl MACH_SEND_INVALID_DEST, s)
      | Some entry \<Rightarrow> do {
          (kr, dest_port, dest_soright, s) \<leftarrow> ipc_right_copyin s space dest_name entry dest_type False;
          if kr \<noteq> KERN_SUCCESS then Some (Inl MACH_SEND_INVALID_DEST, s)
          else do {
            s \<leftarrow> dealloc_if_none s space dest_name entry;
            Some (Inr \<lparr>hp_dest = dest_port, hp_dest_soright = dest_soright,
                       hp_reply = reply_name, hp_reply_soright = IP_NULL\<rparr>, s) } }) }"

text \<open>
  Two names. The ports are not locked between the two copyins and the test of their time stamps:
  \<open>others 0\<close> and \<open>others 1\<close> are what other threads do after the first and after the second copyin.
\<close>

definition copyin_header_two ::
  "(nat \<Rightarrow> kernel \<Rightarrow> kernel) \<Rightarrow> kernel \<Rightarrow> ipc_space_t \<Rightarrow> mach_port_t \<Rightarrow> mach_port_t \<Rightarrow>
   mach_msg_type_name_t \<Rightarrow> mach_msg_type_name_t \<Rightarrow> header_result" where
  "copyin_header_two others s space dest_name reply_name dest_type reply_type = do {
     (r, s) \<leftarrow> k_entry_lookup s space dest_name;
     (case r of
        None \<Rightarrow> Some (Inl MACH_SEND_INVALID_DEST, s)
      | Some dest_entry \<Rightarrow> do {
     (r, s) \<leftarrow> k_entry_lookup s space reply_name;
     (case r of
        None \<Rightarrow> Some (Inl MACH_SEND_INVALID_REPLY, s)
      | Some reply_entry \<Rightarrow> do {
     ok \<leftarrow> ipc_right_copyin_check s space reply_name reply_entry reply_type;
     if \<not> ok then Some (Inl MACH_SEND_INVALID_REPLY, s)
     else do {
     (kr, dest_port, dest_soright, s) \<leftarrow> ipc_right_copyin s space dest_name dest_entry dest_type False;
     if kr \<noteq> KERN_SUCCESS then Some (Inl MACH_SEND_INVALID_DEST, s)
     else do {
     e \<leftarrow> k_entry s space reply_entry;
     let saved_reply = ie_object e;
     s \<leftarrow> (if saved_reply \<noteq> IP_NULL then ipc_port_reference s saved_reply else Some s);
     let s = others 0 s;
     (kr, reply_port, reply_soright, s) \<leftarrow> ipc_right_copyin s space reply_name reply_entry reply_type True;
     let s = others 1 s;
     must_undo \<leftarrow> (if saved_reply \<noteq> IP_NULL \<and> reply_port = IO_DEAD then do {
         reply \<leftarrow> k_ports s saved_reply;
         dest \<leftarrow> k_ports s dest_port;
         Some (\<not> ip_active dest \<and> IP_TIMESTAMP_ORDER (ip_timestamp dest) (ip_timestamp reply)) }
       else Some False);
     if must_undo then do {
       s \<leftarrow> ipc_right_copyin_undo s space dest_name dest_entry dest_type dest_port dest_soright;
       s \<leftarrow> ipc_right_copyin_undo s space reply_name reply_entry reply_type reply_port reply_soright;
       s \<leftarrow> (if dest_soright \<noteq> IP_NULL then ipc_notify_dead_name ipc_kmsg_destroy s dest_soright dest_name else Some s);
       s \<leftarrow> ipc_port_release s saved_reply;
       Some (Inl MACH_SEND_INVALID_DEST, s) }
     else do {
       s \<leftarrow> dealloc_if_none s space reply_name reply_entry;
       s \<leftarrow> dealloc_if_none s space dest_name dest_entry;
       s \<leftarrow> (if saved_reply \<noteq> IP_NULL then ipc_port_release s saved_reply else Some s);
       Some (Inr \<lparr>hp_dest = dest_port, hp_dest_soright = dest_soright,
                  hp_reply = reply_port, hp_reply_soright = reply_soright\<rparr>, s) } } } }) }) }"

text \<open>
  The lookup of the port for \<^verbatim>\<open>MACH_SEND_CANCEL\<close>: \<open>None\<close> if \<open>notify\<close> does not name a receive right.
\<close>

definition lookup_notify :: "kernel \<Rightarrow> ipc_space_t \<Rightarrow> mach_port_t \<Rightarrow> (ipc_port_t option \<times> kernel) option" where
  "lookup_notify s space notify =
     (if notify = MACH_PORT_NULL then Some (Some IP_NULL, s)
      else do {
        (r, s) \<leftarrow> k_entry_lookup s space notify;
        (case r of
           None \<Rightarrow> Some (None, s)
         | Some entry \<Rightarrow> do {
             e \<leftarrow> k_entry s space entry;
             if ie_bits e AND MACH_PORT_TYPE_RECEIVE = 0 then Some (None, s)
             else Some (Some (ie_object e), s) }) })"

text \<open>
  The values \<open>msgh_bits\<close>, \<open>msgh_remote_port\<close> and \<open>msgh_local_port\<close> of the answer are those of the
  message in the kernel.
\<close>

definition ipc_kmsg_copyin_header ::
  "(nat \<Rightarrow> kernel \<Rightarrow> kernel) \<Rightarrow> kernel \<Rightarrow> ipc_kmsg \<Rightarrow> ipc_space_t \<Rightarrow> mach_port_t \<Rightarrow>
   (mach_msg_return_t \<times> ipc_kmsg \<times> kernel) option" where
  "ipc_kmsg_copyin_header others s msg space notify = (
     let mbits = msgh_bits msg AND NOT MACH_MSGH_BITS_CIRCULAR;
         dest_name = msgh_remote_port msg;
         reply_name = msgh_local_port msg;
         dest_type = MACH_MSGH_BITS_REMOTE mbits;
         reply_type = MACH_MSGH_BITS_LOCAL mbits
     in if \<not> MACH_MSG_TYPE_PORT_ANY_SEND dest_type then Some (MACH_SEND_INVALID_HEADER, msg, s)
     else if (if reply_type = 0 then reply_name \<noteq> MACH_PORT_NULL else \<not> MACH_MSG_TYPE_PORT_ANY_SEND reply_type)
     then Some (MACH_SEND_INVALID_HEADER, msg, s)
     else do {
       is \<leftarrow> k_spaces s space;
       if \<not> is_active is then Some (MACH_SEND_INVALID_DEST, msg, s)
       else do {
         (notify_port, s) \<leftarrow> lookup_notify s space notify;
         (case notify_port of
            None \<Rightarrow> Some (MACH_SEND_INVALID_NOTIFY, msg, s)
          | Some notify_port \<Rightarrow> do {
              (r, s) \<leftarrow>
                (if dest_name = reply_name then copyin_header_same s space dest_name dest_type reply_type
                 else if \<not> MACH_PORT_VALID reply_name then copyin_header_dest s space dest_name reply_name dest_type
                 else copyin_header_two others s space dest_name reply_name dest_type reply_type);
              (case r of
                 Inl mr \<Rightarrow> Some (mr, msg, s)
               | Inr h \<Rightarrow> do {
                   (dest_soright, s) \<leftarrow>
                     (if notify \<noteq> MACH_PORT_NULL \<and> hp_dest_soright h = notify_port then do {
                        s \<leftarrow> ipc_port_release_sonce s (hp_dest_soright h);
                        Some (IP_NULL, s) }
                      else Some (hp_dest_soright h, s));
                   s \<leftarrow> notify_dnrequest s dest_soright dest_name;
                   s \<leftarrow> notify_dnrequest s (hp_reply_soright h) reply_name;
                   dest_type \<leftarrow> ipc_object_copyin_type dest_type;
                   reply_type \<leftarrow> ipc_object_copyin_type reply_type;
                   Some (MACH_MSG_SUCCESS,
                     msg\<lparr>msgh_bits := MACH_MSGH_BITS_OTHER mbits OR MACH_MSGH_BITS dest_type reply_type,
                         msgh_remote_port := hp_dest h, msgh_local_port := hp_reply h\<rparr>, s) }) }) } })"

section \<open>The body\<close>

text \<open>
  The first pass over the descriptors: it adds up the kernel memory for physical copies, in 32-bit
  arithmetic, and checks the copy options.
\<close>

definition ool_space ::
  "vm_calls \<Rightarrow> natural_t \<Rightarrow> natural_t \<Rightarrow> bool \<Rightarrow> natural_t \<Rightarrow> mach_msg_return_t + natural_t" where
  "ool_space vm space_needed sz deallocate copy =
     (if copy \<noteq> MACH_MSG_PHYSICAL_COPY \<and> copy \<noteq> MACH_MSG_VIRTUAL_COPY then Inl MACH_SEND_INVALID_TYPE
      else if copy = MACH_MSG_PHYSICAL_COPY \<and> sz \<ge> msg_ool_size_small vm \<and> \<not> deallocate then
        let space_needed = space_needed + vm_round_page vm sz in
        if space_needed > ipc_kmsg_max_vm_space vm then Inl MACH_SEND_VM_KERNEL else Inr space_needed
      else Inr space_needed)"

fun body_space :: "vm_calls \<Rightarrow> natural_t \<Rightarrow> user_descriptor list \<Rightarrow> mach_msg_return_t + natural_t" where
  "body_space vm space_needed [] = Inr space_needed"
| "body_space vm space_needed (d # ds) =
     (case (case d of
              USER_OOL_DESCRIPTOR address sz deallocate copy \<Rightarrow> ool_space vm space_needed sz deallocate copy
            | USER_OOL_VOLATILE_DESCRIPTOR address sz deallocate copy \<Rightarrow> ool_space vm space_needed sz deallocate copy
            | _ \<Rightarrow> Inr space_needed) of
        Inl mr \<Rightarrow> Inl mr
      | Inr space_needed \<Rightarrow> body_space vm space_needed ds)"

text \<open>
  What the second pass keeps: the descriptors done so far, the bits of the message, and the kernel
  memory left for physical copies.
\<close>

record body_state =
  bs_done :: "mach_msg_descriptor list"
  bs_bits :: natural_t
  bs_paddr :: natural_t
  bs_space :: natural_t

text \<open>The result of a descriptor: the error, or the new descriptor and state.\<close>

type_synonym descriptor_result = "((mach_msg_return_t + body_state) \<times> kernel) option"

definition copyin_circularity ::
  "kernel \<Rightarrow> mach_msg_type_name_t \<Rightarrow> ipc_object_t \<Rightarrow> ipc_port_t \<Rightarrow> natural_t \<Rightarrow> (natural_t \<times> kernel) option" where
  "copyin_circularity s disposition object dest bits =
     (if disposition = MACH_MSG_TYPE_PORT_RECEIVE then do {
        (circular, s) \<leftarrow> ipc_port_check_circularity s object dest;
        Some (if circular then bits OR MACH_MSGH_BITS_CIRCULAR else bits, s) }
      else Some (bits, s))"

definition copyin_port_descriptor ::
  "kernel \<Rightarrow> ipc_space_t \<Rightarrow> ipc_port_t \<Rightarrow> body_state \<Rightarrow> mach_port_t \<Rightarrow> mach_msg_type_name_t \<Rightarrow> descriptor_result" where
  "copyin_port_descriptor s space dest b pname name = do {
     disposition \<leftarrow> ipc_object_copyin_type name;
     if \<not> MACH_PORT_VALID pname
     then Some (Inr (b\<lparr>bs_done := bs_done b @ [MACH_MSG_PORT_DESCRIPTOR pname disposition]\<rparr>), s)
     else do {
       (kr, object, s) \<leftarrow> ipc_object_copyin s space pname name;
       if kr \<noteq> KERN_SUCCESS then Some (Inl MACH_SEND_INVALID_RIGHT, s)
       else do {
         (bits, s) \<leftarrow> copyin_circularity s disposition object dest (bs_bits b);
         Some (Inr (b\<lparr>bs_done := bs_done b @ [MACH_MSG_PORT_DESCRIPTOR object disposition], bs_bits := bits\<rparr>), s) } } }"

definition IKOT_PAGING_REQUEST :: natural_t where "IKOT_PAGING_REQUEST = 9"
definition IKOT_DEVICE :: natural_t where "IKOT_DEVICE = 10"

definition ipc_kobject_vm_page_list :: "natural_t \<Rightarrow> bool" where
  "ipc_kobject_vm_page_list ikot \<longleftrightarrow> ikot = IKOT_PAGING_REQUEST \<or> ikot = IKOT_DEVICE"

text \<open>
  Out-of-line memory: by a list of pages for some kernel objects, in a buffer of the kernel allocator
  when it is small, in the kernel's copy map, or by a virtual copy. The value is the address that goes
  into the descriptor.
\<close>

definition copyin_ool ::
  "vm_calls \<Rightarrow> kernel \<Rightarrow> bool \<Rightarrow> body_state \<Rightarrow> natural_t \<Rightarrow> natural_t \<Rightarrow> bool \<Rightarrow> natural_t \<Rightarrow>
   (mach_msg_return_t + natural_t \<times> body_state) \<times> kernel" where
  "copyin_ool vm s use_page_lists b addr len dealloc copy =
     (if len = 0 then (Inr (0, b), s)
      else if use_page_lists then
        (case vm_map_copyin_page_list vm addr len of
           None \<Rightarrow> (Inl MACH_SEND_INVALID_MEMORY, s)
         | Some copy \<Rightarrow> (Inr (copy, b), s))
      else if len < msg_ool_size_small vm \<and> copy = MACH_MSG_PHYSICAL_COPY then
        (case kalloc s of (kaddr, s) \<Rightarrow>
           if kaddr = 0 then (Inl MACH_SEND_VM_KERNEL, s)
           else if \<not> vm_readable vm addr len then (Inl MACH_SEND_INVALID_MEMORY, s)
           else (Inr (kaddr, b), s))
      else if copy = MACH_MSG_PHYSICAL_COPY \<and> \<not> dealloc then
        if \<not> vm_readable vm addr len then (Inl MACH_SEND_INVALID_MEMORY, s)
        else (case vm_map_copyin vm (bs_paddr b) len of
                None \<Rightarrow> (Inl MACH_SEND_VM_KERNEL, s)
              | Some copy \<Rightarrow>
                  (Inr (copy, b\<lparr>bs_paddr := bs_paddr b + vm_round_page vm len,
                                bs_space := bs_space b - vm_round_page vm len\<rparr>), s))
      else
        (case vm_map_copyin vm addr len of
           None \<Rightarrow> (Inl MACH_SEND_INVALID_MEMORY, s)
         | Some copy \<Rightarrow> (Inr (copy, b), s)))"

text \<open>
  The error path of an array of ports: the test of the C source looks at the name that failed, so
  every earlier element is destroyed, whether it is a right or not.
\<close>

primrec copyin_ports_undo :: "mach_msg_type_name_t \<Rightarrow> ipc_object_t list \<Rightarrow> kernel \<Rightarrow> kernel option" where
  "copyin_ports_undo disposition [] s = Some s"
| "copyin_ports_undo disposition (object # objects) s = do {
     s \<leftarrow> ipc_object_destroy ipc_kmsg_destroy s object disposition;
     copyin_ports_undo disposition objects s }"

text \<open>
  The loop over the array: \<open>names\<close> is the kernel's copy of it, which the code indexes up to the count
  of the descriptor; an index outside of the copy is an access to memory of somebody else.
\<close>

primrec copyin_ports ::
  "ipc_space_t \<Rightarrow> ipc_port_t \<Rightarrow> mach_msg_type_name_t \<Rightarrow> mach_msg_type_name_t \<Rightarrow> mach_port_t list \<Rightarrow> nat list \<Rightarrow>
   ipc_object_t list \<Rightarrow> natural_t \<Rightarrow> kernel \<Rightarrow> ((mach_msg_return_t + ipc_object_t list \<times> natural_t) \<times> kernel) option" where
  "copyin_ports space dest name disposition names [] objects bits s = Some (Inr (objects, bits), s)"
| "copyin_ports space dest name disposition names (j # js) objects bits s =
     (if length names \<le> j then None
      else if \<not> MACH_PORT_VALID (names ! j)
      then copyin_ports space dest name disposition names js (objects @ [names ! j]) bits s
      else do {
        (kr, object, s) \<leftarrow> ipc_object_copyin s space (names ! j) name;
        if kr \<noteq> KERN_SUCCESS then do {
          s \<leftarrow> copyin_ports_undo disposition objects s;
          Some (Inl MACH_SEND_INVALID_RIGHT, s) }
        else do {
          (bits, s) \<leftarrow> copyin_circularity s disposition object dest bits;
          copyin_ports space dest name disposition names js (objects @ [object]) bits s } })"

text \<open>
  The length in bytes is a 32-bit product. If it wraps around to 0 for another count than 0, the
  message keeps a descriptor of that many ports at address 0, which is no array of the kernel: \<open>None\<close>.
\<close>

definition copyin_ool_ports ::
  "vm_calls \<Rightarrow> kernel \<Rightarrow> ipc_space_t \<Rightarrow> ipc_port_t \<Rightarrow> body_state \<Rightarrow> natural_t \<Rightarrow> natural_t \<Rightarrow> mach_msg_type_name_t \<Rightarrow> descriptor_result" where
  "copyin_ool_ports vm s space dest b addr cnt name = (
     let len = cnt * 4 in
     if len = 0
     then (if cnt = 0 then Some (Inr (b\<lparr>bs_done := bs_done b @ [MACH_MSG_OOL_PORTS_DESCRIPTOR [] name]\<rparr>), s) else None)
     else do {
       let (data, s) = kalloc s;
       if data = 0 then Some (Inl MACH_SEND_NO_BUFFER, s)
       else if \<not> vm_readable vm addr len then Some (Inl MACH_SEND_INVALID_MEMORY, s)
       else do {
         let names = map (\<lambda>j. vm_word vm (addr + 4 * of_nat j)) [0..<unat len div 4];
         disposition \<leftarrow> ipc_object_copyin_type name;
         (r, s) \<leftarrow> copyin_ports space dest name disposition names [0..<unat cnt] [] (bs_bits b) s;
         (case r of
            Inl mr \<Rightarrow> Some (Inl mr, s)
          | Inr (objects, bits) \<Rightarrow>
              Some (Inr (b\<lparr>bs_done := bs_done b @ [MACH_MSG_OOL_PORTS_DESCRIPTOR objects disposition], bs_bits := bits\<rparr>), s)) } })"

definition copyin_descriptor ::
  "vm_calls \<Rightarrow> kernel \<Rightarrow> ipc_space_t \<Rightarrow> ipc_port_t \<Rightarrow> bool \<Rightarrow> body_state \<Rightarrow> user_descriptor \<Rightarrow> descriptor_result" where
  "copyin_descriptor vm s space dest use_page_lists b d =
     (case d of
        USER_PORT_DESCRIPTOR pname name \<Rightarrow> copyin_port_descriptor s space dest b pname name
      | USER_OOL_DESCRIPTOR addr sz dealloc copy \<Rightarrow>
          (case copyin_ool vm s use_page_lists b addr sz dealloc copy of
             (Inl mr, s) \<Rightarrow> Some (Inl mr, s)
           | (Inr (address, b), s) \<Rightarrow> Some (Inr (b\<lparr>bs_done := bs_done b @ [MACH_MSG_OOL_DESCRIPTOR address sz]\<rparr>), s))
      | USER_OOL_VOLATILE_DESCRIPTOR addr sz dealloc copy \<Rightarrow>
          (case copyin_ool vm s use_page_lists b addr sz dealloc copy of
             (Inl mr, s) \<Rightarrow> Some (Inl mr, s)
           | (Inr (address, b), s) \<Rightarrow> Some (Inr (b\<lparr>bs_done := bs_done b @ [MACH_MSG_OOL_VOLATILE_DESCRIPTOR address sz]\<rparr>), s))
      | USER_OOL_PORTS_DESCRIPTOR addr cnt name \<Rightarrow> copyin_ool_ports vm s space dest b addr cnt name
      | USER_BAD_DESCRIPTOR type \<Rightarrow> Some (Inl MACH_SEND_INVALID_TYPE, s))"

primrec copyin_descriptors ::
  "vm_calls \<Rightarrow> ipc_space_t \<Rightarrow> ipc_port_t \<Rightarrow> bool \<Rightarrow> user_descriptor list \<Rightarrow> body_state \<Rightarrow> kernel \<Rightarrow>
   ((mach_msg_return_t option \<times> body_state) \<times> kernel) option" where
  "copyin_descriptors vm space dest use_page_lists [] b s = Some ((None, b), s)"
| "copyin_descriptors vm space dest use_page_lists (d # ds) b s = do {
     (r, s) \<leftarrow> copyin_descriptor vm s space dest use_page_lists b d;
     (case r of
        Inl mr \<Rightarrow> Some ((Some mr, b), s)
      | Inr b \<Rightarrow> copyin_descriptors vm space dest use_page_lists ds b s) }"

text \<open>
  The check that the message holds its descriptors: \<open>header\<close> is the address of the header in the
  buffer. The C source adds the size of the message, in bytes, to a pointer to a header, so that it
  counts headers of 24 bytes.
\<close>

definition descriptors_bad :: "natural_t \<Rightarrow> natural_t \<Rightarrow> natural_t \<Rightarrow> bool" where
  "descriptors_bad header sz cnt \<longleftrightarrow>
     (let saddr = header + 24 + 4; eaddr = saddr + 12 * cnt
      in eaddr \<le> saddr \<or> eaddr > header + 24 * sz)"

text \<open>The number of steps of 12 bytes from the first descriptor to the end.\<close>

definition descriptor_steps :: "natural_t \<Rightarrow> nat" where
  "descriptor_steps cnt = (unat (12 * cnt) + 11) div 12"

definition ipc_kmsg_copyin_body ::
  "vm_calls \<Rightarrow> kernel \<Rightarrow> natural_t \<Rightarrow> ipc_kmsg \<Rightarrow> natural_t \<Rightarrow> (nat \<Rightarrow> user_descriptor) \<Rightarrow> ipc_space_t \<Rightarrow>
   (mach_msg_return_t \<times> ipc_kmsg \<times> kernel) option" where
  "ipc_kmsg_copyin_body vm s header kmsg cnt descriptors space = do {
     let dest = msgh_remote_port kmsg;
     p \<leftarrow> k_ports s dest;
     let use_page_lists = ipc_kobject_vm_page_list (ip_kotype p);
     let ds = map descriptors [0..<descriptor_steps cnt];
     if descriptors_bad header (msgh_size kmsg) cnt then do {
       s \<leftarrow> ipc_kmsg_clean_partial ipc_kmsg_destroy s kmsg 0;
       Some (MACH_SEND_MSG_TOO_SMALL, kmsg, s) }
     else (case body_space vm 0 ds of
        Inl mr \<Rightarrow> do {
          s \<leftarrow> ipc_kmsg_clean_partial ipc_kmsg_destroy s kmsg 0;
          Some (mr, kmsg, s) }
      | Inr space_needed \<Rightarrow> do {
          let (paddr, s) = (if space_needed \<noteq> 0 then kalloc s else (0, s));
          if space_needed \<noteq> 0 \<and> paddr = 0 then do {
            s \<leftarrow> ipc_kmsg_clean_partial ipc_kmsg_destroy s kmsg 0;
            Some (MACH_SEND_VM_KERNEL, kmsg, s) }
          else do {
            ((mr, b), s) \<leftarrow> copyin_descriptors vm space dest use_page_lists ds
              \<lparr>bs_done = [], bs_bits = msgh_bits kmsg, bs_paddr = paddr, bs_space = space_needed\<rparr> s;
            let kmsg = kmsg\<lparr>msgh_bits := bs_bits b, ikm_body := bs_done b\<rparr>;
            (case mr of
               Some mr \<Rightarrow> do {
                 s \<leftarrow> ipc_kmsg_clean_partial ipc_kmsg_destroy s kmsg (length (bs_done b));
                 Some (mr, kmsg, s) }
             | None \<Rightarrow> Some (MACH_MSG_SUCCESS, kmsg, s)) } }) }"

text \<open>The message in the buffer before its ports are copied in.\<close>

definition kmsg_of_user :: "user_msg \<Rightarrow> natural_t \<Rightarrow> ipc_kmsg" where
  "kmsg_of_user u sz =
     \<lparr>msgh_bits = u_bits u, msgh_size = sz, msgh_remote_port = u_remote_port u, msgh_local_port = u_local_port u,
      msgh_id = u_id u, ikm_body = [], ikm_data = u_data u\<rparr>"

definition ipc_kmsg_copyin ::
  "vm_calls \<Rightarrow> (nat \<Rightarrow> kernel \<Rightarrow> kernel) \<Rightarrow> kernel \<Rightarrow> natural_t \<Rightarrow> user_msg \<Rightarrow> natural_t \<Rightarrow> ipc_space_t \<Rightarrow> mach_port_t \<Rightarrow>
   (mach_msg_return_t \<times> ipc_kmsg \<times> kernel) option" where
  "ipc_kmsg_copyin vm others s header u sz space notify = do {
     (mr, kmsg, s) \<leftarrow> ipc_kmsg_copyin_header others s (kmsg_of_user u sz) space notify;
     if mr \<noteq> MACH_MSG_SUCCESS then Some (mr, kmsg, s)
     else if msgh_bits kmsg AND MACH_MSGH_BITS_COMPLEX = 0 then Some (MACH_MSG_SUCCESS, kmsg, s)
     else ipc_kmsg_copyin_body vm s header kmsg (u_descriptor_count u) (u_descriptors u) space }"

section \<open>Messages of the kernel\<close>

primrec copyin_kernel_ports ::
  "ipc_port_t \<Rightarrow> mach_msg_type_name_t \<Rightarrow> mach_msg_type_name_t \<Rightarrow> ipc_object_t list \<Rightarrow> natural_t \<Rightarrow> kernel \<Rightarrow> (natural_t \<times> kernel) option" where
  "copyin_kernel_ports remote name disposition [] bits s = Some (bits, s)"
| "copyin_kernel_ports remote name disposition (object # objects) bits s =
     (if \<not> IO_VALID object then copyin_kernel_ports remote name disposition objects bits s
      else do {
        s \<leftarrow> ipc_object_copyin_from_kernel s object name;
        (bits, s) \<leftarrow> copyin_circularity s disposition object remote bits;
        copyin_kernel_ports remote name disposition objects bits s })"

primrec copyin_kernel_body ::
  "ipc_port_t \<Rightarrow> mach_msg_descriptor list \<Rightarrow> mach_msg_descriptor list \<Rightarrow> natural_t \<Rightarrow> kernel \<Rightarrow>
   (mach_msg_descriptor list \<times> natural_t \<times> kernel) option" where
  "copyin_kernel_body remote [] ds bits s = Some (ds, bits, s)"
| "copyin_kernel_body remote (d # rest) ds bits s =
     (case d of
        MACH_MSG_PORT_DESCRIPTOR object name \<Rightarrow> do {
          disposition \<leftarrow> ipc_object_copyin_type name;
          (bits, s) \<leftarrow> copyin_kernel_ports remote name disposition [object] bits s;
          copyin_kernel_body remote rest (ds @ [MACH_MSG_PORT_DESCRIPTOR object disposition]) bits s }
      | MACH_MSG_OOL_PORTS_DESCRIPTOR objects name \<Rightarrow> do {
          disposition \<leftarrow> ipc_object_copyin_type name;
          (bits, s) \<leftarrow> copyin_kernel_ports remote name disposition objects bits s;
          copyin_kernel_body remote rest (ds @ [MACH_MSG_OOL_PORTS_DESCRIPTOR objects disposition]) bits s }
      | _ \<Rightarrow> copyin_kernel_body remote rest (ds @ [d]) bits s)"

definition ipc_kmsg_copyin_from_kernel :: "kernel \<Rightarrow> ipc_kmsg \<Rightarrow> (ipc_kmsg \<times> kernel) option" where
  "ipc_kmsg_copyin_from_kernel s kmsg = do {
     let bits = msgh_bits kmsg;
     let rname = MACH_MSGH_BITS_REMOTE bits;
     let lname = MACH_MSGH_BITS_LOCAL bits;
     let remote = msgh_remote_port kmsg;
     let local = msgh_local_port kmsg;
     s \<leftarrow> ipc_object_copyin_from_kernel s remote rname;
     s \<leftarrow> (if IO_VALID local then ipc_object_copyin_from_kernel s local lname else Some s);
     bits \<leftarrow>
       (if bits = MACH_MSGH_BITS_COMPLEX OR MACH_MSGH_BITS MACH_MSG_TYPE_COPY_SEND 0
        then Some (MACH_MSGH_BITS_COMPLEX OR MACH_MSGH_BITS MACH_MSG_TYPE_PORT_SEND 0)
        else do {
          rtype \<leftarrow> ipc_object_copyin_type rname;
          ltype \<leftarrow> ipc_object_copyin_type lname;
          Some (MACH_MSGH_BITS_OTHER bits OR MACH_MSGH_BITS rtype ltype) });
     if bits AND MACH_MSGH_BITS_COMPLEX = 0 then Some (kmsg\<lparr>msgh_bits := bits\<rparr>, s)
     else do {
       (body, bits, s) \<leftarrow> copyin_kernel_body remote (ikm_body kmsg) [] bits s;
       Some (kmsg\<lparr>msgh_bits := bits, ikm_body := body\<rparr>, s) } }"

end
