(* ===== verification/IPC_Kmsg_Copyout.thy ===== *)
theory IPC_Kmsg_Copyout
  imports IPC_Kmsg_Copyin
begin

text \<open>
  Copying a message out (\<^verbatim>\<open>ipc/ipc_kmsg.c\<close>): the pointers to objects in its header and body become port
  names, and the rights move from the message to the space of the receiver.
\<close>

definition MACH_MSG_IPC_SPACE :: natural_t where "MACH_MSG_IPC_SPACE = 0x2000"
definition MACH_MSG_VM_SPACE :: natural_t where "MACH_MSG_VM_SPACE = 0x1000"
definition MACH_MSG_IPC_KERNEL :: natural_t where "MACH_MSG_IPC_KERNEL = 0x800"
definition MACH_MSG_VM_KERNEL :: natural_t where "MACH_MSG_VM_KERNEL = 0x400"

section \<open>The header\<close>

text \<open>One round of the loop that finds or makes an entry for the reply port.\<close>

datatype reply_outcome =
    RO_RETURN mach_msg_return_t kernel
  | RO_DEAD kernel
  | RO_ENTRY mach_port_t ipc_entry_ref ipc_port_t kernel
  | RO_GROW kernel
  | RO_DNGROW kernel

definition release_notify :: "kernel \<Rightarrow> ipc_port_t \<Rightarrow> kernel option" where
  "release_notify s notify_port = (if notify_port \<noteq> IP_NULL then ipc_port_release_sonce s notify_port else Some s)"

definition copyout_reply_new ::
  "kernel \<Rightarrow> ipc_space_t \<Rightarrow> ipc_port_t \<Rightarrow> ipc_port_t \<Rightarrow> reply_outcome option" where
  "copyout_reply_new s space reply notify_port = do {
     p \<leftarrow> k_ports s reply;
     if \<not> ip_active p then do {
       s \<leftarrow> ip_release s reply;
       s \<leftarrow> ip_check_unlock s reply;
       s \<leftarrow> release_notify s notify_port;
       Some (RO_DEAD s) }
     else do {
       got \<leftarrow> k_entry_get s space;
       (case got of
          None \<Rightarrow> do {
            s \<leftarrow> release_notify s notify_port;
            Some (RO_GROW s) }
        | Some (reply_name, entry, s) \<Rightarrow>
            if notify_port = IP_NULL then do {
              s \<leftarrow> k_entry_write s space entry (\<lambda>e. e\<lparr>ie_object := reply\<rparr>);
              Some (RO_ENTRY reply_name entry IP_NULL s) }
            else do {
              (kr, request, s) \<leftarrow> ipc_port_dnrequest s reply reply_name notify_port;
              if kr \<noteq> KERN_SUCCESS then do {
                s \<leftarrow> ipc_port_release_sonce s notify_port;
                s \<leftarrow> k_entry_dealloc s space reply_name entry;
                Some (RO_DNGROW s) }
              else do {
                s \<leftarrow> k_entry_write s space entry (\<lambda>e. e\<lparr>ie_object := reply, ie_request := unat request\<rparr>);
                Some (RO_ENTRY reply_name entry IP_NULL s) } }) } }"

definition copyout_reply_step ::
  "kernel \<Rightarrow> ipc_space_t \<Rightarrow> mach_port_t \<Rightarrow> ipc_port_t \<Rightarrow> mach_msg_type_name_t \<Rightarrow> reply_outcome option" where
  "copyout_reply_step s space notify reply reply_type = do {
     is \<leftarrow> k_spaces s space;
     if \<not> is_active is then Some (RO_RETURN (MACH_RCV_HEADER_ERROR MACH_MSG_IPC_SPACE) s)
     else do {
       (notify_port, s) \<leftarrow>
         (if notify \<noteq> MACH_PORT_NULL then ipc_port_lookup_notify s space notify else Some (IP_NULL, s));
       if notify \<noteq> MACH_PORT_NULL \<and> notify_port = IP_NULL then Some (RO_RETURN MACH_RCV_INVALID_NOTIFY s)
       else do {
         (r, s) \<leftarrow> (if reply_type \<noteq> MACH_MSG_TYPE_PORT_SEND_ONCE then ipc_right_reverse s space reply else Some (None, s));
         (case r of
            Some (reply_name, entry) \<Rightarrow> Some (RO_ENTRY reply_name entry notify_port s)
          | None \<Rightarrow> copyout_reply_new s space reply notify_port) } } }"

text \<open>
  The loop: \<open>ws\<close> are the windows of growing the table of the space, \<open>ds\<close> what other threads do while the
  request table of the reply port grows. The answer is the error, or the name of the reply port and the
  reply port, which is dead if it died before.
\<close>

function copyout_reply ::
  "kernel \<Rightarrow> ipc_space_t \<Rightarrow> mach_port_t \<Rightarrow> ipc_port_t \<Rightarrow> mach_msg_type_name_t \<Rightarrow> window list \<Rightarrow> (kernel \<Rightarrow> kernel) list \<Rightarrow>
   ((mach_msg_return_t + mach_port_t \<times> ipc_port_t) \<times> kernel \<times> window list \<times> (kernel \<Rightarrow> kernel) list) option" where
  "copyout_reply s space notify reply reply_type ws ds = do {
     step \<leftarrow> copyout_reply_step s space notify reply reply_type;
     (case step of
        RO_RETURN mr s \<Rightarrow> Some (Inl mr, s, ws, ds)
      | RO_DEAD s \<Rightarrow> Some (Inr (MACH_PORT_DEAD, IP_DEAD), s, ws, ds)
      | RO_ENTRY reply_name entry notify_port s \<Rightarrow> do {
          s \<leftarrow> ip_reference s reply;
          (kr, s) \<leftarrow> ipc_right_copyout s space reply_name entry reply_type True reply;
          s \<leftarrow> release_notify s notify_port;
          Some (Inr (reply_name, reply), s, ws, ds) }
      | RO_GROW s \<Rightarrow>
          (case k_grow_table s space ITS_SIZE_NONE ws of
             None \<Rightarrow> None
           | Some (kr, s, ws') \<Rightarrow>
               if kr \<noteq> KERN_SUCCESS then
                 Some (Inl (MACH_RCV_HEADER_ERROR
                   (if kr = KERN_RESOURCE_SHORTAGE then MACH_MSG_IPC_KERNEL else MACH_MSG_IPC_SPACE)), s, ws', ds)
               else copyout_reply s space notify reply reply_type ws' ds)
      | RO_DNGROW s \<Rightarrow>
          (case ds of
             [] \<Rightarrow> None
           | others # ds' \<Rightarrow>
               (case k_ports s reply of
                  None \<Rightarrow> None
                | Some p \<Rightarrow>
                    if \<not> ip_active p then copyout_reply s space notify reply reply_type ws ds'
                    else
                      (case ipc_port_dngrow others s reply ITS_SIZE_NONE of
                         None \<Rightarrow> None
                       | Some (kr, s) \<Rightarrow>
                           if kr \<noteq> KERN_SUCCESS then Some (Inl (MACH_RCV_HEADER_ERROR MACH_MSG_IPC_KERNEL), s, ws, ds')
                           else copyout_reply s space notify reply reply_type ws ds')))) }"
  by pat_completeness auto
termination
  by (relation "measure (\<lambda>(s, space, notify, reply, reply_type, ws, ds). length ws + length ds)")
    (auto dest: k_grow_table_windows)

declare copyout_reply.simps [simp del]

text \<open>The destination: a name if the space holds the receive right.\<close>

definition copyout_dest_name ::
  "kernel \<Rightarrow> ipc_space_t \<Rightarrow> ipc_port_t \<Rightarrow> mach_msg_type_name_t \<Rightarrow> ipc_port_t \<Rightarrow> (mach_port_t \<times> kernel) option" where
  "copyout_dest_name s space dest dest_type reply = do {
     p \<leftarrow> k_ports s dest;
     (dest_name, s) \<leftarrow>
       (if ip_active p then ipc_object_copyout_dest s space dest dest_type
        else do {
          s \<leftarrow> ip_release s dest;
          s \<leftarrow> ip_check_unlock s dest;
          if IP_VALID reply then do {
            r \<leftarrow> k_ports s reply;
            Some (if ip_active r \<or> IP_TIMESTAMP_ORDER (ip_timestamp p) (ip_timestamp r)
                  then MACH_PORT_DEAD else MACH_PORT_NULL, s) }
          else Some (MACH_PORT_DEAD, s) });
     s \<leftarrow> (if IP_VALID reply then ipc_port_release s reply else Some s);
     Some (dest_name, s) }"

text \<open>\<open>others\<close> is what other threads do between the copyout of the reply port and of the destination.\<close>

definition ipc_kmsg_copyout_header ::
  "(kernel \<Rightarrow> kernel) \<Rightarrow> kernel \<Rightarrow> ipc_kmsg \<Rightarrow> ipc_space_t \<Rightarrow> mach_port_t \<Rightarrow> window list \<Rightarrow> (kernel \<Rightarrow> kernel) list \<Rightarrow>
   (mach_msg_return_t \<times> ipc_kmsg \<times> kernel \<times> window list) option" where
  "ipc_kmsg_copyout_header others s msg space notify ws ds = do {
     let mbits = msgh_bits msg;
     let dest = msgh_remote_port msg;
     let dest_type = MACH_MSGH_BITS_REMOTE mbits;
     let reply_type = MACH_MSGH_BITS_LOCAL mbits;
     let reply = msgh_local_port msg;
     (r, s, ws) \<leftarrow>
       (if IP_VALID reply then do {
          (r, s, ws, ds) \<leftarrow> copyout_reply s space notify reply reply_type ws ds;
          Some (r, s, ws) }
        else do {
          is \<leftarrow> k_spaces s space;
          if \<not> is_active is then Some (Inl (MACH_RCV_HEADER_ERROR MACH_MSG_IPC_SPACE), s, ws)
          else do {
            (notify_port, s) \<leftarrow> lookup_notify s space notify;
            if notify_port = None then Some (Inl MACH_RCV_INVALID_NOTIFY, s, ws)
            else Some (Inr (reply, reply), s, ws) } });
     (case r of
        Inl mr \<Rightarrow> Some (mr, msg, s, ws)
      | Inr (reply_name, reply) \<Rightarrow> do {
          (dest_name, s) \<leftarrow> copyout_dest_name (others s) space dest dest_type reply;
          Some (MACH_MSG_SUCCESS,
            msg\<lparr>msgh_bits := MACH_MSGH_BITS_OTHER mbits OR MACH_MSGH_BITS reply_type dest_type,
                msgh_local_port := dest_name, msgh_remote_port := reply_name\<rparr>, s, ws) }) }"

section \<open>The body\<close>

definition ipc_kmsg_copyout_object ::
  "kernel \<Rightarrow> ipc_space_t \<Rightarrow> ipc_object_t \<Rightarrow> mach_msg_type_name_t \<Rightarrow> window list \<Rightarrow>
   (natural_t \<times> mach_port_t \<times> kernel \<times> window list) option" where
  "ipc_kmsg_copyout_object s space object msgt_name ws =
     (if \<not> IO_VALID object then Some (0, object, s, ws)
      else do {
        (kr, name, s, ws) \<leftarrow> ipc_object_copyout s space object msgt_name True ws;
        if kr \<noteq> KERN_SUCCESS then do {
          s \<leftarrow> ipc_object_destroy ipc_kmsg_destroy s object msgt_name;
          Some (if kr = KERN_INVALID_CAPABILITY then (0, MACH_PORT_DEAD, s, ws)
                else (if kr = KERN_RESOURCE_SHORTAGE then MACH_MSG_IPC_KERNEL else MACH_MSG_IPC_SPACE, MACH_PORT_NULL, s, ws)) }
        else Some (0, name, s, ws) })"

text \<open>
  The scatter list of a receiver that wants out-of-line data in given places: a descriptor has an
  address, a size or count, and a copy option. \<open>None\<close> is \<^verbatim>\<open>MACH_MSG_DESCRIPTOR_NULL\<close>.
\<close>

datatype scatter_descriptor =
    SCATTER_PORT
  | SCATTER_OOL natural_t natural_t natural_t
  | SCATTER_OOL_PORTS natural_t natural_t natural_t

definition MACH_MSG_OVERWRITE :: natural_t where "MACH_MSG_OVERWRITE = 3"

definition SKIP_PORT_DESCRIPTORS :: "scatter_descriptor list option \<Rightarrow> scatter_descriptor list option" where
  "SKIP_PORT_DESCRIPTORS sstart =
     (case sstart of None \<Rightarrow> None
      | Some ds \<Rightarrow> (case dropWhile (\<lambda>d. d = SCATTER_PORT) ds of [] \<Rightarrow> None | d # ds \<Rightarrow> Some (d # ds)))"

definition INCREMENT_SCATTER :: "scatter_descriptor list option \<Rightarrow> scatter_descriptor list option" where
  "INCREMENT_SCATTER sstart = map_option tl sstart"

fun scatter_overwrite :: "scatter_descriptor list option \<Rightarrow> natural_t option" where
  "scatter_overwrite (Some (SCATTER_OOL addr sz copy # ds)) = (if copy = MACH_MSG_OVERWRITE then Some addr else None)"
| "scatter_overwrite (Some (SCATTER_OOL_PORTS addr n copy # ds)) = (if copy = MACH_MSG_OVERWRITE then Some addr else None)"
| "scatter_overwrite sstart = None"

definition vm_error :: "kern_return_t \<Rightarrow> natural_t" where
  "vm_error kr = (if kr = KERN_RESOURCE_SHORTAGE then MACH_MSG_VM_KERNEL else MACH_MSG_VM_SPACE)"

primrec copyout_ports ::
  "ipc_space_t \<Rightarrow> mach_msg_type_name_t \<Rightarrow> ipc_object_t list \<Rightarrow> mach_port_t list \<Rightarrow> natural_t \<Rightarrow> kernel \<Rightarrow> window list \<Rightarrow>
   (mach_port_t list \<times> natural_t \<times> kernel \<times> window list) option" where
  "copyout_ports space disposition [] names mr s ws = Some (names, mr, s, ws)"
| "copyout_ports space disposition (object # objects) names mr s ws = do {
     (mr1, name, s, ws) \<leftarrow> ipc_kmsg_copyout_object s space object disposition ws;
     copyout_ports space disposition objects (names @ [name]) (mr OR mr1) s ws }"

text \<open>
  One out-of-line descriptor: its new address and the error bits. \<open>kr\<close> is the answer of the call to the
  VM system (\<^verbatim>\<open>vm_allocate\<close>, \<^verbatim>\<open>vm_map_copyout\<close> or \<^verbatim>\<open>vm_map_copy_overwrite\<close>), and \<open>KERN_SUCCESS\<close> where the code
  makes none (a small physical copy to memory that the scatter list names); \<open>addr\<close> is the address that it
  found.
\<close>

definition copyout_ool ::
  "kern_return_t \<Rightarrow> natural_t \<Rightarrow> scatter_descriptor list option \<Rightarrow> natural_t \<Rightarrow> natural_t \<times> natural_t" where
  "copyout_ool kr addr sstart address =
     (if address = 0 then (address, 0)
      else if kr \<noteq> KERN_SUCCESS then (0, vm_error kr)
      else (case scatter_overwrite sstart of Some rcv_addr \<Rightarrow> rcv_addr | None \<Rightarrow> addr, 0))"

text \<open>Does the descriptor own memory that \<open>ipc_kmsg_clean_body\<close> frees?\<close>

fun owns_memory :: "mach_msg_descriptor \<Rightarrow> bool" where
  "owns_memory (MACH_MSG_PORT_DESCRIPTOR object disposition) = False"
| "owns_memory (MACH_MSG_OOL_DESCRIPTOR address sz) = (address \<noteq> 0 \<and> sz \<noteq> 0)"
| "owns_memory (MACH_MSG_OOL_VOLATILE_DESCRIPTOR address sz) = (address \<noteq> 0 \<and> sz \<noteq> 0)"
| "owns_memory (MACH_MSG_OOL_PORTS_DESCRIPTOR objects disposition) = (objects \<noteq> [])"

text \<open>
  The loop over the descriptors. \<open>done\<close> are the descriptors that hold names and addresses of the receiver
  already; \<open>vm i\<close> is the answer of the VM system for descriptor \<open>i\<close>. When the memory for an array of ports
  cannot be allocated, the code cleans the whole body, the descriptors that are done and those that are
  still to come included, and goes on. If another descriptor owns memory then this frees an address of
  the receiver, or memory that the loop uses next: the value is \<open>None\<close>. The pointers to ports in the
  descriptors to come are used a second time.
\<close>

primrec copyout_descriptors ::
  "(nat \<Rightarrow> kern_return_t \<times> natural_t) \<Rightarrow> ipc_space_t \<Rightarrow> mach_msg_descriptor list \<Rightarrow> mach_msg_descriptor list \<Rightarrow>
   scatter_descriptor list option \<Rightarrow> natural_t \<Rightarrow> kernel \<Rightarrow> window list \<Rightarrow>
   (mach_msg_descriptor list \<times> natural_t \<times> kernel \<times> window list) option" where
  "copyout_descriptors vm space [] done sstart mr s ws = Some (done, mr, s, ws)"
| "copyout_descriptors vm space (d # rest) done sstart mr s ws =
     (let (kr, addr) = vm (length done) in
      case d of
        MACH_MSG_PORT_DESCRIPTOR object disposition \<Rightarrow> do {
          (mr1, name, s, ws) \<leftarrow> ipc_kmsg_copyout_object s space object disposition ws;
          copyout_descriptors vm space rest (done @ [MACH_MSG_PORT_DESCRIPTOR name disposition]) sstart (mr OR mr1) s ws }
      | MACH_MSG_OOL_DESCRIPTOR address sz \<Rightarrow>
          (let sstart = SKIP_PORT_DESCRIPTORS sstart; (address, mr1) = copyout_ool kr addr sstart address
           in copyout_descriptors vm space rest (done @ [MACH_MSG_OOL_DESCRIPTOR address sz])
                (INCREMENT_SCATTER sstart) (mr OR mr1) s ws)
      | MACH_MSG_OOL_VOLATILE_DESCRIPTOR address sz \<Rightarrow>
          (let sstart = SKIP_PORT_DESCRIPTORS sstart; (address, mr1) = copyout_ool kr addr sstart address
           in copyout_descriptors vm space rest (done @ [MACH_MSG_OOL_VOLATILE_DESCRIPTOR address sz])
                (INCREMENT_SCATTER sstart) (mr OR mr1) s ws)
      | MACH_MSG_OOL_PORTS_DESCRIPTOR objects disposition \<Rightarrow>
          (let sstart = SKIP_PORT_DESCRIPTORS sstart;
               len = (of_nat (length objects) * 4 :: natural_t)
           in
           if len = 0 then copyout_descriptors vm space rest (done @ [d]) (INCREMENT_SCATTER sstart) mr s ws
           else if scatter_overwrite sstart = None \<and> kr \<noteq> KERN_SUCCESS then
             if list_ex owns_memory (done @ rest) then None
             else do {
               s \<leftarrow> clean_descriptors ipc_kmsg_destroy (done @ d # rest) s;
               copyout_descriptors vm space rest (done @ [MACH_MSG_OOL_PORTS_DESCRIPTOR [] disposition])
                 (INCREMENT_SCATTER sstart) (mr OR vm_error kr) s ws }
           else do {
             (names, mr, s, ws) \<leftarrow> copyout_ports space disposition objects [] mr s ws;
             copyout_descriptors vm space rest (done @ [MACH_MSG_OOL_PORTS_DESCRIPTOR names disposition])
               (INCREMENT_SCATTER sstart) mr s ws }))"

definition ipc_kmsg_copyout_body ::
  "(nat \<Rightarrow> kern_return_t \<times> natural_t) \<Rightarrow> kernel \<Rightarrow> ipc_kmsg \<Rightarrow> ipc_space_t \<Rightarrow> scatter_descriptor list option \<Rightarrow> window list \<Rightarrow>
   (natural_t \<times> ipc_kmsg \<times> kernel \<times> window list) option" where
  "ipc_kmsg_copyout_body vm s kmsg space slist ws = do {
     (body, mr, s, ws) \<leftarrow> copyout_descriptors vm space (ikm_body kmsg) [] slist 0 s ws;
     Some (mr, kmsg\<lparr>ikm_body := body\<rparr>, s, ws) }"

section \<open>The message\<close>

definition ipc_kmsg_copyout ::
  "(nat \<Rightarrow> kern_return_t \<times> natural_t) \<Rightarrow> (kernel \<Rightarrow> kernel) \<Rightarrow> kernel \<Rightarrow> ipc_kmsg \<Rightarrow> ipc_space_t \<Rightarrow> mach_port_t \<Rightarrow>
   scatter_descriptor list option \<Rightarrow> window list \<Rightarrow> (kernel \<Rightarrow> kernel) list \<Rightarrow>
   (mach_msg_return_t \<times> ipc_kmsg \<times> kernel \<times> window list) option" where
  "ipc_kmsg_copyout vm others s kmsg space notify slist ws ds = do {
     (mr, kmsg, s, ws) \<leftarrow> ipc_kmsg_copyout_header others s kmsg space notify ws ds;
     if mr \<noteq> MACH_MSG_SUCCESS then Some (mr, kmsg, s, ws)
     else if msgh_bits kmsg AND MACH_MSGH_BITS_COMPLEX \<noteq> 0 then do {
       (bits, kmsg, s, ws) \<leftarrow> ipc_kmsg_copyout_body vm s kmsg space slist ws;
       Some (if bits \<noteq> 0 then MACH_RCV_BODY_ERROR bits else MACH_MSG_SUCCESS, kmsg, s, ws) }
     else Some (MACH_MSG_SUCCESS, kmsg, s, ws) }"

definition ipc_kmsg_copyout_pseudo ::
  "(nat \<Rightarrow> kern_return_t \<times> natural_t) \<Rightarrow> kernel \<Rightarrow> ipc_kmsg \<Rightarrow> ipc_space_t \<Rightarrow> scatter_descriptor list option \<Rightarrow> window list \<Rightarrow>
   (natural_t \<times> ipc_kmsg \<times> kernel \<times> window list) option" where
  "ipc_kmsg_copyout_pseudo vm s kmsg space slist ws = do {
     let mbits = msgh_bits kmsg;
     (mr1, dest_name, s, ws) \<leftarrow>
       ipc_kmsg_copyout_object s space (msgh_remote_port kmsg) (MACH_MSGH_BITS_REMOTE mbits) ws;
     (mr2, reply_name, s, ws) \<leftarrow>
       ipc_kmsg_copyout_object s space (msgh_local_port kmsg) (MACH_MSGH_BITS_LOCAL mbits) ws;
     let kmsg = kmsg\<lparr>msgh_bits := mbits AND NOT MACH_MSGH_BITS_CIRCULAR,
                     msgh_remote_port := dest_name, msgh_local_port := reply_name\<rparr>;
     if mbits AND MACH_MSGH_BITS_COMPLEX \<noteq> 0 then do {
       (mr, kmsg, s, ws) \<leftarrow> ipc_kmsg_copyout_body vm s kmsg space slist ws;
       Some (mr1 OR mr2 OR mr, kmsg, s, ws) }
     else Some (mr1 OR mr2, kmsg, s, ws) }"

text \<open>The name for the destination in the two routines below.\<close>

definition copyout_dest_or_dead ::
  "kernel \<Rightarrow> ipc_space_t \<Rightarrow> ipc_port_t \<Rightarrow> mach_msg_type_name_t \<Rightarrow> (mach_port_t \<times> kernel) option" where
  "copyout_dest_or_dead s space dest dest_type = do {
     p \<leftarrow> k_ports s dest;
     if ip_active p then ipc_object_copyout_dest s space dest dest_type
     else do {
       s \<leftarrow> ip_release s dest;
       s \<leftarrow> ip_check_unlock s dest;
       Some (MACH_PORT_DEAD, s) } }"

definition ipc_kmsg_copyout_dest :: "kernel \<Rightarrow> ipc_kmsg \<Rightarrow> ipc_space_t \<Rightarrow> (ipc_kmsg \<times> kernel) option" where
  "ipc_kmsg_copyout_dest s kmsg space = do {
     let mbits = msgh_bits kmsg;
     let reply = msgh_local_port kmsg;
     let dest_type = MACH_MSGH_BITS_REMOTE mbits;
     let reply_type = MACH_MSGH_BITS_LOCAL mbits;
     (dest_name, s) \<leftarrow> copyout_dest_or_dead s space (msgh_remote_port kmsg) dest_type;
     (reply_name, s) \<leftarrow>
       (if IO_VALID reply then do {
          s \<leftarrow> ipc_object_destroy ipc_kmsg_destroy s reply reply_type;
          Some (MACH_PORT_NULL, s) }
        else Some (reply, s));
     let kmsg = kmsg\<lparr>msgh_bits := MACH_MSGH_BITS_OTHER mbits OR MACH_MSGH_BITS reply_type dest_type,
                     msgh_local_port := dest_name, msgh_remote_port := reply_name\<rparr>;
     s \<leftarrow> (if mbits AND MACH_MSGH_BITS_COMPLEX \<noteq> 0
           then ipc_kmsg_clean_body ipc_kmsg_destroy s kmsg (length (ikm_body kmsg)) else Some s);
     Some (kmsg, s) }"

definition ipc_kmsg_copyout_to_kernel :: "kernel \<Rightarrow> ipc_kmsg \<Rightarrow> ipc_space_t \<Rightarrow> (ipc_kmsg \<times> kernel) option" where
  "ipc_kmsg_copyout_to_kernel s kmsg space = do {
     let dest_type = MACH_MSGH_BITS_REMOTE (msgh_bits kmsg);
     let reply_type = MACH_MSGH_BITS_LOCAL (msgh_bits kmsg);
     (dest_name, s) \<leftarrow> copyout_dest_or_dead s space (msgh_remote_port kmsg) dest_type;
     Some (kmsg\<lparr>msgh_bits := MACH_MSGH_BITS_OTHER (msgh_bits kmsg) OR MACH_MSGH_BITS reply_type dest_type,
                msgh_local_port := dest_name, msgh_remote_port := msgh_local_port kmsg\<rparr>, s) }"

section \<open>Scatter lists\<close>

text \<open>
  The loop over the gather list: \<open>gs\<close> are the descriptors of the message, \<open>ss\<close> what is left of the
  scatter list, and \<open>none\<close> tells that the scatter list has a descriptor count of 0.
\<close>

fun scatter_check :: "mach_msg_descriptor list \<Rightarrow> scatter_descriptor list \<Rightarrow> bool \<Rightarrow> mach_msg_return_t" where
  "scatter_check [] ss none = MACH_MSG_SUCCESS"
| "scatter_check (g # gs) ss none =
     (case g of
        MACH_MSG_PORT_DESCRIPTOR object disposition \<Rightarrow> scatter_check gs ss none
      | _ \<Rightarrow>
          if none then MACH_RCV_SCATTER_SMALL
          else
            (case dropWhile (\<lambda>d. d = SCATTER_PORT) ss of
               [] \<Rightarrow> MACH_MSG_SUCCESS
             | d # ss \<Rightarrow>
                 (case g of
                    MACH_MSG_OOL_PORTS_DESCRIPTOR objects disposition \<Rightarrow>
                      (case d of
                         SCATTER_OOL_PORTS address n copy \<Rightarrow>
                           if copy = MACH_MSG_OVERWRITE \<and> length objects > unat n then MACH_RCV_SCATTER_SMALL
                           else scatter_check gs ss none
                       | _ \<Rightarrow> MACH_RCV_INVALID_TYPE)
                  | MACH_MSG_OOL_DESCRIPTOR address gsz \<Rightarrow>
                      (case d of
                         SCATTER_OOL a sz copy \<Rightarrow>
                           if copy = MACH_MSG_OVERWRITE \<and> gsz > sz then MACH_RCV_SCATTER_SMALL else scatter_check gs ss none
                       | _ \<Rightarrow> MACH_RCV_INVALID_TYPE)
                  | MACH_MSG_OOL_VOLATILE_DESCRIPTOR address gsz \<Rightarrow>
                      (case d of
                         SCATTER_OOL a sz copy \<Rightarrow>
                           if copy = MACH_MSG_OVERWRITE \<and> gsz > sz then MACH_RCV_SCATTER_SMALL else scatter_check gs ss none
                       | _ \<Rightarrow> MACH_RCV_INVALID_TYPE)
                  | MACH_MSG_PORT_DESCRIPTOR object disposition \<Rightarrow> MACH_MSG_SUCCESS)))"

definition ipc_kmsg_check_scatter :: "ipc_kmsg \<Rightarrow> scatter_descriptor list \<Rightarrow> mach_msg_return_t" where
  "ipc_kmsg_check_scatter kmsg slist = scatter_check (ikm_body kmsg) slist (slist = [])"

end
