(* ===== verification/Mach_Msg.thy ===== *)
theory Mach_Msg
  imports IPC_Kmsg_Copyout
begin

text \<open>
  The kernel call that sends and receives messages (\<^verbatim>\<open>ipc/mach_msg.c\<close>), without its hot path: the general
  routines for sending and for receiving, and the trap that combines them.
\<close>

definition MACH_SEND_MSG :: natural_t where "MACH_SEND_MSG = 0x1"
definition MACH_RCV_MSG :: natural_t where "MACH_RCV_MSG = 0x2"
definition MACH_SEND_CANCEL :: natural_t where "MACH_SEND_CANCEL = 0x80"
definition MACH_RCV_NOTIFY :: natural_t where "MACH_RCV_NOTIFY = 0x200"
definition MACH_RCV_OVERWRITE :: natural_t where "MACH_RCV_OVERWRITE = 0x1000"
definition MACH_RCV_TRAILER_MASK :: natural_t where "MACH_RCV_TRAILER_MASK = 0xff000000"

definition sizeof_mach_msg_base :: natural_t where "sizeof_mach_msg_base = 28"
definition sizeof_mach_msg_descriptor :: natural_t where "sizeof_mach_msg_descriptor = 12"
definition sizeof_mach_msg_size :: natural_t where "sizeof_mach_msg_size = 4"

text \<open>The sizes of the three kinds of trailer. Other indices are outside of the array: \<open>None\<close>.\<close>

definition trailer_size :: "natural_t list" where "trailer_size = [8, 12, 20]"

definition GET_RCV_ELEMENTS :: "natural_t \<Rightarrow> nat" where
  "GET_RCV_ELEMENTS y = unat (drop_bit 24 y AND 0xf)"

definition REQUESTED_TRAILER_SIZE :: "natural_t \<Rightarrow> natural_t option" where
  "REQUESTED_TRAILER_SIZE y =
     (if GET_RCV_ELEMENTS y < length trailer_size then Some (trailer_size ! GET_RCV_ELEMENTS y) else None)"

definition MACH_MSG_TRAILER_MINIMUM_SIZE :: natural_t where "MACH_MSG_TRAILER_MINIMUM_SIZE = 8"

text \<open>
  What happens outside: the answers of the VM system to copying in and out, what other threads do at the
  points where nothing is locked, how the waits of the thread end, whether the copy to user memory
  succeeds, and the answer of checking a scatter list against a message that is not complex, whose data
  the code then reads as descriptors.
\<close>

record msg_world =
  mw_vm_in :: vm_calls
  mw_vm_out :: "nat \<Rightarrow> kern_return_t \<times> natural_t"
  mw_copyin :: "nat \<Rightarrow> kernel \<Rightarrow> kernel"
  mw_copyout :: "kernel \<Rightarrow> kernel"
  mw_unlocked :: "kernel \<Rightarrow> kernel"
  mw_wakeups :: "wakeup list"
  mw_windows :: "window list"
  mw_dngrow :: "(kernel \<Rightarrow> kernel) list"
  mw_copied :: bool
  mw_simple :: "ipc_kmsg \<Rightarrow> mach_msg_return_t"

text \<open>What a call writes to the buffer of the user: a message, its sequence number, and how many bytes.\<close>

record user_copy =
  uc_msg :: ipc_kmsg
  uc_seqno :: natural_t
  uc_size :: natural_t

definition put_user ::
  "msg_world \<Rightarrow> ikm_cache \<Rightarrow> unit kmsg_buffer \<Rightarrow> ipc_kmsg \<Rightarrow> natural_t \<Rightarrow> natural_t \<Rightarrow>
   mach_msg_return_t \<times> user_copy option \<times> ikm_cache" where
  "put_user w c buf kmsg seqno sz =
     (case ipc_kmsg_put c buf (mw_copied w) of (mr, c) \<Rightarrow>
        (mr, if mw_copied w then Some \<lparr>uc_msg = kmsg, uc_seqno = seqno, uc_size = sz\<rparr> else None, c))"

section \<open>Sending\<close>

text \<open>\<open>msg\<close> is the user's message, \<open>None\<close> if reading it faults.\<close>

definition mach_msg_send ::
  "msg_world \<Rightarrow> kernel \<Rightarrow> ikm_cache \<Rightarrow> ipc_space_t \<Rightarrow> user_msg option \<Rightarrow> natural_t \<Rightarrow> natural_t \<Rightarrow> natural_t \<Rightarrow> mach_port_t \<Rightarrow>
   (mach_msg_return_t \<times> user_copy option \<times> kernel \<times> ikm_cache) option" where
  "mach_msg_send w s c space msg option send_size timeout notify =
     (case ipc_kmsg_get s c msg send_size of
        (mr, None, s, c) \<Rightarrow> Some (mr, None, s, c)
      | (mr, Some buf, s, c) \<Rightarrow> do {
          let copyin = ipc_kmsg_copyin (mw_vm_in w) (mw_copyin w) s (ikm_address buf + IKM_OVERHEAD)
            (ikm_msg buf) send_size space;
          (mr, kmsg, s) \<leftarrow>
            (if option AND MACH_SEND_CANCEL \<noteq> 0 then
               if notify = MACH_PORT_NULL then Some (MACH_SEND_INVALID_NOTIFY, kmsg_of_user (ikm_msg buf) send_size, s)
               else copyin notify
             else copyin MACH_PORT_NULL);
          if mr \<noteq> MACH_MSG_SUCCESS then Some (mr, None, s, snd (ikm_free c buf))
          else do {
            (mr, s, _) \<leftarrow> ipc_mqueue_send ipc_kmsg_destroy s kmsg (option AND MACH_SEND_TIMEOUT) timeout (mw_wakeups w);
            if mr = MACH_MSG_SUCCESS then Some (mr, None, s, c)
            else do {
              (bits, kmsg, s, _) \<leftarrow> ipc_kmsg_copyout_pseudo (mw_vm_out w) s kmsg space None (mw_windows w);
              let (_, copy, c) = put_user w c \<lparr>ikm_address = ikm_address buf, ikm_size = ikm_size buf, ikm_msg = ()\<rparr>
                kmsg 0 (msgh_size kmsg);
              Some (if bits = 0 then mr else MACH_SEND_PSEUDO mr bits, copy, s, c) } } })"

section \<open>Receiving\<close>

text \<open>
  The size of the trailer and the sequence number in it: those of the template, unless the user asks for
  some kind of trailer.
\<close>

definition fill_trailer :: "natural_t \<Rightarrow> natural_t \<Rightarrow> (natural_t \<times> natural_t) option" where
  "fill_trailer option seqno =
     (if option AND MACH_RCV_TRAILER_MASK \<noteq> 0 then map_option (\<lambda>sz. (seqno, sz)) (REQUESTED_TRAILER_SIZE option)
      else Some (0, MACH_MSG_TRAILER_MINIMUM_SIZE))"

definition msg_receive_error ::
  "msg_world \<Rightarrow> kernel \<Rightarrow> ikm_cache \<Rightarrow> unit kmsg_buffer \<Rightarrow> ipc_kmsg \<Rightarrow> natural_t \<Rightarrow> natural_t \<Rightarrow> ipc_space_t \<Rightarrow>
   (mach_msg_return_t \<times> user_copy option \<times> kernel \<times> ikm_cache) option" where
  "msg_receive_error w s c buf kmsg option seqno space = do {
     (kmsg, s) \<leftarrow> ipc_kmsg_copyout_dest s kmsg space;
     let kmsg = kmsg\<lparr>msgh_size := sizeof_mach_msg_header\<rparr>;
     (seqno, sz) \<leftarrow> fill_trailer option seqno;
     let (mr, copy, c) = put_user w c buf kmsg seqno (msgh_size kmsg + sz);
     Some (if mr = MACH_RCV_INVALID_DATA then MACH_RCV_INVALID_DATA else MACH_MSG_SUCCESS, copy, s, c) }"

text \<open>
  Reading the scatter list of the user. \<open>slist\<close> is what the copy gives, \<open>None\<close> for a fault: the descriptor
  count and the descriptors that lie in the memory. A count that the check accepts though they are fewer
  makes the code read beyond the memory.
\<close>

definition copyin_scatter ::
  "kernel \<Rightarrow> natural_t \<Rightarrow> natural_t \<Rightarrow> (natural_t \<times> scatter_descriptor list) option \<Rightarrow>
   ((mach_msg_return_t + scatter_descriptor list option) \<times> kernel) option" where
  "copyin_scatter s option slist_size slist =
     (if option AND MACH_RCV_OVERWRITE = 0 then Some (Inr None, s)
      else if slist_size < sizeof_mach_msg_base then Some (Inl MACH_RCV_SCATTER_SMALL, s)
      else
        let slist_size = slist_size - sizeof_mach_msg_header; (mem, s) = kalloc s
        in (case slist of
              None \<Rightarrow> Some (Inl MACH_RCV_INVALID_DATA, s)
            | Some (cnt, ds) \<Rightarrow>
                if mem = 0 then Some (Inl MACH_RCV_INVALID_DATA, s)
                else if cnt * sizeof_mach_msg_descriptor + sizeof_mach_msg_size > slist_size
                then Some (Inl MACH_RCV_INVALID_TYPE, s)
                else if unat cnt \<le> length ds then Some (Inr (Some (take (unat cnt) ds)), s)
                else None))"

definition check_scatter :: "msg_world \<Rightarrow> scatter_descriptor list \<Rightarrow> ipc_kmsg \<Rightarrow> mach_msg_return_t" where
  "check_scatter w slist kmsg =
     (if msgh_bits kmsg AND MACH_MSGH_BITS_COMPLEX \<noteq> 0 then ipc_kmsg_check_scatter kmsg slist else mw_simple w kmsg)"

text \<open>What follows a successful receive: the rights move to the space and the message to the user.\<close>

definition receive_copyout ::
  "msg_world \<Rightarrow> kernel \<Rightarrow> ikm_cache \<Rightarrow> ipc_space_t \<Rightarrow> unit kmsg_buffer \<Rightarrow> ipc_kmsg \<Rightarrow> natural_t \<Rightarrow> natural_t \<Rightarrow> mach_port_t \<Rightarrow>
   scatter_descriptor list option \<Rightarrow> (mach_msg_return_t \<times> user_copy option \<times> kernel \<times> ikm_cache) option" where
  "receive_copyout w s c space buf kmsg seqno option notify slist = do {
     (tseqno, tsize) \<leftarrow> fill_trailer option seqno;
     let copyout = (\<lambda>notify. ipc_kmsg_copyout (mw_vm_out w) (mw_copyout w) s kmsg space notify slist (mw_windows w) (mw_dngrow w));
     (mr, kmsg, s, _) \<leftarrow>
       (if option AND MACH_RCV_NOTIFY \<noteq> 0 then
          if notify = MACH_PORT_NULL then Some (MACH_RCV_INVALID_NOTIFY, kmsg, s, mw_windows w) else copyout notify
        else copyout MACH_PORT_NULL);
     (case mr of
        MACH_MSG_SUCCESS \<Rightarrow>
          (case put_user w c buf kmsg tseqno (msgh_size kmsg + tsize) of (mr, copy, c) \<Rightarrow> Some (mr, copy, s, c))
      | MACH_RCV_BODY_ERROR bits \<Rightarrow>
          (case put_user w c buf kmsg tseqno (msgh_size kmsg + tsize) of (mr', copy, c) \<Rightarrow>
             Some (if mr' = MACH_RCV_INVALID_DATA then MACH_RCV_INVALID_DATA else mr, copy, s, c))
      | _ \<Rightarrow> do {
          (mr', copy, s, c) \<leftarrow> msg_receive_error w s c buf kmsg option seqno space;
          Some (if mr' = MACH_RCV_INVALID_DATA then MACH_RCV_INVALID_DATA else mr, copy, s, c) }) }"

text \<open>
  \<open>buf\<close> is the buffer of the message that is received. The code passes only the timeout bit of the
  options to \<open>ipc_mqueue_receive\<close>, which takes the size of the trailer from them.
\<close>

definition mach_msg_receive ::
  "msg_world \<Rightarrow> kernel \<Rightarrow> ikm_cache \<Rightarrow> ipc_space_t \<Rightarrow> unit kmsg_buffer \<Rightarrow> natural_t \<Rightarrow> natural_t \<Rightarrow> mach_port_t \<Rightarrow> natural_t \<Rightarrow>
   mach_port_t \<Rightarrow> natural_t \<Rightarrow> (natural_t \<times> scatter_descriptor list) option \<Rightarrow>
   (mach_msg_return_t \<times> user_copy option \<times> kernel \<times> ikm_cache) option" where
  "mach_msg_receive w s c space buf option rcv_size rcv_name timeout notify slist_size slist = do {
     (mr, r, s) \<leftarrow> ipc_mqueue_copyin s space rcv_name;
     (case r of
        None \<Rightarrow> Some (mr, None, s, c)
      | Some (mqueue, object) \<Rightarrow> do {
          (sc, s) \<leftarrow> copyin_scatter s option slist_size slist;
          (case sc of
             Inl mr \<Rightarrow> do {
               s \<leftarrow> ipc_object_release s object;
               Some (mr, None, s, c) }
           | Inr slist \<Rightarrow> do {
               let s = (if slist = None then s else mw_unlocked w s);
               let receive_option = option AND MACH_RCV_TIMEOUT;
               trailer \<leftarrow> REQUESTED_TRAILER_SIZE receive_option;
               (mr, received, s, _) \<leftarrow> ipc_mqueue_receive s mqueue receive_option rcv_size timeout trailer
                 (map_option (check_scatter w) slist) (mw_wakeups w);
               s \<leftarrow> ipc_object_release s object;
               (case received of
                  None \<Rightarrow> Some (mr, None, s, c)
                | Some (kmsg, seqno) \<Rightarrow>
                    if mr = MACH_MSG_SUCCESS then receive_copyout w s c space buf kmsg seqno option notify slist
                    else if mr = MACH_RCV_TOO_LARGE \<or> mr = MACH_RCV_SCATTER_SMALL then do {
                      (mr', copy, s, c) \<leftarrow> msg_receive_error w s c buf kmsg option seqno space;
                      Some (if mr' = MACH_RCV_INVALID_DATA then MACH_RCV_INVALID_DATA else mr, copy, s, c) }
                    else Some (mr, None, s, c)) }) }) }"

section \<open>The trap\<close>

definition mach_msg_overwrite_trap ::
  "msg_world \<Rightarrow> msg_world \<Rightarrow> kernel \<Rightarrow> ikm_cache \<Rightarrow> ipc_space_t \<Rightarrow> unit kmsg_buffer \<Rightarrow> user_msg option \<Rightarrow> natural_t \<Rightarrow> natural_t \<Rightarrow>
   natural_t \<Rightarrow> mach_port_t \<Rightarrow> natural_t \<Rightarrow> mach_port_t \<Rightarrow> natural_t \<Rightarrow> (natural_t \<times> scatter_descriptor list) option \<Rightarrow>
   (mach_msg_return_t \<times> user_copy option \<times> kernel \<times> ikm_cache) option" where
  "mach_msg_overwrite_trap ws wr s c space buf msg option send_size rcv_size rcv_name timeout notify slist_size slist = do {
     (mr, copy, s, c) \<leftarrow>
       (if option AND MACH_SEND_MSG \<noteq> 0 then mach_msg_send ws s c space msg option send_size timeout notify
        else Some (MACH_MSG_SUCCESS, None, s, c));
     if mr \<noteq> MACH_MSG_SUCCESS then Some (mr, copy, s, c)
     else if option AND MACH_RCV_MSG \<noteq> 0
     then mach_msg_receive wr s c space buf option rcv_size rcv_name timeout notify slist_size slist
     else Some (MACH_MSG_SUCCESS, None, s, c) }"

end
