(* ===== verification/Mach_Returns.thy ===== *)
theory Mach_Returns
  imports Mach_Prelude "HOL-Library.Monad_Syntax"
begin

text \<open>
  Rules for what an operation of the model returns, along the structure of its definition. They carry
  the proofs on the routines that copy messages in and out.
\<close>

text \<open>\<open>returns P m\<close>: if the operation returns then its result satisfies \<open>P\<close>.\<close>

definition returns :: "('a \<Rightarrow> bool) \<Rightarrow> 'a option \<Rightarrow> bool" where
  "returns P m \<longleftrightarrow> (\<forall>r. m = Some r \<longrightarrow> P r)"

named_theorems returns_intros

lemma returnsD: "returns P m \<Longrightarrow> m = Some r \<Longrightarrow> P r"
  by (simp add: returns_def)

lemma returns_mono: "returns Q m \<Longrightarrow> (\<And>r. Q r \<Longrightarrow> P r) \<Longrightarrow> returns P m"
  by (simp add: returns_def)

lemma returns_Some [returns_intros]: "P r \<Longrightarrow> returns P (Some r)"
  by (simp add: returns_def)

lemma returns_None [returns_intros]: "returns P None"
  by (simp add: returns_def)

lemma returns_bind [returns_intros]: "(\<And>x. m = Some x \<Longrightarrow> returns P (f x)) \<Longrightarrow> returns P (m \<bind> f)"
  by (auto simp: returns_def bind_eq_Some_conv)

lemma returns_if [returns_intros]: "(b \<Longrightarrow> returns P m) \<Longrightarrow> (\<not> b \<Longrightarrow> returns P n) \<Longrightarrow> returns P (if b then m else n)"
  by simp

lemma returns_prod [returns_intros]: "(\<And>x y. p = (x, y) \<Longrightarrow> returns P (f x y)) \<Longrightarrow> returns P (case p of (x, y) \<Rightarrow> f x y)"
  by (cases p) simp

lemma returns_prod_app [returns_intros]:
  "(\<And>x y. p = (x, y) \<Longrightarrow> returns P (f x y z)) \<Longrightarrow> returns P ((case p of (x, y) \<Rightarrow> f x y) z)"
  by (cases p) simp

lemma returns_option [returns_intros]:
  "(x = None \<Longrightarrow> returns P m) \<Longrightarrow> (\<And>y. x = Some y \<Longrightarrow> returns P (f y)) \<Longrightarrow> returns P (case x of None \<Rightarrow> m | Some y \<Rightarrow> f y)"
  by (cases x) simp_all

lemma returns_sum [returns_intros]:
  "(\<And>y. x = Inl y \<Longrightarrow> returns P (f y)) \<Longrightarrow> (\<And>y. x = Inr y \<Longrightarrow> returns P (g y)) \<Longrightarrow>
   returns P (case x of Inl y \<Rightarrow> f y | Inr y \<Rightarrow> g y)"
  by (cases x) simp_all

lemma returns_list [returns_intros]:
  "(xs = [] \<Longrightarrow> returns P m) \<Longrightarrow> (\<And>y ys. xs = y # ys \<Longrightarrow> returns P (f y ys)) \<Longrightarrow>
   returns P (case xs of [] \<Rightarrow> m | y # ys \<Rightarrow> f y ys)"
  by (cases xs) simp_all

lemma returns_Let [returns_intros]: "(\<And>y. y = x \<Longrightarrow> returns P (f y)) \<Longrightarrow> returns P (let y = x in f y)"
  by simp

end
