(* ===== verification/IPC_Kmsg_Copy_Facts.thy ===== *)
theory IPC_Kmsg_Copy_Facts
  imports IPC_Kmsg_Copyout IPC_Example IPC_Kmsg_Facts Mach_Returns
begin

text \<open>
  Facts on copying messages in and out: the types of the rights in a message of the kernel, the check of
  the number of its descriptors, and the check of scatter lists.
\<close>

section \<open>The types of a message\<close>

































text \<open>A complex message to the port that the example space receives from, with a send right in its body.\<close>

definition ux :: user_msg where
  "ux = \<lparr>u_bits = 0x80000014, u_remote_port = 0x300, u_local_port = 0, u_id = 7,
    u_descriptor_count = 1, u_descriptors = (\<lambda>_. USER_PORT_DESCRIPTOR 0x200 MACH_MSG_TYPE_COPY_SEND), u_data = []\<rparr>"

definition vx :: vm_calls where
  "vx = \<lparr>vm_page_size = 4096, ipc_kmsg_max_vm_space = 65536, msg_ool_size_small = 2048, vm_map_copyin_page_list = (\<lambda>_ _. None),
     vm_map_copyin = (\<lambda>_ _. None), vm_readable = (\<lambda>_ _. False), vm_word = (\<lambda>_. 0)\<rparr>"



section \<open>The descriptors of a message\<close>

lemma descriptors_bad_iff:
  assumes "unat header + 28 + 12 * unat cnt < 2 ^ 32" "unat header + 24 * unat sz < 2 ^ 32"
  shows "descriptors_bad header sz cnt \<longleftrightarrow> cnt = 0 \<or> 24 * unat sz < 28 + 12 * unat cnt"
proof -
  have c: "unat (12 * cnt) = 12 * unat cnt" and z: "unat (24 * sz) = 24 * unat sz"
    using assms by (simp_all add: unat_word_ariths)
  have s: "unat (header + 24 + 4) = unat header + 28"
    using assms by (simp add: unat_word_ariths)
  have e: "unat (header + 24 + 4 + 12 * cnt) = unat header + 28 + 12 * unat cnt"
    unfolding unat_word_ariths(1) [of "header + 24 + 4"] s c using assms by simp
  have l: "unat (header + 24 * sz) = unat header + 24 * unat sz"
    unfolding unat_word_ariths(1) [of header] z using assms by simp
  show ?thesis
    unfolding descriptors_bad_def Let_def word_le_nat_alt word_less_nat_alt s e l by (auto simp: unat_eq_0)
qed

lemma descriptor_steps_eq: "12 * unat cnt < 2 ^ 32 \<Longrightarrow> descriptor_steps cnt = unat cnt"
  by (simp add: descriptor_steps_def unat_word_ariths)

text \<open>A descriptor for a port that is null, as it is in the message of the user and after it has been copied in.\<close>

definition null_descriptor :: user_descriptor where
  "null_descriptor = USER_PORT_DESCRIPTOR MACH_PORT_NULL MACH_MSG_TYPE_COPY_SEND"

lemma null_descriptors_space: "body_space vm n (replicate k null_descriptor) = Inr n"
  by (induction k) (simp_all add: null_descriptor_def)

lemma null_descriptors_copyin:
  "copyin_descriptors vm space dest use_page_lists (replicate k null_descriptor) b s =
     Some ((None, b\<lparr>bs_done := bs_done b @ replicate k (MACH_MSG_PORT_DESCRIPTOR MACH_PORT_NULL MACH_MSG_TYPE_PORT_SEND)\<rparr>), s)"
proof (induction k arbitrary: b)
  case (Suc k)
  have "ipc_object_copyin_type MACH_MSG_TYPE_COPY_SEND = Some MACH_MSG_TYPE_PORT_SEND" "\<not> MACH_PORT_VALID MACH_PORT_NULL" by code_simp+
  with Suc show ?case by (simp add: null_descriptor_def copyin_descriptor_def copyin_port_descriptor_def)
qed simp

text \<open>
  C35: A message is accepted with many more descriptors than it can hold. The descriptors are 12 bytes each and start
  after the 28 bytes of the header and the count, but the check of \<^verbatim>\<open>ipc_kmsg_copyin_body\<close> accepts them up to 24 times the
  size of the message. So when the bytes behind the header, in the message and in the buffer past its end, look like
  descriptors of null ports, a message of \<open>sz\<close> bytes that claims \<open>cnt\<close> of them, with \<open>28 + 12 cnt\<close> between \<open>sz\<close> and
  \<open>24 sz\<close>, is copied in with success and with all of them, those past its end included; only above that the result is
  \<^verbatim>\<open>MACH_SEND_MSG_TOO_SMALL\<close>. (The addresses are those of a buffer near which nothing wraps around.)
\<close>

theorem descriptor_check_too_weak:
  assumes "unat header + 28 + 12 * unat cnt < 2 ^ 32" "unat header + 24 * unat (msgh_size kmsg) < 2 ^ 32"
    and "k_ports s (msgh_remote_port kmsg) \<noteq> None" "0 < cnt" "\<And>j. j < unat cnt \<Longrightarrow> descriptors j = null_descriptor"
  shows "(28 + 12 * unat cnt \<le> 24 * unat (msgh_size kmsg) \<longrightarrow>
      ipc_kmsg_copyin_body vm s header kmsg cnt descriptors space = Some (MACH_MSG_SUCCESS, kmsg\<lparr>ikm_body :=
        replicate (unat cnt) (MACH_MSG_PORT_DESCRIPTOR MACH_PORT_NULL MACH_MSG_TYPE_PORT_SEND)\<rparr>, s)) \<and>
    (24 * unat (msgh_size kmsg) < 28 + 12 * unat cnt \<longrightarrow>
      (\<forall>r. ipc_kmsg_copyin_body vm s header kmsg cnt descriptors space = Some r \<longrightarrow> fst r = MACH_SEND_MSG_TOO_SMALL))"
proof -
  have bad: "descriptors_bad header (msgh_size kmsg) cnt \<longleftrightarrow> 24 * unat (msgh_size kmsg) < 28 + 12 * unat cnt"
    using descriptors_bad_iff [OF assms(1,2)] assms(4) by auto
  have ds: "map descriptors [0..<descriptor_steps cnt] = replicate (unat cnt) null_descriptor"
    using assms(1,5) by (simp add: descriptor_steps_eq list_eq_iff_nth_eq)
  obtain p where "k_ports s (msgh_remote_port kmsg) = Some p" using assms(3) by blast
  then show ?thesis
    by (auto simp: ipc_kmsg_copyin_body_def Let_def bad ds null_descriptors_space null_descriptors_copyin bind_eq_Some_conv)
qed

theorem descriptor_check_too_weak_witness:
  "ipc_kmsg_copyin_body vx kx 0xc0100010 (kmsg_of_user ux 40\<lparr>msgh_remote_port := 0x2000\<rparr>) 77 (\<lambda>_. null_descriptor) 32 =
     Some (MACH_MSG_SUCCESS, kmsg_of_user ux 40\<lparr>msgh_remote_port := 0x2000,
       ikm_body := replicate 77 (MACH_MSG_PORT_DESCRIPTOR MACH_PORT_NULL MACH_MSG_TYPE_PORT_SEND)\<rparr>, kx) \<and>
   40 < 28 + 12 * (77 :: nat)"
  using descriptor_check_too_weak [of "0xc0100010" 77 "kmsg_of_user ux 40\<lparr>msgh_remote_port := 0x2000\<rparr>" kx "\<lambda>_. null_descriptor" vx 32]
  by (simp add: kmsg_of_user_def)

section \<open>Scatter lists\<close>

text \<open>
  How a descriptor of the scatter list fits one of the message: the kinds agree, and memory that is to
  be overwritten is large enough.
\<close>

fun fits :: "mach_msg_descriptor \<Rightarrow> scatter_descriptor \<Rightarrow> bool" where
  "fits (MACH_MSG_OOL_DESCRIPTOR address sz) (SCATTER_OOL a n copy) = (copy = MACH_MSG_OVERWRITE \<longrightarrow> sz \<le> n)"
| "fits (MACH_MSG_OOL_VOLATILE_DESCRIPTOR address sz) (SCATTER_OOL a n copy) = (copy = MACH_MSG_OVERWRITE \<longrightarrow> sz \<le> n)"
| "fits (MACH_MSG_OOL_PORTS_DESCRIPTOR objects disposition) (SCATTER_OOL_PORTS a n copy) =
     (copy = MACH_MSG_OVERWRITE \<longrightarrow> length objects \<le> unat n)"
| "fits g d = False"

fun out_of_line :: "mach_msg_descriptor \<Rightarrow> bool" where
  "out_of_line (MACH_MSG_PORT_DESCRIPTOR object disposition) = False"
| "out_of_line d = True"

lemma filter_dropWhile: "filter (\<lambda>d. d \<noteq> x) ds = (case dropWhile (\<lambda>d. d = x) ds of [] \<Rightarrow> [] | d # ds' \<Rightarrow> d # filter (\<lambda>d. d \<noteq> x) ds')"
  by (induction ds) auto

lemma dropWhile_head: "dropWhile (\<lambda>d. d = x) ds = d # ds' \<Longrightarrow> d \<noteq> x"
  by (induction ds) (auto split: if_splits)

lemma scatter_check_iff:
  "scatter_check gs ss False = MACH_MSG_SUCCESS \<longleftrightarrow>
   list_all (\<lambda>(g, d). fits g d) (zip (filter out_of_line gs) (filter (\<lambda>d. d \<noteq> SCATTER_PORT) ss))"
proof (induction gs arbitrary: ss)
  case (Cons g gs)
  show ?case
  proof (cases "dropWhile (\<lambda>d. d = SCATTER_PORT) ss")
    case Nil
    then have f: "filter (\<lambda>d. d \<noteq> SCATTER_PORT) ss = []"
      using filter_dropWhile [of SCATTER_PORT ss] by simp
    then show ?thesis
      using Cons.IH [of ss] by (cases g) (simp_all add: f Nil del: dropWhile_eq_Nil_conv)
  next
    case (Cons d ds)
    then have f: "filter (\<lambda>d. d \<noteq> SCATTER_PORT) ss = d # filter (\<lambda>d. d \<noteq> SCATTER_PORT) ds" and d: "d \<noteq> SCATTER_PORT"
      using filter_dropWhile [of SCATTER_PORT ss] dropWhile_head [OF Cons] by simp_all
    show ?thesis
      using Cons d Cons.IH by (cases g; cases d) (auto simp: f)
  qed
qed simp

text \<open>
  C19: The check of a scatter list accepts exactly the lists whose descriptors, paired in order with the
  out-of-line descriptors of the message (port descriptors skipped on both sides, and what is in excess
  ignored), have their kinds and are large enough where memory is overwritten; only an empty list is
  refused for every message with out-of-line data.
\<close>

theorem check_scatter_exact:
  "ipc_kmsg_check_scatter kmsg slist = MACH_MSG_SUCCESS \<longleftrightarrow>
     (slist = [] \<longrightarrow> filter out_of_line (ikm_body kmsg) = []) \<and>
     list_all (\<lambda>(g, d). fits g d) (zip (filter out_of_line (ikm_body kmsg)) (filter (\<lambda>d. d \<noteq> SCATTER_PORT) slist))"
proof (cases "slist = []")
  case True
  have "scatter_check gs [] True = MACH_MSG_SUCCESS \<longleftrightarrow> filter out_of_line gs = []" for gs
    by (induction gs) (auto split: mach_msg_descriptor.split)
  then show ?thesis using True by (simp add: ipc_kmsg_check_scatter_def)
next
  case False
  then show ?thesis by (simp add: ipc_kmsg_check_scatter_def scatter_check_iff)
qed

theorem check_scatter_exact_witness:
  "ipc_kmsg_check_scatter \<lparr>msgh_bits = 0x80000011, msgh_size = 52, msgh_remote_port = 0x2000, msgh_local_port = 0, msgh_id = 7,
      ikm_body = [MACH_MSG_PORT_DESCRIPTOR 0x1000 17, MACH_MSG_OOL_DESCRIPTOR 0x8000 100], ikm_data = []\<rparr>
     [SCATTER_OOL 0x40000 128 MACH_MSG_OVERWRITE] = MACH_MSG_SUCCESS"
  by (subst check_scatter_exact) simp

end
