(* ===== verification/Mach_Msg_Facts.thy ===== *)
theory Mach_Msg_Facts
  imports Mach_Msg IPC_Kmsg_Copy_Facts
begin

text \<open>Facts on the kernel call for messages: how much of the user's buffer a receive writes.\<close>

section \<open>How much a receive writes\<close>

lemma finish_receive_size:
  "returns (\<lambda>(mr, s'). mr = MACH_MSG_SUCCESS \<longrightarrow> msgh_size kmsg \<le> max_size - trailer)
     (ipc_mqueue_finish_receive s kmsg port trailer max_size scatter)"
  unfolding ipc_mqueue_finish_receive_def
  by (intro returns_intros) (simp_all add: not_less split: if_splits)

lemma mqueue_receive_size:
  "returns (\<lambda>(mr, received, s', ws'). \<forall>kmsg seqno. mr = MACH_MSG_SUCCESS \<and> received = Some (kmsg, seqno) \<longrightarrow>
       msgh_size kmsg \<le> max_size - trailer)
     (ipc_mqueue_receive s mqueue option max_size timeout trailer scatter ws)"
  unfolding ipc_mqueue_receive_def
  by (intro returns_intros) (auto dest: returnsD [OF finish_receive_size])

lemma copyout_header_size:
  "returns (\<lambda>(mr, kmsg', s', ws'). msgh_size kmsg' = msgh_size kmsg) (ipc_kmsg_copyout_header others s kmsg space notify ws ds)"
  unfolding ipc_kmsg_copyout_header_def by (intro returns_intros) auto

lemma copyout_size:
  "returns (\<lambda>(mr, kmsg', s', ws'). msgh_size kmsg' = msgh_size kmsg) (ipc_kmsg_copyout vm others s kmsg space notify slist ws ds)"
  unfolding ipc_kmsg_copyout_def ipc_kmsg_copyout_body_def
  by (intro returns_intros) (auto dest: returnsD [OF copyout_header_size] elim!: bind_SomeE)

lemma fill_trailer_size: "fill_trailer option seqno = Some (tseqno, tsize) \<Longrightarrow> unat tsize \<le> 20"
  by (auto simp: fill_trailer_def REQUESTED_TRAILER_SIZE_def trailer_size_def MACH_MSG_TRAILER_MINIMUM_SIZE_def nth_Cons'
    split: if_splits)

lemma put_user_size: "put_user w c buf kmsg seqno sz = (mr, Some uc, c') \<Longrightarrow> uc_size uc = sz"
  by (auto simp: put_user_def split: prod.splits if_splits)

lemma receive_put_size:
  "returns (\<lambda>(mr', copy, s', c'). \<forall>uc. mr' = MACH_MSG_SUCCESS \<and> copy = Some uc \<longrightarrow> uc_size uc = sz)
     (case mr of
        MACH_MSG_SUCCESS \<Rightarrow> (case put_user w c buf kmsg seqno sz of (mr, copy, c) \<Rightarrow> Some (mr, copy, s, c))
      | MACH_RCV_BODY_ERROR bits \<Rightarrow>
          (case put_user w c buf kmsg seqno sz of (mr', copy, c) \<Rightarrow>
             Some (if mr' = MACH_RCV_INVALID_DATA then MACH_RCV_INVALID_DATA else mr, copy, s, c))
      | _ \<Rightarrow> do {
          (mr', copy, s, c) \<leftarrow> f;
          Some (if mr' = MACH_RCV_INVALID_DATA then MACH_RCV_INVALID_DATA else mr, copy, s, c) })"
  by (cases mr) (auto simp: returns_def bind_eq_Some_conv dest: put_user_size split: prod.splits)

lemma receive_copyout_size:
  "returns (\<lambda>(mr, copy, s', c'). \<forall>uc. mr = MACH_MSG_SUCCESS \<and> copy = Some uc \<longrightarrow>
       (\<exists>tseqno tsize. fill_trailer option seqno = Some (tseqno, tsize) \<and> uc_size uc = msgh_size kmsg + tsize))
     (receive_copyout w s c space buf kmsg seqno option notify slist)"
  unfolding receive_copyout_def
  apply (intro returns_intros)
  apply (rule returns_mono [OF receive_put_size])
  apply (auto dest: returnsD [OF copyout_size] split: if_splits)
  done

lemma receive_copyout_bound:
  assumes "msgh_size kmsg \<le> m"
  shows "returns (\<lambda>(mr, copy, s', c'). \<forall>uc. mr = MACH_MSG_SUCCESS \<and> copy = Some uc \<longrightarrow>
      (\<exists>n\<le>m. \<exists>tsize. unat tsize \<le> 20 \<and> uc_size uc = n + tsize))
    (receive_copyout w s c space buf kmsg seqno option notify slist)"
  using receive_copyout_size [of option seqno kmsg w s c space buf notify slist] fill_trailer_size assms
  by (fastforce simp: returns_def)

text \<open>
  C18: The size of the receive buffer bounds what a successful receive writes only up to 12 bytes, for a buffer of at
  least 8 bytes whose size is not within 12 of the largest number of 32 bits: the check of the size counts
  the smallest trailer, as the options it is given have no trailer bits, but the trailer that is written is the one the user
  asked for.
\<close>

theorem receive_write_bound:
  assumes "mach_msg_receive w s c space buf option rcv_size rcv_name timeout notify slist_size slist =
      Some (MACH_MSG_SUCCESS, Some copy, s', c')"
    and "8 \<le> rcv_size" "unat rcv_size + 12 < 2 ^ 32"
  shows "unat (uc_size copy) \<le> unat rcv_size + 12"
proof -
  have o: "REQUESTED_TRAILER_SIZE (option AND MACH_RCV_TIMEOUT) = Some 8"
    by (simp add: REQUESTED_TRAILER_SIZE_def GET_RCV_ELEMENTS_def MACH_RCV_TIMEOUT_def trailer_size_def drop_bit_and)
  have "returns (\<lambda>(mr, copy, s', c'). \<forall>uc. mr = MACH_MSG_SUCCESS \<and> copy = Some uc \<longrightarrow>
      (\<exists>n\<le>rcv_size - 8. \<exists>tsize. unat tsize \<le> 20 \<and> uc_size uc = n + tsize))
    (mach_msg_receive w s c space buf option rcv_size rcv_name timeout notify slist_size slist)"
    unfolding mach_msg_receive_def
    apply (intro returns_intros)
    apply (simp_all (no_asm))
    subgoal by (auto simp: o intro!: receive_copyout_bound dest!: returnsD [OF mqueue_receive_size])
    subgoal by auto
    done
  then obtain n tsize where n: "n \<le> rcv_size - 8" "unat tsize \<le> 20" "uc_size copy = n + tsize"
    using assms(1) by (auto simp: returns_def)
  have "unat (rcv_size - 8) = unat rcv_size - 8" using assms(2) by (simp add: unat_sub)
  then have "unat n + unat tsize \<le> unat rcv_size + 12" using n assms(2) by (simp add: word_le_nat_alt)
  then show ?thesis using n(3) assms(3) by (simp add: unat_word_ariths)
qed

text \<open>The example kernel with a message in the queue of the port that the space receives from.\<close>

definition mx_kmsg :: ipc_kmsg where
  "mx_kmsg = \<lparr>msgh_bits = MACH_MSG_TYPE_PORT_SEND, msgh_size = 24, msgh_remote_port = 0x2000, msgh_local_port = 0, msgh_id = 7,
     ikm_body = [], ikm_data = []\<rparr>"

definition mx :: kernel where
  "mx = kx\<lparr>k_ports := (k_ports kx)(0x2000 \<mapsto> (kx_port 32 0x300)\<lparr>ip_srights := 1, ip_msgcount := 1, ip_references := 3,
     ip_messages := \<lparr>imq_messages = [mx_kmsg], imq_threads = []\<rparr>\<rparr>)\<rparr>"

definition mx_world :: msg_world where
  "mx_world = \<lparr>mw_vm_in = vx, mw_vm_out = (\<lambda>_. (KERN_SUCCESS, 0)), mw_copyin = (\<lambda>_ s. s), mw_copyout = (\<lambda>s. s), mw_unlocked = (\<lambda>s. s),
     mw_wakeups = [], mw_windows = [], mw_dngrow = [], mw_copied = True, mw_simple = (\<lambda>_. MACH_MSG_SUCCESS)\<rparr>"

lemma mx_receive:
  "map_option (\<lambda>(mr, copy, s', c'). (mr, map_option uc_size copy))
     (mach_msg_receive mx_world mx ikm_cache_init 32 \<lparr>ikm_address = 0x10000, ikm_size = 256, ikm_msg = ()\<rparr> 0x2000002 32 0x300 0
        MACH_PORT_NULL 0 None) = Some (MACH_MSG_SUCCESS, Some 44)"
  by code_simp

theorem receive_write_bound_witness:
  "\<exists>copy s' c'. mach_msg_receive mx_world mx ikm_cache_init 32 \<lparr>ikm_address = 0x10000, ikm_size = 256, ikm_msg = ()\<rparr>
      0x2000002 32 0x300 0 MACH_PORT_NULL 0 None = Some (MACH_MSG_SUCCESS, Some copy, s', c') \<and>
     uc_size copy = 44 \<and> unat (uc_size copy) \<le> unat (32 :: natural_t) + 12"
proof -
  obtain copy s' c' where r: "mach_msg_receive mx_world mx ikm_cache_init 32
      \<lparr>ikm_address = 0x10000, ikm_size = 256, ikm_msg = ()\<rparr> 0x2000002 32 0x300 0 MACH_PORT_NULL 0 None =
      Some (MACH_MSG_SUCCESS, Some copy, s', c')" "uc_size copy = 44"
    using mx_receive by (auto simp: map_option_eq_Some)
  have "unat (uc_size copy) \<le> unat (32 :: natural_t) + 12"
    by (rule receive_write_bound [OF r(1)]) simp_all
  then show ?thesis using r by blast
qed

end
