(* ===== verification/IPC_Mqueue_Live.thy ===== *)
theory IPC_Mqueue_Live
  imports IPC_Mqueue IPC_Example
begin

text \<open>
  A liveness property of message queues: the senders that wait at a full port are woken in the order in
  which they came, one by each message that is received while the port is not over its limit; and what
  becomes of this when a sender that waits is interrupted.
\<close>

section \<open>Senders that wait\<close>

text \<open>
  A live port with messages that is not over its limit. (Send-once rights, \<^verbatim>\<open>MACH_SEND_ALWAYS\<close> and a lowered
  limit can put a port over it.)
\<close>

definition receivable :: "kernel \<Rightarrow> ipc_port_t \<Rightarrow> bool" where
  "receivable s port \<longleftrightarrow> (case k_ports s port of None \<Rightarrow> False | Some p \<Rightarrow>
     ip_active p \<and> 0 < ip_msgcount p \<and> ip_msgcount p \<le> ip_qlimit p)"

definition blocked :: "kernel \<Rightarrow> ipc_port_t \<Rightarrow> ipc_thread_t list" where
  "blocked s port = (case k_ports s port of None \<Rightarrow> [] | Some p \<Rightarrow> ip_blocked p)"

text \<open>
  Runs of the kernel as one port sees them: messages have been received from it, \<open>n\<close> of them while it was not over its
  limit, and \<open>woken\<close> are the threads that this made runnable, in order. Between the receives other threads do what
  they like, as long as they take no waiting sender off the queue (more may join at its end).
\<close>

inductive receives :: "ipc_port_t \<Rightarrow> kernel \<Rightarrow> nat \<Rightarrow> ipc_thread_t list \<Rightarrow> kernel \<Rightarrow> bool" for port s where
  start: "receives port s 0 [] s"
| others: "receives port s n woken s1 \<Longrightarrow> blocked s2 port = blocked s1 port @ new \<Longrightarrow> receives port s n woken s2"
| receive: "receives port s n woken s1 \<Longrightarrow>
    ipc_mqueue_finish_receive s1 kmsg port trailer max_size scatter = Some (mr, s2) \<Longrightarrow>
    k_calls s2 = k_calls s1 @ map THREAD_GO go \<Longrightarrow>
    receives port s (if receivable s1 port then Suc n else n) (woken @ go) s2"

text \<open>A receive wakes the sender that has waited longest, and nobody when the port is over its limit.\<close>

lemma finish_receive_wakes:
  assumes "ipc_mqueue_finish_receive s kmsg port trailer max_size scatter = Some (mr, s')"
    and "n = (if receivable s port then 1 else 0)"
  shows "k_calls s' = k_calls s @ map THREAD_GO (take n (blocked s port))" "blocked s' port = drop n (blocked s port)"
proof -
  obtain p where p: "k_ports s port = Some p"
    using assms(1) by (auto simp: ipc_mqueue_finish_receive_def Let_def bind_eq_Some_conv)
  have "ip_msgcount p - 1 < ip_qlimit p \<longleftrightarrow> 0 < ip_msgcount p \<and> ip_msgcount p \<le> ip_qlimit p"
  proof (cases "ip_msgcount p = 0")
    case False
    then have "0 < unat (ip_msgcount p)" by (simp add: unat_gt_0)
    with False show ?thesis by (auto simp: word_less_nat_alt word_le_nat_alt unat_minus_one)
  qed (simp add: not_less)
  then show "k_calls s' = k_calls s @ map THREAD_GO (take n (blocked s port))" "blocked s' port = drop n (blocked s port)"
    using assms p by (auto simp: ipc_mqueue_finish_receive_def blocked_def receivable_def port_write_def thread_go_def k_call_def
      ith_write_def Let_def split: list.splits if_splits)
qed

lemma receives_order:
  assumes "receives port s n woken s'"
  shows "(\<exists>new. woken @ blocked s' port = blocked s port @ new) \<and> min n (length (blocked s port)) \<le> length woken"
  using assms
proof (induction rule: receives.induct)
  case (others n woken s1 s2 new)
  then show ?case by (metis append.assoc)
next
  case (receive n woken s1 kmsg trailer max_size scatter mr s2 go)
  let ?k = "if receivable s1 port then 1 else 0 :: nat"
  note w = finish_receive_wakes [OF receive(2) refl]
  have go: "go = take ?k (blocked s1 port)"
    using receive(3) w(1) by (auto dest: map_injective simp: inj_def)
  obtain new where new: "woken @ blocked s1 port = blocked s port @ new" using receive(4) by blast
  have "(woken @ go) @ blocked s2 port = blocked s port @ new" using new by (simp add: go w(2))
  moreover have "min (if receivable s1 port then Suc n else n) (length (blocked s port)) \<le> length (woken @ go)"
  proof (cases "blocked s1 port")
    case Nil
    then show ?thesis using new arg_cong [OF new, of length] by simp
  next
    case (Cons t ts)
    then show ?thesis using receive(4) by (auto simp: go min_def split: if_splits)
  qed
  ultimately show ?case by blast
qed simp

text \<open>
  C6: No sender that waits at a full port is forgotten: whatever other threads do between the receives, as
  long as they take no waiting sender away, after as many receives as there were waiting senders all of
  them have been made runnable, in the order in which they came. Only a receive from a live port that is not over its
  limit counts; a receive that finds the port over it, which may also happen in the run, wakes nobody.
\<close>

theorem blocked_senders_wake:
  assumes "receives port s n woken s'" "length (blocked s port) \<le> n"
  shows "\<exists>later. woken = blocked s port @ later"
proof -
  obtain new where "woken @ blocked s' port = blocked s port @ new" and "length (blocked s port) \<le> length woken"
    using receives_order [OF assms(1)] assms(2) by auto
  then show ?thesis by (metis append_eq_append_conv_if append_take_drop_id)
qed

text \<open>The example kernel with two senders that wait at a full port.\<close>

definition lx :: kernel where
  "lx = kx\<lparr>k_ports := (k_ports kx)(0x2000 \<mapsto> (kx_port 32 0x300)\<lparr>ip_msgcount := 5, ip_qlimit := 5, ip_blocked := [0x700, 0x800]\<rparr>)\<rparr>"

definition lx_kmsg :: ipc_kmsg where
  "lx_kmsg = \<lparr>msgh_bits = MACH_MSG_TYPE_PORT_SEND, msgh_size = 24, msgh_remote_port = 0x2000, msgh_local_port = 0, msgh_id = 7,
     ikm_body = [], ikm_data = []\<rparr>"

lemma lx_receives: "\<exists>s'. receives 0x2000 lx 2 [0x700, 0x800] s'"
proof -
  let ?p = "kx_port 32 0x300"
  have active: "ip_active (?p\<lparr>ip_msgcount := n, ip_qlimit := 5, ip_blocked := b\<rparr>)" for n b
    using kx_port_active(1) [of 32 "0x300"] by (simp add: ip_active_def)
  obtain s1 where s1: "ipc_mqueue_finish_receive lx lx_kmsg 0x2000 8 100 None = Some (MACH_MSG_SUCCESS, s1)"
    "k_ports s1 0x2000 = Some (?p\<lparr>ip_msgcount := 4, ip_qlimit := 5, ip_blocked := [0x800]\<rparr>)"
    using active by (simp add: ipc_mqueue_finish_receive_def lx_def lx_kmsg_def port_write_def thread_go_def k_call_def ith_write_def)
  obtain s2 where s2: "ipc_mqueue_finish_receive s1 lx_kmsg 0x2000 8 100 None = Some (MACH_MSG_SUCCESS, s2)"
    using active by (simp add: s1(2) ipc_mqueue_finish_receive_def lx_kmsg_def port_write_def thread_go_def k_call_def ith_write_def)
  have r: "receivable lx 0x2000" "receivable s1 0x2000"
    using active by (simp_all add: receivable_def lx_def s1(2))
  have b: "blocked lx 0x2000 = [0x700, 0x800]" "blocked s1 0x2000 = [0x800]"
    by (simp_all add: blocked_def lx_def s1(2))
  have "receives 0x2000 lx (Suc 0) [0x700] s1"
    using receives.receive [OF receives.start s1(1), of "[0x700]"] finish_receive_wakes(1) [OF s1(1) refl] r b by simp
  then have "receives 0x2000 lx (Suc (Suc 0)) [0x700, 0x800] s2"
    using receives.receive [OF _ s2, of lx "Suc 0" "[0x700]" "[0x800]"] finish_receive_wakes(1) [OF s2 refl] r b by simp
  then show ?thesis by (auto simp: numeral_2_eq_2)
qed

theorem blocked_senders_wake_witness:
  "\<exists>s' later. receives 0x2000 lx 2 [0x700, 0x800] s' \<and> [0x700, 0x800] = blocked lx 0x2000 @ later"
proof -
  obtain s' where s': "receives 0x2000 lx 2 [0x700, 0x800] s'" using lx_receives by blast
  have "length (blocked lx 0x2000) \<le> 2" by (simp add: blocked_def lx_def)
  then show ?thesis using blocked_senders_wake [OF s'] s' by blast
qed

section \<open>A sender that is interrupted\<close>

lemma receives_first:
  assumes "receives port s n woken s'" "m \<le> n" "m \<le> length (blocked s port)"
  shows "take m woken = take m (blocked s port)"
proof -
  obtain new where "woken @ blocked s' port = blocked s port @ new" "m \<le> length woken"
    using receives_order [OF assms(1)] assms(2,3) by auto
  from arg_cong [OF this(1), of "take m"] this(2) assms(3) show ?thesis by simp
qed

text \<open>
  C34: A send that is interrupted while it waits for room leaves the thread on the queue of blocked
  senders of the port. For a full live port that is not of the kernel, and a send without a time limit and without
  \<^verbatim>\<open>MACH_SEND_ALWAYS\<close> of a message that is neither circular nor for a send-once right, when nothing else happens while the
  thread sleeps: the call returns \<^verbatim>\<open>MACH_SEND_INTERRUPTED\<close>, and all that has changed in the kernel is
  that the thread is in state \<^verbatim>\<open>MACH_SEND_IN_PROGRESS\<close> and at the end of \<^verbatim>\<open>ip_blocked\<close>. So if \<open>k\<close> senders waited
  before it, then, whatever other threads do (short of taking senders off the queue), the receive number \<open>k + 1\<close> of those that
  wake a sender is spent on this thread, which has left, and not on a sender that came after it and waits.
\<close>

theorem interrupted_send_stays_blocked:
  assumes port: "port = msgh_remote_port kmsg" and k: "k = length (ip_blocked p)"
    and p: "k_ports s port = Some p" "ip_active p" "ip_receiver p \<noteq> ipc_space_kernel s" "\<not> ip_msgcount p < ip_qlimit p"
    and kmsg: "msgh_bits kmsg AND MACH_MSGH_BITS_CIRCULAR = 0" "MACH_MSGH_BITS_REMOTE (msgh_bits kmsg) \<noteq> MACH_MSG_TYPE_PORT_SEND_ONCE"
    and o: "option AND MACH_SEND_ALWAYS = 0" "option AND MACH_SEND_TIMEOUT = 0"
    and s': "s' = s\<lparr>k_threads := (k_threads s)(current_thread s := (k_threads s (current_thread s))\<lparr>ith_state := MACH_SEND_IN_PROGRESS\<rparr>),
      k_ports := (k_ports s)(port \<mapsto> p\<lparr>ip_blocked := ip_blocked p @ [current_thread s]\<rparr>)\<rparr>"
  shows "ipc_mqueue_send destroy s kmsg option timeout [\<lparr>w_result = THREAD_INTERRUPTED, w_kernel = id\<rparr>] =
      Some (MACH_SEND_INTERRUPTED, s', []) \<and>
    (\<forall>n woken s2. receives port s' n woken s2 \<and> k < n \<longrightarrow> k < length woken \<and> woken ! k = current_thread s)"
proof (intro conjI allI impI)
  show "ipc_mqueue_send destroy s kmsg option timeout [\<lparr>w_result = THREAD_INTERRUPTED, w_kernel = id\<rparr>] =
      Some (MACH_SEND_INTERRUPTED, s', [])"
    using assms by (simp add: ipc_mqueue_send_def mqueue_send_loop.simps Let_def port_write_def ith_write_def)
next
  fix n woken s2
  assume "receives port s' n woken s2 \<and> k < n"
  moreover have b: "blocked s' port = ip_blocked p @ [current_thread s]" by (simp add: s' blocked_def)
  ultimately have t: "take (Suc k) woken = ip_blocked p @ [current_thread s]"
    using receives_first [of port s' n woken s2 "Suc k"] k by simp
  from arg_cong [OF t, of length] show "k < length woken" by (simp add: k min_def split: if_splits)
  from t show "woken ! k = current_thread s" by (metis k lessI nth_append_length nth_take)
qed

text \<open>In the example kernel: the current thread is interrupted at the full port, another one comes to wait, and a message is received.\<close>

definition ix_port :: "ipc_thread_t list \<Rightarrow> ipc_port" where
  "ix_port ths = (kx_port 32 0x300)\<lparr>ip_msgcount := 5, ip_qlimit := 5, ip_blocked := ths\<rparr>"

definition ix :: "ipc_thread_t list \<Rightarrow> kernel" where
  "ix ths = kx\<lparr>k_ports := [0x2000 \<mapsto> ix_port ths]\<rparr>"

lemma ix_receive:
  "\<exists>s2. ipc_mqueue_finish_receive (ix [1, 0x800]) lx_kmsg 0x2000 8 100 None = Some (MACH_MSG_SUCCESS, s2)"
  "receivable (ix [1, 0x800]) 0x2000" "blocked (ix [1, 0x800]) 0x2000 = [1, 0x800]" "ip_active (ix_port ths)"
  using kx_port_active(1) [of 32 "0x300"]
  by (simp_all add: ipc_mqueue_finish_receive_def receivable_def blocked_def ix_def ix_port_def lx_kmsg_def port_write_def ip_active_def)

theorem interrupted_send_stays_blocked_witness:
  "\<exists>s' s2 woken. ipc_mqueue_send ipc_kmsg_destroy (ix []) lx_kmsg 0 0 [\<lparr>w_result = THREAD_INTERRUPTED, w_kernel = id\<rparr>] =
       Some (MACH_SEND_INTERRUPTED, s', []) \<and>
     receives 0x2000 s' 1 woken s2 \<and> woken ! 0 = 1 \<and> blocked s2 0x2000 = [0x800]"
proof -
  let ?s = "ix []\<lparr>k_threads := (k_threads (ix []))(current_thread (ix []) := (k_threads (ix []) (current_thread (ix [])))
      \<lparr>ith_state := MACH_SEND_IN_PROGRESS\<rparr>),
    k_ports := (k_ports (ix []))(0x2000 \<mapsto> (ix_port [])\<lparr>ip_blocked := ip_blocked (ix_port []) @ [current_thread (ix [])]\<rparr>)\<rparr>"
  have p: "k_ports (ix []) 0x2000 = Some (ix_port [])" "current_thread (ix []) = 1" "ip_blocked (ix_port []) = []"
    by (simp_all add: ix_def ix_port_def kx_fields)
  obtain s2 where s2: "ipc_mqueue_finish_receive (ix [1, 0x800]) lx_kmsg 0x2000 8 100 None = Some (MACH_MSG_SUCCESS, s2)"
    using ix_receive(1) by blast
  note w = finish_receive_wakes [OF s2 refl]
  have "receives 0x2000 ?s 0 [] (ix [1, 0x800])"
    by (rule receives.others [OF receives.start, where new = "[0x800]"]) (simp add: ix_receive(3), simp add: blocked_def p)
  from receives.receive [OF this s2, of "[1]"] have r: "receives 0x2000 ?s 1 [1] s2" using w ix_receive by simp
  have "ipc_mqueue_send ipc_kmsg_destroy (ix []) lx_kmsg 0 0 [\<lparr>w_result = THREAD_INTERRUPTED, w_kernel = id\<rparr>] =
      Some (MACH_SEND_INTERRUPTED, ?s, []) \<and>
    (\<forall>n woken s2. receives 0x2000 ?s n woken s2 \<and> 0 < n \<longrightarrow> 0 < length woken \<and> woken ! 0 = current_thread (ix []))"
    by (rule interrupted_send_stays_blocked [OF _ _ p(1) ix_receive(4)])
      (simp_all add: p lx_kmsg_def ix_def ix_port_def kx_fields kx_port_fields MACH_MSGH_BITS_CIRCULAR_def MACH_MSGH_BITS_REMOTE_def
        MACH_MSGH_BITS_REMOTE_MASK_def msg_type_defs)
  with r have "ipc_mqueue_send ipc_kmsg_destroy (ix []) lx_kmsg 0 0 [\<lparr>w_result = THREAD_INTERRUPTED, w_kernel = id\<rparr>] =
      Some (MACH_SEND_INTERRUPTED, ?s, [])" "[1] ! 0 = current_thread (ix [])" by blast+
  moreover have "blocked s2 0x2000 = [0x800]" using w(2) ix_receive(2,3) by simp
  ultimately show ?thesis using r p(2) by fastforce
qed

end
