(* ===== verification/IPC_Kmsg_Names.thy ===== *)
theory IPC_Kmsg_Names
  imports IPC_Kmsg_Facts IPC_Right_Facts
begin

text \<open>
  What the destruction of ports and messages leaves alone, and the death of a port as the name spaces see it. The
  lemmas are proved once in a locale for any routine that destroys messages, and used for both of the code: the one that
  queues a message inside of the cleaning loop, and \<open>ipc_kmsg_destroy\<close> itself.
\<close>

section \<open>Operations on ports leave the spaces alone\<close>

text \<open>A port that is dead or gone.\<close>

definition dead :: "kernel \<Rightarrow> ipc_port_t \<Rightarrow> bool" where
  "dead s port \<longleftrightarrow> (case k_ports s port of None \<Rightarrow> True | Some p \<Rightarrow> \<not> ip_active p)"

text \<open>The spaces and the global table that finds their entries by object stay, and no dead port comes to life.\<close>

definition quiet :: "kernel \<Rightarrow> kernel \<Rightarrow> bool" where
  "quiet s s' \<longleftrightarrow> k_spaces s' = k_spaces s \<and> k_ghash s' = k_ghash s \<and> (\<forall>port. dead s port \<longrightarrow> dead s' port)"

lemma quiet_refl [simp]: "quiet s s"
  by (simp add: quiet_def)

text \<open>A chain of steps, followed from its end.\<close>

lemma quiet_step: "quiet s1 s2 \<Longrightarrow> quiet s s1 \<Longrightarrow> quiet s s2"
  by (simp add: quiet_def)

lemma dead_step: "quiet s1 s2 \<Longrightarrow> dead s1 port \<Longrightarrow> dead s2 port"
  by (simp add: quiet_def)

named_theorems names_kept

lemma port_write_names: "port_write s port f = Some s' \<Longrightarrow> (\<And>p. ip_bits (f p) = ip_bits p) \<Longrightarrow> quiet s s'"
  by (auto simp: port_write_def quiet_def dead_def ip_active_def bind_eq_Some_conv split: option.splits if_splits)

lemma port_kill_names [names_kept]:
  "port_write s port (\<lambda>p. p\<lparr>ip_bits := ip_bits p AND NOT IO_BITS_ACTIVE\<rparr>) = Some s' \<Longrightarrow> quiet s s' \<and> dead s' port"
  by (auto simp: port_write_def quiet_def dead_def ip_active_def io_active_bits_def and.assoc bind_eq_Some_conv
    split: option.splits if_splits)

lemma pset_write_names [names_kept]: "pset_write s pset g = Some s' \<Longrightarrow> quiet s s'"
  by (auto simp: pset_write_def quiet_def dead_def bind_eq_Some_conv)

lemma imq_write_names [names_kept]: "imq_write s mqueue f = Some s' \<Longrightarrow> quiet s s'"
  by (auto simp: imq_write_def ip_active_def dest: names_kept port_write_names split: ipc_mqueue_ref.splits)

lemma step_names [simp]:
  "quiet s (ith_write s' th g) = quiet s s'" "quiet s (thread_go s' th) = quiet s s'" "quiet s (k_call s' c) = quiet s s'"
  "quiet s (s'\<lparr>ith_messages := m\<rparr>) = quiet s s'"
  "quiet (ith_write s th g) s' = quiet s s'" "quiet (thread_go s th) s' = quiet s s'" "quiet (k_call s c) s' = quiet s s'"
  "quiet (s\<lparr>ith_messages := m\<rparr>) s' = quiet s s'"
  by (simp_all add: quiet_def dead_def ith_write_def thread_go_def k_call_def)

lemma wake_all_names [simp]: "quiet s (wake_all mr ths s') = quiet s s'" "quiet (wake_all mr ths s) s' = quiet s s'"
  by (induction ths arbitrary: s s') simp_all

lemma pair_names [names_kept]:
  "kalloc s = (mem, s') \<Longrightarrow> quiet s s'" "ipc_port_timestamp s = (t, s') \<Longrightarrow> quiet s s'"
  by (auto simp: kalloc_def ipc_port_timestamp_def quiet_def dead_def)

lemma reference_names [names_kept]:
  "ip_reference s port = Some s' \<Longrightarrow> quiet s s'" "ip_release s port = Some s' \<Longrightarrow> quiet s s'"
  "ip_check_unlock s port = Some s' \<Longrightarrow> quiet s s'" "ips_release s pset = Some s' \<Longrightarrow> quiet s s'"
  "ips_check_unlock s pset = Some s' \<Longrightarrow> quiet s s'"
  by (auto simp: ip_reference_def ip_release_def ips_release_def ip_active_def dest: names_kept port_write_names)
    (auto simp: ip_check_unlock_def ips_check_unlock_def quiet_def dead_def bind_eq_Some_conv split: if_splits)

lemma object_release_names [names_kept]: "ipc_object_release s object = Some s' \<Longrightarrow> quiet s s'"
  by (auto simp: ipc_object_release_def elim!: bind_SomeE dest!: names_kept port_write_names split: if_splits;
    ((erule quiet_step)+; simp)?)

lemma hand_over_names [names_kept]: "imq_hand_over s th port kmsg = Some s' \<Longrightarrow> quiet s s'"
  by (auto simp: imq_hand_over_def elim!: bind_SomeE dest!: names_kept port_write_names;
    ((erule quiet_step)+; simp)?)

lemma deliver_names [names_kept]: "ipc_mqueue_deliver s port kmsg = Some s' \<Longrightarrow> quiet s s'"
  by (auto simp: ipc_mqueue_deliver_def Let_def elim!: bind_SomeE dest!: names_kept port_write_names
    split: list.split_asm;
    ((erule quiet_step)+; simp)?)

lemma sonce_srights_names [names_kept]:
  "ipc_port_release_sonce s port = Some s' \<Longrightarrow> quiet s s'"
  "drop_srights s port = Some (nsrequest, mscount, s') \<Longrightarrow> quiet s s'"
  "ipc_port_check_circularity s port dest = Some (b, s') \<Longrightarrow> quiet s s'"
  by (auto simp: ipc_port_release_sonce_def drop_srights_def ipc_port_check_circularity_def
    elim!: bind_SomeE dest!: names_kept port_write_names split: if_splits) ((erule quiet_step)+; simp)+

text \<open>The routines that take one that destroys messages, for any such routine that keeps the spaces.\<close>

locale names_destroy =
  fixes d :: destroy_kmsg
  assumes destroy_names: "d s kmsg = Some s' \<Longrightarrow> quiet s s'"
begin

lemma send_always_names: "ipc_mqueue_send_always d s kmsg = Some s' \<Longrightarrow> quiet s s'"
  unfolding send_always_unfold
  by (auto split: if_split_asm elim!: bind_SomeE dest!: destroy_names names_kept;
    ((erule quiet_step)+; simp)?)

lemma notify_names:
  "ipc_notify_port_deleted d s port name = Some s' \<Longrightarrow> quiet s s'"
  "ipc_notify_no_senders d s port n = Some s' \<Longrightarrow> quiet s s'"
  "ipc_notify_send_once d s port = Some s' \<Longrightarrow> quiet s s'"
  "ipc_notify_dead_name d s port name = Some s' \<Longrightarrow> quiet s s'"
  by (auto simp: ipc_notify_port_deleted_def ipc_notify_no_senders_def ipc_notify_send_once_def ipc_notify_dead_name_def
    Let_def split: prod.split_asm if_split_asm dest!: names_kept port_write_names send_always_names) ((erule quiet_step)+; simp)+

lemma release_send_names: "ipc_port_release_send d s port = Some s' \<Longrightarrow> quiet s s'"
  by (auto simp: ipc_port_release_send_def notify_nsrequest_def split: if_split_asm elim!: bind_SomeE
    dest!: names_kept port_write_names notify_names;
    ((erule quiet_step)+; simp)?)

lemma dnnotify_names: "dnnotify_loop d iprs s = Some s' \<Longrightarrow> quiet s s'"
proof (induction iprs arbitrary: s)
  case (Cons ipr iprs)
  show ?case using Cons.prems by - (auto split: if_split_asm elim!: bind_SomeE dest!: notify_names Cons.IH;
    ((erule quiet_step)+; simp)?)
qed simp

lemma flush_names: "port_flush d' port s = Some s' \<Longrightarrow> d' = d \<Longrightarrow> quiet s s'"
proof (induction rule: port_flush.raw_induct [rotated 1, consumes 1])
  case (1 pf d' port s s')
  show ?case using 1(2,3)
    by - (auto elim!: bind_SomeE dest!: names_kept port_write_names destroy_names 1(1) split: list.split_asm;
    ((erule quiet_step)+; simp)?)
qed

lemma destroy_final_names: "port_destroy_final d s port = Some s' \<Longrightarrow> quiet s s' \<and> dead s' port"
  unfolding port_destroy_final_def Let_def ipc_port_dnnotify_def
  by (auto split: prod.split_asm if_split_asm option.split_asm elim!: bind_SomeE
      dest!: names_kept port_write_names notify_names dnnotify_names flush_names;
    ((assumption | erule quiet_step dead_step)+; simp)?)

lemma release_receive_with_names:
  assumes "release_receive_with f s port = Some s'" "\<And>s s'. f s port = Some s' \<Longrightarrow> quiet s s'"
  shows "quiet s s'"
  using assms(1) unfolding release_receive_with_def Let_def
  by - (auto split: if_split_asm elim!: bind_SomeE dest!: names_kept assms(2); ((erule quiet_step)+; simp)?)

lemma port_destroyed_names: "ipc_notify_port_destroyed d s port right = Some s' \<Longrightarrow> quiet s s'"
  unfolding ipc_notify_port_destroyed_def Let_def
  by (auto split: prod.split_asm if_split_asm elim!: bind_SomeE
    dest!: names_kept port_write_names send_always_names release_receive_with_names destroy_final_names;
    ((erule quiet_step)+; simp)?)

lemma port_destroy_names: "ipc_port_destroy d s port = Some s' \<Longrightarrow> quiet s s'"
  unfolding ipc_port_destroy_def Let_def
  by (auto split: prod.split_asm if_split_asm elim!: bind_SomeE
    dest!: names_kept port_write_names port_destroyed_names destroy_final_names;
    ((erule quiet_step)+; simp)?)

lemma object_destroy_names: "ipc_object_destroy d s object msgt = Some s' \<Longrightarrow> quiet s s'"
  by (auto simp: ipc_object_destroy_def ipc_port_release_receive_def split: if_split_asm
    dest!: release_send_names notify_names elim!: release_receive_with_names dest: port_destroy_names;
    ((erule quiet_step)+; simp)?)

lemma destroy_valid_names: "destroy_valid d s object msgt = Some s' \<Longrightarrow> quiet s s'"
  by (auto simp: destroy_valid_def split: if_split_asm dest!: object_destroy_names;
    ((erule quiet_step)+; simp)?)

lemma clean_ool_ports_names: "clean_ool_ports d msgt objects s = Some s' \<Longrightarrow> quiet s s'"
proof (induction objects arbitrary: s)
  case (Cons object objects)
  show ?case using Cons.prems by - (auto elim!: bind_SomeE dest!: destroy_valid_names Cons.IH;
    ((erule quiet_step)+; simp)?)
qed simp

lemma clean_descriptors_names: "clean_descriptors d ds s = Some s' \<Longrightarrow> quiet s s'"
proof (induction ds arbitrary: s)
  case (Cons a ds)
  have "quiet s s1" if "clean_descriptor d a s = Some s1" for s1
    using that by (cases a) (auto dest!: destroy_valid_names clean_ool_ports_names)
  then show ?case using Cons.prems by - (auto elim!: bind_SomeE dest!: Cons.IH;
    ((erule quiet_step)+; simp)?)
qed simp

lemma kmsg_clean_names: "ipc_kmsg_clean d s kmsg = Some s' \<Longrightarrow> quiet s s'"
  by (auto simp: ipc_kmsg_clean_def ipc_kmsg_clean_body_def split: if_split_asm elim!: bind_SomeE
    dest!: destroy_valid_names clean_descriptors_names;
    ((erule quiet_step)+; simp)?)

end

interpretation enqueue: names_destroy kmsg_enqueue
  by unfold_locales (auto simp: kmsg_enqueue_def quiet_def dead_def)

lemma drain_names: "kmsg_drain s = Some s' \<Longrightarrow> quiet s s'"
proof (induction rule: kmsg_drain.raw_induct [rotated 1, consumes 1])
  case (1 kd s s')
  show ?case using 1(2)
    by - (auto elim!: bind_SomeE dest!: enqueue.kmsg_clean_names 1(1) split: list.split_asm;
    ((erule quiet_step)+; simp)?)
qed

interpretation destroyer: names_destroy ipc_kmsg_destroy
  by unfold_locales (auto simp: ipc_kmsg_destroy_def quiet_def dead_def split: if_split_asm
    dest!: drain_names enqueue.destroy_names)

text \<open>The entry bits of a right that becomes a dead name.\<close>

lemma dead_name_bits:
  "IE_BITS_TYPE ((b AND NOT IE_BITS_TYPE_MASK) OR MACH_PORT_TYPE_DEAD_NAME) = MACH_PORT_TYPE_DEAD_NAME"
  "IE_BITS_UREFS ((b AND NOT IE_BITS_TYPE_MASK) OR MACH_PORT_TYPE_DEAD_NAME) = IE_BITS_UREFS b"
  "IE_BITS_GEN ((b AND NOT IE_BITS_TYPE_MASK) OR MACH_PORT_TYPE_DEAD_NAME) = IE_BITS_GEN b"
proof -
  have dead: "MACH_PORT_TYPE_DEAD_NAME = 0x100000" by code_simp
  show "IE_BITS_TYPE ((b AND NOT IE_BITS_TYPE_MASK) OR MACH_PORT_TYPE_DEAD_NAME) = MACH_PORT_TYPE_DEAD_NAME"
    "IE_BITS_UREFS ((b AND NOT IE_BITS_TYPE_MASK) OR MACH_PORT_TYPE_DEAD_NAME) = IE_BITS_UREFS b"
    "IE_BITS_GEN ((b AND NOT IE_BITS_TYPE_MASK) OR MACH_PORT_TYPE_DEAD_NAME) = IE_BITS_GEN b"
    unfolding dead by (simp_all add: IE_BITS_TYPE_def IE_BITS_UREFS_def IE_BITS_GEN_def IE_BITS_TYPE_MASK_def IE_BITS_UREFS_MASK_def IE_BITS_GEN_MASK_def
      bit.conj_disj_distrib2 and.assoc)
qed

lemma hash_delete_kept:
  assumes "k_hash_delete s space obj name entry \<noteq> None" "k_spaces s' = k_spaces s" "k_ghash s' = k_ghash s"
  obtains s2 where "k_hash_delete s' space obj name entry = Some s2" "k_ports s2 = k_ports s'" "k_spaces s2 space \<noteq> None"
  using assms by (auto simp: k_hash_delete_def bind_eq_Some_conv split: prod.splits intro: that)

lemma port_release_spaces:
  assumes "k_ports s port = Some p"
  obtains s2 where "ipc_port_release s port = Some s2" "k_spaces s2 = k_spaces s"
  using assms by (auto simp: ipc_object_release_def ip_release_def port_write_def ip_check_unlock_def intro: that)

text \<open>
  C11: The death of a port reaches every name space. However many messages, rights and other ports
  \<^verbatim>\<open>ipc_port_destroy\<close> drags along, for a port without a backup port it changes no name space, and the port is
  dead when it returns. So, for every entry that holds a right to the port (and with it a reference, so that the
  structure of the port is still there, and a place in the reverse hash table when it is a send right) and has fewer
  than 65535 user references, the next \<^verbatim>\<open>ipc_right_check\<close> turns the entry into a dead name: it keeps its generation
  and its user references, plus one for the notification when a dead-name request was registered.
\<close>

theorem port_death_makes_dead_names:
  assumes d: "ipc_port_destroy ipc_kmsg_destroy s port = Some s1"
    and p: "k_ports s port = Some p" "ip_pdrequest p = IP_NULL" and p1: "k_ports s1 port \<noteq> None"
    and e: "k_entry s space entry = Some e" "uint (IE_BITS_UREFS (ie_bits e)) < 65535"
    and h: "ie_bits e AND MACH_PORT_TYPE_SEND \<noteq> 0 \<Longrightarrow> k_hash_delete s space port name entry \<noteq> None"
  shows "k_spaces s1 = k_spaces s \<and> k_ghash s1 = k_ghash s \<and>
    (\<exists>b s2 s3. ipc_right_check s1 space port name entry = Some (True, s3) \<and>
       k_entry_write s2 space entry (\<lambda>e. e\<lparr>ie_request := 0, ie_bits := b, ie_object := IO_NULL\<rparr>) = Some s3 \<and>
       IE_BITS_TYPE b = MACH_PORT_TYPE_DEAD_NAME \<and> IE_BITS_GEN b = IE_BITS_GEN (ie_bits e) \<and>
       uint (IE_BITS_UREFS b) = uint (IE_BITS_UREFS (ie_bits e)) + (if ie_request e \<noteq> 0 then 1 else 0))"
proof -
  have q: "k_spaces s1 = k_spaces s" "k_ghash s1 = k_ghash s" and "dead s1 port"
    using destroyer.destroy_final_names [of s port s1] d p by (simp_all add: ipc_port_destroy_def quiet_def)
  with p1 obtain p' where p': "k_ports s1 port = Some p'" "\<not> ip_active p'" by (auto simp: dead_def)
  have e1: "k_entry s1 space entry = Some e" using e(1) q by (simp add: k_entry_def)
  let ?b = "(ie_bits e AND NOT IE_BITS_TYPE_MASK) OR MACH_PORT_TYPE_DEAD_NAME"
  let ?c = "if ie_request e \<noteq> 0 then ?b + 1 else ?b"
  obtain s2 where s2: "(if ie_bits e AND MACH_PORT_TYPE_SEND \<noteq> 0 then k_hash_delete s1 space port name entry else Some s1) = Some s2"
    "k_ports s2 port = Some p'" "k_spaces s2 space \<noteq> None"
  proof (cases "ie_bits e AND MACH_PORT_TYPE_SEND \<noteq> 0")
    case True
    then show ?thesis using hash_delete_kept [OF h [OF True] q] p' that by force
  next
    case False
    then show ?thesis using that [of s1] p' e1 by (auto simp: k_entry_def)
  qed
  obtain s3 where s3: "ipc_port_release s2 port = Some s3" "k_spaces s3 space \<noteq> None"
    using port_release_spaces [OF s2(2)] s2(3) by metis
  then obtain s4 where s4: "k_entry_write s3 space entry (\<lambda>e. e\<lparr>ie_request := 0, ie_bits := ?c, ie_object := IO_NULL\<rparr>) = Some s4"
    by (auto simp: k_entry_write_def)
  then have "ipc_right_check s1 space port name entry = Some (True, s4)"
    using p' e1 s2(1) s3(1) by (simp add: ipc_right_check_def Let_def)
  moreover have "IE_BITS_TYPE ?c = MACH_PORT_TYPE_DEAD_NAME \<and> IE_BITS_GEN ?c = IE_BITS_GEN (ie_bits e) \<and>
      uint (IE_BITS_UREFS ?c) = uint (IE_BITS_UREFS (ie_bits e)) + (if ie_request e \<noteq> 0 then 1 else 0)"
    using same_bits_UREFS_add [of ?b 1] uint_UREFS_add [of ?b 1] e(2) by (simp add: dead_name_bits)
  ultimately show ?thesis using q s4 by blast
qed

text \<open>
  In the example kernel the port 0x1000 dies: it has a message with a send right for the port 0x2000 in
  its queue, and the space 32 has a send right with two user references for it.
\<close>

definition dx_kmsg :: ipc_kmsg where
  "dx_kmsg = \<lparr>msgh_bits = MACH_MSGH_BITS_COMPLEX, msgh_size = 40, msgh_remote_port = 0x1000, msgh_local_port = MACH_PORT_NULL,
     msgh_id = 7, ikm_body = [MACH_MSG_PORT_DESCRIPTOR 0x2000 MACH_MSG_TYPE_PORT_SEND], ikm_data = []\<rparr>"

definition dx :: kernel where
  "dx = kx\<lparr>k_ports := [0x1000 \<mapsto> (kx_port 48 0x500)\<lparr>ip_srights := 1, ip_references := 3, ip_msgcount := 1,
     ip_messages := \<lparr>imq_messages = [dx_kmsg], imq_threads = []\<rparr>\<rparr>, 0x2000 \<mapsto> (kx_port 32 0x300)\<lparr>ip_srights := 1\<rparr>]\<rparr>"

lemma dx_returns:
  "(case ipc_port_destroy ipc_kmsg_destroy dx 0x1000 of None \<Rightarrow> False
    | Some s1 \<Rightarrow> map_option ip_srights (k_ports s1 0x2000) = Some 0 \<and> \<not> Option.is_none (k_ports s1 0x1000))"
  by code_simp

lemma dx_entry: "\<not> Option.is_none (k_hash_delete dx 32 0x1000 0x200 (TABLE_ENTRY 2))"
  by code_simp

theorem port_death_makes_dead_names_witness:
  "\<exists>s1 s2 s3 b. ipc_port_destroy ipc_kmsg_destroy dx 0x1000 = Some s1 \<and>
     ipc_right_check s1 32 0x1000 0x200 (TABLE_ENTRY 2) = Some (True, s3) \<and>
     k_entry_write s2 32 (TABLE_ENTRY 2) (\<lambda>e. e\<lparr>ie_request := 0, ie_bits := b, ie_object := IO_NULL\<rparr>) = Some s3 \<and>
     IE_BITS_TYPE b = MACH_PORT_TYPE_DEAD_NAME \<and> uint (IE_BITS_UREFS b) = 2"
proof -
  obtain s1 where s1: "ipc_port_destroy ipc_kmsg_destroy dx 0x1000 = Some s1" "k_ports s1 0x1000 \<noteq> None"
    using dx_returns by (auto simp: Option.is_none_def split: option.splits)
  have p: "ip_pdrequest ((kx_port 48 0x500)\<lparr>ip_srights := 1, ip_references := 3, ip_msgcount := 1,
     ip_messages := \<lparr>imq_messages = [dx_kmsg], imq_threads = []\<rparr>\<rparr>) = IP_NULL"
    by (simp add: kx_port_def ipc_port_init_def)
  have e: "k_entry dx 32 (TABLE_ENTRY 2) = Some (kx_entry 0x10002 0x1000 0)"
    using kx_simps(3) by (simp add: dx_def k_entry_def)
  have h: "k_hash_delete dx 32 0x1000 0x200 (TABLE_ENTRY 2) \<noteq> None" using dx_entry by (simp add: Option.is_none_def)
  show ?thesis
    using port_death_makes_dead_names [OF s1(1) _ p s1(2) e _ h] s1(1) by (auto simp: dx_def IE_BITS_literals)
qed

end
