(* ===== verification/IPC_Space.thy ===== *)
theory IPC_Space
  imports IPC_Object
begin

text \<open>
  Spaces (\<^verbatim>\<open>ipc/ipc_space.c\<close>, \<^verbatim>\<open>ipc/ipc_space.h\<close>): references, creation, and destruction with all the
  rights that the space holds.
\<close>

section \<open>References\<close>

definition space_write :: "kernel \<Rightarrow> ipc_space_t \<Rightarrow> (ipc_space \<Rightarrow> ipc_space) \<Rightarrow> kernel option" where
  "space_write s space f = do {
     is \<leftarrow> k_spaces s space;
     Some (s\<lparr>k_spaces := (k_spaces s)(space \<mapsto> f is)\<rparr>) }"

definition ipc_space_reference :: "kernel \<Rightarrow> ipc_space_t \<Rightarrow> kernel option" where
  "ipc_space_reference s space = space_write s space (\<lambda>is. is\<lparr>is_references := is_references is + 1\<rparr>)"

definition ipc_space_release :: "kernel \<Rightarrow> ipc_space_t \<Rightarrow> kernel option" where
  "ipc_space_release s space = do {
     s \<leftarrow> space_write s space (\<lambda>is. is\<lparr>is_references := is_references is - 1\<rparr>);
     is \<leftarrow> k_spaces s space;
     Some (if is_references is = 0 then s\<lparr>k_spaces := (k_spaces s)(space := None)\<rparr> else s) }"

section \<open>Creation\<close>

text \<open>
  The table of a new space: every entry is free, has generation 0xff and is followed on the free list
  by its neighbour.
\<close>

definition fresh_table :: "nat \<Rightarrow> ipc_entry list" where
  "fresh_table new_size =
     (let table = map (\<lambda>index. ie_zero\<lparr>ie_bits := IE_BITS_GEN_MASK, ie_request := index + 1\<rparr>) [0..<new_size]
      in table[new_size - 1 := (table ! (new_size - 1))\<lparr>ie_request := 0\<rparr>])"

text \<open>
  \<open>old\<close> is what the memory of the new space held before: the routine does not initialise \<open>is_fast\<close>.
  \<open>initial\<close> is a position in \<open>ipc_table_entries\<close>.
\<close>

definition ipc_space_create :: "kernel \<Rightarrow> nat \<Rightarrow> ipc_space \<Rightarrow> kern_return_t \<times> ipc_space_t \<times> kernel" where
  "ipc_space_create s initial old =
     (let (space, s) = kalloc s in
      if space = IS_NULL then (KERN_RESOURCE_SHORTAGE, IS_NULL, s)
      else
        let (table, s) = kalloc s in
        if table = 0 then (KERN_RESOURCE_SHORTAGE, IS_NULL, s)
        else
          (KERN_SUCCESS, space,
           s\<lparr>k_spaces := (k_spaces s)(space \<mapsto> old
             \<lparr>is_references := 2, is_active := True, is_growing := False,
              is_table := fresh_table (ipc_table_entries s ! initial), is_table_next := initial + 1,
              is_tree := ipc_splay_tree_init, is_tree_total := 0, is_tree_small := 0, is_tree_hash := 0\<rparr>)\<rparr>))"

definition ipc_space_create_special :: "kernel \<Rightarrow> ipc_space \<Rightarrow> kern_return_t \<times> ipc_space_t \<times> kernel" where
  "ipc_space_create_special s old =
     (let (space, s) = kalloc s in
      if space = IS_NULL then (KERN_RESOURCE_SHORTAGE, IS_NULL, s)
      else (KERN_SUCCESS, space,
        s\<lparr>k_spaces := (k_spaces s)(space \<mapsto> old\<lparr>is_references := 1, is_active := False\<rparr>)\<rparr>))"

section \<open>Destruction\<close>

text \<open>
  Waiting until nobody grows the table: each element of the list is what other threads do until this
  one runs again; without one it is still blocked.
\<close>

fun wait_growing :: "(kernel \<Rightarrow> kernel) list \<Rightarrow> kernel \<Rightarrow> ipc_space_t \<Rightarrow> kernel option" where
  "wait_growing ws s space = do {
     is \<leftarrow> k_spaces s space;
     if is_growing is then (case ws of [] \<Rightarrow> None | others # ws \<Rightarrow> wait_growing ws (others s) space)
     else Some s }"

declare wait_growing.simps [simp del]

primrec destroy_table :: "ipc_space_t \<Rightarrow> mach_port_index_t list \<Rightarrow> kernel \<Rightarrow> kernel option" where
  "destroy_table space [] s = Some s"
| "destroy_table space (index # is) s = do {
     e \<leftarrow> k_entry s space (TABLE_ENTRY index);
     s \<leftarrow> (if IE_BITS_TYPE (ie_bits e) \<noteq> MACH_PORT_TYPE_NONE
           then ipc_right_clean s space (MACH_PORT_MAKEB (of_nat index) (ie_bits e)) (TABLE_ENTRY index)
           else Some s);
     destroy_table space is s }"

text \<open>The body of the traversal of the tree, which deletes every entry once it is cleaned.\<close>

definition destroy_tree_entry ::
  "ipc_space_t \<Rightarrow> kernel option \<Rightarrow> mach_port_t \<Rightarrow> ipc_entry \<Rightarrow> bool \<times> kernel option" where
  "destroy_tree_entry space st name tentry = (True, do {
     s \<leftarrow> st;
     is \<leftarrow> k_spaces s space;
     let (is, g) =
       (if IE_BITS_TYPE (ie_bits tentry) = MACH_PORT_TYPE_SEND
        then ipc_hash_global_delete is (k_ghash s) space (ie_object tentry) name
        else (is, k_ghash s));
     let s = s\<lparr>k_spaces := (k_spaces s)(space \<mapsto> is), k_ghash := g\<rparr>;
     ipc_right_clean s space name (TREE_ENTRY name) })"

text \<open>
  The table is freed between the two loops: from then on it has no entries. \<open>ws\<close> is the sequence of
  waits for a thread that grows the table.
\<close>

definition ipc_space_destroy :: "(kernel \<Rightarrow> kernel) list \<Rightarrow> kernel \<Rightarrow> ipc_space_t \<Rightarrow> kernel option" where
  "ipc_space_destroy ws s space = do {
     is \<leftarrow> k_spaces s space;
     s \<leftarrow> space_write s space (\<lambda>is. is\<lparr>is_active := False\<rparr>);
     if \<not> is_active is then Some s
     else do {
       s \<leftarrow> wait_growing ws s space;
       is \<leftarrow> k_spaces s space;
       s \<leftarrow> destroy_table space [0..<is_table_size is] s;
       s \<leftarrow> space_write s space (\<lambda>is. is\<lparr>is_table := []\<rparr>);
       is \<leftarrow> k_spaces s space;
       (st, tree) \<leftarrow> ipc_splay_traverse (destroy_tree_entry space) (Some s) (is_tree is);
       s \<leftarrow> st;
       s \<leftarrow> space_write s space (\<lambda>is. is\<lparr>is_tree := tree\<rparr>);
       ipc_space_release s space } }"

end
