(* ===== verification/Mach_Port.thy ===== *)
theory Mach_Port
  imports IPC_Object
begin

text \<open>
  The kernel calls on port rights (\<^verbatim>\<open>ipc/mach_port.c\<close>). They take the space of the target task, check
  their arguments and call the routines of \<open>IPC_Right\<close>, \<open>IPC_Object\<close> and \<open>IPC_Port\<close>. The memory that
  carries arrays of names back to the caller comes from the allocator of the kernel state; its contents
  are lists. The argument \<open>page\<close> is the page size, a variable of the VM system.
\<close>

definition MACH_PORT_RIGHT_NUMBER :: natural_t where "MACH_PORT_RIGHT_NUMBER = 5"

definition SUBSYSTEM_NULL :: natural_t where "SUBSYSTEM_NULL = 0"

definition MACH_MSG_TYPE_PORT_ANY :: "mach_msg_type_name_t \<Rightarrow> bool" where
  "MACH_MSG_TYPE_PORT_ANY x \<longleftrightarrow> MACH_MSG_TYPE_MOVE_RECEIVE \<le> x \<and> x \<le> MACH_MSG_TYPE_MAKE_SEND_ONCE"

definition MACH_MSG_TYPE_PORT_ANY_RIGHT :: "mach_msg_type_name_t \<Rightarrow> bool" where
  "MACH_MSG_TYPE_PORT_ANY_RIGHT x \<longleftrightarrow> MACH_MSG_TYPE_MOVE_RECEIVE \<le> x \<and> x \<le> MACH_MSG_TYPE_MOVE_SEND_ONCE"

abbreviation ipc_port_translate_receive ::
  "kernel \<Rightarrow> ipc_space_t \<Rightarrow> mach_port_t \<Rightarrow> (kern_return_t \<times> ipc_port_t \<times> kernel) option" where
  "ipc_port_translate_receive s space name \<equiv> ipc_object_translate s space name MACH_PORT_RIGHT_RECEIVE"

abbreviation ipc_right_lookup_read ::
  "kernel \<Rightarrow> ipc_space_t \<Rightarrow> mach_port_t \<Rightarrow> (kern_return_t \<times> ipc_entry_ref option \<times> kernel) option" where
  "ipc_right_lookup_read \<equiv> ipc_right_lookup_write"

definition IP_NMS :: "ipc_port \<Rightarrow> bool" where
  "IP_NMS p \<longleftrightarrow> ip_bits p AND IP_BIT_NMS \<noteq> 0"

section \<open>The names of a space\<close>

definition round_page :: "nat \<Rightarrow> nat \<Rightarrow> nat" where
  "round_page page x = (x + (page - 1)) div page * page"

text \<open>The size of a name and of a type in the arrays.\<close>

definition sizeof_mach_port :: nat where "sizeof_mach_port = 4"

definition mach_port_names_helper ::
  "kernel \<Rightarrow> natural_t \<Rightarrow> ipc_entry \<Rightarrow> mach_port_t \<Rightarrow> (mach_port_t \<times> natural_t) list \<Rightarrow> (mach_port_t \<times> natural_t) list option" where
  "mach_port_names_helper s timestamp entry name names = do {
     let bits = ie_bits entry;
     let request = ie_request entry;
     (bits, request) \<leftarrow>
       (if bits AND MACH_PORT_TYPE_SEND_RIGHTS \<noteq> 0 then do {
          p \<leftarrow> k_ports s (ie_object entry);
          let died = (\<not> ip_active p \<and> IP_TIMESTAMP_ORDER (ip_timestamp p) timestamp);
          Some (if died then
                  let bits = bits AND NOT IE_BITS_TYPE_MASK;
                      bits = bits OR MACH_PORT_TYPE_DEAD_NAME;
                      bits = (if request \<noteq> 0 then bits + 1 else bits)
                  in (bits, 0)
                else (bits, request)) }
        else Some (bits, request));
     let type = IE_BITS_TYPE bits;
     let type = (if request \<noteq> 0 then type OR MACH_PORT_TYPE_DNREQUEST else type);
     Some (names @ [(name, type)]) }"

text \<open>
  The loop that allocates the arrays: it answers with their size, or with the error that ends the call.
  While it allocates the space is unlocked; each element of \<open>ws\<close> is what other threads do meanwhile.
\<close>

fun names_reserve ::
  "nat \<Rightarrow> (kernel \<Rightarrow> kernel) list \<Rightarrow> nat \<Rightarrow> kernel \<Rightarrow> ipc_space_t \<Rightarrow> ((kern_return_t + nat) \<times> kernel) option" where
  "names_reserve page ws sz s space = do {
     is \<leftarrow> k_spaces s space;
     if \<not> is_active is then Some (Inl KERN_INVALID_TASK, s)
     else do {
       let bound = is_table_size is + is_tree_total is;
       let size_needed = round_page page (bound * sizeof_mach_port);
       if size_needed \<le> sz then Some (Inr sz, s)
       else do {
         let (addr1, s) = kalloc s;
         if addr1 = 0 then Some (Inl KERN_RESOURCE_SHORTAGE, s)
         else do {
           let (addr2, s) = kalloc s;
           if addr2 = 0 then Some (Inl KERN_RESOURCE_SHORTAGE, s)
           else (case ws of [] \<Rightarrow> None | others # ws \<Rightarrow> names_reserve page ws size_needed (others s) space) } } } }"

declare names_reserve.simps [simp del]

primrec names_table ::
  "kernel \<Rightarrow> natural_t \<Rightarrow> ipc_entry list \<Rightarrow> mach_port_index_t list \<Rightarrow> (mach_port_t \<times> natural_t) list \<Rightarrow>
   (mach_port_t \<times> natural_t) list option" where
  "names_table s timestamp table [] names = Some names"
| "names_table s timestamp table (index # is) names = do {
     let entry = table ! index;
     let bits = ie_bits entry;
     names \<leftarrow> (if IE_BITS_TYPE bits \<noteq> MACH_PORT_TYPE_NONE
               then mach_port_names_helper s timestamp entry (MACH_PORT_MAKEB (of_nat index) bits) names
               else Some names);
     names_table s timestamp table is names }"

definition names_tree_entry ::
  "kernel \<Rightarrow> natural_t \<Rightarrow> (mach_port_t \<times> natural_t) list option \<Rightarrow> mach_port_t \<Rightarrow> ipc_entry \<Rightarrow>
   bool \<times> (mach_port_t \<times> natural_t) list option" where
  "names_tree_entry s timestamp st name tentry = (False, do {
     names \<leftarrow> st;
     mach_port_names_helper s timestamp tentry name names })"

definition mach_port_names ::
  "nat \<Rightarrow> (kernel \<Rightarrow> kernel) list \<Rightarrow> kernel \<Rightarrow> ipc_space_t \<Rightarrow> (kern_return_t \<times> (mach_port_t \<times> natural_t) list \<times> kernel) option" where
  "mach_port_names page ws s space =
     (if space = IS_NULL then Some (KERN_INVALID_TASK, [], s)
      else do {
        (r, s) \<leftarrow> names_reserve page ws 0 s space;
        (case r of
           Inl kr \<Rightarrow> Some (kr, [], s)
         | Inr sz \<Rightarrow> do {
             let (timestamp, s) = ipc_port_timestamp s;
             is \<leftarrow> k_spaces s space;
             names \<leftarrow> names_table s timestamp (is_table is) [0..<is_table_size is] [];
             (names, tree) \<leftarrow> ipc_splay_traverse (names_tree_entry s timestamp) (Some names) (is_tree is);
             names \<leftarrow> names;
             Some (KERN_SUCCESS, names, s\<lparr>k_spaces := (k_spaces s)(space \<mapsto> is\<lparr>is_tree := tree\<rparr>)\<rparr>) }) })"

section \<open>Rights\<close>

definition mach_port_type ::
  "kernel \<Rightarrow> ipc_space_t \<Rightarrow> mach_port_t \<Rightarrow> (kern_return_t \<times> natural_t \<times> kernel) option" where
  "mach_port_type s space name =
     (if space = IS_NULL then Some (KERN_INVALID_TASK, 0, s)
      else do {
        (kr, r, s) \<leftarrow> ipc_right_lookup_write s space name;
        (case r of
           None \<Rightarrow> Some (kr, 0, s)
         | Some entry \<Rightarrow> do {
             (kr, type, urefs, s) \<leftarrow> ipc_right_info s space name entry;
             Some (kr, type, s) }) })"

definition mach_port_rename ::
  "kernel \<Rightarrow> ipc_space_t \<Rightarrow> mach_port_t \<Rightarrow> mach_port_t \<Rightarrow> window list \<Rightarrow> (kern_return_t \<times> kernel \<times> window list) option" where
  "mach_port_rename s space oname nname ws =
     (if space = IS_NULL then Some (KERN_INVALID_TASK, s, ws)
      else if \<not> MACH_PORT_VALID nname then Some (KERN_INVALID_VALUE, s, ws)
      else ipc_object_rename s space oname nname ws)"

record mach_port_qos =
  qos_name :: bool
  qos_rt :: bool

definition qos_template :: mach_port_qos where
  "qos_template = \<lparr>qos_name = False, qos_rt = False\<rparr>"

text \<open>
  \<open>name\<close> is the value of \<open>*namep\<close> on entry; the answer holds its value on return. Real-time ports are
  compiled out.
\<close>

definition mach_port_allocate_full ::
  "kernel \<Rightarrow> ipc_space_t \<Rightarrow> natural_t \<Rightarrow> natural_t \<Rightarrow> mach_port_qos \<Rightarrow> mach_port_t \<Rightarrow> window list \<Rightarrow>
   (kern_return_t \<times> mach_port_t \<times> kernel \<times> window list) option" where
  "mach_port_allocate_full s space right subsystem qos name ws =
     (if space = IS_NULL then Some (KERN_INVALID_TASK, name, s, ws)
      else do {
        is \<leftarrow> k_spaces s space;
        if qos_name qos \<and> \<not> MACH_PORT_VALID name then Some (KERN_INVALID_VALUE, name, s, ws)
        else if qos_name qos \<and> is_fast_space is then Some (KERN_FAILURE, name, s, ws)
        else if subsystem \<noteq> SUBSYSTEM_NULL \<and> right \<noteq> MACH_PORT_RIGHT_RECEIVE then Some (KERN_INVALID_VALUE, name, s, ws)
        else if qos_rt qos then Some (KERN_INVALID_ARGUMENT, name, s, ws)
        else if right = MACH_PORT_RIGHT_RECEIVE then do {
          (kr, nname, port, s, ws) \<leftarrow>
            (if qos_name qos
             then do { (kr, port, s, ws) \<leftarrow> ipc_port_alloc_name s space name ws; Some (kr, name, port, s, ws) }
             else ipc_port_alloc s space ws);
          if kr = KERN_SUCCESS then do {
            s \<leftarrow> (if subsystem \<noteq> SUBSYSTEM_NULL then do {
                    s \<leftarrow> port_write s port (\<lambda>p. p\<lparr>ip_subsystem := subsystem\<rparr>);
                    Some (k_call s (SUBSYSTEM_REFERENCE subsystem)) }
                  else Some s);
            Some (kr, nname, s, ws) }
          else Some (kr, name, s, ws) }
        else if right = MACH_PORT_RIGHT_PORT_SET then do {
          (kr, nname, pset, s, ws) \<leftarrow>
            (if qos_name qos
             then do { (kr, pset, s, ws) \<leftarrow> ipc_pset_alloc_name s space name ws; Some (kr, name, pset, s, ws) }
             else ipc_pset_alloc s space ws);
          Some (kr, if kr = KERN_SUCCESS then nname else name, s, ws) }
        else if right = MACH_PORT_RIGHT_DEAD_NAME then do {
          (kr, nname, s, ws) \<leftarrow> ipc_object_alloc_dead s space ws;
          Some (kr, if kr = KERN_SUCCESS then nname else name, s, ws) }
        else Some (KERN_INVALID_VALUE, name, s, ws) })"

text \<open>The name is passed by value: the caller does not learn another one.\<close>

definition mach_port_allocate_name ::
  "kernel \<Rightarrow> ipc_space_t \<Rightarrow> natural_t \<Rightarrow> mach_port_t \<Rightarrow> window list \<Rightarrow> (kern_return_t \<times> kernel \<times> window list) option" where
  "mach_port_allocate_name s space right name ws = do {
     (kr, name, s, ws) \<leftarrow> mach_port_allocate_full s space right SUBSYSTEM_NULL (qos_template\<lparr>qos_name := True\<rparr>) name ws;
     Some (kr, s, ws) }"

definition mach_port_allocate ::
  "kernel \<Rightarrow> ipc_space_t \<Rightarrow> natural_t \<Rightarrow> mach_port_t \<Rightarrow> window list \<Rightarrow> (kern_return_t \<times> mach_port_t \<times> kernel \<times> window list) option" where
  "mach_port_allocate s space right name ws = mach_port_allocate_full s space right SUBSYSTEM_NULL qos_template name ws"

definition mach_port_allocate_qos ::
  "kernel \<Rightarrow> ipc_space_t \<Rightarrow> natural_t \<Rightarrow> mach_port_qos \<Rightarrow> mach_port_t \<Rightarrow> window list \<Rightarrow>
   (kern_return_t \<times> mach_port_t \<times> kernel \<times> window list) option" where
  "mach_port_allocate_qos s space right qos name ws = mach_port_allocate_full s space right SUBSYSTEM_NULL qos name ws"

definition mach_port_allocate_subsystem ::
  "kernel \<Rightarrow> ipc_space_t \<Rightarrow> natural_t \<Rightarrow> mach_port_t \<Rightarrow> window list \<Rightarrow> (kern_return_t \<times> mach_port_t \<times> kernel \<times> window list) option" where
  "mach_port_allocate_subsystem s space subsystem name ws =
     mach_port_allocate_full s space MACH_PORT_RIGHT_RECEIVE subsystem qos_template name ws"

definition mach_port_destroy ::
  "kernel \<Rightarrow> ipc_space_t \<Rightarrow> mach_port_t \<Rightarrow> (kern_return_t \<times> kernel) option" where
  "mach_port_destroy s space name =
     (if space = IS_NULL then Some (KERN_INVALID_TASK, s)
      else do {
        (kr, r, s) \<leftarrow> ipc_right_lookup_write s space name;
        (case r of None \<Rightarrow> Some (kr, s) | Some entry \<Rightarrow> ipc_right_destroy s space name entry) })"

definition mach_port_deallocate ::
  "kernel \<Rightarrow> ipc_space_t \<Rightarrow> mach_port_t \<Rightarrow> (kern_return_t \<times> kernel) option" where
  "mach_port_deallocate s space name =
     (if space = IS_NULL then Some (KERN_INVALID_TASK, s)
      else do {
        (kr, r, s) \<leftarrow> ipc_right_lookup_write s space name;
        (case r of None \<Rightarrow> Some (kr, s) | Some entry \<Rightarrow> ipc_right_dealloc s space name entry) })"

definition mach_port_get_refs ::
  "kernel \<Rightarrow> ipc_space_t \<Rightarrow> mach_port_t \<Rightarrow> natural_t \<Rightarrow> (kern_return_t \<times> natural_t \<times> kernel) option" where
  "mach_port_get_refs s space name right =
     (if space = IS_NULL then Some (KERN_INVALID_TASK, 0, s)
      else if right \<ge> MACH_PORT_RIGHT_NUMBER then Some (KERN_INVALID_VALUE, 0, s)
      else do {
        (kr, r, s) \<leftarrow> ipc_right_lookup_write s space name;
        (case r of
           None \<Rightarrow> Some (kr, 0, s)
         | Some entry \<Rightarrow> do {
             (kr, type, urefs, s) \<leftarrow> ipc_right_info s space name entry;
             if kr \<noteq> KERN_SUCCESS then Some (kr, 0, s)
             else if type AND MACH_PORT_TYPE right \<noteq> 0 then
               if right = MACH_PORT_RIGHT_SEND_ONCE \<or> right = MACH_PORT_RIGHT_PORT_SET \<or> right = MACH_PORT_RIGHT_RECEIVE
               then Some (kr, 1, s)
               else if right = MACH_PORT_RIGHT_DEAD_NAME \<or> right = MACH_PORT_RIGHT_SEND then Some (kr, urefs, s)
               else None
             else Some (kr, 0, s) }) })"

definition mach_port_mod_refs ::
  "kernel \<Rightarrow> ipc_space_t \<Rightarrow> mach_port_t \<Rightarrow> natural_t \<Rightarrow> mach_port_delta_t \<Rightarrow> (kern_return_t \<times> kernel) option" where
  "mach_port_mod_refs s space name right delta =
     (if space = IS_NULL then Some (KERN_INVALID_TASK, s)
      else if right \<ge> MACH_PORT_RIGHT_NUMBER then Some (KERN_INVALID_VALUE, s)
      else do {
        (kr, r, s) \<leftarrow> ipc_right_lookup_write s space name;
        (case r of None \<Rightarrow> Some (kr, s) | Some entry \<Rightarrow> ipc_right_delta s space name entry right delta) })"

definition mach_port_set_mscount ::
  "kernel \<Rightarrow> ipc_space_t \<Rightarrow> mach_port_t \<Rightarrow> natural_t \<Rightarrow> (kern_return_t \<times> kernel) option" where
  "mach_port_set_mscount s space name mscount =
     (if space = IS_NULL then Some (KERN_INVALID_TASK, s)
      else do {
        (kr, port, s) \<leftarrow> ipc_port_translate_receive s space name;
        if kr \<noteq> KERN_SUCCESS then Some (kr, s)
        else do {
          s \<leftarrow> ipc_port_set_mscount s port mscount;
          Some (KERN_SUCCESS, s) } })"

definition mach_port_set_seqno ::
  "kernel \<Rightarrow> ipc_space_t \<Rightarrow> mach_port_t \<Rightarrow> natural_t \<Rightarrow> (kern_return_t \<times> kernel) option" where
  "mach_port_set_seqno s space name seqno =
     (if space = IS_NULL then Some (KERN_INVALID_TASK, s)
      else do {
        (kr, port, s) \<leftarrow> ipc_port_translate_receive s space name;
        if kr \<noteq> KERN_SUCCESS then Some (kr, s)
        else do {
          s \<leftarrow> ipc_port_set_seqno s port seqno;
          Some (KERN_SUCCESS, s) } })"

section \<open>Port sets\<close>

definition mach_port_gst_helper ::
  "kernel \<Rightarrow> ipc_pset_t \<Rightarrow> nat \<Rightarrow> ipc_entry \<Rightarrow> mach_port_t list \<times> nat \<Rightarrow> (mach_port_t list \<times> nat) option" where
  "mach_port_gst_helper s pset maxnames entry acc =
     (case acc of (names, actual) \<Rightarrow> do {
        p \<leftarrow> k_ports s (ie_object entry);
        Some (if pset = ip_pset p
              then (if actual < maxnames then names @ [ip_receiver_name p] else names, actual + 1)
              else (names, actual)) })"

primrec gst_table ::
  "kernel \<Rightarrow> ipc_pset_t \<Rightarrow> nat \<Rightarrow> ipc_entry list \<Rightarrow> mach_port_t list \<times> nat \<Rightarrow> (mach_port_t list \<times> nat) option" where
  "gst_table s pset maxnames [] acc = Some acc"
| "gst_table s pset maxnames (e # es) acc = do {
     acc \<leftarrow> (if ie_bits e AND MACH_PORT_TYPE_RECEIVE \<noteq> 0 then mach_port_gst_helper s pset maxnames e acc else Some acc);
     gst_table s pset maxnames es acc }"

definition gst_tree_entry ::
  "kernel \<Rightarrow> ipc_pset_t \<Rightarrow> nat \<Rightarrow> (mach_port_t list \<times> nat) option \<Rightarrow> mach_port_t \<Rightarrow> ipc_entry \<Rightarrow>
   bool \<times> (mach_port_t list \<times> nat) option" where
  "gst_tree_entry s pset maxnames st name tentry = (False, do {
     acc \<leftarrow> st;
     if ie_bits tentry AND MACH_PORT_TYPE_RECEIVE \<noteq> 0 then mach_port_gst_helper s pset maxnames tentry acc else Some acc })"

text \<open>One round with arrays of \<open>sz\<close> bytes: an error, or the names that fit and the number of members.\<close>

definition gst_round ::
  "nat \<Rightarrow> kernel \<Rightarrow> ipc_space_t \<Rightarrow> mach_port_t \<Rightarrow> ((kern_return_t + mach_port_t list \<times> nat) \<times> kernel) option" where
  "gst_round sz s space name = do {
     (kr, r, s) \<leftarrow> ipc_right_lookup_read s space name;
     (case r of
        None \<Rightarrow> Some (Inl kr, s)
      | Some entry \<Rightarrow> do {
          e \<leftarrow> k_entry s space entry;
          if IE_BITS_TYPE (ie_bits e) \<noteq> MACH_PORT_TYPE_PORT_SET then Some (Inl KERN_INVALID_RIGHT, s)
          else do {
            let pset = ie_object e;
            let maxnames = sz div sizeof_mach_port;
            is \<leftarrow> k_spaces s space;
            acc \<leftarrow> gst_table s pset maxnames (is_table is) ([], 0);
            (acc, tree) \<leftarrow> ipc_splay_traverse (gst_tree_entry s pset maxnames) (Some acc) (is_tree is);
            acc \<leftarrow> acc;
            Some (Inr acc, s\<lparr>k_spaces := (k_spaces s)(space \<mapsto> is\<lparr>is_tree := tree\<rparr>)\<rparr>) } }) }"

text \<open>The rounds, with more memory each; \<open>ws\<close> is what other threads do between them.\<close>

fun gst_rounds ::
  "nat \<Rightarrow> (kernel \<Rightarrow> kernel) list \<Rightarrow> nat \<Rightarrow> kernel \<Rightarrow> ipc_space_t \<Rightarrow> mach_port_t \<Rightarrow> (kern_return_t \<times> mach_port_t list \<times> kernel) option" where
  "gst_rounds page ws sz s space name = do {
     let (addr, s) = kalloc s;
     if addr = 0 then Some (KERN_RESOURCE_SHORTAGE, [], s)
     else do {
       (r, s) \<leftarrow> gst_round sz s space name;
       (case r of
          Inl kr \<Rightarrow> Some (kr, [], s)
        | Inr (names, actual) \<Rightarrow>
            if actual \<le> sz div sizeof_mach_port then Some (KERN_SUCCESS, names, s)
            else
              (case ws of
                 [] \<Rightarrow> None
               | others # ws \<Rightarrow>
                   gst_rounds page ws (round_page page (actual * sizeof_mach_port) + page) (others s) space name)) } }"

declare gst_rounds.simps [simp del]

definition mach_port_get_set_status ::
  "nat \<Rightarrow> (kernel \<Rightarrow> kernel) list \<Rightarrow> kernel \<Rightarrow> ipc_space_t \<Rightarrow> mach_port_t \<Rightarrow> (kern_return_t \<times> mach_port_t list \<times> kernel) option" where
  "mach_port_get_set_status page ws s space name =
     (if space = IS_NULL then Some (KERN_INVALID_TASK, [], s) else gst_rounds page ws page s space name)"

definition mach_port_move_member ::
  "kernel \<Rightarrow> ipc_space_t \<Rightarrow> mach_port_t \<Rightarrow> mach_port_t \<Rightarrow> (kern_return_t \<times> kernel) option" where
  "mach_port_move_member s space member after =
     (if space = IS_NULL then Some (KERN_INVALID_TASK, s)
      else do {
        (kr, r, s) \<leftarrow> ipc_right_lookup_read s space member;
        (case r of
           None \<Rightarrow> Some (kr, s)
         | Some entry \<Rightarrow> do {
             e \<leftarrow> k_entry s space entry;
             if ie_bits e AND MACH_PORT_TYPE_RECEIVE = 0 then Some (KERN_INVALID_RIGHT, s)
             else do {
               let port = ie_object e;
               if after = MACH_PORT_NULL then ipc_pset_move s port IPS_NULL
               else do {
                 (r, s) \<leftarrow> k_entry_lookup s space after;
                 (case r of
                    None \<Rightarrow> Some (KERN_INVALID_NAME, s)
                  | Some entry \<Rightarrow> do {
                      e \<leftarrow> k_entry s space entry;
                      if ie_bits e AND MACH_PORT_TYPE_PORT_SET = 0 then Some (KERN_INVALID_RIGHT, s)
                      else ipc_pset_move s port (ie_object e) }) } } }) })"

section \<open>Notifications\<close>

text \<open>\<open>ws\<close> belongs to \<open>ipc_right_dnrequest\<close>, which may have to grow the port's request table.\<close>

definition mach_port_request_notification ::
  "(kernel \<Rightarrow> kernel) list \<Rightarrow> kernel \<Rightarrow> ipc_space_t \<Rightarrow> mach_port_t \<Rightarrow> natural_t \<Rightarrow> natural_t \<Rightarrow> ipc_port_t \<Rightarrow>
   (kern_return_t \<times> ipc_port_t \<times> kernel) option" where
  "mach_port_request_notification ws s space name msgid sync notify =
     (if space = IS_NULL then Some (KERN_INVALID_TASK, IP_NULL, s)
      else if notify = IP_DEAD then Some (KERN_INVALID_CAPABILITY, IP_NULL, s)
      else if msgid = MACH_NOTIFY_PORT_DESTROYED then
        if sync \<noteq> 0 then Some (KERN_INVALID_VALUE, IP_NULL, s)
        else do {
          (kr, port, s) \<leftarrow> ipc_port_translate_receive s space name;
          if kr \<noteq> KERN_SUCCESS then Some (kr, IP_NULL, s)
          else do {
            (previous, s) \<leftarrow> ipc_port_pdrequest s port notify;
            Some (KERN_SUCCESS, previous, s) } }
      else if msgid = MACH_NOTIFY_NO_SENDERS then do {
        (kr, port, s) \<leftarrow> ipc_port_translate_receive s space name;
        if kr \<noteq> KERN_SUCCESS then Some (kr, IP_NULL, s)
        else do {
          p \<leftarrow> k_ports s port;
          if \<not> IP_NMS p then Some (KERN_INVALID_RIGHT, IP_NULL, s)
          else do {
            (previous, s) \<leftarrow> ipc_port_nsrequest ipc_kmsg_destroy s port sync notify;
            Some (KERN_SUCCESS, previous, s) } } }
      else if msgid = MACH_NOTIFY_DEAD_NAME then ipc_right_dnrequest ws s space name (sync \<noteq> 0) notify
      else Some (KERN_INVALID_VALUE, IP_NULL, s))"

section \<open>Transfer of rights\<close>

definition mach_port_insert_right ::
  "kernel \<Rightarrow> ipc_space_t \<Rightarrow> mach_port_t \<Rightarrow> ipc_port_t \<Rightarrow> mach_msg_type_name_t \<Rightarrow> window list \<Rightarrow>
   (kern_return_t \<times> kernel \<times> window list) option" where
  "mach_port_insert_right s space name poly polyPoly ws =
     (if space = IS_NULL then Some (KERN_INVALID_TASK, s, ws)
      else if \<not> MACH_PORT_VALID name \<or> \<not> MACH_MSG_TYPE_PORT_ANY_RIGHT polyPoly then Some (KERN_INVALID_VALUE, s, ws)
      else if \<not> IO_VALID poly then Some (KERN_INVALID_CAPABILITY, s, ws)
      else ipc_object_copyout_name s space poly polyPoly False name ws)"

definition mach_port_extract_right ::
  "kernel \<Rightarrow> ipc_space_t \<Rightarrow> mach_port_t \<Rightarrow> mach_msg_type_name_t \<Rightarrow>
   (kern_return_t \<times> (ipc_port_t \<times> mach_msg_type_name_t) option \<times> kernel) option" where
  "mach_port_extract_right s space name msgt_name =
     (if space = IS_NULL then Some (KERN_INVALID_TASK, None, s)
      else if \<not> MACH_MSG_TYPE_PORT_ANY msgt_name then Some (KERN_INVALID_VALUE, None, s)
      else do {
        (kr, poly, s) \<leftarrow> ipc_object_copyin s space name msgt_name;
        if kr = KERN_SUCCESS then do {
          polyPoly \<leftarrow> ipc_object_copyin_type msgt_name;
          Some (kr, Some (poly, polyPoly), s) }
        else Some (kr, None, s) })"

section \<open>Attributes\<close>

record mach_port_status =
  mps_pset :: mach_port_t
  mps_seqno :: natural_t
  mps_mscount :: natural_t
  mps_qlimit :: natural_t
  mps_msgcount :: natural_t
  mps_sorights :: natural_t
  mps_srights :: bool
  mps_pdrequest :: bool
  mps_nsrequest :: bool
  mps_flags :: natural_t

text \<open>The flavours and what they return.\<close>

definition MACH_PORT_LIMITS_INFO :: natural_t where "MACH_PORT_LIMITS_INFO = 1"
definition MACH_PORT_RECEIVE_STATUS :: natural_t where "MACH_PORT_RECEIVE_STATUS = 2"
definition MACH_PORT_DNREQUESTS_SIZE :: natural_t where "MACH_PORT_DNREQUESTS_SIZE = 3"
definition MACH_PORT_LIMITS_INFO_COUNT :: natural_t where "MACH_PORT_LIMITS_INFO_COUNT = 1"
definition MACH_PORT_RECEIVE_STATUS_COUNT :: natural_t where "MACH_PORT_RECEIVE_STATUS_COUNT = 10"
definition MACH_PORT_DNREQUESTS_SIZE_COUNT :: natural_t where "MACH_PORT_DNREQUESTS_SIZE_COUNT = 1"

datatype mach_port_info =
    INFO_NONE
  | INFO_LIMITS natural_t
  | INFO_STATUS mach_port_status
  | INFO_DNREQUESTS nat

definition receive_status :: "ipc_port \<Rightarrow> mach_port_t \<Rightarrow> mach_port_status" where
  "receive_status p pset =
     \<lparr>mps_pset = pset, mps_seqno = ip_seqno p, mps_mscount = ip_mscount p, mps_qlimit = ip_qlimit p,
      mps_msgcount = ip_msgcount p, mps_sorights = ip_sorights p, mps_srights = (ip_srights p > 0),
      mps_pdrequest = (ip_pdrequest p \<noteq> IP_NULL), mps_nsrequest = (ip_nsrequest p \<noteq> IP_NULL), mps_flags = ip_flags p\<rparr>"

text \<open>A port that is still in a dead port set leaves it here.\<close>

definition get_receive_status :: "kernel \<Rightarrow> ipc_port_t \<Rightarrow> (mach_port_status \<times> kernel) option" where
  "get_receive_status s port = do {
     p \<leftarrow> k_ports s port;
     (pset, s) \<leftarrow>
       (if ip_pset p \<noteq> IPS_NULL then do {
          ps \<leftarrow> k_psets s (ip_pset p);
          if \<not> ips_active ps then do {
            s \<leftarrow> ipc_pset_remove s (ip_pset p) port;
            s \<leftarrow> ips_check_unlock s (ip_pset p);
            Some (MACH_PORT_NULL, s) }
          else Some (ips_local_name ps, s) }
        else Some (MACH_PORT_NULL, s));
     p \<leftarrow> k_ports s port;
     Some (receive_status p pset, s) }"

definition mach_port_get_attributes ::
  "kernel \<Rightarrow> ipc_space_t \<Rightarrow> mach_port_t \<Rightarrow> natural_t \<Rightarrow> natural_t \<Rightarrow> (kern_return_t \<times> mach_port_info \<times> natural_t \<times> kernel) option" where
  "mach_port_get_attributes s space name flavor count =
     (if space = IS_NULL then Some (KERN_INVALID_TASK, INFO_NONE, count, s)
      else if flavor = MACH_PORT_LIMITS_INFO then
        if count < MACH_PORT_LIMITS_INFO_COUNT then Some (KERN_FAILURE, INFO_NONE, count, s)
        else do {
          (kr, port, s) \<leftarrow> ipc_port_translate_receive s space name;
          if kr \<noteq> KERN_SUCCESS then Some (kr, INFO_NONE, count, s)
          else do {
            p \<leftarrow> k_ports s port;
            Some (KERN_SUCCESS, INFO_LIMITS (ip_qlimit p), MACH_PORT_LIMITS_INFO_COUNT, s) } }
      else if flavor = MACH_PORT_RECEIVE_STATUS then
        if count < MACH_PORT_RECEIVE_STATUS_COUNT then Some (KERN_FAILURE, INFO_NONE, count, s)
        else do {
          (kr, port, s) \<leftarrow> ipc_port_translate_receive s space name;
          if kr \<noteq> KERN_SUCCESS then Some (kr, INFO_NONE, count, s)
          else do {
            (status, s) \<leftarrow> get_receive_status s port;
            Some (KERN_SUCCESS, INFO_STATUS status, MACH_PORT_RECEIVE_STATUS_COUNT, s) } }
      else if flavor = MACH_PORT_DNREQUESTS_SIZE then
        if count < MACH_PORT_DNREQUESTS_SIZE_COUNT then Some (KERN_FAILURE, INFO_NONE, count, s)
        else do {
          (kr, port, s) \<leftarrow> ipc_port_translate_receive s space name;
          if kr \<noteq> KERN_SUCCESS then Some (kr, INFO_NONE, count, s)
          else do {
            p \<leftarrow> k_ports s port;
            Some (KERN_SUCCESS,
              INFO_DNREQUESTS (case ip_dnrequests p of None \<Rightarrow> 0 | Some table \<Rightarrow> ipc_table_dnrequests s ! ipr_size table),
              MACH_PORT_DNREQUESTS_SIZE_COUNT, s) } }
      else Some (KERN_INVALID_ARGUMENT, INFO_NONE, count, s))"

text \<open>\<open>info\<close> is the first word of the structure; \<open>others\<close> is what other threads do while the request table grows.\<close>

definition mach_port_set_attributes ::
  "(kernel \<Rightarrow> kernel) \<Rightarrow> kernel \<Rightarrow> ipc_space_t \<Rightarrow> mach_port_t \<Rightarrow> natural_t \<Rightarrow> natural_t \<Rightarrow> natural_t \<Rightarrow> (kern_return_t \<times> kernel) option" where
  "mach_port_set_attributes others s space name flavor info count =
     (if space = IS_NULL then Some (KERN_INVALID_TASK, s)
      else if flavor = MACH_PORT_LIMITS_INFO then
        if count < MACH_PORT_LIMITS_INFO_COUNT then Some (KERN_FAILURE, s)
        else if info > MACH_PORT_QLIMIT_MAX then Some (KERN_INVALID_VALUE, s)
        else do {
          (kr, port, s) \<leftarrow> ipc_port_translate_receive s space name;
          if kr \<noteq> KERN_SUCCESS then Some (kr, s)
          else do {
            s \<leftarrow> ipc_port_set_qlimit s port info;
            Some (KERN_SUCCESS, s) } }
      else if flavor = MACH_PORT_DNREQUESTS_SIZE then
        if count < MACH_PORT_DNREQUESTS_SIZE_COUNT then Some (KERN_FAILURE, s)
        else do {
          (kr, port, s) \<leftarrow> ipc_port_translate_receive s space name;
          if kr \<noteq> KERN_SUCCESS then Some (kr, s)
          else ipc_port_dngrow others s port info }
      else Some (KERN_INVALID_ARGUMENT, s))"

end
