(* ===== verification/Mach_Port_Facts.thy ===== *)
theory Mach_Port_Facts
  imports IPC_Space Mach_Port IPC_Entry_Dealloc IPC_Example
begin

text \<open>
  Facts on spaces and on the kernel calls on port rights: a new space is empty, the list of the names of
  a space is exact, and what happens to the name of a dead name.
\<close>

section \<open>A new space\<close>

lemma fresh_table_simps:
  assumes "0 < n"
  shows "length (fresh_table n) = n"
    "i < n \<Longrightarrow> fresh_table n ! i = ie_zero\<lparr>ie_bits := IE_BITS_GEN_MASK, ie_request := if Suc i = n then 0 else Suc i\<rparr>"
  using assms by (auto simp: fresh_table_def Let_def nth_list_update)

lemma chain_upt:
  assumes "\<And>j. i \<le> j \<Longrightarrow> j < n \<Longrightarrow> ie_next (t ! j) = (if Suc j = n then 0 else Suc j)" "i < n"
  shows "chain t i [Suc i..<n]"
  using assms
proof (induction "n - i" arbitrary: i)
  case (Suc k)
  show ?case
  proof (cases "Suc i = n")
    case True
    then show ?thesis using Suc.prems(1) [of i] by simp
  next
    case False
    then have "chain t (Suc i) [Suc (Suc i)..<n]" using Suc.hyps(2) Suc.prems by (intro Suc.hyps(1)) auto
    then show ?thesis using Suc.prems(1) [of i] Suc.prems(2) False by (simp add: upt_conv_Cons [of "Suc i"])
  qed
qed simp

lemma fresh_table_ok:
  assumes "0 < n" "n \<le> 16777215"
  shows "table_ok {} (fresh_table n) [1..<n]"
proof -
  have "chain (fresh_table n) 0 [Suc 0..<n]"
    using assms by (intro chain_upt) (simp_all add: fresh_table_simps)
  then show ?thesis
    using assms unfolding table_ok_def
    by (auto simp: fresh_table_simps in_use_def ie_zero_def IE_BITS_TYPE_def IE_BITS_TYPE_MASK_def IE_BITS_GEN_MASK_def IE_BITS_GEN_def
      MACH_PORT_TYPE_NONE_def)
qed

lemma fresh_hash_ok:
  assumes "0 < n"
  shows "hash_ok (fresh_table n)" "hashed (fresh_table n) = {}"
proof -
  have i: "ie_index_at (fresh_table n) x = 0" if "x < n" for x
    using that assms by (simp add: ie_index_at_def fresh_table_simps ie_zero_def)
  show "hash_ok (fresh_table n)" "hashed (fresh_table n) = {}"
    using assms i fresh_table_simps(1) [OF assms] by (auto simp: hash_ok_def hashed_def)
qed

lemma space_create_record:
  assumes "ipc_space_create s initial old = (KERN_SUCCESS, space, s')"
  shows "k_spaces s' space = Some (old\<lparr>is_references := 2, is_active := True, is_growing := False,
      is_table := fresh_table (ipc_table_entries s ! initial), is_table_next := initial + 1,
      is_tree := ipc_splay_tree_init, is_tree_total := 0, is_tree_small := 0, is_tree_hash := 0\<rparr>)"
    "ipc_table_entries s' = ipc_table_entries s" "k_ghash s' = k_ghash s"
  using assms by (auto simp: ipc_space_create_def kalloc_def Let_def split: if_splits)

text \<open>
  C33: A new space is well formed and empty: it is active, has two references, no name denotes a right
  in it, and its table is all free. (The new address is not one that the global table knows.)
\<close>

theorem space_create_empty:
  assumes "ipc_space_create s initial old = (KERN_SUCCESS, space, s')"
    and "Suc initial < length (ipc_table_entries s)" "0 < ipc_table_entries s ! initial" "ipc_table_entries s ! initial \<le> 16777215"
    and "ghash_ok (k_ghash s)" "\<And>n io. (space, n, io) \<notin> gnodes (k_ghash s)"
  shows "\<exists>is. k_spaces s' space = Some is \<and> space_ok (ipc_table_entries s') {} space is (k_ghash s') \<and>
    rights is = Map.empty \<and> is_active is \<and> \<not> is_growing is \<and> is_references is = 2"
proof -
  let ?n = "ipc_table_entries s ! initial"
  define isp where "isp = old\<lparr>is_references := 2, is_active := True, is_growing := False,
      is_table := fresh_table ?n, is_table_next := initial + 1,
      is_tree := ipc_splay_tree_init, is_tree_total := 0, is_tree_small := 0, is_tree_hash := 0\<rparr>"
  have isp: "is_table isp = fresh_table ?n" "is_table_next isp = initial + 1"
    "is_tree isp = ipc_splay_tree_init" "is_tree_total isp = 0" "is_tree_small isp = 0" "is_tree_hash isp = 0"
    "is_active isp" "\<not> is_growing isp" "is_references isp = 2"
    by (simp_all add: isp_def)
  note s' = space_create_record [OF assms(1), folded isp_def]
  have tm: "is_tree_map isp = Map.empty" "ist_ok (is_tree isp)" "ist_inorder (is_tree isp) = []"
    by (simp_all add: isp(3) ipc_splay_tree_init_ok)
  have "table_ok {} (is_table isp) [1..<?n]" using fresh_table_ok assms(3,4) isp(1) by simp
  moreover have "tree_ok {} (is_table isp) [1..<?n] (is_tree_map isp)"
    unfolding tm(1) tree_ok_def using assms(3) by (auto simp: isp(1) fresh_table_simps IE_BITS_GEN_MASK_def)
  moreover have "counts_ok (ipc_table_entries s) isp"
    unfolding counts_ok_def small_indices_def using assms(2,3) tm by (simp add: isp fresh_table_simps)
  moreover have "hashes_ok {} space isp (k_ghash s)"
    unfolding hashes_ok_def using fresh_hash_ok [OF assms(3)] assms(3,5,6) tm
    by (auto simp: isp fresh_table_simps IE_BITS_TYPE_def IE_BITS_TYPE_MASK_def IE_BITS_GEN_MASK_def MACH_PORT_TYPE_values)
  ultimately have "space_ok (ipc_table_entries s') {} space isp (k_ghash s')"
    unfolding space_ok_def s'(2,3) by blast
  moreover have "rights isp = Map.empty"
    using assms(3) tm by (auto simp: rights_def find_entry_def table_entry_of_def Let_def isp(1) fresh_table_simps in_use_def
      IE_BITS_TYPE_def IE_BITS_TYPE_MASK_def IE_BITS_GEN_MASK_def MACH_PORT_TYPE_NONE_def)
  ultimately show ?thesis using isp(7-9) s'(1) by blast
qed

theorem space_create_empty_witness:
  "\<exists>space s' is. ipc_space_create kx 0 kx_space = (KERN_SUCCESS, space, s') \<and> k_spaces s' space = Some is \<and>
     space_ok (ipc_table_entries s') {} space is (k_ghash s') \<and> rights is = Map.empty \<and> is_active is \<and> \<not> is_growing is \<and> is_references is = 2"
proof -
  obtain s' where s': "ipc_space_create kx 0 kx_space = (KERN_SUCCESS, 0x10000, s')"
    by (simp add: ipc_space_create_def kalloc_def kx_def IS_NULL_def)
  have "ghash_ok (k_ghash kx)" "gnodes (k_ghash kx) = {}" by (simp_all add: kx_def ghash_ok_def gnodes_def)
  then show ?thesis using space_create_empty [OF s'] s' by (simp add: kx_def)
qed

section \<open>The names of a space\<close>

lemma names_helper_names:
  "mach_port_names_helper s timestamp entry name names = Some names' \<Longrightarrow> map fst names' = map fst names @ [name]"
  by (auto simp: mach_port_names_helper_def Let_def bind_eq_Some_conv split: if_splits)

lemma names_table_names:
  "names_table s timestamp table ixs names = Some names' \<Longrightarrow>
   map fst names' = map fst names @ map (\<lambda>i. entry_name i (table ! i)) (filter (\<lambda>i. in_use (table ! i)) ixs)"
proof (induction ixs arbitrary: names)
  case (Cons i ixs)
  then show ?case
    by (auto simp: Let_def bind_eq_Some_conv in_use_def entry_name_def dest!: names_helper_names split: if_splits)
qed simp

lemma visit_names:
  "fst (visit_all (names_tree_entry s timestamp) st xs) = Some names' \<Longrightarrow>
   \<exists>names. st = Some names \<and> map fst names' = map fst names @ map fst xs"
proof (induction xs arbitrary: st)
  case (Cons x xs)
  have "fst (visit_all (names_tree_entry s timestamp) (snd (names_tree_entry s timestamp st (fst x) (snd x))) xs) = Some names'"
    using Cons.prems by (simp add: case_prod_beta)
  from Cons.IH [OF this] show ?case
    by (auto simp: names_tree_entry_def bind_eq_Some_conv dest!: names_helper_names)
qed simp

lemma rights_names:
  assumes "space_ok tab {} space is g"
  defines "t \<equiv> is_table is"
  defines "l \<equiv> map (\<lambda>i. entry_name i (t ! i)) (filter (\<lambda>i. in_use (t ! i)) [0..<length t]) @ map fst (ist_inorder (is_tree is))"
  shows "distinct l \<and> set l = dom (rights is) \<and> length l \<le> is_table_size is + is_tree_total is"
proof -
  obtain fs where ok: "table_ok {} t fs" "tree_ok {} t fs (is_tree_map is)" "counts_ok tab is"
    using assms(1) by (auto simp: space_ok_def t_def)
  have len: "length t \<le> 16777215" and head: "\<not> in_use (t ! 0)" using ok(1) by (auto simp: table_ok_def)
  have sorted: "sorted_wrt (<) (map fst (ist_inorder (is_tree is)))"
    using ok(3) by (simp add: counts_ok_def ist_ok_def)
  have inj: "inj_on (\<lambda>i. entry_name i (t ! i)) {0..<length t}"
  proof (rule inj_onI)
    fix i j assume "i \<in> {0..<length t}" "j \<in> {0..<length t}" "entry_name i (t ! i) = entry_name j (t ! j)"
    then show "i = j" using len by (intro entry_name_index [of i j "t ! i" "t ! j"]) simp_all
  qed
  have table: "entry_name i (t ! i) = n \<longleftrightarrow> name_index n = i \<and> MACH_PORT_GEN n = IE_BITS_GEN (ie_bits (t ! i))"
    if "i < length t" for i n
    using that len name_eq_entry_name [of i n "t ! i"] by (simp add: eq_commute [of _ n])
  have tset: "(\<exists>i<length t. in_use (t ! i) \<and> entry_name i (t ! i) = n) \<longleftrightarrow> table_entry_of t n \<noteq> None" for n
  proof -
    have "(\<exists>i<length t. in_use (t ! i) \<and> entry_name i (t ! i) = n) \<longleftrightarrow>
      name_index n < length t \<and> in_use (t ! name_index n) \<and> IE_BITS_GEN (ie_bits (t ! name_index n)) = MACH_PORT_GEN n"
      using table by metis
    also have "\<dots> \<longleftrightarrow> table_entry_of t n \<noteq> None"
      using head by (cases "name_index n = 0") (simp_all add: table_entry_of_def Let_def)
    finally show ?thesis .
  qed
  have tree: "set (map fst (ist_inorder (is_tree is))) = dom (is_tree_map is)"
    by (simp add: dom_map_of_conv_image_fst)
  have disj: "table_entry_of t n = None" if "n \<in> dom (is_tree_map is)" for n
    using ok(2) that by (auto simp: tree_ok_def table_entry_of_def Let_def)
  have first: "n \<in> set (map (\<lambda>i. entry_name i (t ! i)) (filter (\<lambda>i. in_use (t ! i)) [0..<length t])) \<longleftrightarrow> table_entry_of t n \<noteq> None" for n
    unfolding tset [symmetric] by auto
  have set: "set l = dom (rights is)"
  proof (rule set_eqI)
    fix n
    show "n \<in> set l \<longleftrightarrow> n \<in> dom (rights is)"
      unfolding l_def set_append Un_iff first tree rights_def find_entry_def t_def [symmetric] by (simp add: dom_def)
  qed
  have "distinct (map (\<lambda>i. entry_name i (t ! i)) (filter (\<lambda>i. in_use (t ! i)) [0..<length t]))"
    using inj by (auto simp: distinct_map intro: inj_on_subset)
  moreover have "distinct (map fst (ist_inorder (is_tree is)))"
    using sorted by (simp add: strict_sorted_iff)
  ultimately have "distinct l"
    using first disj tree unfolding l_def distinct_append by blast
  moreover have "length l \<le> is_table_size is + is_tree_total is"
    using ok(3) length_filter_le [of "\<lambda>i. in_use (t ! i)" "[0..<length t]"] by (simp add: l_def t_def counts_ok_def)
  ultimately show ?thesis using set by blast
qed

lemma le_round_page: "0 < page \<Longrightarrow> x \<le> round_page page x"
  using div_mult_mod_eq [of "x + (page - 1)" page] mod_less_divisor [of page "x + (page - 1)"]
  unfolding round_page_def by linarith

lemma names_reserve_size:
  "names_reserve page ws sz s space = Some (Inr sz', s') \<Longrightarrow>
   \<exists>is. k_spaces s' space = Some is \<and> is_active is \<and> round_page page ((is_table_size is + is_tree_total is) * sizeof_mach_port) \<le> sz'"
proof (induction ws arbitrary: sz s)
  case Nil
  then show ?case
    unfolding names_reserve.simps [of page "[]" sz s space] by (auto simp: bind_eq_Some_conv Let_def split: if_splits prod.splits)
next
  case (Cons others ws)
  show ?case
    using Cons.prems Cons.IH unfolding names_reserve.simps [of page "others # ws" sz s space]
    by (auto simp: bind_eq_Some_conv Let_def split: if_splits prod.splits)
qed

text \<open>
  C3: \<^verbatim>\<open>mach_port_names\<close> takes an accurate snapshot: for the space as it is when the memory for the answer is
  large enough, it returns each name that denotes a right exactly once and no other, and never more
  names than the memory that it has reserved can hold, whatever other threads did while it allocated.
\<close>

theorem port_names_exact:
  assumes "mach_port_names page ws s space = Some (KERN_SUCCESS, l, s')" "space \<noteq> IS_NULL" "0 < page"
    and "names_reserve page ws 0 s space = Some (Inr sz, s1)"
    and "k_spaces s1 space = Some is" "space_ok (ipc_table_entries s1) {} space is (k_ghash s1)"
  shows "distinct (map fst l) \<and> fst ` set l = dom (rights is) \<and> length l * sizeof_mach_port \<le> sz"
proof -
  obtain ts s2 where ts: "ipc_port_timestamp s1 = (ts, s2)" by (cases "ipc_port_timestamp s1")
  then have s2: "k_spaces s2 space = Some is" using assms(5) by (auto simp: ipc_port_timestamp_def)
  obtain names tree where n: "names_table s2 ts (is_table is) [0..<is_table_size is] [] = Some names"
    and t: "ipc_splay_traverse (names_tree_entry s2 ts) (Some names) (is_tree is) = Some (Some l, tree)"
    using assms(1,2,4) ts s2 by (auto simp: mach_port_names_def bind_eq_Some_conv)
  have "ist_ok (is_tree is)" using assms(6) by (simp add: space_ok_def counts_ok_def)
  then have "fst (visit_all (names_tree_entry s2 ts) (Some names) (ist_inorder (is_tree is))) = Some l"
    using ipc_splay_traverse_correct [of "is_tree is" "names_tree_entry s2 ts" "Some names"] t by auto
  then have "map fst l = map fst names @ map fst (ist_inorder (is_tree is))" using visit_names by fastforce
  then have l: "map fst l = map (\<lambda>i. entry_name i (is_table is ! i)) (filter (\<lambda>i. in_use (is_table is ! i)) [0..<is_table_size is]) @
      map fst (ist_inorder (is_tree is))"
    using names_table_names [OF n] by simp
  note r = rights_names [OF assms(6), folded l]
  have "length l \<le> is_table_size is + is_tree_total is" using r by simp
  moreover have "round_page page ((is_table_size is + is_tree_total is) * sizeof_mach_port) \<le> sz"
    using names_reserve_size [OF assms(4)] assms(5) by simp
  ultimately have "length l * sizeof_mach_port \<le> sz"
    using le_round_page [OF assms(3), of "(is_table_size is + is_tree_total is) * sizeof_mach_port"]
    by (meson mult_le_mono1 order_trans)
  then show ?thesis using r by simp
qed

text \<open>The example kernel with a space that has two rights in its table, one in its tree, and a free entry.\<close>

definition nx :: kernel where
  "nx = kx\<lparr>k_spaces := [32 \<mapsto> ex_space 0xff000000 0x207 0x05900001], k_ghash := ex_ghash, ipc_table_entries := [4, 8]\<rparr>"

lemma nx_names:
  "map_option (\<lambda>(kr, l, s'). (kr, map fst l)) (mach_port_names 4096 [\<lambda>s. s] nx 32) = Some (KERN_SUCCESS, [0x100, 0x205, 0x207])"
  by code_simp

lemma nx_reserve: "\<exists>s1. names_reserve 4096 [\<lambda>s. s] 0 nx 32 = Some (Inr 4096, s1) \<and> k_spaces s1 = k_spaces nx \<and>
    k_ghash s1 = k_ghash nx \<and> ipc_table_entries s1 = ipc_table_entries nx"
  by (simp add: names_reserve.simps nx_def kx_def kalloc_def round_page_def sizeof_mach_port_def) (simp add: ex_space_def)

theorem port_names_exact_witness:
  "\<exists>l s'. mach_port_names 4096 [\<lambda>s. s] nx 32 = Some (KERN_SUCCESS, l, s') \<and> map fst l = [0x100, 0x205, 0x207] \<and>
     fst ` set l = dom (rights (ex_space 0xff000000 0x207 0x05900001)) \<and> length l * sizeof_mach_port \<le> 4096"
proof -
  obtain l s' where l: "mach_port_names 4096 [\<lambda>s. s] nx 32 = Some (KERN_SUCCESS, l, s')" "map fst l = [0x100, 0x205, 0x207]"
    using nx_names by (auto simp: map_option_eq_Some)
  obtain s1 where s1: "names_reserve 4096 [\<lambda>s. s] 0 nx 32 = Some (Inr 4096, s1)" "k_spaces s1 = k_spaces nx"
      "k_ghash s1 = k_ghash nx" "ipc_table_entries s1 = ipc_table_entries nx"
    using nx_reserve by blast
  have "space_ok (ipc_table_entries s1) {} 32 (ex_space 0xff000000 0x207 0x05900001) (k_ghash s1)"
    using ex_space_ok [OF ex_case_2] s1 by (simp add: nx_def)
  then show ?thesis
    using port_names_exact [OF l(1) _ _ s1(1), of "ex_space 0xff000000 0x207 0x05900001"] s1(2) l
    by (simp add: nx_def IS_NULL_def)
qed

section \<open>Dead names\<close>

text \<open>
  \<^verbatim>\<open>mach_port_allocate_name\<close> does not give a dead name the name that the caller asks for: the call does the
  same for any two valid names. It allocates some name, and says that it succeeded.
\<close>

theorem allocate_dead_name_ignores_name:
  assumes "MACH_PORT_VALID name" "MACH_PORT_VALID other"
  shows "mach_port_allocate_name s space MACH_PORT_RIGHT_DEAD_NAME name ws =
    mach_port_allocate_name s space MACH_PORT_RIGHT_DEAD_NAME other ws"
  using assms
  by (cases "k_spaces s space"; cases "ipc_object_alloc_dead s space ws")
    (auto simp: mach_port_allocate_name_def mach_port_allocate_full_def MACH_PORT_RIGHT_DEAD_NAME_def MACH_PORT_RIGHT_RECEIVE_def
      MACH_PORT_RIGHT_PORT_SET_def)

lemma nx_allocate_name:
  "map_option (\<lambda>(kr, s', ws). (kr, length ws)) (mach_port_allocate_name nx 32 MACH_PORT_RIGHT_DEAD_NAME 0x900 []) = Some (KERN_SUCCESS, 0)"
  by code_simp

theorem allocate_dead_name_ignores_name_witness:
  "(\<exists>s'. mach_port_allocate_name nx 32 MACH_PORT_RIGHT_DEAD_NAME 0x900 [] = Some (KERN_SUCCESS, s', [])) \<and>
   mach_port_allocate_name nx 32 MACH_PORT_RIGHT_DEAD_NAME 0x900 [] = mach_port_allocate_name nx 32 MACH_PORT_RIGHT_DEAD_NAME 0xa00 []"
proof
  show "\<exists>s'. mach_port_allocate_name nx 32 MACH_PORT_RIGHT_DEAD_NAME 0x900 [] = Some (KERN_SUCCESS, s', [])"
    using nx_allocate_name by (auto simp: map_option_eq_Some)
  show "mach_port_allocate_name nx 32 MACH_PORT_RIGHT_DEAD_NAME 0x900 [] = mach_port_allocate_name nx 32 MACH_PORT_RIGHT_DEAD_NAME 0xa00 []"
    by (rule allocate_dead_name_ignores_name) (simp_all add: MACH_PORT_VALID_def MACH_PORT_NULL_def MACH_PORT_DEAD_def)
qed

end
