(* ===== verification/IPC_Kobject.thy ===== *)
theory IPC_Kobject
  imports IPC_Kmsg IPC_Kmsg_Copyin
begin

text \<open>
  Kernel objects (\<^verbatim>\<open>kern/ipc_kobject.c\<close>): the table that finds the server routine of a request by its
  message id, the server that answers a message sent to the kernel, and ports that stand for kernel objects.
\<close>

section \<open>The dispatch table\<close>

text \<open>
  The descriptions of the subsystems (\<^verbatim>\<open>mach/rpc.h\<close>) are generated code and an argument of the
  routines here. Message ids are C integers; the position that an id hashes to is its remainder, which in C has
  the sign of the id. \<open>bucket_at\<close> is \<open>None\<close> for a position outside of the array.
\<close>

record routine_descriptor =
  stub_routine :: natural_t
  max_reply_msg :: natural_t

record rpc_subsystem =
  rs_start :: int
  rs_end :: int
  rs_maxsize :: natural_t
  rs_routine :: "routine_descriptor list"

record mig_hash =
  mh_num :: int
  mh_routine :: natural_t
  mh_size :: natural_t

record mig_table =
  mig_buckets :: "mig_hash list"
  mig_table_max_displ :: int
  mig_reply_size :: natural_t

definition MAX_MIG_ENTRIES :: int where "MAX_MIG_ENTRIES = 1024"

definition c_rem :: "int \<Rightarrow> int \<Rightarrow> int" where
  "c_rem a b = (if a < 0 then - (- a mod b) else a mod b)"

definition bucket_at :: "mig_hash list \<Rightarrow> int \<Rightarrow> mig_hash option" where
  "bucket_at buckets pos = (if 0 \<le> pos \<and> pos < MAX_MIG_ENTRIES then Some (buckets ! nat pos) else None)"

text \<open>
  The search for a free bucket in \<open>mig_init\<close>, with the number of buckets looked at; \<open>None\<close> is one of its
  panics (an id that is already there, a full table).
\<close>

partial_function (option) mig_probe :: "mig_hash list \<Rightarrow> int \<Rightarrow> int \<Rightarrow> int \<Rightarrow> (int \<times> int) option" where
  "mig_probe buckets nentry pos howmany =
     Option.bind (bucket_at buckets pos) (\<lambda>b.
       if mh_num b = 0 then Some (pos, howmany)
       else if mh_num b = nentry then None
       else if howmany = MAX_MIG_ENTRIES then None
       else mig_probe buckets nentry (c_rem (pos + 1) MAX_MIG_ENTRIES) (howmany + 1))"

declare mig_probe.simps [code]

definition mig_enter :: "rpc_subsystem \<Rightarrow> nat \<Rightarrow> mig_table \<Rightarrow> mig_table option" where
  "mig_enter sub j t =
     (let rd = rs_routine sub ! j in
      if stub_routine rd \<noteq> 0 then do {
        let nentry = int j + rs_start sub;
        (pos, howmany) \<leftarrow> mig_probe (mig_buckets t) nentry (c_rem nentry MAX_MIG_ENTRIES) 1;
        Some (t\<lparr>mig_buckets := (mig_buckets t)[nat pos :=
                  \<lparr>mh_num = nentry, mh_routine = stub_routine rd,
                   mh_size = (if max_reply_msg rd \<noteq> 0 then max_reply_msg rd else rs_maxsize sub)\<rparr>],
                mig_table_max_displ := max howmany (mig_table_max_displ t)\<rparr>) }
      else Some t)"

primrec mig_enter_all :: "rpc_subsystem \<Rightarrow> nat list \<Rightarrow> mig_table \<Rightarrow> mig_table option" where
  "mig_enter_all sub [] t = Some t"
| "mig_enter_all sub (j # js) t = do { t \<leftarrow> mig_enter sub j t; mig_enter_all sub js t }"

primrec mig_init_loop :: "rpc_subsystem list \<Rightarrow> mig_table \<Rightarrow> mig_table option" where
  "mig_init_loop [] t = Some t"
| "mig_init_loop (sub # mig_e) t =
     (let range = rs_end sub - rs_start sub in
      if rs_start sub = 0 \<or> range < 0 then None
      else do {
        t \<leftarrow> mig_enter_all sub [0..<nat range] (t\<lparr>mig_reply_size := max (mig_reply_size t) (rs_maxsize sub)\<rparr>);
        mig_init_loop mig_e t })"

definition mig_init :: "rpc_subsystem list \<Rightarrow> mig_table option" where
  "mig_init mig_e = mig_init_loop mig_e
     \<lparr>mig_buckets = replicate (nat MAX_MIG_ENTRIES) \<lparr>mh_num = 0, mh_routine = 0, mh_size = 0\<rparr>,
      mig_table_max_displ = 0, mig_reply_size = 0\<rparr>"

text \<open>
  The search of \<open>ipc_kobject_server\<close>. The counter \<open>i\<close> is a C integer and wraps around.
\<close>

partial_function (option) mig_lookup_loop :: "mig_hash list \<Rightarrow> int \<Rightarrow> int \<Rightarrow> int \<Rightarrow> mig_hash option" where
  "mig_lookup_loop buckets key i max_iter =
     Option.bind (bucket_at buckets (c_rem i MAX_MIG_ENTRIES)) (\<lambda>ptr.
       if key \<noteq> mh_num ptr \<and> mh_num ptr \<noteq> 0 \<and> max_iter - 1 \<noteq> 0
       then mig_lookup_loop buckets key (signed_take_bit 31 (i + 1)) (max_iter - 1)
       else Some ptr)"

declare mig_lookup_loop.simps [code]

definition mig_lookup :: "mig_table \<Rightarrow> int \<Rightarrow> (mig_hash option \<times> natural_t) option" where
  "mig_lookup t key = do {
     ptr \<leftarrow> mig_lookup_loop (mig_buckets t) key key (mig_table_max_displ t);
     Some (if mh_routine ptr = 0 \<or> key \<noteq> mh_num ptr then (None, mig_reply_size t)
           else (Some ptr, mh_size ptr)) }"

section \<open>Ports of kernel objects\<close>

type_synonym ipc_kobject_t = natural_t

definition IKO_NULL :: ipc_kobject_t where "IKO_NULL = 0"
definition IKOT_NONE :: natural_t where "IKOT_NONE = 0"
definition IKOT_TASK :: natural_t where "IKOT_TASK = 2"
definition IKOT_HOST :: natural_t where "IKOT_HOST = 3"
definition IKOT_HOST_PRIV :: natural_t where "IKOT_HOST_PRIV = 4"
definition IKOT_PROCESSOR :: natural_t where "IKOT_PROCESSOR = 5"
definition IKOT_PSET :: natural_t where "IKOT_PSET = 6"
definition IKOT_PSET_NAME :: natural_t where "IKOT_PSET_NAME = 7"
definition IKOT_PAGER :: natural_t where "IKOT_PAGER = 8"
definition IKOT_PAGER_TERMINATING :: natural_t where "IKOT_PAGER_TERMINATING = 15"
definition IKOT_HOST_SECURITY :: natural_t where "IKOT_HOST_SECURITY = 17"
definition IKOT_MASTER_DEVICE :: natural_t where "IKOT_MASTER_DEVICE = 19"
definition IKOT_ACT :: natural_t where "IKOT_ACT = 20"

lemmas ikot_defs [mach_consts] =
  IKO_NULL_def IKOT_NONE_def IKOT_TASK_def IKOT_HOST_def IKOT_HOST_PRIV_def IKOT_PROCESSOR_def IKOT_PSET_def
  IKOT_PSET_NAME_def IKOT_PAGER_def IKOT_PAGER_TERMINATING_def IKOT_HOST_SECURITY_def
  IKOT_MASTER_DEVICE_def IKOT_ACT_def

text \<open>
  The field \<open>ip_kobject\<close> of a port is not touched by the IPC code proper, so the kernel objects of all ports
  are a function beside the kernel state.
\<close>

type_synonym kobjects = "ipc_port_t \<Rightarrow> ipc_kobject_t"

definition ipc_kobject_set ::
  "kernel \<Rightarrow> kobjects \<Rightarrow> ipc_port_t \<Rightarrow> ipc_kobject_t \<Rightarrow> natural_t \<Rightarrow> (kernel \<times> kobjects) option" where
  "ipc_kobject_set s ko port kobject type = do {
     s \<leftarrow> port_write s port (\<lambda>p. p\<lparr>ip_bits := ip_bits p AND NOT IO_BITS_KOTYPE OR type\<rparr>);
     Some (s, ko(port := kobject)) }"

text \<open>What \<open>ipc_kobject_destroy\<close> calls for the port of a kernel object that dies.\<close>

datatype kobject_call = VM_OBJECT_DESTROY ipc_port_t | VM_OBJECT_PAGER_WAKEUP ipc_port_t

definition ipc_kobject_destroy :: "kernel \<Rightarrow> ipc_port_t \<Rightarrow> kobject_call list option" where
  "ipc_kobject_destroy s port = do {
     p \<leftarrow> k_ports s port;
     Some (if ip_kotype p = IKOT_PAGER then [VM_OBJECT_DESTROY port]
           else if ip_kotype p = IKOT_PAGER_TERMINATING then [VM_OBJECT_PAGER_WAKEUP port]
           else []) }"

section \<open>The server\<close>

text \<open>
  The return code of a reply is the first word of its data. \<open>stubs\<close> gives the generated server stubs by
  address, with the requests they unpack and the kernel functions they call, and \<open>ds\<close> the notification
  routines of the device code (\<open>ds_notify\<close>, \<open>ds_master_notify\<close>).
\<close>

definition MIG_BAD_ID :: natural_t where "MIG_BAD_ID = - 303"
definition MIG_NO_REPLY :: natural_t where "MIG_NO_REPLY = - 305"
definition sizeof_mig_reply_error :: natural_t where "sizeof_mig_reply_error = 36"

abbreviation RetCode :: "ipc_kmsg \<Rightarrow> natural_t" where "RetCode kmsg \<equiv> ikm_data kmsg ! 0"

definition set_RetCode :: "ipc_kmsg \<Rightarrow> natural_t \<Rightarrow> ipc_kmsg" where
  "set_RetCode kmsg code = kmsg\<lparr>ikm_data := (ikm_data kmsg)[0 := code]\<rparr>"

type_synonym mig_stub = "kernel \<Rightarrow> ipc_kmsg \<Rightarrow> ipc_kmsg \<Rightarrow> (ipc_kmsg \<times> ipc_kmsg \<times> kernel) option"
type_synonym device_notify = "natural_t \<Rightarrow> kernel \<Rightarrow> ipc_kmsg \<Rightarrow> (bool \<times> kernel) option"

definition ipc_kobject_notify ::
  "device_notify \<Rightarrow> kernel \<Rightarrow> ipc_kmsg \<Rightarrow> ipc_kmsg \<Rightarrow> (bool \<times> ipc_kmsg \<times> kernel) option" where
  "ipc_kobject_notify ds s request reply = do {
     let port = msgh_remote_port request;
     let reply = set_RetCode reply MIG_NO_REPLY;
     if msgh_id request \<notin> {MACH_NOTIFY_PORT_DELETED, MACH_NOTIFY_PORT_DESTROYED, MACH_NOTIFY_NO_SENDERS,
                           MACH_NOTIFY_SEND_ONCE, MACH_NOTIFY_DEAD_NAME}
     then Some (False, reply, s)
     else do {
       p \<leftarrow> k_ports s port;
       if ip_kotype p = IKOT_DEVICE \<or> ip_kotype p = IKOT_MASTER_DEVICE then do {
         (r, s) \<leftarrow> ds (ip_kotype p) s request;
         Some (r, reply, s) }
       else Some (False, reply, s) } }"

text \<open>\<open>old\<close> is what the new buffer holds where the return code will be.\<close>

definition kobject_reply :: "ipc_kmsg \<Rightarrow> natural_t \<Rightarrow> ipc_kmsg" where
  "kobject_reply request old =
     \<lparr>msgh_bits = MACH_MSGH_BITS (MACH_MSGH_BITS_LOCAL (msgh_bits request)) 0,
      msgh_size = sizeof_mig_reply_error, msgh_remote_port = msgh_local_port request,
      msgh_local_port = MACH_PORT_NULL, msgh_id = msgh_id request + 100, ikm_body = [], ikm_data = [old]\<rparr>"

definition kobject_destination :: "kernel \<Rightarrow> ipc_kmsg \<Rightarrow> kernel option" where
  "kobject_destination s request =
     (if MACH_MSGH_BITS_REMOTE (msgh_bits request) = MACH_MSG_TYPE_PORT_SEND
      then ipc_port_release_send ipc_kmsg_destroy s (msgh_remote_port request)
      else if MACH_MSGH_BITS_REMOTE (msgh_bits request) = MACH_MSG_TYPE_PORT_SEND_ONCE
      then ipc_port_release_sonce s (msgh_remote_port request)
      else None)"

definition ipc_kobject_server ::
  "mig_table \<Rightarrow> (natural_t \<Rightarrow> mig_stub) \<Rightarrow> device_notify \<Rightarrow> natural_t \<Rightarrow> kernel \<Rightarrow> ipc_kmsg \<Rightarrow>
   (ipc_kmsg option \<times> kernel) option" where
  "ipc_kobject_server t stubs ds old s request = do {
     (ptr, reply_size) \<leftarrow> mig_lookup t (sint (msgh_id request));
     let (address, s) = kalloc s;
     if address = 0 then do { s \<leftarrow> ipc_kmsg_destroy s request; Some (None, s) }
     else do {
       let reply = kobject_reply request old;
       (request, reply, s) \<leftarrow>
         (case ptr of
            Some m \<Rightarrow> stubs (mh_routine m) s request reply
          | None \<Rightarrow> do {
              (r, reply, s) \<leftarrow> ipc_kobject_notify ds s request reply;
              Some (request, if r then reply else set_RetCode reply MIG_BAD_ID, s) });
       s \<leftarrow> kobject_destination s request;
       let request = request\<lparr>msgh_remote_port := IP_NULL\<rparr>;
       let kr = (if msgh_bits reply AND MACH_MSGH_BITS_COMPLEX = 0 \<and> RetCode reply \<noteq> 0 then RetCode reply else 0);
       s \<leftarrow> (if kr = 0 \<or> kr = MIG_NO_REPLY then Some s
             else ipc_kmsg_destroy s (request\<lparr>msgh_local_port := MACH_PORT_NULL\<rparr>));
       if kr = MIG_NO_REPLY then Some (None, s)
       else if \<not> IP_VALID (msgh_remote_port reply) then do {
         s \<leftarrow> ipc_kmsg_destroy s reply;
         Some (None, s) }
       else Some (Some reply, s) } }"

end
