(* ===== verification/IPC_Kobject_Facts.thy ===== *)
theory IPC_Kobject_Facts
  imports IPC_Kobject
begin

text \<open>
  Facts on the dispatch table of kernel routines (\<open>IPC_Kobject\<close>): it is a hash table with linear probing and
  no deletions, and implements the finite map from message ids to routines that the subsystems describe.
\<close>

section \<open>The dispatch table\<close>

text \<open>
  \<open>registered\<close> is what the subsystems ask for: the ids with a stub, each with its routine and the size of its
  largest reply.
\<close>

definition stub_entry :: "rpc_subsystem \<Rightarrow> nat \<Rightarrow> (int \<times> natural_t \<times> natural_t) list" where
  "stub_entry sub j =
     (let rd = rs_routine sub ! j in
      if stub_routine rd = 0 then []
      else [(rs_start sub + int j, stub_routine rd, if max_reply_msg rd = 0 then rs_maxsize sub else max_reply_msg rd)])"

definition registered_by :: "rpc_subsystem \<Rightarrow> (int \<times> natural_t \<times> natural_t) list" where
  "registered_by sub = concat (map (stub_entry sub) [0..<nat (rs_end sub - rs_start sub)])"

definition registered :: "rpc_subsystem list \<Rightarrow> (int \<times> natural_t \<times> natural_t) list" where
  "registered mig_e = concat (map registered_by mig_e)"

definition slot :: "int \<Rightarrow> nat \<Rightarrow> nat" where
  "slot key d = nat ((key + int d) mod 1024)"

definition reached :: "mig_hash list \<Rightarrow> int \<Rightarrow> nat \<Rightarrow> bool" where
  "reached buckets key d \<longleftrightarrow> (\<forall>e<d. mh_num (buckets ! slot key e) \<noteq> 0 \<and> mh_num (buckets ! slot key e) \<noteq> key)"

definition mig_ok :: "(int \<times> natural_t \<times> natural_t) list \<Rightarrow> mig_table \<Rightarrow> bool" where
  "mig_ok reg t \<longleftrightarrow>
     length (mig_buckets t) = 1024 \<and> mig_table_max_displ t \<le> 1024 \<and> 0 \<le> mig_table_max_displ t \<and>
     (mig_table_max_displ t = 0 \<longrightarrow> reg = []) \<and>
     card {i. i < 1024 \<and> mh_num (mig_buckets t ! i) \<noteq> 0} = length reg \<and>
     (\<forall>key routine sz. (key, routine, sz) \<in> set reg \<longrightarrow> key \<noteq> 0 \<and> routine \<noteq> 0 \<and> (\<exists>d. int d < mig_table_max_displ t \<and> reached (mig_buckets t) key d \<and>
        mig_buckets t ! slot key d = \<lparr>mh_num = key, mh_routine = routine, mh_size = sz\<rparr>)) \<and>
     (\<forall>i<1024. if mh_num (mig_buckets t ! i) = 0 then mh_routine (mig_buckets t ! i) = 0
                else mh_num (mig_buckets t ! i) \<in> fst ` set reg)"

lemma mig_okD:
  assumes "mig_ok reg t" "(key, routine, sz) \<in> set reg"
  shows "key \<noteq> 0" "routine \<noteq> 0" "\<exists>d. int d < mig_table_max_displ t \<and> reached (mig_buckets t) key d \<and>
    mig_buckets t ! slot key d = \<lparr>mh_num = key, mh_routine = routine, mh_size = sz\<rparr>"
  using assms unfolding mig_ok_def by blast+

lemma mig_okI:
  assumes "length (mig_buckets t) = 1024" "mig_table_max_displ t \<le> 1024" "0 \<le> mig_table_max_displ t"
    "mig_table_max_displ t = 0 \<longrightarrow> reg = []" "card {i. i < 1024 \<and> mh_num (mig_buckets t ! i) \<noteq> 0} = length reg"
    "\<And>key routine sz. (key, routine, sz) \<in> set reg \<Longrightarrow> key \<noteq> 0 \<and> routine \<noteq> 0"
    "\<And>key routine sz. (key, routine, sz) \<in> set reg \<Longrightarrow> \<exists>d. int d < mig_table_max_displ t \<and> reached (mig_buckets t) key d \<and>
       mig_buckets t ! slot key d = \<lparr>mh_num = key, mh_routine = routine, mh_size = sz\<rparr>"
    "\<And>i. i < 1024 \<Longrightarrow> if mh_num (mig_buckets t ! i) = 0 then mh_routine (mig_buckets t ! i) = 0
       else mh_num (mig_buckets t ! i) \<in> fst ` set reg"
  shows "mig_ok reg t"
  unfolding mig_ok_def using assms by (intro conjI allI impI) simp_all

lemma slot_less [simp]: "slot key d < 1024"
  by (simp add: slot_def)

lemma slot_Suc: "c_rem (int (slot key d) + 1) 1024 = int (slot key (Suc d))"
  by (simp add: slot_def c_rem_def mod_simps add.assoc) (simp add: add.commute)

lemma slot_onto:
  assumes "i < 1024"
  shows "\<exists>d<1024. slot key d = i"
proof -
  have "slot key (nat ((int i - key) mod 1024)) = i"
    using assms by (simp add: slot_def mod_add_right_eq)
  moreover have "nat ((int i - key) mod 1024) < 1024" by simp
  ultimately show ?thesis by blast
qed

lemma bucket_at_slot [simp]: "bucket_at buckets (int (slot key d)) = Some (buckets ! slot key d)"
  using slot_less [of key d] by (simp add: bucket_at_def MAX_MIG_ENTRIES_def)

lemma mig_probe_ends:
  assumes "mh_num (buckets ! slot key d) = 0" "reached buckets key d" "d < 1024" "e \<le> d"
  shows "mig_probe buckets key (int (slot key e)) (int e + 1) = Some (int (slot key d), int d + 1)"
  using \<open>e \<le> d\<close>
proof (induction rule: inc_induct)
  case base
  then show ?case using assms by (simp add: mig_probe.simps)
next
  case (step e)
  then show ?case
    using assms(2,3) slot_Suc [of key e]
    by (subst mig_probe.simps) (simp add: reached_def MAX_MIG_ENTRIES_def add.commute)
qed

lemma free_slot:
  assumes "mig_ok reg t" "length reg < 1024" "key \<notin> fst ` set reg"
  obtains d where "d < 1024" "mh_num (mig_buckets t ! slot key d) = 0" "reached (mig_buckets t) key d"
proof -
  have "\<exists>i<1024. mh_num (mig_buckets t ! i) = 0"
  proof (rule ccontr)
    assume "\<not> ?thesis"
    then have "{i. i < 1024 \<and> mh_num (mig_buckets t ! i) \<noteq> 0} = {..<1024}" by auto
    then show False using assms(1,2) by (simp add: mig_ok_def)
  qed
  then obtain d where "d < 1024 \<and> mh_num (mig_buckets t ! slot key d) = 0" using slot_onto by metis
  then obtain d where d: "d < 1024 \<and> mh_num (mig_buckets t ! slot key d) = 0"
    "\<And>e. e < d \<Longrightarrow> \<not> (e < 1024 \<and> mh_num (mig_buckets t ! slot key e) = 0)"
    using exists_least_iff [of "\<lambda>d. d < 1024 \<and> mh_num (mig_buckets t ! slot key d) = 0"] by blast
  have "reached (mig_buckets t) key d"
    unfolding reached_def
  proof (intro allI impI)
    fix e assume "e < d"
    then have "mh_num (mig_buckets t ! slot key e) \<noteq> 0" using d by force
    moreover from this have "mh_num (mig_buckets t ! slot key e) \<in> fst ` set reg"
      using assms(1) slot_less [of key e] unfolding mig_ok_def by (metis (no_types, lifting))
    ultimately show "mh_num (mig_buckets t ! slot key e) \<noteq> 0 \<and> mh_num (mig_buckets t ! slot key e) \<noteq> key"
      using assms(3) by metis
  qed
  with d show ?thesis using that by blast
qed


text \<open>Entering an id in a free bucket keeps the way to every other id.\<close>

lemma mig_ok_insert:
  assumes "mig_ok reg t" "key \<notin> fst ` set reg" "key \<noteq> 0" "routine \<noteq> 0" "d < 1024"
    "mh_num (mig_buckets t ! slot key d) = 0" "reached (mig_buckets t) key d"
  shows "mig_ok (reg @ [(key, routine, sz)])
    (t\<lparr>mig_buckets := (mig_buckets t)[slot key d := \<lparr>mh_num = key, mh_routine = routine, mh_size = sz\<rparr>],
       mig_table_max_displ := max (int d + 1) (mig_table_max_displ t)\<rparr>)"
proof -
  let ?b = "mig_buckets t" and ?new = "\<lparr>mh_num = key, mh_routine = routine, mh_size = sz\<rparr>"
  let ?c = "?b[slot key d := ?new]"
  let ?used = "\<lambda>b. {i. i < 1024 \<and> mh_num (b ! i) \<noteq> 0}"
  have len: "length ?b = 1024" using assms(1) by (simp add: mig_ok_def)
  have keep: "reached ?c k e" if "reached ?b k e" for k e
    using that assms(6) len unfolding reached_def by (metis nth_list_update_neq)
  have "?used ?c = insert (slot key d) (?used ?b)"
    using len assms(3) by (auto simp: nth_list_update)
  moreover have "slot key d \<notin> ?used ?b" using assms(6) by simp
  ultimately have card: "card (?used ?c) = Suc (card (?used ?b))" by simp
  have regs: "\<exists>e. int e < max (int d + 1) (mig_table_max_displ t) \<and> reached ?c k e \<and>
      ?c ! slot k e = \<lparr>mh_num = k, mh_routine = r, mh_size = z\<rparr>"
    if k: "(k, r, z) \<in> set (reg @ [(key, routine, sz)])" for k r z
  proof (cases "(k, r, z) \<in> set reg")
    case True
    then obtain e where e: "k \<noteq> 0" "int e < mig_table_max_displ t" "reached ?b k e"
      "?b ! slot k e = \<lparr>mh_num = k, mh_routine = r, mh_size = z\<rparr>"
      using mig_okD [OF assms(1) True] by blast
    then have "slot k e \<noteq> slot key d" using assms(6) by auto
    then show ?thesis using e keep by (intro exI [of _ e]) auto
  next
    case False
    then show ?thesis using k len keep assms(7) by (intro exI [of _ d]) auto
  qed
  have nums: "if mh_num (?c ! i) = 0 then mh_routine (?c ! i) = 0 else mh_num (?c ! i) \<in> fst ` set (reg @ [(key, routine, sz)])"
    if "i < 1024" for i
    using that assms(1) len assms(3) unfolding mig_ok_def by (cases "i = slot key d") auto
  have nz: "k \<noteq> 0 \<and> r \<noteq> 0" if "(k, r, z) \<in> set (reg @ [(key, routine, sz)])" for k r z
    using that mig_okD(1,2) [OF assms(1), of k r z] assms(3,4) by auto
  have rest: "mig_table_max_displ t \<le> 1024" "card (?used ?b) = length reg" "0 \<le> mig_table_max_displ t"
    using assms(1) by (simp_all add: mig_ok_def)
  show ?thesis
  proof (rule mig_okI, goal_cases)
    case (6 k r z) then show ?case using nz by blast
  next
    case (7 k r z) then show ?case using regs [OF 7] by simp
  next
    case (8 i) then show ?case using nums [OF 8] by (simp split: if_splits)
  qed (use rest card len assms(5) in simp_all)
qed

lemma mig_enter_ok:
  assumes "mig_ok reg t" "distinct (map fst (reg @ stub_entry sub j))" "length (reg @ stub_entry sub j) \<le> 1024" "0 < rs_start sub"
  shows "\<exists>t'. mig_enter sub j t = Some t' \<and> mig_ok (reg @ stub_entry sub j) t' \<and> mig_reply_size t' = mig_reply_size t"
proof (cases "stub_routine (rs_routine sub ! j) = 0")
  case True
  then show ?thesis using assms(1) by (simp add: mig_enter_def stub_entry_def)
next
  case False
  let ?key = "int j + rs_start sub"
  have key: "?key \<notin> fst ` set reg" "length reg < 1024" "?key \<noteq> 0"
    using assms(2-4) False by (simp_all add: stub_entry_def Let_def add.commute)
  then obtain d where d: "d < 1024" "mh_num (mig_buckets t ! slot ?key d) = 0" "reached (mig_buckets t) ?key d"
    using free_slot assms(1) by metis
  have "c_rem ?key MAX_MIG_ENTRIES = int (slot ?key 0)"
    using assms(4) by (simp add: c_rem_def slot_def MAX_MIG_ENTRIES_def)
  then have "mig_probe (mig_buckets t) ?key (c_rem ?key MAX_MIG_ENTRIES) 1 = Some (int (slot ?key d), int d + 1)"
    using mig_probe_ends [of "mig_buckets t" ?key d 0] d by simp
  then show ?thesis
    using mig_ok_insert [OF assms(1) key(1,3) False d] False
    by (simp add: mig_enter_def stub_entry_def Let_def add.commute)
qed

lemma mig_enter_all_ok:
  assumes "mig_ok reg t" "0 < rs_start sub" "reg' = reg @ concat (map (stub_entry sub) js)"
    "distinct (map fst reg')" "length reg' \<le> 1024"
  shows "\<exists>t'. mig_enter_all sub js t = Some t' \<and> mig_ok reg' t' \<and> mig_reply_size t' = mig_reply_size t"
  using assms
proof (induction js arbitrary: reg t)
  case (Cons j js)
  have "distinct (map fst (reg @ stub_entry sub j))" "length (reg @ stub_entry sub j) \<le> 1024"
    using Cons.prems(3-5) by auto
  then obtain u where u: "mig_enter sub j t = Some u" "mig_ok (reg @ stub_entry sub j) u" "mig_reply_size u = mig_reply_size t"
    using mig_enter_ok [OF Cons.prems(1) _ _ Cons.prems(2)] by blast
  then show ?case using Cons.IH [OF u(2)] Cons.prems by auto
qed simp

lemma mig_init_loop_ok:
  assumes "mig_ok reg t" "\<forall>sub\<in>set mig_e. 0 < rs_start sub \<and> rs_start sub \<le> rs_end sub"
    "reg' = reg @ registered mig_e" "distinct (map fst reg')" "length reg' \<le> 1024"
  shows "\<exists>t'. mig_init_loop mig_e t = Some t' \<and> mig_ok reg' t'"
  using assms
proof (induction mig_e arbitrary: reg t)
  case (Cons sub mig_e)
  let ?t = "t\<lparr>mig_reply_size := max (mig_reply_size t) (rs_maxsize sub)\<rparr>"
  have "mig_ok reg ?t" using Cons.prems(1) by (simp add: mig_ok_def)
  moreover have "distinct (map fst (reg @ registered_by sub))" "length (reg @ registered_by sub) \<le> 1024" "0 < rs_start sub"
    using Cons.prems(2-5) by (auto simp: registered_def)
  ultimately obtain u where u: "mig_enter_all sub [0..<nat (rs_end sub - rs_start sub)] ?t = Some u" "mig_ok (reg @ registered_by sub) u"
    using mig_enter_all_ok [of reg ?t sub "reg @ registered_by sub" "[0..<nat (rs_end sub - rs_start sub)]"]
    unfolding registered_by_def by blast
  then show ?case using Cons.IH [OF u(2)] Cons.prems by (auto simp: registered_def Let_def)
qed (simp add: registered_def)

lemma mig_init_ok:
  assumes "\<forall>sub\<in>set mig_e. 0 < rs_start sub \<and> rs_start sub \<le> rs_end sub"
    "distinct (map fst (registered mig_e))" "length (registered mig_e) \<le> 1024"
  shows "\<exists>t. mig_init mig_e = Some t \<and> mig_ok (registered mig_e) t"
proof -
  have "mig_ok [] \<lparr>mig_buckets = replicate 1024 \<lparr>mh_num = 0, mh_routine = 0, mh_size = 0\<rparr>,
      mig_table_max_displ = 0, mig_reply_size = 0\<rparr>"
    by (simp add: mig_ok_def)
  from mig_init_loop_ok [OF this assms(1) _ assms(2,3)] show ?thesis
    by (simp add: mig_init_def MAX_MIG_ENTRIES_def)
qed

text \<open>The search looks at the buckets from the one the id hashes to, up to the first that ends it.\<close>

lemma lookup_loop_ends:
  assumes "0 \<le> key" "key + 1024 < 2 ^ 31" "d < 1024" "e \<le> d" "reached buckets key d" "int d < m \<or> d = 0"
    "mh_num (buckets ! slot key d) = key \<or> mh_num (buckets ! slot key d) = 0 \<or> m = int d + 1"
  shows "mig_lookup_loop buckets key (key + int e) (m - int e) = Some (buckets ! slot key d)"
  using \<open>e \<le> d\<close>
proof (induction rule: inc_induct)
  case base
  have "c_rem (key + int d) MAX_MIG_ENTRIES = int (slot key d)"
    using assms(1) by (simp add: c_rem_def slot_def MAX_MIG_ENTRIES_def)
  then show ?case using assms(7) by (subst mig_lookup_loop.simps) auto
next
  case (step e)
  have "c_rem (key + int e) MAX_MIG_ENTRIES = int (slot key e)"
    using assms(1) by (simp add: c_rem_def slot_def MAX_MIG_ENTRIES_def)
  moreover have "signed_take_bit 31 (key + int e + 1) = key + int (Suc e)"
    using assms(1-3) step.hyps by (subst signed_take_bit_int_eq_self) auto
  moreover have "m - int e - 1 \<noteq> 0" using step.hyps assms(6) by linarith
  ultimately show ?case
    using step assms(5) by (subst mig_lookup_loop.simps) (auto simp: reached_def diff_diff_eq add.commute)
qed


lemma lookup_found:
  assumes "mig_ok reg t" "(key, routine, sz) \<in> set reg" "0 \<le> key" "key + 1024 < 2 ^ 31"
  shows "mig_lookup t key = Some (Some \<lparr>mh_num = key, mh_routine = routine, mh_size = sz\<rparr>, sz)"
proof -
  obtain d where d: "int d < mig_table_max_displ t" "reached (mig_buckets t) key d"
    "mig_buckets t ! slot key d = \<lparr>mh_num = key, mh_routine = routine, mh_size = sz\<rparr>"
    using mig_okD(3) [OF assms(1,2)] by blast
  have "d < 1024" using d(1) assms(1) by (simp add: mig_ok_def)
  then have "mig_lookup_loop (mig_buckets t) key key (mig_table_max_displ t) = Some (mig_buckets t ! slot key d)"
    using lookup_loop_ends [of key d 0 "mig_buckets t" "mig_table_max_displ t"] d assms(3,4) by simp
  then show ?thesis using d(3) mig_okD(2) [OF assms(1,2)] by (simp add: mig_lookup_def)
qed

lemma lookup_absent:
  assumes "mig_ok reg t" "key \<notin> fst ` set reg" "0 \<le> key" "key + 1024 < 2 ^ 31"
  shows "mig_lookup t key = Some (None, mig_reply_size t)"
proof -
  let ?b = "mig_buckets t" and ?m = "mig_table_max_displ t"
  let ?ends = "\<lambda>d. mh_num (?b ! slot key d) = 0 \<or> ?m = int d + 1"
  have nums: "if mh_num (?b ! slot key d) = 0 then mh_routine (?b ! slot key d) = 0 else mh_num (?b ! slot key d) \<in> fst ` set reg" for d
    using assms(1) slot_less [of key d] unfolding mig_ok_def by blast
  have m: "0 \<le> ?m" "?m \<le> 1024" "?m = 0 \<Longrightarrow> reg = []" using assms(1) by (auto simp: mig_ok_def)
  have ex: "\<exists>d. ?ends d"
  proof (cases "?m = 0")
    case True
    then show ?thesis using nums [of 0] m(3) by (intro exI [of _ 0]) (auto split: if_splits)
  next
    case False
    then show ?thesis using m(1) by (intro exI [of _ "nat (?m - 1)"]) auto
  qed
  then obtain d where d: "?ends d" "\<And>e. e < d \<Longrightarrow> \<not> ?ends e"
    using exists_least_iff [of ?ends] by blast
  have less: "int d < ?m \<or> d = 0"
  proof (rule ccontr)
    assume "\<not> ?thesis"
    then have less: "?m \<le> int d" "0 < d" by auto
    show False
    proof (cases "?m = 0")
      case True
      then show False using d(2) [OF less(2)] nums [of 0] m(3) by (auto split: if_splits)
    next
      case False
      then have "nat (?m - 1) < d" "?m = int (nat (?m - 1)) + 1" using m(1) less(1) by linarith+
      then show False using d(2) by blast
    qed
  qed
  have "reached ?b key d"
    unfolding reached_def using d(2) nums assms(2) by (metis (no_types, lifting))
  then have "mig_lookup_loop ?b key key ?m = Some (?b ! slot key d)"
    using lookup_loop_ends [of key d 0 ?b ?m] less d(1) m assms(3,4) by auto
  moreover have "mh_routine (?b ! slot key d) = 0 \<or> key \<noteq> mh_num (?b ! slot key d)"
    using nums [of d] assms(2) by (metis (no_types, lifting))
  ultimately show ?thesis by (simp add: mig_lookup_def)
qed

text \<open>
  C12: The table that \<open>mig_init\<close> builds dispatches every request correctly. For subsystems whose ids are positive,
  pairwise different and at most 1024 in number, the initialisation does not panic, and the search of
  \<open>ipc_kobject_server\<close>, which stops after the largest displacement seen while the table was built, finds for
  every id from 0 to \<open>2 ^ 31 - 1025\<close> exactly the routine and the reply size that a subsystem registered
  for it, and for an id that none registered it finds no routine.
\<close>

theorem mig_dispatch_exact:
  assumes "\<forall>sub\<in>set mig_e. 0 < rs_start sub \<and> rs_start sub \<le> rs_end sub"
    and "distinct (map fst (registered mig_e))" and "length (registered mig_e) \<le> 1024"
    and "0 \<le> key" and "key + 1024 < 2 ^ 31"
  shows "\<exists>t. mig_init mig_e = Some t \<and> mig_lookup t key =
    Some (case map_of (registered mig_e) key of
            None \<Rightarrow> (None, mig_reply_size t)
          | Some (routine, sz) \<Rightarrow> (Some \<lparr>mh_num = key, mh_routine = routine, mh_size = sz\<rparr>, sz))"
proof -
  obtain t where t: "mig_init mig_e = Some t" "mig_ok (registered mig_e) t"
    using mig_init_ok assms(1-3) by blast
  show ?thesis
  proof (cases "map_of (registered mig_e) key")
    case None
    then show ?thesis using t lookup_absent [OF t(2) _ assms(4,5)] map_of_eq_None_iff [of _ key] by fastforce
  next
    case (Some v)
    obtain routine sz where v: "v = (routine, sz)" by fastforce
    then show ?thesis using t Some lookup_found [OF t(2) _ assms(4,5)] map_of_SomeD [of _ key v] by fastforce
  qed
qed

text \<open>Two subsystems whose ids 1025 and 2049 hash to the same bucket.\<close>

definition ex_subsystems :: "rpc_subsystem list" where
  "ex_subsystems =
     [\<lparr>rs_start = 1024, rs_end = 1026, rs_maxsize = 400,
       rs_routine = [\<lparr>stub_routine = 0, max_reply_msg = 0\<rparr>, \<lparr>stub_routine = 0x5000, max_reply_msg = 0\<rparr>]\<rparr>,
      \<lparr>rs_start = 2049, rs_end = 2050, rs_maxsize = 80, rs_routine = [\<lparr>stub_routine = 0x6000, max_reply_msg = 60\<rparr>]\<rparr>]"

lemma ex_registered: "registered ex_subsystems = [(1025, 0x5000, 400), (2049, 0x6000, 60)]"
  by code_simp

theorem mig_dispatch_exact_witness:
  "\<exists>t. mig_init ex_subsystems = Some t \<and>
     mig_lookup t 2049 = Some (Some \<lparr>mh_num = 2049, mh_routine = 0x6000, mh_size = 60\<rparr>, 60)"
  using mig_dispatch_exact [of ex_subsystems 2049] unfolding ex_registered by (simp add: ex_subsystems_def)

text \<open>
  C38: A message with a negative id makes the kernel read outside of the dispatch table: for every id between
  \<open>- 2 ^ 31\<close> and -1 that is not a multiple of 1024, and any table, the first access of the search is at a
  negative position. The id of a message is chosen by its sender.
\<close>

theorem negative_id_outside_table:
  assumes "- (2 ^ 31) \<le> key" "key < 0" "key mod 1024 \<noteq> 0"
  shows "mig_lookup t key = None \<and> - 1024 < c_rem key MAX_MIG_ENTRIES \<and> c_rem key MAX_MIG_ENTRIES < 0"
proof -
  have "0 < - key mod 1024" using assms(3) pos_mod_bound [of 1024 key] by (simp add: zmod_zminus1_eq_if)
  then show ?thesis
    using assms(2) pos_mod_bound [of 1024 "- key"]
    by (simp add: mig_lookup_def mig_lookup_loop.simps c_rem_def bucket_at_def MAX_MIG_ENTRIES_def)
qed

theorem negative_id_outside_table_witness:
  "\<exists>t. mig_init ex_subsystems = Some t \<and> mig_lookup t (- 5) = None \<and> c_rem (- 5) MAX_MIG_ENTRIES < 0"
  using negative_id_outside_table [of "- 5"] mig_init_ok [of ex_subsystems]
  unfolding ex_registered by (auto simp: ex_subsystems_def)

end
