(* ===== verification/IPC_TT.thy ===== *)
theory IPC_TT
  imports IPC_Kobject IPC_Space IPC_Queue
begin

text \<open>
  Tasks and thread activations as IPC sees them (\<^verbatim>\<open>kern/ipc_tt.c\<close> and the special ports of
  \<^verbatim>\<open>kern/thread_act.c\<close>): their kernel ports, special, registered and exception ports, and the
  conversions between ports and the objects they stand for.
\<close>

section \<open>State\<close>

definition EXC_TYPES_COUNT :: nat where "EXC_TYPES_COUNT = 10"
definition FIRST_EXCEPTION :: nat where "FIRST_EXCEPTION = 1"
definition EXC_MACH_SYSCALL :: nat where "EXC_MACH_SYSCALL = 8"
definition EXC_MASK_ALL :: natural_t where "EXC_MASK_ALL = 0x3fe"
definition EXCEPTION_DEFAULT :: natural_t where "EXCEPTION_DEFAULT = 1"
definition EXCEPTION_STATE :: natural_t where "EXCEPTION_STATE = 2"
definition EXCEPTION_STATE_IDENTITY :: natural_t where "EXCEPTION_STATE_IDENTITY = 3"
definition TASK_PORT_REGISTER_MAX :: nat where "TASK_PORT_REGISTER_MAX = 3"
definition TASK_KERNEL_PORT :: natural_t where "TASK_KERNEL_PORT = 1"
definition TASK_BOOTSTRAP_PORT :: natural_t where "TASK_BOOTSTRAP_PORT = 4"
definition TASK_WIRED_LEDGER_PORT :: natural_t where "TASK_WIRED_LEDGER_PORT = 5"
definition TASK_PAGED_LEDGER_PORT :: natural_t where "TASK_PAGED_LEDGER_PORT = 6"
definition THREAD_KERNEL_PORT :: natural_t where "THREAD_KERNEL_PORT = 1"
definition TASK_NULL :: natural_t where "TASK_NULL = 0"
definition THR_ACT_NULL :: natural_t where "THR_ACT_NULL = 0"

lemmas tt_consts [mach_consts] =
  EXC_TYPES_COUNT_def FIRST_EXCEPTION_def EXC_MACH_SYSCALL_def EXC_MASK_ALL_def EXCEPTION_DEFAULT_def
  EXCEPTION_STATE_def EXCEPTION_STATE_IDENTITY_def TASK_PORT_REGISTER_MAX_def TASK_KERNEL_PORT_def
  TASK_BOOTSTRAP_PORT_def TASK_WIRED_LEDGER_PORT_def TASK_PAGED_LEDGER_PORT_def THREAD_KERNEL_PORT_def
  TASK_NULL_def THR_ACT_NULL_def

record exception_action =
  ea_port :: ipc_port_t
  ea_flavor :: natural_t
  ea_behavior :: natural_t

text \<open>The fields of \<open>struct task\<close> and \<open>struct thread_activation\<close> that these routines use.\<close>

record task =
  task_ref_count :: natural_t
  kernel_loaded :: bool
  task_map :: natural_t
  itk_self :: ipc_port_t
  itk_sself :: ipc_port_t
  exc_actions :: "exception_action list"
  itk_bootstrap :: ipc_port_t
  itk_registered :: "ipc_port_t list"
  itk_space :: ipc_space_t
  wired_ledger_port :: ipc_port_t
  paged_ledger_port :: ipc_port_t

record thread_act =
  act_ref_count :: natural_t
  act_task :: natural_t
  act_active :: bool
  ith_self :: ipc_port_t
  ith_sself :: ipc_port_t
  act_exc_actions :: "exception_action list"

text \<open>
  The IPC state with the kernel objects of its ports, the tasks and activations by address, and the calls of
  the task, thread and VM code that are not IPC.
\<close>

datatype tt_call = TASK_FREE natural_t | ACT_FREE natural_t | VM_MAP_REFERENCE_SWAP natural_t

record tt =
  tt_kernel :: kernel
  tt_kobjects :: kobjects
  tt_tasks :: "natural_t \<rightharpoonup> task"
  tt_acts :: "natural_t \<rightharpoonup> thread_act"
  host_self :: ipc_port_t
  tt_calls :: "tt_call list"

definition tt_do :: "(kernel \<Rightarrow> ('a \<times> kernel) option) \<Rightarrow> tt \<Rightarrow> ('a \<times> tt) option" where
  "tt_do f s = do { (r, k) \<leftarrow> f (tt_kernel s); Some (r, s\<lparr>tt_kernel := k\<rparr>) }"

definition tt_run :: "(kernel \<Rightarrow> kernel option) \<Rightarrow> tt \<Rightarrow> tt option" where
  "tt_run f s = do { k \<leftarrow> f (tt_kernel s); Some (s\<lparr>tt_kernel := k\<rparr>) }"

definition task_write :: "tt \<Rightarrow> natural_t \<Rightarrow> (task \<Rightarrow> task) \<Rightarrow> tt option" where
  "task_write s task f = do {
     t \<leftarrow> tt_tasks s task;
     Some (s\<lparr>tt_tasks := (tt_tasks s)(task \<mapsto> f t)\<rparr>) }"

definition act_write :: "tt \<Rightarrow> natural_t \<Rightarrow> (thread_act \<Rightarrow> thread_act) \<Rightarrow> tt option" where
  "act_write s act f = do {
     t \<leftarrow> tt_acts s act;
     Some (s\<lparr>tt_acts := (tt_acts s)(act \<mapsto> f t)\<rparr>) }"

definition kobject_set :: "tt \<Rightarrow> ipc_port_t \<Rightarrow> ipc_kobject_t \<Rightarrow> natural_t \<Rightarrow> tt option" where
  "kobject_set s port kobject type = do {
     (k, ko) \<leftarrow> ipc_kobject_set (tt_kernel s) (tt_kobjects s) port kobject type;
     Some (s\<lparr>tt_kernel := k, tt_kobjects := ko\<rparr>) }"

text \<open>The loops that clone and that release the send rights of an array.\<close>

primrec copy_sends :: "ipc_port_t list \<Rightarrow> kernel \<Rightarrow> (ipc_port_t list \<times> kernel) option" where
  "copy_sends [] s = Some ([], s)"
| "copy_sends (port # ports) s = do {
     (port, s) \<leftarrow> ipc_port_copy_send s port;
     (ports, s) \<leftarrow> copy_sends ports s;
     Some (port # ports, s) }"

definition release_valid :: "ipc_port_t \<Rightarrow> kernel \<Rightarrow> kernel option" where
  "release_valid port s = (if IP_VALID port then ipc_port_release_send ipc_kmsg_destroy s port else Some s)"

primrec release_sends :: "ipc_port_t list \<Rightarrow> kernel \<Rightarrow> kernel option" where
  "release_sends [] s = Some s"
| "release_sends (port # ports) s = do { s \<leftarrow> release_valid port s; release_sends ports s }"

abbreviation exceptions :: "nat list" where "exceptions \<equiv> [FIRST_EXCEPTION..<EXC_TYPES_COUNT]"

text \<open>The ports of the actions for the legal exceptions; position 0 is not used.\<close>

definition exc_ports :: "exception_action list \<Rightarrow> ipc_port_t list" where
  "exc_ports actions = map (\<lambda>i. ea_port (actions ! i)) exceptions"

section \<open>Tasks\<close>

definition ipc_port_alloc_kernel :: "kernel \<Rightarrow> (ipc_port_t \<times> kernel) option" where
  "ipc_port_alloc_kernel s =
     (let (port, s) = ipc_port_alloc_special s (ipc_space_kernel s)
      in if port = IP_NULL then None else Some (port, s))"

definition ipc_port_dealloc_kernel :: "ipc_port_t \<Rightarrow> kernel \<Rightarrow> kernel option" where
  "ipc_port_dealloc_kernel port s = ipc_port_dealloc_special ipc_kmsg_destroy s port (ipc_space_kernel s)"

text \<open>\<open>old\<close> is what the memory of the new space held before.\<close>

definition task_space_create :: "ipc_space \<Rightarrow> kernel \<Rightarrow> (ipc_space_t \<times> kernel) option" where
  "task_space_create old s =
     (case ipc_space_create s 0 old of (kr, space, s) \<Rightarrow> if kr \<noteq> KERN_SUCCESS then None else Some (space, s))"

text \<open>The action at each legal exception with the port of a list instead of its own.\<close>

primrec set_ports :: "nat list \<Rightarrow> ipc_port_t list \<Rightarrow> exception_action list \<Rightarrow> exception_action list" where
  "set_ports [] ports actions = actions"
| "set_ports (i # is) ports actions =
     set_ports is (tl ports) (actions[i := (actions ! i)\<lparr>ea_port := hd ports\<rparr>])"

definition ipc_task_init :: "ipc_space \<Rightarrow> tt \<Rightarrow> natural_t \<Rightarrow> natural_t \<Rightarrow> tt option" where
  "ipc_task_init old s task parent = do {
     (space, s) \<leftarrow> tt_do (task_space_create old) s;
     (kport, s) \<leftarrow> tt_do ipc_port_alloc_kernel s;
     s \<leftarrow> task_write s task (\<lambda>t. t\<lparr>itk_self := kport\<rparr>);
     (sself, s) \<leftarrow> tt_do (\<lambda>k. ipc_port_make_send k kport) s;
     s \<leftarrow> task_write s task (\<lambda>t. t\<lparr>itk_sself := sself, itk_space := space\<rparr>);
     t \<leftarrow> tt_tasks s task;
     s \<leftarrow> tt_run (\<lambda>k. space_write k space (\<lambda>is. is\<lparr>is_fast := kernel_loaded t\<rparr>)) s;
     if parent = TASK_NULL then do {
       s \<leftarrow> task_write s task (\<lambda>t. t\<lparr>exc_actions := set_ports exceptions (replicate (length exceptions) IP_NULL) (exc_actions t)\<rparr>);
       (host, s) \<leftarrow> tt_do (\<lambda>k. ipc_port_make_send k (host_self s)) s;
       task_write s task (\<lambda>t. t\<lparr>exc_actions := set_ports [EXC_MACH_SYSCALL] [host] (exc_actions t), itk_bootstrap := IP_NULL,
         itk_registered := replicate TASK_PORT_REGISTER_MAX IP_NULL\<rparr>) }
     else do {
       p \<leftarrow> tt_tasks s parent;
       (registered, s) \<leftarrow> tt_do (copy_sends (itk_registered p)) s;
       (ports, s) \<leftarrow> tt_do (copy_sends (exc_ports (exc_actions p))) s;
       (bootstrap, s) \<leftarrow> tt_do (\<lambda>k. ipc_port_copy_send k (itk_bootstrap p)) s;
       task_write s task (\<lambda>t. t\<lparr>itk_registered := registered,
         exc_actions := (exc_actions t ! 0) # map2 (\<lambda>i port. (exc_actions p ! i)\<lparr>ea_port := port\<rparr>) exceptions ports,
         itk_bootstrap := bootstrap\<rparr>) } }"

definition ipc_task_enable :: "tt \<Rightarrow> natural_t \<Rightarrow> tt option" where
  "ipc_task_enable s task = do {
     t \<leftarrow> tt_tasks s task;
     if itk_self t \<noteq> IP_NULL then kobject_set s (itk_self t) task IKOT_TASK else Some s }"

definition ipc_task_disable :: "tt \<Rightarrow> natural_t \<Rightarrow> tt option" where
  "ipc_task_disable s task = do {
     t \<leftarrow> tt_tasks s task;
     if itk_self t \<noteq> IP_NULL then kobject_set s (itk_self t) IKO_NULL IKOT_NONE else Some s }"

text \<open>\<open>ws\<close> is the sequence of waits of \<open>ipc_space_destroy\<close>.\<close>

definition ipc_task_terminate :: "(kernel \<Rightarrow> kernel) list \<Rightarrow> tt \<Rightarrow> natural_t \<Rightarrow> tt option" where
  "ipc_task_terminate ws s task = do {
     t \<leftarrow> tt_tasks s task;
     let kport = itk_self t;
     if kport = IP_NULL then Some s
     else do {
       s \<leftarrow> task_write s task (\<lambda>t. t\<lparr>itk_self := IP_NULL\<rparr>);
       s \<leftarrow> tt_run (release_valid (itk_sself t)) s;
       s \<leftarrow> tt_run (release_sends (exc_ports (exc_actions t))) s;
       s \<leftarrow> tt_run (release_valid (itk_bootstrap t)) s;
       s \<leftarrow> tt_run (release_sends (itk_registered t)) s;
       s \<leftarrow> (if \<not> kernel_loaded t then tt_run (\<lambda>k. ipc_space_destroy ws k (itk_space t)) s else Some s);
       tt_run (ipc_port_dealloc_kernel kport) s } }"

section \<open>Threads and activations\<close>

text \<open>The IPC fields of a thread, whose links in the queues of ports are in \<open>thread_links\<close>.\<close>

record thread_ipc =
  th_messages :: "ipc_kmsg list"
  ith_mig_reply :: mach_port_t
  ith_rpc_reply :: ipc_port_t

definition ipc_thread_init :: "thread_links \<Rightarrow> natural_t \<Rightarrow> thread_ipc \<Rightarrow> thread_links \<times> thread_ipc" where
  "ipc_thread_init l thread t =
     (ipc_thread_links_init l thread, t\<lparr>th_messages := [], ith_mig_reply := MACH_PORT_NULL, ith_rpc_reply := IP_NULL\<rparr>)"

text \<open>\<open>reply_space\<close> is \<open>ipc_space_reply\<close>.\<close>

definition ipc_thread_terminate :: "ipc_space_t \<Rightarrow> kernel \<Rightarrow> thread_ipc \<Rightarrow> (thread_ipc \<times> kernel) option" where
  "ipc_thread_terminate reply_space s t = do {
     s \<leftarrow> (if ith_rpc_reply t \<noteq> IP_NULL then ipc_port_dealloc_special ipc_kmsg_destroy s (ith_rpc_reply t) reply_space
           else Some s);
     Some (t\<lparr>ith_rpc_reply := IP_NULL\<rparr>, s) }"

definition ipc_thr_act_init :: "tt \<Rightarrow> natural_t \<Rightarrow> tt option" where
  "ipc_thr_act_init s act = do {
     (kport, s) \<leftarrow> tt_do ipc_port_alloc_kernel s;
     s \<leftarrow> act_write s act (\<lambda>t. t\<lparr>ith_self := kport\<rparr>);
     (sself, s) \<leftarrow> tt_do (\<lambda>k. ipc_port_make_send k kport) s;
     s \<leftarrow> act_write s act (\<lambda>t. t\<lparr>ith_sself := sself,
       act_exc_actions := set_ports exceptions (replicate (length exceptions) IP_NULL) (act_exc_actions t)\<rparr>);
     (host, s) \<leftarrow> tt_do (\<lambda>k. ipc_port_make_send k (host_self s)) s;
     s \<leftarrow> act_write s act (\<lambda>t. t\<lparr>act_exc_actions := set_ports [EXC_MACH_SYSCALL] [host] (act_exc_actions t)\<rparr>);
     kobject_set s kport act IKOT_ACT }"

definition ipc_thr_act_disable :: "tt \<Rightarrow> natural_t \<Rightarrow> tt option" where
  "ipc_thr_act_disable s act = do {
     t \<leftarrow> tt_acts s act;
     if ith_self t \<noteq> IP_NULL then kobject_set s (ith_self t) IKO_NULL IKOT_NONE else Some s }"

definition ipc_thr_act_disable_act_locked :: "tt \<Rightarrow> natural_t \<Rightarrow> tt option" where
  "ipc_thr_act_disable_act_locked s act = do {
     t \<leftarrow> tt_acts s act;
     if ith_self t \<noteq> IP_NULL then kobject_set s (ith_self t) IKO_NULL IKOT_NONE else Some s }"

definition ipc_thr_act_terminate :: "tt \<Rightarrow> natural_t \<Rightarrow> tt option" where
  "ipc_thr_act_terminate s act = do {
     t \<leftarrow> tt_acts s act;
     let kport = ith_self t;
     if kport = IP_NULL then Some s
     else do {
       s \<leftarrow> act_write s act (\<lambda>t. t\<lparr>ith_self := IP_NULL\<rparr>);
       s \<leftarrow> tt_run (release_valid (ith_sself t)) s;
       s \<leftarrow> tt_run (release_sends (exc_ports (act_exc_actions t))) s;
       tt_run (ipc_port_dealloc_kernel kport) s } }"

end
