(* ===== verification/IPC_TT_Ports.thy ===== *)
theory IPC_TT_Ports
  imports IPC_TT
begin

text \<open>
  The kernel calls of \<^verbatim>\<open>kern/ipc_tt.c\<close> and \<^verbatim>\<open>kern/thread_act.c\<close> on the ports of a task or an activation:
  self ports, special ports, registered ports, conversions, and exception ports.
\<close>

section \<open>Self ports\<close>

definition retrieve_self_fast :: "ipc_port_t \<Rightarrow> ipc_port_t \<Rightarrow> kernel \<Rightarrow> (ipc_port_t \<times> kernel) option" where
  "retrieve_self_fast self sself s =
     (if sself = self then do {
        s \<leftarrow> ip_reference s sself;
        s \<leftarrow> port_write s sself (\<lambda>p. p\<lparr>ip_srights := ip_srights p + 1\<rparr>);
        Some (sself, s) }
      else ipc_port_copy_send s sself)"

definition retrieve_task_self_fast :: "tt \<Rightarrow> natural_t \<Rightarrow> (ipc_port_t \<times> tt) option" where
  "retrieve_task_self_fast s task = do {
     t \<leftarrow> tt_tasks s task;
     tt_do (retrieve_self_fast (itk_self t) (itk_sself t)) s }"

definition retrieve_act_self_fast :: "tt \<Rightarrow> natural_t \<Rightarrow> (ipc_port_t \<times> tt) option" where
  "retrieve_act_self_fast s act = do {
     t \<leftarrow> tt_acts s act;
     tt_do (retrieve_self_fast (ith_self t) (ith_sself t)) s }"

text \<open>The traps take the current task or activation; \<open>ws\<close> are the windows of the copyout.\<close>

definition copyout_self :: "ipc_port_t \<Rightarrow> natural_t \<Rightarrow> window list \<Rightarrow> tt \<Rightarrow> (mach_port_t \<times> tt) option" where
  "copyout_self sright task ws s = do {
     t \<leftarrow> tt_tasks s task;
     tt_do (\<lambda>k. do { (name, k, ws) \<leftarrow> ipc_port_copyout_send k sright (itk_space t) ws; Some (name, k) }) s }"

definition mach_task_self :: "window list \<Rightarrow> tt \<Rightarrow> natural_t \<Rightarrow> (mach_port_t \<times> tt) option" where
  "mach_task_self ws s task = do {
     (sright, s) \<leftarrow> retrieve_task_self_fast s task;
     copyout_self sright task ws s }"

definition mach_thread_self :: "window list \<Rightarrow> tt \<Rightarrow> natural_t \<Rightarrow> (mach_port_t \<times> tt) option" where
  "mach_thread_self ws s act = do {
     t \<leftarrow> tt_acts s act;
     (sright, s) \<leftarrow> retrieve_act_self_fast s act;
     copyout_self sright (act_task t) ws s }"

definition mach_reply_port :: "window list \<Rightarrow> tt \<Rightarrow> natural_t \<Rightarrow> (mach_port_t \<times> tt) option" where
  "mach_reply_port ws s task = do {
     t \<leftarrow> tt_tasks s task;
     tt_do (\<lambda>k. do {
       (kr, name, port, k, ws) \<leftarrow> ipc_port_alloc k (itk_space t) ws;
       Some (if kr = KERN_SUCCESS then name else MACH_PORT_NULL, k) }) s }"

section \<open>Special ports\<close>

text \<open>The field of a task that a selector stands for, to read and to write; \<open>None\<close> for an invalid selector.\<close>

definition task_special :: "natural_t \<Rightarrow> ((task \<Rightarrow> ipc_port_t) \<times> (ipc_port_t \<Rightarrow> task \<Rightarrow> task)) option" where
  "task_special which =
     (if which = TASK_KERNEL_PORT then Some (itk_sself, \<lambda>port t. t\<lparr>itk_sself := port\<rparr>)
      else if which = TASK_BOOTSTRAP_PORT then Some (itk_bootstrap, \<lambda>port t. t\<lparr>itk_bootstrap := port\<rparr>)
      else if which = TASK_WIRED_LEDGER_PORT then Some (wired_ledger_port, \<lambda>port t. t\<lparr>wired_ledger_port := port\<rparr>)
      else if which = TASK_PAGED_LEDGER_PORT then Some (paged_ledger_port, \<lambda>port t. t\<lparr>paged_ledger_port := port\<rparr>)
      else None)"

definition task_get_special_port :: "tt \<Rightarrow> natural_t \<Rightarrow> natural_t \<Rightarrow> (kern_return_t \<times> ipc_port_t option \<times> tt) option" where
  "task_get_special_port s task which =
     (if task = TASK_NULL then Some (KERN_INVALID_ARGUMENT, None, s)
      else (case task_special which of
              None \<Rightarrow> Some (KERN_INVALID_ARGUMENT, None, s)
            | Some (get, put) \<Rightarrow> do {
                t \<leftarrow> tt_tasks s task;
                if itk_self t = IP_NULL then Some (KERN_FAILURE, None, s)
                else do {
                  (port, s) \<leftarrow> tt_do (\<lambda>k. ipc_port_copy_send k (get t)) s;
                  Some (KERN_SUCCESS, Some port, s) } }))"

definition task_set_special_port :: "tt \<Rightarrow> natural_t \<Rightarrow> natural_t \<Rightarrow> ipc_port_t \<Rightarrow> (kern_return_t \<times> tt) option" where
  "task_set_special_port s task which port =
     (if task = TASK_NULL then Some (KERN_INVALID_ARGUMENT, s)
      else (case task_special which of
              None \<Rightarrow> Some (KERN_INVALID_ARGUMENT, s)
            | Some (get, put) \<Rightarrow> do {
                t \<leftarrow> tt_tasks s task;
                if itk_self t = IP_NULL then Some (KERN_FAILURE, s)
                else do {
                  s \<leftarrow> task_write s task (put port);
                  s \<leftarrow> tt_run (release_valid (get t)) s;
                  Some (KERN_SUCCESS, s) } }))"

definition thread_get_special_port :: "tt \<Rightarrow> natural_t \<Rightarrow> natural_t \<Rightarrow> (kern_return_t \<times> ipc_port_t option \<times> tt) option" where
  "thread_get_special_port s act which =
     (if act = THR_ACT_NULL then Some (KERN_INVALID_ARGUMENT, None, s)
      else do {
        t \<leftarrow> tt_acts s act;
        if which \<noteq> THREAD_KERNEL_PORT then Some (KERN_INVALID_ARGUMENT, None, s)
        else if \<not> act_active t then Some (KERN_FAILURE, None, s)
        else do {
          (port, s) \<leftarrow> tt_do (\<lambda>k. ipc_port_copy_send k (ith_sself t)) s;
          Some (KERN_SUCCESS, Some port, s) } })"

definition thread_set_special_port :: "tt \<Rightarrow> natural_t \<Rightarrow> natural_t \<Rightarrow> ipc_port_t \<Rightarrow> (kern_return_t \<times> tt) option" where
  "thread_set_special_port s act which port =
     (if act = THR_ACT_NULL then Some (KERN_INVALID_ARGUMENT, s)
      else do {
        t \<leftarrow> tt_acts s act;
        if which \<noteq> THREAD_KERNEL_PORT then Some (KERN_INVALID_ARGUMENT, s)
        else if \<not> act_active t then Some (KERN_FAILURE, s)
        else do {
          s \<leftarrow> act_write s act (\<lambda>t. t\<lparr>ith_self := port\<rparr>);
          s \<leftarrow> tt_run (release_valid (ith_self t)) s;
          Some (KERN_SUCCESS, s) } })"

section \<open>Registered ports\<close>

definition mach_ports_register :: "tt \<Rightarrow> natural_t \<Rightarrow> ipc_port_t list \<Rightarrow> (kern_return_t \<times> tt) option" where
  "mach_ports_register s task memory =
     (if task = TASK_NULL \<or> length memory > TASK_PORT_REGISTER_MAX then Some (KERN_INVALID_ARGUMENT, s)
      else do {
        let ports = memory @ replicate (TASK_PORT_REGISTER_MAX - length memory) IP_NULL;
        t \<leftarrow> tt_tasks s task;
        if itk_self t = IP_NULL then Some (KERN_INVALID_ARGUMENT, s)
        else do {
          s \<leftarrow> task_write s task (\<lambda>t. t\<lparr>itk_registered := ports\<rparr>);
          s \<leftarrow> tt_run (release_sends (itk_registered t)) s;
          Some (KERN_SUCCESS, s) } })"

definition mach_ports_lookup :: "tt \<Rightarrow> natural_t \<Rightarrow> (kern_return_t \<times> ipc_port_t list \<times> tt) option" where
  "mach_ports_lookup s task =
     (if task = TASK_NULL then Some (KERN_INVALID_ARGUMENT, [], s)
      else do {
        (memory, s) \<leftarrow> tt_do (\<lambda>k. Some (kalloc k)) s;
        if memory = 0 then Some (KERN_RESOURCE_SHORTAGE, [], s)
        else do {
          t \<leftarrow> tt_tasks s task;
          if itk_self t = IP_NULL then Some (KERN_INVALID_ARGUMENT, [], s)
          else do {
            (ports, s) \<leftarrow> tt_do (copy_sends (itk_registered t)) s;
            Some (KERN_SUCCESS, ports, s) } } })"

section \<open>Conversions\<close>

text \<open>
  A conversion from a port takes the lock of the object out of order, and starts again after a failed
  attempt. The elements of \<open>tries\<close> are the failed attempts: what other threads do until the next one.
\<close>

definition ref_task_port_locked :: "bool \<Rightarrow> tt \<Rightarrow> ipc_port_t \<Rightarrow> (bool \<times> natural_t \<times> tt) option" where
  "ref_task_port_locked locked s port = do {
     p \<leftarrow> k_ports (tt_kernel s) port;
     if ip_active p \<and> ip_kotype p = IKOT_TASK then
       (if \<not> locked then Some (False, TASK_NULL, s)
        else do {
          s \<leftarrow> task_write s (tt_kobjects s port) (\<lambda>t. t\<lparr>task_ref_count := task_ref_count t + 1\<rparr>);
          Some (True, tt_kobjects s port, s) })
     else Some (True, TASK_NULL, s) }"

fun convert_port_to_task :: "(tt \<Rightarrow> tt) list \<Rightarrow> tt \<Rightarrow> ipc_port_t \<Rightarrow> (natural_t \<times> tt) option" where
  "convert_port_to_task tries s port =
     (if \<not> IP_VALID port then Some (TASK_NULL, s)
      else do {
        (r, task, s) \<leftarrow> ref_task_port_locked (tries = []) s port;
        if r then Some (task, s)
        else (case tries of [] \<Rightarrow> None | others # tries \<Rightarrow> convert_port_to_task tries (others s) port) })"

definition ref_space_port_locked :: "bool \<Rightarrow> tt \<Rightarrow> ipc_port_t \<Rightarrow> (bool \<times> ipc_space_t \<times> tt) option" where
  "ref_space_port_locked locked s port = do {
     p \<leftarrow> k_ports (tt_kernel s) port;
     if ip_active p \<and> ip_kotype p = IKOT_TASK then do {
       t \<leftarrow> tt_tasks s (tt_kobjects s port);
       if \<not> locked then Some (False, IS_NULL, s)
       else do {
         s \<leftarrow> tt_run (\<lambda>k. ipc_space_reference k (itk_space t)) s;
         Some (True, itk_space t, s) } }
     else Some (True, IS_NULL, s) }"

fun convert_port_to_space :: "(tt \<Rightarrow> tt) list \<Rightarrow> tt \<Rightarrow> ipc_port_t \<Rightarrow> (ipc_space_t \<times> tt) option" where
  "convert_port_to_space tries s port =
     (if \<not> IP_VALID port then Some (IS_NULL, s)
      else do {
        (r, space, s) \<leftarrow> ref_space_port_locked (tries = []) s port;
        if r then Some (space, s)
        else (case tries of [] \<Rightarrow> None | others # tries \<Rightarrow> convert_port_to_space tries (others s) port) })"

text \<open>The last reference frees the task or activation, which is not IPC code.\<close>

definition task_deallocate :: "tt \<Rightarrow> natural_t \<Rightarrow> tt option" where
  "task_deallocate s task =
     (if task = TASK_NULL then Some s
      else do {
        s \<leftarrow> task_write s task (\<lambda>t. t\<lparr>task_ref_count := task_ref_count t - 1\<rparr>);
        t \<leftarrow> tt_tasks s task;
        Some (if task_ref_count t = 0 then s\<lparr>tt_calls := tt_calls s @ [TASK_FREE task]\<rparr> else s) })"

definition act_deallocate :: "tt \<Rightarrow> natural_t \<Rightarrow> tt option" where
  "act_deallocate s act =
     (if act = THR_ACT_NULL then Some s
      else do {
        s \<leftarrow> act_write s act (\<lambda>t. t\<lparr>act_ref_count := act_ref_count t - 1\<rparr>);
        t \<leftarrow> tt_acts s act;
        Some (if act_ref_count t = 0 then s\<lparr>tt_calls := tt_calls s @ [ACT_FREE act]\<rparr> else s) })"

definition VM_MAP_NULL :: natural_t where "VM_MAP_NULL = 0"

definition convert_port_to_map :: "(tt \<Rightarrow> tt) list \<Rightarrow> tt \<Rightarrow> ipc_port_t \<Rightarrow> (natural_t \<times> tt) option" where
  "convert_port_to_map tries s port = do {
     (task, s) \<leftarrow> convert_port_to_task tries s port;
     if task = TASK_NULL then Some (VM_MAP_NULL, s)
     else do {
       t \<leftarrow> tt_tasks s task;
       let s = s\<lparr>tt_calls := tt_calls s @ [VM_MAP_REFERENCE_SWAP (task_map t)]\<rparr>;
       s \<leftarrow> task_deallocate s task;
       Some (task_map t, s) } }"

text \<open>A reference to an activation whose count is not positive (as a C integer) is a panic.\<close>

definition ref_act_port_locked :: "bool \<Rightarrow> tt \<Rightarrow> ipc_port_t \<Rightarrow> (bool \<times> natural_t \<times> tt) option" where
  "ref_act_port_locked locked s port = do {
     p \<leftarrow> k_ports (tt_kernel s) port;
     if ip_active p \<and> ip_kotype p = IKOT_ACT then
       (if \<not> locked then Some (False, THR_ACT_NULL, s)
        else do {
          t \<leftarrow> tt_acts s (tt_kobjects s port);
          if sint (act_ref_count t) \<le> 0 then None
          else do {
            s \<leftarrow> act_write s (tt_kobjects s port) (\<lambda>t. t\<lparr>act_ref_count := act_ref_count t + 1\<rparr>);
            Some (True, tt_kobjects s port, s) } })
     else Some (True, THR_ACT_NULL, s) }"

fun convert_port_to_act :: "(tt \<Rightarrow> tt) list \<Rightarrow> tt \<Rightarrow> ipc_port_t \<Rightarrow> (natural_t \<times> tt) option" where
  "convert_port_to_act tries s port =
     (if \<not> IP_VALID port then Some (THR_ACT_NULL, s)
      else do {
        (r, act, s) \<leftarrow> ref_act_port_locked (tries = []) s port;
        if r then Some (act, s)
        else (case tries of [] \<Rightarrow> None | others # tries \<Rightarrow> convert_port_to_act tries (others s) port) })"

declare convert_port_to_task.simps [simp del] convert_port_to_space.simps [simp del] convert_port_to_act.simps [simp del]

definition convert_task_to_port :: "tt \<Rightarrow> natural_t \<Rightarrow> (ipc_port_t \<times> tt) option" where
  "convert_task_to_port s task = do {
     t \<leftarrow> tt_tasks s task;
     (port, s) \<leftarrow> (if itk_self t \<noteq> IP_NULL then tt_do (\<lambda>k. ipc_port_make_send k (itk_self t)) s else Some (IP_NULL, s));
     s \<leftarrow> task_deallocate s task;
     Some (port, s) }"

definition convert_act_to_port :: "tt \<Rightarrow> natural_t \<Rightarrow> (ipc_port_t \<times> tt) option" where
  "convert_act_to_port s act = do {
     t \<leftarrow> tt_acts s act;
     (port, s) \<leftarrow> (if ith_self t \<noteq> IP_NULL then tt_do (\<lambda>k. ipc_port_make_send k (ith_self t)) s else Some (IP_NULL, s));
     s \<leftarrow> act_deallocate s act;
     Some (port, s) }"

definition space_deallocate :: "tt \<Rightarrow> ipc_space_t \<Rightarrow> tt option" where
  "space_deallocate s space = (if space \<noteq> IS_NULL then tt_run (\<lambda>k. ipc_space_release k space) s else Some s)"

end
