(* ===== verification/IPC_Exc_Ports.thy ===== *)
theory IPC_Exc_Ports
  imports IPC_TT
begin

text \<open>
  The exception ports of tasks and activations (\<^verbatim>\<open>kern/ipc_tt.c\<close>): the calls that set, exchange and
  read them. The calls for a task and for an activation run the same loops on their arrays of actions.

  The array \<open>old_port\<close> of the calls is on the stack; \<open>stack\<close> is what is in its memory before.
\<close>

section \<open>The loops\<close>

definition exc_in_mask :: "natural_t \<Rightarrow> nat \<Rightarrow> bool" where
  "exc_in_mask exception_mask i \<longleftrightarrow> exception_mask AND push_bit i 1 \<noteq> 0"

definition exc_arguments_bad :: "natural_t \<Rightarrow> ipc_port_t \<Rightarrow> natural_t \<Rightarrow> bool" where
  "exc_arguments_bad exception_mask new_port new_behavior \<longleftrightarrow>
     exception_mask AND NOT EXC_MASK_ALL \<noteq> 0 \<or>
     IP_VALID new_port \<and> new_behavior \<notin> {EXCEPTION_DEFAULT, EXCEPTION_STATE, EXCEPTION_STATE_IDENTITY}"

record exc_loop =
  el_kernel :: kernel
  el_actions :: "exception_action list"
  el_old :: "ipc_port_t list"

text \<open>The action of an exception is replaced, with a new send right for its port.\<close>

definition exc_replace :: "exception_action \<Rightarrow> nat \<Rightarrow> exc_loop \<Rightarrow> exc_loop option" where
  "exc_replace new i l = do {
     (port, k) \<leftarrow> ipc_port_copy_send (el_kernel l) (ea_port new);
     Some (l\<lparr>el_kernel := k, el_old := (el_old l)[i := ea_port (el_actions l ! i)],
             el_actions := (el_actions l)[i := new\<lparr>ea_port := port\<rparr>]\<rparr>) }"

definition exc_keep :: "nat \<Rightarrow> exc_loop \<Rightarrow> exc_loop" where
  "exc_keep i l = l\<lparr>el_old := (el_old l)[i := IP_NULL]\<rparr>"

primrec set_exc_loop :: "natural_t \<Rightarrow> exception_action \<Rightarrow> nat list \<Rightarrow> exc_loop \<Rightarrow> exc_loop option" where
  "set_exc_loop exception_mask new [] l = Some l"
| "set_exc_loop exception_mask new (i # is) l = do {
     l \<leftarrow> (if exc_in_mask exception_mask i then exc_replace new i l else Some (exc_keep i l));
     set_exc_loop exception_mask new is l }"

text \<open>The rows that the calls return; an action joins the first row with the same port, behaviour and flavor.\<close>

record exc_row =
  xr_mask :: natural_t
  xr_port :: ipc_port_t
  xr_behavior :: natural_t
  xr_flavor :: natural_t

primrec exc_join :: "exception_action \<Rightarrow> nat \<Rightarrow> exc_row list \<Rightarrow> exc_row list option" where
  "exc_join a i [] = None"
| "exc_join a i (r # rows) =
     (if ea_port a = xr_port r \<and> ea_behavior a = xr_behavior r \<and> ea_flavor a = xr_flavor r
      then Some (r\<lparr>xr_mask := xr_mask r OR push_bit i 1\<rparr> # rows)
      else map_option ((#) r) (exc_join a i rows))"

definition exc_row_of :: "exception_action \<Rightarrow> nat \<Rightarrow> ipc_port_t \<Rightarrow> exc_row" where
  "exc_row_of a i port =
     \<lparr>xr_mask = push_bit i 1, xr_port = port, xr_behavior = ea_behavior a, xr_flavor = ea_flavor a\<rparr>"

text \<open>\<open>full\<close> is the test on the number of rows that ends the loop early.\<close>

primrec get_exc_loop ::
  "natural_t \<Rightarrow> (nat \<Rightarrow> bool) \<Rightarrow> exception_action list \<Rightarrow> nat list \<Rightarrow> exc_row list \<Rightarrow> kernel \<Rightarrow> (exc_row list \<times> kernel) option" where
  "get_exc_loop exception_mask full actions [] rows s = Some (rows, s)"
| "get_exc_loop exception_mask full actions (i # is) rows s =
     (if \<not> exc_in_mask exception_mask i then get_exc_loop exception_mask full actions is rows s
      else (case exc_join (actions ! i) i rows of
              Some rows \<Rightarrow> get_exc_loop exception_mask full actions is rows s
            | None \<Rightarrow> do {
                (port, s) \<leftarrow> ipc_port_copy_send s (ea_port (actions ! i));
                let rows = rows @ [exc_row_of (actions ! i) i port];
                if full (length rows) then Some (rows, s)
                else get_exc_loop exception_mask full actions is rows s }))"

primrec swap_exc_loop ::
  "natural_t \<Rightarrow> natural_t \<Rightarrow> exception_action \<Rightarrow> nat list \<Rightarrow> exc_row list \<Rightarrow> exc_loop \<Rightarrow> (exc_row list \<times> exc_loop) option" where
  "swap_exc_loop exception_mask CountCnt new [] rows l = Some (rows, l)"
| "swap_exc_loop exception_mask CountCnt new (i # is) rows l =
     (if \<not> exc_in_mask exception_mask i then swap_exc_loop exception_mask CountCnt new is rows (exc_keep i l)
      else do {
        (rows, l) \<leftarrow>
          (case exc_join (el_actions l ! i) i rows of
             Some rows \<Rightarrow> Some (rows, l)
           | None \<Rightarrow> do {
               (port, k) \<leftarrow> ipc_port_copy_send (el_kernel l) (ea_port (el_actions l ! i));
               Some (rows @ [exc_row_of (el_actions l ! i) i port], l\<lparr>el_kernel := k\<rparr>) });
        l \<leftarrow> exc_replace new i l;
        if length rows > unat CountCnt then Some (rows, l)
        else swap_exc_loop exception_mask CountCnt new is rows l })"

text \<open>The old rights and the right that was supplied are released when the loop is over.\<close>

definition exc_release :: "ipc_port_t list \<Rightarrow> ipc_port_t \<Rightarrow> kernel \<Rightarrow> kernel option" where
  "exc_release old_port new_port s = do {
     s \<leftarrow> release_sends (map (\<lambda>i. old_port ! i) exceptions) s;
     release_valid new_port s }"

definition set_exception_actions ::
  "ipc_port_t list \<Rightarrow> natural_t \<Rightarrow> exception_action \<Rightarrow> exception_action list \<Rightarrow> kernel \<Rightarrow>
   (exception_action list \<times> kernel) option" where
  "set_exception_actions stack exception_mask new actions s = do {
     l \<leftarrow> set_exc_loop exception_mask new exceptions \<lparr>el_kernel = s, el_actions = actions, el_old = stack\<rparr>;
     s \<leftarrow> exc_release (el_old l) (ea_port new) (el_kernel l);
     Some (el_actions l, s) }"

definition swap_exception_actions ::
  "ipc_port_t list \<Rightarrow> natural_t \<Rightarrow> natural_t \<Rightarrow> exception_action \<Rightarrow> exception_action list \<Rightarrow> kernel \<Rightarrow>
   (exc_row list \<times> exception_action list \<times> kernel) option" where
  "swap_exception_actions stack exception_mask CountCnt new actions s = do {
     (rows, l) \<leftarrow> swap_exc_loop exception_mask CountCnt new exceptions [] \<lparr>el_kernel = s, el_actions = actions, el_old = stack\<rparr>;
     s \<leftarrow> exc_release (el_old l) (ea_port new) (el_kernel l);
     Some (rows, el_actions l, s) }"

section \<open>The calls\<close>

definition thread_set_exception_ports ::
  "ipc_port_t list \<Rightarrow> tt \<Rightarrow> natural_t \<Rightarrow> natural_t \<Rightarrow> ipc_port_t \<Rightarrow> natural_t \<Rightarrow> natural_t \<Rightarrow> (kern_return_t \<times> tt) option" where
  "thread_set_exception_ports stack s act exception_mask new_port new_behavior new_flavor =
     (if act = THR_ACT_NULL \<or> exc_arguments_bad exception_mask new_port new_behavior then Some (KERN_INVALID_ARGUMENT, s)
      else do {
        t \<leftarrow> tt_acts s act;
        if \<not> act_active t then Some (KERN_FAILURE, s)
        else do {
          (actions, s) \<leftarrow> tt_do (set_exception_actions stack exception_mask
            \<lparr>ea_port = new_port, ea_flavor = new_flavor, ea_behavior = new_behavior\<rparr> (act_exc_actions t)) s;
          s \<leftarrow> act_write s act (\<lambda>t. t\<lparr>act_exc_actions := actions\<rparr>);
          Some (KERN_SUCCESS, s) } })"

definition task_set_exception_ports ::
  "ipc_port_t list \<Rightarrow> tt \<Rightarrow> natural_t \<Rightarrow> natural_t \<Rightarrow> ipc_port_t \<Rightarrow> natural_t \<Rightarrow> natural_t \<Rightarrow> (kern_return_t \<times> tt) option" where
  "task_set_exception_ports stack s task exception_mask new_port new_behavior new_flavor =
     (if task = TASK_NULL \<or> exc_arguments_bad exception_mask new_port new_behavior then Some (KERN_INVALID_ARGUMENT, s)
      else do {
        t \<leftarrow> tt_tasks s task;
        if itk_self t = IP_NULL then Some (KERN_FAILURE, s)
        else do {
          (actions, s) \<leftarrow> tt_do (set_exception_actions stack exception_mask
            \<lparr>ea_port = new_port, ea_flavor = new_flavor, ea_behavior = new_behavior\<rparr> (exc_actions t)) s;
          s \<leftarrow> task_write s task (\<lambda>t. t\<lparr>exc_actions := actions\<rparr>);
          Some (KERN_SUCCESS, s) } })"

definition thread_swap_exception_ports ::
  "ipc_port_t list \<Rightarrow> tt \<Rightarrow> natural_t \<Rightarrow> natural_t \<Rightarrow> ipc_port_t \<Rightarrow> natural_t \<Rightarrow> natural_t \<Rightarrow> natural_t \<Rightarrow>
   (kern_return_t \<times> exc_row list \<times> tt) option" where
  "thread_swap_exception_ports stack s act exception_mask new_port new_behavior new_flavor CountCnt =
     (if act = THR_ACT_NULL \<or> exc_arguments_bad exception_mask new_port new_behavior then Some (KERN_INVALID_ARGUMENT, [], s)
      else do {
        t \<leftarrow> tt_acts s act;
        if \<not> act_active t then Some (KERN_FAILURE, [], s)
        else do {
          ((rows, actions), s) \<leftarrow> tt_do (\<lambda>k. do {
            (rows, actions, k) \<leftarrow> swap_exception_actions stack exception_mask CountCnt
              \<lparr>ea_port = new_port, ea_flavor = new_flavor, ea_behavior = new_behavior\<rparr> (act_exc_actions t) k;
            Some ((rows, actions), k) }) s;
          s \<leftarrow> act_write s act (\<lambda>t. t\<lparr>act_exc_actions := actions\<rparr>);
          Some (KERN_SUCCESS, rows, s) } })"

definition task_swap_exception_ports ::
  "ipc_port_t list \<Rightarrow> tt \<Rightarrow> natural_t \<Rightarrow> natural_t \<Rightarrow> ipc_port_t \<Rightarrow> natural_t \<Rightarrow> natural_t \<Rightarrow> natural_t \<Rightarrow>
   (kern_return_t \<times> exc_row list \<times> tt) option" where
  "task_swap_exception_ports stack s task exception_mask new_port new_behavior new_flavor CountCnt =
     (if task = TASK_NULL \<or> exc_arguments_bad exception_mask new_port new_behavior then Some (KERN_INVALID_ARGUMENT, [], s)
      else do {
        t \<leftarrow> tt_tasks s task;
        if itk_self t = IP_NULL then Some (KERN_FAILURE, [], s)
        else do {
          ((rows, actions), s) \<leftarrow> tt_do (\<lambda>k. do {
            (rows, actions, k) \<leftarrow> swap_exception_actions stack exception_mask CountCnt
              \<lparr>ea_port = new_port, ea_flavor = new_flavor, ea_behavior = new_behavior\<rparr> (exc_actions t) k;
            Some ((rows, actions), k) }) s;
          s \<leftarrow> task_write s task (\<lambda>t. t\<lparr>exc_actions := actions\<rparr>);
          Some (KERN_SUCCESS, rows, s) } })"

definition thread_get_exception_ports ::
  "tt \<Rightarrow> natural_t \<Rightarrow> natural_t \<Rightarrow> natural_t \<Rightarrow> (kern_return_t \<times> exc_row list \<times> tt) option" where
  "thread_get_exception_ports s act exception_mask CountCnt =
     (if act = THR_ACT_NULL \<or> exception_mask AND NOT EXC_MASK_ALL \<noteq> 0 then Some (KERN_INVALID_ARGUMENT, [], s)
      else do {
        t \<leftarrow> tt_acts s act;
        if \<not> act_active t then Some (KERN_FAILURE, [], s)
        else do {
          (rows, s) \<leftarrow> tt_do (get_exc_loop exception_mask (\<lambda>count. count \<ge> unat CountCnt) (act_exc_actions t) exceptions []) s;
          Some (KERN_SUCCESS, rows, s) } })"

definition task_get_exception_ports ::
  "tt \<Rightarrow> natural_t \<Rightarrow> natural_t \<Rightarrow> natural_t \<Rightarrow> (kern_return_t \<times> exc_row list \<times> tt) option" where
  "task_get_exception_ports s task exception_mask CountCnt =
     (if task = TASK_NULL \<or> exception_mask AND NOT EXC_MASK_ALL \<noteq> 0 then Some (KERN_INVALID_ARGUMENT, [], s)
      else do {
        t \<leftarrow> tt_tasks s task;
        if itk_self t = IP_NULL then Some (KERN_FAILURE, [], s)
        else do {
          (rows, s) \<leftarrow> tt_do (get_exc_loop exception_mask (\<lambda>count. count > unat CountCnt) (exc_actions t) exceptions []) s;
          Some (KERN_SUCCESS, rows, s) } })"

end
