(* ===== verification/IPC_TT_Rights.thy ===== *)
theory IPC_TT_Rights
  imports IPC_TT IPC_Example
begin

text \<open>
  The account of send rights: what the routines that clone and release rights do to the counts of the ports, for
  ports that are alive and have no request for a no-senders notification.
\<close>

section \<open>Send rights\<close>

text \<open>
  The number of rights to a port in a list of places that hold send rights, and the kernel in which each
  port has gained so many send rights, each with a reference. The numbers are words, so that a loss is a negative
  number.
\<close>

definition held :: "ipc_port_t list \<Rightarrow> ipc_port_t \<Rightarrow> natural_t" where
  "held ports port = (if IP_VALID port then of_nat (count_list ports port) else 0)"

definition gain :: "natural_t \<Rightarrow> ipc_port \<Rightarrow> ipc_port" where
  "gain d p = p\<lparr>ip_references := ip_references p + d, ip_srights := ip_srights p + d\<rparr>"

definition moved :: "kernel \<Rightarrow> (ipc_port_t \<Rightarrow> natural_t) \<Rightarrow> kernel" where
  "moved s d = s\<lparr>k_ports := \<lambda>port. map_option (gain (d port)) (k_ports s port)\<rparr>"

text \<open>
  A port that can be given rights without further effects is alive; for one that can also be taken rights, in
  addition nobody waits for its last sender.
\<close>

definition alive :: "kernel \<Rightarrow> ipc_port_t \<Rightarrow> bool" where
  "alive s port \<longleftrightarrow> (IP_VALID port \<longrightarrow> (\<exists>p. k_ports s port = Some p \<and> ip_active p))"

definition plain :: "kernel \<Rightarrow> ipc_port_t \<Rightarrow> bool" where
  "plain s port \<longleftrightarrow> (IP_VALID port \<longrightarrow> (\<exists>p. k_ports s port = Some p \<and> ip_active p \<and> ip_nsrequest p = IP_NULL))"

lemma held_simps [simp]: "held [] = (\<lambda>_. 0)" "held (ports @ ports') = (\<lambda>q. held ports q + held ports' q)"
  by (auto simp: held_def fun_eq_iff)

lemma held_Cons: "held (port # ports) = (\<lambda>q. held [port] q + held ports q)"
  by (auto simp: held_def fun_eq_iff)

lemma held_invalid [simp]: "\<not> IP_VALID port \<Longrightarrow> held [port] = (\<lambda>_. 0)"
  by (auto simp: held_def fun_eq_iff)

lemma gain_gain [simp]: "gain d (gain e p) = gain (e + d) p" and gain_0 [simp]: "gain 0 p = p"
  by (simp_all add: gain_def add.assoc)

lemma moved_moved [simp]: "moved (moved s d) e = moved s (\<lambda>q. d q + e q)"
  by (simp add: moved_def option.map_comp comp_def)

lemma moved_0 [simp]: "moved s (\<lambda>_. 0) = s"
proof -
  have "(\<lambda>port. map_option (gain 0) (k_ports s port)) = k_ports s"
    by (rule ext) (simp add: option.map_ident_strong)
  then show ?thesis by (simp add: moved_def)
qed

lemma gain_fields [simp]: "ip_active (gain d p) = ip_active p" "ip_nsrequest (gain d p) = ip_nsrequest p"
  by (simp_all add: gain_def ip_active_def)

lemma plain_alive: "plain s port \<Longrightarrow> alive s port"
  by (auto simp: plain_def alive_def)

lemma plain_moved [simp]: "plain (moved s d) port = plain s port"
  by (auto simp: plain_def moved_def)

lemma alive_moved [simp]: "alive (moved s d) port = alive s port"
  by (auto simp: alive_def moved_def)

lemma moved_update:
  "k_ports s port = Some p \<Longrightarrow> IP_VALID port \<Longrightarrow>
   s\<lparr>k_ports := (k_ports s)(port \<mapsto> gain d p)\<rparr> = moved s (\<lambda>q. d * held [port] q)"
  by (auto simp: moved_def held_def fun_eq_iff option.map_ident_strong intro!: kernel.equality)

lemma copy_send_alive:
  assumes "alive s port"
  shows "ipc_port_copy_send s port = Some (port, moved s (held [port]))"
proof (cases "IP_VALID port")
  case True
  then obtain p where p: "k_ports s port = Some p" "ip_active p" using assms by (auto simp: alive_def)
  then have "ipc_port_copy_send s port = Some (port, s\<lparr>k_ports := (k_ports s)(port \<mapsto> gain 1 p)\<rparr>)"
    using True by (simp add: ipc_port_copy_send_def ip_reference_def port_write_def gain_def)
  then show ?thesis using moved_update [OF p(1) True, of 1] by simp
qed (simp add: ipc_port_copy_send_def)

lemmas copy_send_plain = copy_send_alive [OF plain_alive]

lemma release_plain:
  assumes "plain s port"
  shows "release_valid port s = Some (moved s (\<lambda>q. - held [port] q))"
proof (cases "IP_VALID port")
  case True
  then obtain p where p: "k_ports s port = Some p" "ip_active p" "ip_nsrequest p = IP_NULL" using assms by (auto simp: plain_def)
  have "ip_active (p\<lparr>ip_references := ip_references p - 1\<rparr>)" using p(2) by (simp add: ip_active_def)
  then have "release_valid port s = Some (s\<lparr>k_ports := (k_ports s)(port \<mapsto> gain (- 1) p)\<rparr>)"
    using True p by (simp add: release_valid_def ipc_port_release_send_def ip_release_def port_write_def gain_def
      drop_srights_def notify_nsrequest_def)
  then show ?thesis using moved_update [OF p(1) True, of "- 1"] by simp
qed (simp add: release_valid_def)

lemma release_sends_plain:
  "list_all (plain s) ports \<Longrightarrow> release_sends ports s = Some (moved s (\<lambda>q. - held ports q))"
proof (induction ports arbitrary: s)
  case (Cons port ports)
  then show ?case
    using Cons.IH [of "moved s (\<lambda>q. - held [port] q)"]
    by (simp add: release_plain list_all_iff held_Cons [of port ports])
qed simp

lemma copy_sends_plain:
  "list_all (plain s) ports \<Longrightarrow> copy_sends ports s = Some (ports, moved s (held ports))"
proof (induction ports arbitrary: s)
  case (Cons port ports)
  then show ?case
    using Cons.IH [of "moved s (held [port])"]
    by (simp add: copy_send_plain list_all_iff held_Cons [of port ports])
qed simp

end
