(* ===== verification/IPC_TT_Facts.thy ===== *)
theory IPC_TT_Facts
  imports IPC_TT_Ports IPC_Exc_Ports IPC_TT_Rights
begin

text \<open>
  Facts on the ports of tasks and activations: setting, exchanging and reading exception ports, and special ports.
\<close>

section \<open>Setting exception ports\<close>

lemma exceptions_eq: "exceptions = [1..<10]"
  by (simp add: FIRST_EXCEPTION_def EXC_TYPES_COUNT_def)

lemma exc_in_mask_iff: "i < 32 \<Longrightarrow> exc_in_mask m i = bit m i"
  unfolding exc_in_mask_def by (metis and_exp_eq_0_iff_not_bit push_bit_eq_mult mult_1)

text \<open>The actions and old ports after the loop over a list of exceptions.\<close>

definition replaced :: "natural_t \<Rightarrow> exception_action \<Rightarrow> nat list \<Rightarrow> exception_action list \<Rightarrow> exception_action list" where
  "replaced m new is actions =
     map (\<lambda>i. if i \<in> set is \<and> exc_in_mask m i then new else actions ! i) [0..<length actions]"

definition olds :: "natural_t \<Rightarrow> exception_action list \<Rightarrow> nat list \<Rightarrow> ipc_port_t list \<Rightarrow> ipc_port_t list" where
  "olds m actions is stack =
     map (\<lambda>i. if i \<in> set is then (if exc_in_mask m i then ea_port (actions ! i) else IP_NULL) else stack ! i)
       [0..<length stack]"

lemma set_exc_loop_plain:
  assumes "distinct is" "\<forall>i\<in>set is. i < length (el_actions l) \<and> i < length (el_old l)" "plain (el_kernel l) (ea_port new)"
  shows "set_exc_loop m new is l = Some
    \<lparr>el_kernel = moved (el_kernel l) (held (map (\<lambda>_. ea_port new) (filter (exc_in_mask m) is))),
     el_actions = replaced m new is (el_actions l), el_old = olds m (el_actions l) is (el_old l)\<rparr>"
  using assms
proof (induction "is" arbitrary: l)
  case Nil
  show ?case by (simp add: replaced_def olds_def map_nth)
next
  case (Cons i "is")
  show ?case
  proof (cases "exc_in_mask m i")
    case True
    let ?l = "l\<lparr>el_kernel := moved (el_kernel l) (held [ea_port new]), el_old := (el_old l)[i := ea_port (el_actions l ! i)],
      el_actions := (el_actions l)[i := new]\<rparr>"
    have "replaced m new is (el_actions ?l) = replaced m new (i # is) (el_actions l)"
      "olds m (el_actions ?l) is (el_old ?l) = olds m (el_actions l) (i # is) (el_old l)"
      using Cons.prems True by (auto simp: replaced_def olds_def nth_list_update intro!: map_cong)
    then show ?thesis
      using Cons.IH [of ?l] Cons.prems True
      by (simp add: exc_replace_def copy_send_plain held_Cons [of _ "map _ _"])
  next
    case False
    let ?l = "exc_keep i l"
    have "replaced m new is (el_actions ?l) = replaced m new (i # is) (el_actions l)"
      "olds m (el_actions ?l) is (el_old ?l) = olds m (el_actions l) (i # is) (el_old l)"
      using Cons.prems False by (auto simp: replaced_def olds_def exc_keep_def nth_list_update intro!: map_cong)
    then show ?thesis
      using Cons.IH [of ?l] Cons.prems False by (simp add: exc_keep_def)
  qed
qed


lemma held_filter:
  "held (map (\<lambda>i. if P i then f i else IP_NULL) is) q = held (map f (filter P is)) q"
  by (induction "is") (auto simp: held_def IO_VALID_def)

lemma held_replace:
  "held (map (\<lambda>i. if P i then port else f i) is) q =
   held (map f is) q + held (map (\<lambda>_. port) (filter P is)) q - held (map f (filter P is)) q"
  by (induction "is") (auto simp: held_def)

lemma olds_ports:
  "length stack = 10 \<Longrightarrow> map (\<lambda>i. olds m actions exceptions stack ! i) exceptions =
     map (\<lambda>i. if exc_in_mask m i then ea_port (actions ! i) else IP_NULL) exceptions"
  unfolding exceptions_eq by (auto simp: olds_def)

lemma replaced_ports:
  "length actions = 10 \<Longrightarrow> exc_ports (replaced m new exceptions actions) =
     map (\<lambda>i. if exc_in_mask m i then ea_port new else ea_port (actions ! i)) exceptions"
  unfolding exceptions_eq exc_ports_def by (auto simp: replaced_def)

lemma plain_IP_NULL [simp]: "plain s IP_NULL"
  by (simp add: plain_def IO_VALID_def)

lemma exc_ports_mem: "i \<in> set exceptions \<Longrightarrow> ea_port (actions ! i) \<in> set (exc_ports actions)"
  by (auto simp: exc_ports_def)

lemma exc_release_plain:
  assumes "map (\<lambda>i. old ! i) exceptions = ports" "list_all (plain s) ports" "plain s port"
  shows "exc_release old port s = Some (moved s (\<lambda>q. - held ports q - held [port] q))"
  using assms by (simp add: exc_release_def release_sends_plain release_plain)

lemma set_exception_actions_plain:
  assumes "length actions = 10" "length stack = 10" "list_all (plain s) (exc_ports actions)" "plain s (ea_port new)"
  shows "set_exception_actions stack m new actions s = Some (replaced m new exceptions actions,
    moved s (\<lambda>q. held (exc_ports (replaced m new exceptions actions)) q - held (exc_ports actions) q - held [ea_port new] q))"
proof -
  let ?l = "\<lparr>el_kernel = s, el_actions = actions, el_old = stack\<rparr>"
  have "set_exc_loop m new exceptions ?l = Some
    \<lparr>el_kernel = moved s (held (map (\<lambda>_. ea_port new) (filter (exc_in_mask m) exceptions))),
     el_actions = replaced m new exceptions actions, el_old = olds m actions exceptions stack\<rparr>"
    using set_exc_loop_plain [of exceptions ?l new m] assms by (simp add: exceptions_eq)
  moreover have "list_all (plain s) (map (\<lambda>i. if exc_in_mask m i then ea_port (actions ! i) else IP_NULL) exceptions)"
    using assms(3) exc_ports_mem by (auto simp: list_all_iff)
  ultimately show ?thesis
    using assms(4) unfolding set_exception_actions_def replaced_ports [OF assms(1)]
    by (simp add: exc_release_plain [OF olds_ports [OF assms(2)]] plain_moved [abs_def] held_filter held_replace exc_ports_def
      algebra_simps)
qed

text \<open>
  C13: Setting the exception ports of a task loses and invents no send right. For a live task and legal
  arguments, when each old exception port and the new one is null or alive and without a registered no-senders
  request, the call replaces exactly the actions that the mask selects, and every port ends
  with the send rights and references it had, plus one for each action that now names it, less one for each
  action that named it before, less the one right that the caller supplied. Nothing else changes.
\<close>

theorem set_exception_ports_conserves_rights:
  assumes "task \<noteq> TASK_NULL" "tt_tasks s task = Some t" "itk_self t \<noteq> IP_NULL" "length (exc_actions t) = 10" "length stack = 10"
    and "\<not> exc_arguments_bad m port behavior" "list_all (plain (tt_kernel s)) (exc_ports (exc_actions t))" "plain (tt_kernel s) port"
    and "actions = replaced m \<lparr>ea_port = port, ea_flavor = flavor, ea_behavior = behavior\<rparr> exceptions (exc_actions t)"
  shows "task_set_exception_ports stack s task m port behavior flavor = Some (KERN_SUCCESS, s
    \<lparr>tt_kernel := moved (tt_kernel s) (\<lambda>q. held (exc_ports actions) q - held (exc_ports (exc_actions t)) q - held [port] q),
     tt_tasks := (tt_tasks s)(task \<mapsto> t\<lparr>exc_actions := actions\<rparr>)\<rparr>)"
  using assms
  by (simp add: task_set_exception_ports_def tt_do_def task_write_def set_exception_actions_plain)

definition tx_action :: "ipc_port_t \<Rightarrow> exception_action" where
  "tx_action port = \<lparr>ea_port = port, ea_flavor = 1, ea_behavior = 1\<rparr>"

definition tx_task :: task where
  "tx_task = \<lparr>task_ref_count = 1, kernel_loaded = False, task_map = 0x700, itk_self = 0x1000, itk_sself = 0x1000,
     exc_actions = replicate 4 (tx_action 0x1000) @ replicate 6 (tx_action IP_NULL), itk_bootstrap = IP_NULL,
     itk_registered = [IP_NULL, IP_NULL, IP_NULL], itk_space = 32, wired_ledger_port = IP_NULL, paged_ledger_port = IP_NULL\<rparr>"

definition tx_act :: thread_act where
  "tx_act = \<lparr>act_ref_count = 1, act_task = 0x900, act_active = True, ith_self = 0x1000, ith_sself = 0x1000,
     act_exc_actions = replicate 10 (tx_action IP_NULL)\<rparr>"

text \<open>A task whose first three exceptions go to the port at \<open>0x1000\<close>.\<close>

definition tx :: tt where
  "tx = \<lparr>tt_kernel = kx, tt_kobjects = (\<lambda>_. 0), tt_tasks = [0x900 \<mapsto> tx_task], tt_acts = [0xa00 \<mapsto> tx_act], host_self = 0x1000, tt_calls = []\<rparr>"

lemma kx_nsrequest: "ip_nsrequest (kx_port r n) = IP_NULL" "ip_nsrequest ((kx_port r n)\<lparr>ip_srights := k\<rparr>) = IP_NULL"
  by (simp_all add: kx_port_def ipc_port_init_def)

lemma kx_plain: "plain kx 0x1000" "plain kx 0x2000"
  using kx_port_active by (simp_all add: plain_def kx_nsrequest)

lemma tx_simps: "tt_tasks tx 0x900 = Some tx_task" "tt_acts tx 0xa00 = Some tx_act" "tt_kernel tx = kx"
  by (simp_all add: tx_def)

lemma tx_ports: "exc_ports (exc_actions tx_task) = replicate 3 0x1000 @ replicate 6 IP_NULL"
  by code_simp

theorem set_exception_ports_conserves_rights_witness:
  "\<exists>s'. task_set_exception_ports (replicate 10 0) tx 0x900 4 0x2000 1 1 = Some (KERN_SUCCESS, s') \<and>
     k_ports (tt_kernel s') 0x1000 = Some (gain (- 1) (the (k_ports kx 0x1000))) \<and>
     k_ports (tt_kernel s') 0x2000 = k_ports kx 0x2000"
proof -
  let ?a = "replaced 4 \<lparr>ea_port = 0x2000, ea_flavor = 1, ea_behavior = 1\<rparr> exceptions (exc_actions tx_task)"
  let ?d = "\<lambda>q. held (exc_ports ?a) q - held (exc_ports (exc_actions tx_task)) q - held [0x2000] q"
  have "\<not> exc_arguments_bad 4 0x2000 1" by (simp add: exc_arguments_bad_def tt_consts)
  moreover have "itk_self tx_task \<noteq> IP_NULL" "length (exc_actions tx_task) = 10" by code_simp+
  moreover have "list_all (plain kx) (exc_ports (exc_actions tx_task))" by (simp add: tx_ports kx_plain list_all_iff)
  ultimately have "task_set_exception_ports (replicate 10 0) tx 0x900 4 0x2000 1 1 =
      Some (KERN_SUCCESS, tx\<lparr>tt_kernel := moved kx ?d, tt_tasks := (tt_tasks tx)(0x900 \<mapsto> tx_task\<lparr>exc_actions := ?a\<rparr>)\<rparr>)"
    using set_exception_ports_conserves_rights [of "0x900" tx tx_task "replicate 10 0" 4 "0x2000" 1 ?a 1]
    by (simp add: tx_simps kx_plain TASK_NULL_def)
  moreover have "?d 0x1000 = - 1" "?d 0x2000 = 0" by code_simp+
  ultimately show ?thesis by (simp add: moved_def)
qed


section \<open>Exchanging exception ports\<close>

text \<open>The old ports when the loop breaks at exception \<open>i\<close>: nothing is written behind it.\<close>

definition broken_old :: "nat \<Rightarrow> nat \<Rightarrow> ipc_port_t \<Rightarrow> ipc_port_t list \<Rightarrow> ipc_port_t list" where
  "broken_old j i port old = (map (\<lambda>k. if j \<le> k \<and> k < i then IP_NULL else old ! k) [0..<length old])[i := port]"

lemma swap_exc_loop_breaks:
  assumes "length actions = 10" "exc_in_mask m i" "i < 10" "j \<le> i"
    "\<And>k. j \<le> k \<Longrightarrow> k < i \<Longrightarrow> \<not> exc_in_mask m k" "plain s (ea_port (actions ! i))" "plain s (ea_port new)" "length old = 10"
  shows "swap_exc_loop m 0 new [j..<10] [] \<lparr>el_kernel = s, el_actions = actions, el_old = old\<rparr> =
    Some ([exc_row_of (actions ! i) i (ea_port (actions ! i))],
      \<lparr>el_kernel = moved s (\<lambda>q. held [ea_port (actions ! i)] q + held [ea_port new] q),
       el_actions = actions[i := new], el_old = broken_old j i (ea_port (actions ! i)) old\<rparr>)"
  using \<open>j \<le> i\<close> assms(5,8)
proof (induction arbitrary: old rule: inc_induct)
  case base
  have "map (\<lambda>k. if i \<le> k \<and> k < i then IP_NULL else old ! k) [0..<length old] = old"
    by (rule nth_equalityI) auto
  then have "broken_old i i p old = old[i := p]" for p
    by (simp add: broken_old_def)
  then show ?case
    using assms(2,3,6,7) by (simp add: upt_conv_Cons exc_replace_def copy_send_plain)
next
  case (step j)
  have "broken_old (Suc j) i p (old[j := IP_NULL]) = broken_old j i p old" for p
    using step.prems(2) step.hyps by (auto simp: broken_old_def nth_list_update intro!: map_cong arg_cong [where f = "\<lambda>xs. xs[i := p]"])
  moreover have "\<not> exc_in_mask m j" using step by simp
  moreover have "swap_exc_loop m 0 new [Suc j..<10] [] \<lparr>el_kernel = s, el_actions = actions, el_old = old[j := IP_NULL]\<rparr> =
    Some ([exc_row_of (actions ! i) i (ea_port (actions ! i))],
      \<lparr>el_kernel = moved s (\<lambda>q. held [ea_port (actions ! i)] q + held [ea_port new] q),
       el_actions = actions[i := new], el_old = broken_old (Suc j) i (ea_port (actions ! i)) (old[j := IP_NULL])\<rparr>)"
    using step.IH [of "old[j := IP_NULL]"] step.prems by simp
  ultimately show ?case
    using step.hyps assms(3) by (simp add: upt_conv_Cons exc_keep_def)
qed

lemma broken_old_ports:
  assumes "length old = 10" "1 \<le> i" "i < 10"
  shows "map (\<lambda>k. broken_old 1 i port old ! k) exceptions = replicate (i - 1) IP_NULL @ port # drop (Suc i) old"
  unfolding exceptions_eq
  by (rule nth_equalityI) (use assms in \<open>auto simp: broken_old_def nth_append nth_list_update nth_Cons split: nat.splits intro!: arg_cong [where f = "\<lambda>k. old ! k"]\<close>)

lemma held_replicate_null [simp]: "held (replicate n IP_NULL) = (\<lambda>_. 0)"
  by (induction n) (simp_all add: held_Cons [of _ "replicate _ _"] IO_VALID_def)

lemma swap_exception_actions_breaks:
  assumes "length actions = 10" "length stack = 10" "exc_in_mask m i" "1 \<le> i" "i < 10"
    "\<And>k. 1 \<le> k \<Longrightarrow> k < i \<Longrightarrow> \<not> exc_in_mask m k" "plain s (ea_port (actions ! i))" "plain s (ea_port new)"
    "list_all (plain s) (drop (Suc i) stack)"
  shows "swap_exception_actions stack m 0 new actions s = Some ([exc_row_of (actions ! i) i (ea_port (actions ! i))],
    actions[i := new], moved s (\<lambda>q. - held (drop (Suc i) stack) q))"
proof -
  let ?p = "ea_port (actions ! i)"
  have ports: "map (\<lambda>k. broken_old 1 i ?p stack ! k) exceptions = replicate (i - 1) IP_NULL @ ?p # drop (Suc i) stack"
    using broken_old_ports assms(2,4,5) by blast
  have "list_all (plain s) (replicate (i - 1) IP_NULL @ ?p # drop (Suc i) stack)"
    using assms(7,9) by (auto simp: list_all_iff)
  moreover have "held (?p # drop (Suc i) stack) q = held [?p] q + held (drop (Suc i) stack) q" for q
    by (simp add: held_Cons [of ?p "drop _ _"])
  moreover note swap_exc_loop_breaks [OF assms(1,3,5,4,6-8,2), folded exceptions_eq]
  ultimately show ?thesis
    using assms(8)
    by (simp add: swap_exception_actions_def exc_release_plain [OF ports] plain_moved [abs_def] algebra_simps del: One_nat_def)
qed

text \<open>
  C39: When \<open>task_swap_exception_ports\<close> stops early because there is no room for the rows, it releases whatever
  is on the stack. For a live task and legal arguments, with room for no row, the loop ends at the first exception of the
  mask, and the elements of \<open>old_port\<close>
  behind it have not been written. When what the stack happens to hold there is null or the address of ports that are
  alive and without a no-senders request, as are the new port and the old port of that first exception, then each of these
  ports loses, for each place that holds it, a send right and a reference that nobody gave up. The call
  returns \<open>KERN_SUCCESS\<close>, and one row more than there is room for.
\<close>

theorem swap_exception_ports_releases_garbage:
  assumes "task \<noteq> TASK_NULL" "tt_tasks s task = Some t" "itk_self t \<noteq> IP_NULL" "length (exc_actions t) = 10" "length stack = 10"
    and "\<not> exc_arguments_bad m port behavior" "exc_in_mask m i" "1 \<le> i" "i < 10" "\<And>k. 1 \<le> k \<Longrightarrow> k < i \<Longrightarrow> \<not> exc_in_mask m k"
    and "plain (tt_kernel s) (ea_port (exc_actions t ! i))" "plain (tt_kernel s) port"
    and "list_all (plain (tt_kernel s)) (drop (Suc i) stack)"
  shows "task_swap_exception_ports stack s task m port behavior flavor 0 = Some (KERN_SUCCESS,
    [exc_row_of (exc_actions t ! i) i (ea_port (exc_actions t ! i))], s
    \<lparr>tt_kernel := moved (tt_kernel s) (\<lambda>q. - held (drop (Suc i) stack) q),
     tt_tasks := (tt_tasks s)(task \<mapsto> t\<lparr>exc_actions := (exc_actions t)[i := \<lparr>ea_port = port, ea_flavor = flavor, ea_behavior = behavior\<rparr>]\<rparr>)\<rparr>)"
  using assms swap_exception_actions_breaks [OF assms(4,5,7-11) _ assms(13), where new = "\<lparr>ea_port = port, ea_flavor = flavor, ea_behavior = behavior\<rparr>"]
  by (simp add: task_swap_exception_ports_def tt_do_def task_write_def)

theorem swap_exception_ports_releases_garbage_witness:
  "\<exists>rows s'. task_swap_exception_ports (replicate 9 0 @ [0x2000]) tx 0x900 2 IP_NULL 0 0 0 = Some (KERN_SUCCESS, rows, s') \<and>
     length rows = 1 \<and> k_ports (tt_kernel s') 0x2000 = Some (gain (- 1) (the (k_ports kx 0x2000)))"
proof -
  let ?stack = "replicate 9 0 @ [0x2000] :: ipc_port_t list" and ?p = "ea_port (exc_actions tx_task ! 1)"
  let ?a = "(exc_actions tx_task)[1 := \<lparr>ea_port = IP_NULL, ea_flavor = 0, ea_behavior = 0\<rparr>]"
  have "\<not> exc_arguments_bad 2 IP_NULL 0" "exc_in_mask 2 1" by (simp_all add: exc_arguments_bad_def exc_in_mask_def tt_consts IO_VALID_def)
  moreover have "itk_self tx_task \<noteq> IP_NULL" "length (exc_actions tx_task) = 10" "?p = 0x1000" by code_simp+
  moreover have "plain kx 0" using plain_IP_NULL [of kx] by (simp add: IO_NULL_def)
  ultimately have "task_swap_exception_ports ?stack tx 0x900 2 IP_NULL 0 0 0 = Some (KERN_SUCCESS, [exc_row_of (exc_actions tx_task ! 1) 1 ?p],
      tx\<lparr>tt_kernel := moved kx (\<lambda>q. - held (drop (Suc 1) ?stack) q), tt_tasks := (tt_tasks tx)(0x900 \<mapsto> tx_task\<lparr>exc_actions := ?a\<rparr>)\<rparr>)"
    using swap_exception_ports_releases_garbage [of "0x900" tx tx_task ?stack 2 IP_NULL 0 1 0]
    by (simp add: tx_simps kx_plain TASK_NULL_def list_all_iff del: One_nat_def)
  moreover have "- held (drop (Suc 1) ?stack) 0x2000 = - 1" by code_simp
  ultimately show ?thesis by (simp add: moved_def)
qed


section \<open>Reading exception ports\<close>

definition action_key :: "exception_action \<Rightarrow> ipc_port_t \<times> natural_t \<times> natural_t" where
  "action_key a = (ea_port a, ea_behavior a, ea_flavor a)"

definition row_key :: "exc_row \<Rightarrow> ipc_port_t \<times> natural_t \<times> natural_t" where
  "row_key r = (xr_port r, xr_behavior r, xr_flavor r)"

text \<open>The rows for the exceptions of a set.\<close>

definition rows_ok :: "natural_t \<Rightarrow> exception_action list \<Rightarrow> nat set \<Rightarrow> exc_row list \<Rightarrow> bool" where
  "rows_ok m actions D rows \<longleftrightarrow> distinct (map row_key rows) \<and>
     (\<forall>r\<in>set rows. \<forall>i. bit (xr_mask r) i \<longleftrightarrow> i \<in> D \<and> exc_in_mask m i \<and> action_key (actions ! i) = row_key r) \<and>
     (\<forall>i\<in>D. exc_in_mask m i \<longrightarrow> action_key (actions ! i) \<in> row_key ` set rows)"

definition joined :: "exception_action \<Rightarrow> nat \<Rightarrow> exc_row \<Rightarrow> exc_row" where
  "joined a i r = (if row_key r = action_key a then r\<lparr>xr_mask := xr_mask r OR push_bit i 1\<rparr> else r)"

lemma joined_simps [simp]:
  "row_key (joined a i r) = row_key r" "xr_port (joined a i r) = xr_port r"
  by (simp_all add: joined_def row_key_def)

lemma exc_join_None: "exc_join a i rows = None \<longleftrightarrow> action_key a \<notin> row_key ` set rows"
  by (induction rows) (auto simp: action_key_def row_key_def)

lemma key_match:
  "ea_port a = xr_port r \<and> ea_behavior a = xr_behavior r \<and> ea_flavor a = xr_flavor r \<longleftrightarrow> row_key r = action_key a"
  by (auto simp: row_key_def action_key_def)

lemma joined_same: "row_key r = action_key a \<Longrightarrow> joined a i r = r\<lparr>xr_mask := xr_mask r OR push_bit i 1\<rparr>"
  and joined_other: "row_key r \<noteq> action_key a \<Longrightarrow> joined a i r = r"
  by (simp_all add: joined_def)

lemma exc_join_Some:
  assumes "distinct (map row_key rows)" "action_key a \<in> row_key ` set rows"
  shows "exc_join a i rows = Some (map (joined a i) rows)"
  using assms
proof (induction rows)
  case (Cons r rows)
  show ?case
  proof (cases "row_key r = action_key a")
    case True
    then have "action_key a \<notin> row_key ` set rows" using Cons.prems(1) by auto
    then have "map (joined a i) rows = rows" by (intro map_idI joined_other) force
    then show ?thesis using True by (simp add: key_match joined_same)
  next
    case False
    then show ?thesis using Cons by (auto simp: key_match joined_other)
  qed
qed simp

lemma bit_one_shifted: "i < 32 \<Longrightarrow> bit (2 ^ i :: natural_t) j \<longleftrightarrow> j = i"
  by (auto simp: bit_exp_iff)

lemma rows_ok_skip: "rows_ok m actions D rows \<Longrightarrow> \<not> exc_in_mask m i \<Longrightarrow> rows_ok m actions (insert i D) rows"
  unfolding rows_ok_def by blast

lemma bit_joined:
  "i < 32 \<Longrightarrow> bit (xr_mask (joined a i r)) j \<longleftrightarrow> bit (xr_mask r) j \<or> row_key r = action_key a \<and> j = i"
  by (simp add: joined_def bit_or_iff bit_one_shifted)

lemma rows_ok_join:
  assumes "rows_ok m actions D rows" "exc_in_mask m i" "i < 32" "action_key (actions ! i) \<in> row_key ` set rows"
  shows "rows_ok m actions (insert i D) (map (joined (actions ! i) i) rows)"
proof -
  have "bit (xr_mask (joined (actions ! i) i r)) j \<longleftrightarrow> j \<in> insert i D \<and> exc_in_mask m j \<and> action_key (actions ! j) = row_key r"
    if "r \<in> set rows" for r j
    using that assms(1,2) unfolding bit_joined [OF assms(3)] rows_ok_def by auto
  then show ?thesis
    using assms(1,4) unfolding rows_ok_def by (simp add: comp_def image_comp)
qed

lemma exc_row_of_key [simp]: "row_key (exc_row_of a i (ea_port a)) = action_key a"
  by (simp add: row_key_def action_key_def exc_row_of_def)

lemma rows_ok_new:
  assumes "rows_ok m actions D rows" "exc_in_mask m i" "i < 32" "action_key (actions ! i) \<notin> row_key ` set rows"
  shows "rows_ok m actions (insert i D) (rows @ [exc_row_of (actions ! i) i (ea_port (actions ! i))])"
proof -
  let ?r = "exc_row_of (actions ! i) i (ea_port (actions ! i))"
  have "bit (xr_mask ?r) j \<longleftrightarrow> j = i" for j
    using assms(3) by (simp add: exc_row_of_def bit_one_shifted)
  moreover have "j = i" if "j \<in> insert i D" "exc_in_mask m j" "action_key (actions ! j) = action_key (actions ! i)" for j
    using that assms(1,4) unfolding rows_ok_def by (metis insertE)
  ultimately have new: "bit (xr_mask ?r) j \<longleftrightarrow> j \<in> insert i D \<and> exc_in_mask m j \<and> action_key (actions ! j) = action_key (actions ! i)" for j
    using assms(2) by auto
  have old: "bit (xr_mask r) j \<longleftrightarrow> j \<in> insert i D \<and> exc_in_mask m j \<and> action_key (actions ! j) = row_key r" if "r \<in> set rows" for r j
    using that assms(1,4) unfolding rows_ok_def by auto
  show ?thesis
    using assms(1,2,4) old new unfolding rows_ok_def by simp
qed

lemma get_exc_loop_exact:
  assumes "\<forall>i\<in>set is. i < 32 \<and> alive s (ea_port (actions ! i))" "\<And>n. n \<le> length rows + length is \<Longrightarrow> \<not> full n" "rows_ok m actions D rows"
  shows "\<exists>rows'. get_exc_loop m full actions is rows s = Some (rows', moved s (\<lambda>q. held (map xr_port rows') q - held (map xr_port rows) q)) \<and>
    rows_ok m actions (D \<union> set is) rows'"
  using assms
proof (induction "is" arbitrary: rows s D)
  case (Cons i "is")
  consider (skip) "\<not> exc_in_mask m i" | (join) "exc_in_mask m i" "action_key (actions ! i) \<in> row_key ` set rows"
    | (new) "exc_in_mask m i" "action_key (actions ! i) \<notin> row_key ` set rows" by blast
  then show ?case
  proof cases
    case skip
    then show ?thesis using Cons.IH [of s rows "insert i D"] Cons.prems rows_ok_skip by simp
  next
    case join
    let ?rows = "map (joined (actions ! i) i) rows"
    have "map xr_port ?rows = map xr_port rows" by simp
    then show ?thesis
      using Cons.IH [of s ?rows "insert i D"] Cons.prems rows_ok_join [OF Cons.prems(3) join(1) _ join(2)] join
      exc_join_Some [OF _ join(2)] by (auto simp: rows_ok_def comp_def)
  next
    case new
    let ?rows = "rows @ [exc_row_of (actions ! i) i (ea_port (actions ! i))]"
    have "exc_join (actions ! i) i rows = None" using new(2) exc_join_None by blast
    then show ?thesis
      using Cons.IH [of "moved s (held [ea_port (actions ! i)])" ?rows "insert i D"] Cons.prems rows_ok_new [OF Cons.prems(3) new(1) _ new(2)] new
      by (simp add: copy_send_alive exc_row_of_def algebra_simps)
  qed
qed simp


text \<open>
  C20: \<open>task_get_exception_ports\<close> returns an exact summary of the actions that the mask selects. For a live
  task whose exception ports are alive (or null), a legal mask and room for nine rows, no two rows have the same port, behaviour and
  flavor; a bit is set in the mask of a row exactly when the mask of the call selects that exception and its action is
  the one of the row; every selected action has a row; and the caller gets one send right for each row, while nothing
  else changes.
\<close>

theorem get_exception_ports_exact:
  assumes "task \<noteq> TASK_NULL" "tt_tasks s task = Some t" "itk_self t \<noteq> IP_NULL" "m AND NOT EXC_MASK_ALL = 0" "9 \<le> unat CountCnt"
    and "list_all (alive (tt_kernel s)) (exc_ports (exc_actions t))"
  shows "\<exists>rows. task_get_exception_ports s task m CountCnt =
      Some (KERN_SUCCESS, rows, s\<lparr>tt_kernel := moved (tt_kernel s) (held (map xr_port rows))\<rparr>) \<and>
    distinct (map row_key rows) \<and>
    (\<forall>r\<in>set rows. \<forall>i. bit (xr_mask r) i \<longleftrightarrow> i \<in> {1..9} \<and> bit m i \<and> action_key (exc_actions t ! i) = row_key r) \<and>
    (\<forall>i\<in>{1..9}. bit m i \<longrightarrow> (\<exists>r\<in>set rows. action_key (exc_actions t ! i) = row_key r))"
proof -
  have set: "set exceptions = {1..9}" unfolding exceptions_eq by auto
  have "\<forall>i\<in>set exceptions. i < 32 \<and> alive (tt_kernel s) (ea_port (exc_actions t ! i))"
    using assms(6) exc_ports_mem unfolding set by (auto simp: list_all_iff set)
  moreover have "rows_ok m (exc_actions t) {} []" by (simp add: rows_ok_def)
  moreover have "length exceptions = 9" unfolding exceptions_eq by simp
  ultimately obtain rows where rows: "get_exc_loop m (\<lambda>n. n > unat CountCnt) (exc_actions t) exceptions [] (tt_kernel s) =
      Some (rows, moved (tt_kernel s) (held (map xr_port rows)))" "rows_ok m (exc_actions t) {1..9} rows"
    using get_exc_loop_exact [of exceptions "tt_kernel s" "exc_actions t" "[]" "\<lambda>n. n > unat CountCnt" m "{}"] assms(5) set by auto
  have "exc_in_mask m i = bit m i" if "i \<in> {1..9}" for i using exc_in_mask_iff that by simp
  then show ?thesis
    using rows assms(1-4) unfolding rows_ok_def
    by (intro exI [of _ rows]) (auto simp: task_get_exception_ports_def tt_do_def image_iff)
qed

theorem get_exception_ports_exact_witness:
  "\<exists>rows. task_get_exception_ports tx 0x900 0x14 9 =
      Some (KERN_SUCCESS, rows, tx\<lparr>tt_kernel := moved kx (held (map xr_port rows))\<rparr>) \<and>
    (\<exists>r\<in>set rows. row_key r = (0x1000, 1, 1)) \<and> (\<exists>r\<in>set rows. row_key r = (IP_NULL, 1, 1))"
proof -
  have keys: "action_key (exc_actions tx_task ! 2) = (0x1000, 1, 1)" "action_key (exc_actions tx_task ! 4) = (IP_NULL, 1, 1)"
    and self: "itk_self tx_task \<noteq> IP_NULL" by code_simp+
  have alive: "list_all (alive kx) (exc_ports (exc_actions tx_task))"
    by (simp add: tx_ports kx_plain plain_alive list_all_iff)
  obtain rows where rows: "task_get_exception_ports tx 0x900 0x14 9 =
      Some (KERN_SUCCESS, rows, tx\<lparr>tt_kernel := moved kx (held (map xr_port rows))\<rparr>)"
    "\<forall>i\<in>{1..9}. bit (0x14 :: natural_t) i \<longrightarrow> (\<exists>r\<in>set rows. action_key (exc_actions tx_task ! i) = row_key r)"
    using get_exception_ports_exact [of "0x900" tx tx_task "0x14" 9] self alive
    unfolding tx_simps by (auto simp: TASK_NULL_def EXC_MASK_ALL_def)
  from bspec [OF rows(2), of 2] bspec [OF rows(2), of 4] keys have "\<exists>r\<in>set rows. row_key r = (0x1000, 1, 1)"
    "\<exists>r\<in>set rows. row_key r = (IP_NULL, 1, 1)" by simp_all metis+
  with rows(1) show ?thesis by blast
qed


section \<open>Special ports\<close>

text \<open>A special port of a task that was set can be read back, and the rights are accounted for.\<close>

lemma task_special_port_roundtrip:
  assumes "task \<noteq> TASK_NULL" "tt_tasks s task = Some t" "itk_self t \<noteq> IP_NULL" "task_special which = Some (get, put)"
    "plain (tt_kernel s) (get t)" "plain (tt_kernel s) port"
  shows "\<exists>s'. task_set_special_port s task which port = Some (KERN_SUCCESS, s') \<and>
    tt_kernel s' = moved (tt_kernel s) (\<lambda>q. - held [get t] q) \<and>
    (\<exists>s''. task_get_special_port s' task which = Some (KERN_SUCCESS, Some port, s'') \<and>
       tt_kernel s'' = moved (tt_kernel s) (\<lambda>q. held [port] q - held [get t] q))"
proof -
  have "get (put port t) = port" "itk_self (put port t) = itk_self t"
    using assms(4) by (auto simp: task_special_def split: if_splits)
  then show ?thesis
    using assms by (simp add: task_set_special_port_def task_get_special_port_def task_write_def tt_run_def tt_do_def
      release_plain copy_send_plain)
qed

text \<open>
  C40: \<open>thread_set_special_port\<close> writes the wrong field. Setting the kernel port of an activation that is active
  succeeds, but puts the port into \<open>ith_self\<close>, which is not a right, and releases a send right of the kernel's own port
  of the activation although \<open>ith_self\<close> holds none. From then on a conversion of the activation to a port makes
  send rights to the port that the caller supplied, while \<open>thread_get_special_port\<close> still returns the old special port.
\<close>

theorem set_thread_port_replaces_kernel_port:
  assumes "act \<noteq> THR_ACT_NULL" "tt_acts s act = Some t" "act_active t" "plain (tt_kernel s) (ith_self t)"
    and "plain (tt_kernel s) (ith_sself t)" "port \<noteq> IP_NULL" "k_ports (tt_kernel s) port \<noteq> None"
  shows "\<exists>s'. thread_set_special_port s act THREAD_KERNEL_PORT port = Some (KERN_SUCCESS, s') \<and>
    tt_acts s' act = Some (t\<lparr>ith_self := port\<rparr>) \<and> tt_kernel s' = moved (tt_kernel s) (\<lambda>q. - held [ith_self t] q) \<and>
    (\<exists>s''. thread_get_special_port s' act THREAD_KERNEL_PORT = Some (KERN_SUCCESS, Some (ith_sself t), s'')) \<and>
    (\<exists>s''. convert_act_to_port s' act = Some (port, s''))"
proof -
  let ?s = "s\<lparr>tt_acts := (tt_acts s)(act \<mapsto> t\<lparr>ith_self := port\<rparr>), tt_kernel := moved (tt_kernel s) (\<lambda>q. - held [ith_self t] q)\<rparr>"
  have set: "thread_set_special_port s act THREAD_KERNEL_PORT port = Some (KERN_SUCCESS, ?s)"
    using assms(1-4) by (simp add: thread_set_special_port_def act_write_def tt_run_def release_plain)
  have get: "\<exists>s''. thread_get_special_port ?s act THREAD_KERNEL_PORT = Some (KERN_SUCCESS, Some (ith_sself t), s'')"
    using assms(1,3,5) by (simp add: thread_get_special_port_def tt_do_def copy_send_plain)
  have "\<exists>k. ipc_port_make_send (moved (tt_kernel s) d) port = Some (port, k)" for d
    using assms(7) by (auto simp: ipc_port_make_send_def ip_reference_def port_write_def moved_def)
  then obtain k where "ipc_port_make_send (tt_kernel ?s) port = Some (port, k)" by auto
  then have "\<exists>s''. convert_act_to_port ?s act = Some (port, s'')"
    using assms(1,6) by (simp add: convert_act_to_port_def tt_do_def act_deallocate_def act_write_def)
  with set get show ?thesis by (intro exI [of _ ?s]) simp
qed

theorem set_thread_port_replaces_kernel_port_witness:
  "\<exists>s'. thread_set_special_port tx 0xa00 THREAD_KERNEL_PORT 0x2000 = Some (KERN_SUCCESS, s') \<and>
     tt_acts s' 0xa00 = Some (tx_act\<lparr>ith_self := 0x2000\<rparr>) \<and>
     (\<exists>s''. thread_get_special_port s' 0xa00 THREAD_KERNEL_PORT = Some (KERN_SUCCESS, Some 0x1000, s'')) \<and>
     (\<exists>s''. convert_act_to_port s' 0xa00 = Some (0x2000, s''))"
proof -
  have "act_active tx_act" "ith_self tx_act = 0x1000" "ith_sself tx_act = 0x1000" by (simp_all add: tx_act_def)
  then show ?thesis
    using set_thread_port_replaces_kernel_port [of "0xa00" tx tx_act "0x2000"]
    by (simp add: tx_simps kx_plain THR_ACT_NULL_def IO_NULL_def) blast
qed

end
