(* ===== verification/IPC_Host.thy ===== *)
theory IPC_Host
  imports IPC_TT IPC_Example
begin

text \<open>
  The ports of the host, of processors and of processor sets (\<^verbatim>\<open>kern/ipc_host.c\<close>, and the reference counts of
  \<^verbatim>\<open>kern/processor.c\<close>), in a kernel without \<^verbatim>\<open>MACH_HOST\<close>.
\<close>

section \<open>State\<close>

record host =
  hp_self :: ipc_port_t
  hp_priv_self :: ipc_port_t
  hp_security_self :: ipc_port_t

record processor_set =
  pset_self :: ipc_port_t
  pset_name_self :: ipc_port_t
  pset_active :: bool
  pset_ref_count :: natural_t

text \<open>\<open>realhost\<close>, \<open>default_pset\<close> and \<open>master_processor\<close> are the addresses of these structures.\<close>

record host_state =
  hs_kernel :: kernel
  hs_kobjects :: kobjects
  hs_host :: host
  hs_processors :: "natural_t \<rightharpoonup> ipc_port_t"
  hs_psets :: "natural_t \<rightharpoonup> processor_set"
  realhost :: natural_t
  default_pset :: natural_t
  master_processor :: natural_t

definition HOST_NULL :: natural_t where "HOST_NULL = 0"
definition PROCESSOR_NULL :: natural_t where "PROCESSOR_NULL = 0"
definition PROCESSOR_SET_NULL :: natural_t where "PROCESSOR_SET_NULL = 0"

definition hs_do :: "(kernel \<Rightarrow> ('a \<times> kernel) option) \<Rightarrow> host_state \<Rightarrow> ('a \<times> host_state) option" where
  "hs_do f s = do { (r, k) \<leftarrow> f (hs_kernel s); Some (r, s\<lparr>hs_kernel := k\<rparr>) }"

definition hs_run :: "(kernel \<Rightarrow> kernel option) \<Rightarrow> host_state \<Rightarrow> host_state option" where
  "hs_run f s = do { k \<leftarrow> f (hs_kernel s); Some (s\<lparr>hs_kernel := k\<rparr>) }"

definition hs_kobject_set :: "host_state \<Rightarrow> ipc_port_t \<Rightarrow> ipc_kobject_t \<Rightarrow> natural_t \<Rightarrow> host_state option" where
  "hs_kobject_set s port kobject type = do {
     (k, ko) \<leftarrow> ipc_kobject_set (hs_kernel s) (hs_kobjects s) port kobject type;
     Some (s\<lparr>hs_kernel := k, hs_kobjects := ko\<rparr>) }"

definition hs_pset_write :: "host_state \<Rightarrow> natural_t \<Rightarrow> (processor_set \<Rightarrow> processor_set) \<Rightarrow> host_state option" where
  "hs_pset_write s pset f = do {
     p \<leftarrow> hs_psets s pset;
     Some (s\<lparr>hs_psets := (hs_psets s)(pset \<mapsto> f p)\<rparr>) }"

section \<open>Processors\<close>

definition ipc_processor_init :: "host_state \<Rightarrow> natural_t \<Rightarrow> host_state option" where
  "ipc_processor_init s processor = do {
     (port, s) \<leftarrow> hs_do ipc_port_alloc_kernel s;
     Some (s\<lparr>hs_processors := (hs_processors s)(processor \<mapsto> port)\<rparr>) }"

definition ipc_processor_enable :: "host_state \<Rightarrow> natural_t \<Rightarrow> host_state option" where
  "ipc_processor_enable s processor = do {
     myport \<leftarrow> hs_processors s processor;
     hs_kobject_set s myport processor IKOT_PROCESSOR }"

definition ipc_processor_disable :: "host_state \<Rightarrow> natural_t \<Rightarrow> host_state option" where
  "ipc_processor_disable s processor = do {
     myport \<leftarrow> hs_processors s processor;
     if myport = IP_NULL then Some s else hs_kobject_set s myport IKO_NULL IKOT_NONE }"

definition ipc_processor_terminate :: "host_state \<Rightarrow> natural_t \<Rightarrow> host_state option" where
  "ipc_processor_terminate s processor = do {
     myport \<leftarrow> hs_processors s processor;
     if myport = IP_NULL then Some s
     else hs_run (ipc_port_dealloc_kernel myport) (s\<lparr>hs_processors := (hs_processors s)(processor \<mapsto> IP_NULL)\<rparr>) }"

section \<open>Processor sets\<close>

definition ipc_pset_init :: "host_state \<Rightarrow> natural_t \<Rightarrow> host_state option" where
  "ipc_pset_init s pset = do {
     (port, s) \<leftarrow> hs_do ipc_port_alloc_kernel s;
     s \<leftarrow> hs_pset_write s pset (\<lambda>p. p\<lparr>pset_self := port\<rparr>);
     (port, s) \<leftarrow> hs_do ipc_port_alloc_kernel s;
     hs_pset_write s pset (\<lambda>p. p\<lparr>pset_name_self := port\<rparr>) }"

definition ipc_pset_enable :: "host_state \<Rightarrow> natural_t \<Rightarrow> host_state option" where
  "ipc_pset_enable s pset = do {
     p \<leftarrow> hs_psets s pset;
     if pset_active p then do {
       s \<leftarrow> hs_kobject_set s (pset_self p) pset IKOT_PSET;
       s \<leftarrow> hs_kobject_set s (pset_name_self p) pset IKOT_PSET_NAME;
       hs_pset_write s pset (\<lambda>p. p\<lparr>pset_ref_count := pset_ref_count p + 2\<rparr>) }
     else Some s }"

definition ipc_pset_disable :: "host_state \<Rightarrow> natural_t \<Rightarrow> host_state option" where
  "ipc_pset_disable s pset = do {
     p \<leftarrow> hs_psets s pset;
     s \<leftarrow> hs_kobject_set s (pset_self p) IKO_NULL IKOT_NONE;
     s \<leftarrow> hs_kobject_set s (pset_name_self p) IKO_NULL IKOT_NONE;
     hs_pset_write s pset (\<lambda>p. p\<lparr>pset_ref_count := pset_ref_count p - 2\<rparr>) }"

definition ipc_pset_terminate :: "host_state \<Rightarrow> natural_t \<Rightarrow> host_state option" where
  "ipc_pset_terminate s pset = do {
     p \<leftarrow> hs_psets s pset;
     s \<leftarrow> hs_run (ipc_port_dealloc_kernel (pset_self p)) s;
     hs_run (ipc_port_dealloc_kernel (pset_name_self p)) s }"

definition pset_reference :: "host_state \<Rightarrow> natural_t \<Rightarrow> host_state option" where
  "pset_reference s pset = hs_pset_write s pset (\<lambda>p. p\<lparr>pset_ref_count := pset_ref_count p + 1\<rparr>)"

text \<open>The count is a C integer; that it is not positive any more is a panic.\<close>

definition pset_deallocate :: "host_state \<Rightarrow> natural_t \<Rightarrow> host_state option" where
  "pset_deallocate s pset =
     (if pset = PROCESSOR_SET_NULL then Some s
      else do {
        s \<leftarrow> hs_pset_write s pset (\<lambda>p. p\<lparr>pset_ref_count := pset_ref_count p - 1\<rparr>);
        p \<leftarrow> hs_psets s pset;
        if 0 < sint (pset_ref_count p) then Some s else None })"

definition processor_set_default :: "host_state \<Rightarrow> natural_t \<Rightarrow> (kern_return_t \<times> natural_t option \<times> host_state) option" where
  "processor_set_default s host =
     (if host = HOST_NULL then Some (KERN_INVALID_ARGUMENT, None, s)
      else do {
        s \<leftarrow> pset_reference s (default_pset s);
        Some (KERN_SUCCESS, Some (default_pset s), s) })"

section \<open>The host\<close>

text \<open>The port of a kernel object of the host: allocated and made to stand for the host in one of its roles.\<close>

definition host_port :: "natural_t \<Rightarrow> host_state \<Rightarrow> (ipc_port_t \<times> host_state) option" where
  "host_port type s = do {
     (port, s) \<leftarrow> hs_do ipc_port_alloc_kernel s;
     s \<leftarrow> hs_kobject_set s port (realhost s) type;
     Some (port, s) }"

definition ipc_host_init :: "host_state \<Rightarrow> host_state option" where
  "ipc_host_init s = do {
     (port, s) \<leftarrow> host_port IKOT_HOST s;
     let s = s\<lparr>hs_host := (hs_host s)\<lparr>hp_self := port\<rparr>\<rparr>;
     (port, s) \<leftarrow> host_port IKOT_HOST_PRIV s;
     let s = s\<lparr>hs_host := (hs_host s)\<lparr>hp_priv_self := port\<rparr>\<rparr>;
     (port, s) \<leftarrow> host_port IKOT_HOST_SECURITY s;
     let s = s\<lparr>hs_host := (hs_host s)\<lparr>hp_security_self := port\<rparr>\<rparr>;
     s \<leftarrow> ipc_pset_init s (default_pset s);
     s \<leftarrow> ipc_pset_enable s (default_pset s);
     s \<leftarrow> ipc_processor_init s (master_processor s);
     ipc_processor_enable s (master_processor s) }"

definition mach_host_self :: "window list \<Rightarrow> ipc_space_t \<Rightarrow> host_state \<Rightarrow> (mach_port_t \<times> host_state) option" where
  "mach_host_self ws current_space s = do {
     (sright, s) \<leftarrow> hs_do (\<lambda>k. ipc_port_make_send k (hp_self (hs_host s))) s;
     hs_do (\<lambda>k. do { (name, k, ws) \<leftarrow> ipc_port_copyout_send k sright current_space ws; Some (name, k) }) s }"

section \<open>Conversions\<close>

definition convert_kobject :: "(natural_t \<Rightarrow> bool) \<Rightarrow> host_state \<Rightarrow> ipc_port_t \<Rightarrow> natural_t option" where
  "convert_kobject kind s port =
     (if IP_VALID port then do {
        p \<leftarrow> k_ports (hs_kernel s) port;
        Some (if ip_active p \<and> kind (ip_kotype p) then hs_kobjects s port else 0) }
      else Some 0)"

definition convert_port_to_host :: "host_state \<Rightarrow> ipc_port_t \<Rightarrow> natural_t option" where
  "convert_port_to_host = convert_kobject (\<lambda>type. type = IKOT_HOST \<or> type = IKOT_HOST_PRIV)"

definition convert_port_to_host_priv :: "host_state \<Rightarrow> ipc_port_t \<Rightarrow> natural_t option" where
  "convert_port_to_host_priv = convert_kobject (\<lambda>type. type = IKOT_HOST_PRIV)"

definition convert_port_to_processor :: "host_state \<Rightarrow> ipc_port_t \<Rightarrow> natural_t option" where
  "convert_port_to_processor = convert_kobject (\<lambda>type. type = IKOT_PROCESSOR)"

definition convert_port_to_host_security :: "host_state \<Rightarrow> ipc_port_t \<Rightarrow> natural_t option" where
  "convert_port_to_host_security = convert_kobject (\<lambda>type. type = IKOT_HOST_SECURITY)"

text \<open>The elements of \<open>tries\<close> are the failed attempts to lock the processor set.\<close>

definition ref_pset_port_locked :: "bool \<Rightarrow> host_state \<Rightarrow> ipc_port_t \<Rightarrow> bool \<Rightarrow> (bool \<times> natural_t \<times> host_state) option" where
  "ref_pset_port_locked locked s port matchn = do {
     p \<leftarrow> k_ports (hs_kernel s) port;
     if ip_active p \<and> (ip_kotype p = IKOT_PSET \<or> matchn \<and> ip_kotype p = IKOT_PSET_NAME) then
       (if \<not> locked then Some (False, PROCESSOR_SET_NULL, s)
        else do {
          s \<leftarrow> hs_pset_write s (hs_kobjects s port) (\<lambda>p. p\<lparr>pset_ref_count := pset_ref_count p + 1\<rparr>);
          Some (True, hs_kobjects s port, s) })
     else Some (True, PROCESSOR_SET_NULL, s) }"

fun convert_pset_loop ::
  "bool \<Rightarrow> (host_state \<Rightarrow> host_state) list \<Rightarrow> host_state \<Rightarrow> ipc_port_t \<Rightarrow> (natural_t \<times> host_state) option" where
  "convert_pset_loop matchn tries s port =
     (if \<not> IP_VALID port then Some (PROCESSOR_SET_NULL, s)
      else do {
        (r, pset, s) \<leftarrow> ref_pset_port_locked (tries = []) s port matchn;
        if r then Some (pset, s)
        else (case tries of [] \<Rightarrow> None | others # tries \<Rightarrow> convert_pset_loop matchn tries (others s) port) })"

declare convert_pset_loop.simps [simp del]

definition convert_port_to_pset :: "(host_state \<Rightarrow> host_state) list \<Rightarrow> host_state \<Rightarrow> ipc_port_t \<Rightarrow> (natural_t \<times> host_state) option" where
  "convert_port_to_pset = convert_pset_loop False"

definition convert_port_to_pset_name :: "(host_state \<Rightarrow> host_state) list \<Rightarrow> host_state \<Rightarrow> ipc_port_t \<Rightarrow> (natural_t \<times> host_state) option" where
  "convert_port_to_pset_name = convert_pset_loop True"

definition convert_host_to_port :: "host_state \<Rightarrow> natural_t \<Rightarrow> (ipc_port_t \<times> host_state) option" where
  "convert_host_to_port s host = hs_do (\<lambda>k. ipc_port_make_send k (hp_self (hs_host s))) s"

definition convert_processor_to_port :: "host_state \<Rightarrow> natural_t \<Rightarrow> (ipc_port_t \<times> host_state) option" where
  "convert_processor_to_port s processor = do {
     port \<leftarrow> hs_processors s processor;
     if port \<noteq> IP_NULL then hs_do (\<lambda>k. ipc_port_make_send k port) s else Some (IP_NULL, s) }"

definition convert_pset_with :: "(processor_set \<Rightarrow> ipc_port_t) \<Rightarrow> host_state \<Rightarrow> natural_t \<Rightarrow> (ipc_port_t \<times> host_state) option" where
  "convert_pset_with get s pset = do {
     p \<leftarrow> hs_psets s pset;
     (port, s) \<leftarrow> (if pset_active p then hs_do (\<lambda>k. ipc_port_make_send k (get p)) s else Some (IP_NULL, s));
     s \<leftarrow> pset_deallocate s pset;
     Some (port, s) }"

definition convert_pset_to_port :: "host_state \<Rightarrow> natural_t \<Rightarrow> (ipc_port_t \<times> host_state) option" where
  "convert_pset_to_port = convert_pset_with pset_self"

definition convert_pset_name_to_port :: "host_state \<Rightarrow> natural_t \<Rightarrow> (ipc_port_t \<times> host_state) option" where
  "convert_pset_name_to_port = convert_pset_with pset_name_self"

end
