(* ===== verification/IPC_Host_Facts.thy ===== *)
theory IPC_Host_Facts
  imports IPC_Host
begin

text \<open>
  What the ports of the host stand for after start-up: each of them in its own role only.
\<close>

section \<open>Roles of ports\<close>

text \<open>The type and the kernel object of a port that is alive.\<close>

definition port_role :: "host_state \<Rightarrow> ipc_port_t \<Rightarrow> (natural_t \<times> ipc_kobject_t) option" where
  "port_role s port = (case k_ports (hs_kernel s) port of
     None \<Rightarrow> None
   | Some p \<Rightarrow> if ip_active p then Some (ip_kotype p, hs_kobjects s port) else None)"

text \<open>The parts of the state that the operations on a port do not touch.\<close>

definition hs_rest :: "host_state \<Rightarrow> host \<times> (natural_t \<rightharpoonup> ipc_port_t) \<times> (natural_t \<rightharpoonup> processor_set) \<times> natural_t \<times> natural_t \<times> natural_t" where
  "hs_rest s = (hs_host s, hs_processors s, hs_psets s, realhost s, default_pset s, master_processor s)"

lemma convert_kobject_role:
  assumes "convert_kobject kind s port = Some object" and "object \<noteq> 0"
  shows "\<exists>type. kind type \<and> port_role s port = Some (type, object)"
  using assms by (auto simp: convert_kobject_def port_role_def bind_eq_Some_conv split: if_splits)

lemma role_convert_kobject:
  assumes "port_role s port = Some (type, object)" and "IP_VALID port"
  shows "convert_kobject kind s port = Some (if kind type then object else 0)"
  using assms by (auto simp: convert_kobject_def port_role_def split: option.splits if_splits)

lemma kotype_bits:
  assumes "type AND IO_BITS_KOTYPE = type"
  shows "io_kotype_bits (bits AND NOT IO_BITS_KOTYPE OR type) = type"
    and "io_active_bits (bits AND NOT IO_BITS_KOTYPE OR type) = io_active_bits bits"
proof -
  show "io_kotype_bits (bits AND NOT IO_BITS_KOTYPE OR type) = type"
    by (simp add: io_kotype_bits_def bit.conj_disj_distrib2 and.assoc assms)
  have k: "IO_BITS_KOTYPE AND IO_BITS_ACTIVE = 0" "NOT IO_BITS_KOTYPE AND IO_BITS_ACTIVE = IO_BITS_ACTIVE"
    by (simp_all add: IO_BITS_ACTIVE_def IO_BITS_KOTYPE_def)
  have "type AND IO_BITS_ACTIVE = (type AND IO_BITS_KOTYPE) AND IO_BITS_ACTIVE" by (simp only: assms)
  also have "\<dots> = 0" by (simp only: and.assoc k and_zero_eq)
  finally show "io_active_bits (bits AND NOT IO_BITS_KOTYPE OR type) = io_active_bits bits"
    by (simp add: io_active_bits_def bit.conj_disj_distrib2 and.assoc k)
qed

lemma alloc_role:
  assumes "k_memory (hs_kernel s) 0 \<noteq> IP_NULL"
  obtains s' where "hs_do ipc_port_alloc_kernel s = Some (k_memory (hs_kernel s) 0, s')"
    and "port_role s' = (port_role s)(k_memory (hs_kernel s) 0 \<mapsto> (IKOT_NONE, hs_kobjects s (k_memory (hs_kernel s) 0)))"
    and "hs_rest s' = hs_rest s" and "k_memory (hs_kernel s') = (\<lambda>n. k_memory (hs_kernel s) (Suc n))"
proof -
  let ?a = "k_memory (hs_kernel s) 0"
  obtain k where k: "ipc_port_alloc_kernel (hs_kernel s) = Some (?a, k)" "k_memory k = (\<lambda>n. k_memory (hs_kernel s) (Suc n))"
    "k_ports k = (k_ports (hs_kernel s))(?a \<mapsto> ipc_port_init (ip_zero\<lparr>ip_references := 1, ip_bits := io_makebits True IOT_PORT 0\<rparr>)
      (ipc_space_kernel (hs_kernel s)) 1)"
    using assms by (simp add: ipc_port_alloc_kernel_def ipc_port_alloc_special_def kalloc_def)
  have "port_role (s\<lparr>hs_kernel := k\<rparr>) = (port_role s)(?a \<mapsto> (IKOT_NONE, hs_kobjects s ?a))"
    by (rule ext) (simp add: port_role_def k(3) ipc_port_init_def io_makebits_def ip_active_def ip_kotype_def io_active_bits_def
        io_kotype_bits_def IO_BITS_ACTIVE_def IO_BITS_KOTYPE_def IOT_PORT_def IP_BIT_NMS_def IKOT_NONE_def split: option.split)
  then show thesis using k by (intro that [of "s\<lparr>hs_kernel := k\<rparr>"]) (simp_all add: hs_do_def hs_rest_def)
qed

lemma kobject_role:
  assumes "port_role s port = Some r" and "type AND IO_BITS_KOTYPE = type"
  obtains s' where "hs_kobject_set s port object type = Some s'" and "port_role s' = (port_role s)(port \<mapsto> (type, object))"
    and "hs_rest s' = hs_rest s" and "k_memory (hs_kernel s') = k_memory (hs_kernel s)"
proof -
  obtain p where p: "k_ports (hs_kernel s) port = Some p" "ip_active p"
    using assms(1) by (auto simp: port_role_def split: option.splits if_splits)
  let ?k = "hs_kernel s\<lparr>k_ports := (k_ports (hs_kernel s))(port \<mapsto> p\<lparr>ip_bits := ip_bits p AND NOT IO_BITS_KOTYPE OR type\<rparr>)\<rparr>"
  let ?s = "s\<lparr>hs_kernel := ?k, hs_kobjects := (hs_kobjects s)(port := object)\<rparr>"
  have "hs_kobject_set s port object type = Some ?s"
    using p(1) by (simp add: hs_kobject_set_def ipc_kobject_set_def port_write_def)
  moreover have "port_role ?s = (port_role s)(port \<mapsto> (type, object))"
    using p by (intro ext) (simp add: port_role_def ip_active_def ip_kotype_def kotype_bits [OF assms(2)] split: option.split)
  ultimately show thesis by (intro that [of ?s]) (simp_all add: hs_rest_def)
qed

text \<open>A new port that is given a role at once, as \<open>host_port\<close> and the enabling of processors do.\<close>

lemma host_port_role:
  assumes "k_memory (hs_kernel s) 0 \<noteq> IP_NULL" and "type AND IO_BITS_KOTYPE = type"
  obtains s' where "host_port type s = Some (k_memory (hs_kernel s) 0, s')"
    and "port_role s' = (port_role s)(k_memory (hs_kernel s) 0 \<mapsto> (type, realhost s))"
    and "hs_rest s' = hs_rest s" and "k_memory (hs_kernel s') = (\<lambda>n. k_memory (hs_kernel s) (Suc n))"
proof -
  obtain s1 where s1: "hs_do ipc_port_alloc_kernel s = Some (k_memory (hs_kernel s) 0, s1)"
    "port_role s1 = (port_role s)(k_memory (hs_kernel s) 0 \<mapsto> (IKOT_NONE, hs_kobjects s (k_memory (hs_kernel s) 0)))"
    "hs_rest s1 = hs_rest s" "k_memory (hs_kernel s1) = (\<lambda>n. k_memory (hs_kernel s) (Suc n))"
    using alloc_role [OF assms(1)] by blast
  have "port_role s1 (k_memory (hs_kernel s) 0) = Some (IKOT_NONE, hs_kobjects s (k_memory (hs_kernel s) 0))" by (simp add: s1)
  from kobject_role [OF this assms(2), of "realhost s1"]
  obtain s2 where "hs_kobject_set s1 (k_memory (hs_kernel s) 0) (realhost s1) type = Some s2"
    "port_role s2 = (port_role s1)(k_memory (hs_kernel s) 0 \<mapsto> (type, realhost s1))" "hs_rest s2 = hs_rest s1"
    "k_memory (hs_kernel s2) = k_memory (hs_kernel s1)" .
  moreover have "realhost s1 = realhost s" using s1(3) by (simp add: hs_rest_def)
  ultimately show thesis using s1 by (intro that [of s2]) (simp_all add: host_port_def)
qed

lemma port_role_simps [simp]:
  "port_role (s\<lparr>hs_psets := x\<rparr>) = port_role s" "port_role (s\<lparr>hs_host := y\<rparr>) = port_role s"
  "port_role (s\<lparr>hs_processors := z\<rparr>) = port_role s"
  by (auto simp: port_role_def fun_eq_iff split: option.split)

lemma pset_start:
  assumes "hs_psets s pset = Some p" and "pset_active p"
    and "k_memory (hs_kernel s) 0 \<noteq> IP_NULL" "k_memory (hs_kernel s) 1 \<noteq> IP_NULL" "k_memory (hs_kernel s) 0 \<noteq> k_memory (hs_kernel s) 1"
  obtains s1 s2 where "ipc_pset_init s pset = Some s1" and "ipc_pset_enable s1 pset = Some s2"
    and "port_role s2 = (port_role s)(k_memory (hs_kernel s) 0 \<mapsto> (IKOT_PSET, pset), k_memory (hs_kernel s) 1 \<mapsto> (IKOT_PSET_NAME, pset))"
    and "hs_host s2 = hs_host s" "default_pset s1 = default_pset s" "realhost s2 = realhost s" "master_processor s2 = master_processor s"
    and "k_memory (hs_kernel s2) = (\<lambda>n. k_memory (hs_kernel s) (n + 2))"
proof -
  let ?a = "k_memory (hs_kernel s) 0" and ?b = "k_memory (hs_kernel s) 1"
  obtain t1 where t1: "hs_do ipc_port_alloc_kernel s = Some (?a, t1)" "port_role t1 = (port_role s)(?a \<mapsto> (IKOT_NONE, hs_kobjects s ?a))"
    "hs_rest t1 = hs_rest s" "k_memory (hs_kernel t1) = (\<lambda>n. k_memory (hs_kernel s) (Suc n))"
    using alloc_role [OF assms(3)] by blast
  define t2 where "t2 = t1\<lparr>hs_psets := (hs_psets t1)(pset \<mapsto> p\<lparr>pset_self := ?a\<rparr>)\<rparr>"
  have m2: "k_memory (hs_kernel t2) 0 = ?b" by (simp add: t2_def t1)
  obtain t3 where t3: "hs_do ipc_port_alloc_kernel t2 = Some (?b, t3)" "port_role t3 = (port_role t2)(?b \<mapsto> (IKOT_NONE, hs_kobjects t2 ?b))"
    "hs_rest t3 = hs_rest t2" "k_memory (hs_kernel t3) = (\<lambda>n. k_memory (hs_kernel t2) (Suc n))"
    using alloc_role [of t2] assms(4) by (auto simp: m2)
  define p3 where "p3 = p\<lparr>pset_self := ?a, pset_name_self := ?b\<rparr>"
  define t4 where "t4 = t3\<lparr>hs_psets := (hs_psets t3)(pset \<mapsto> p3)\<rparr>"
  have "port_role t4 ?a = Some (IKOT_NONE, hs_kobjects s ?a)" using assms(5) by (simp add: t4_def t3 t2_def t1)
  then obtain t5 where t5: "hs_kobject_set t4 ?a pset IKOT_PSET = Some t5" "port_role t5 = (port_role t4)(?a \<mapsto> (IKOT_PSET, pset))"
    "hs_rest t5 = hs_rest t4" "k_memory (hs_kernel t5) = k_memory (hs_kernel t4)"
    by (rule kobject_role [where type = IKOT_PSET and object = pset]) (auto simp: IKOT_PSET_def IO_BITS_KOTYPE_def)
  have "port_role t5 ?b = Some (IKOT_NONE, hs_kobjects t2 ?b)" using assms(5) by (simp add: t5 t4_def t3)
  then obtain t6 where t6: "hs_kobject_set t5 ?b pset IKOT_PSET_NAME = Some t6" "port_role t6 = (port_role t5)(?b \<mapsto> (IKOT_PSET_NAME, pset))"
    "hs_rest t6 = hs_rest t5" "k_memory (hs_kernel t6) = k_memory (hs_kernel t5)"
    by (rule kobject_role [where type = IKOT_PSET_NAME and object = pset]) (auto simp: IKOT_PSET_NAME_def IO_BITS_KOTYPE_def)
  have ps: "hs_psets t1 pset = Some p" "hs_psets t3 pset = Some (p\<lparr>pset_self := ?a\<rparr>)" "hs_psets t4 pset = Some p3" "hs_psets t6 pset = Some p3"
    using t1(3) t3(3) t5(3) t6(3) assms(1) by (simp_all add: hs_rest_def t2_def t4_def)
  have rest: "hs_host t6 = hs_host s" "default_pset t4 = default_pset s" "realhost t6 = realhost s" "master_processor t6 = master_processor s"
    using t1(3) t3(3) t5(3) t6(3) by (simp_all add: hs_rest_def t2_def t4_def)
  have init: "ipc_pset_init s pset = Some t4"
    using t1(1) t3(1) ps(1,2) by (simp add: ipc_pset_init_def hs_pset_write_def t2_def t4_def p3_def)
  let ?s2 = "t6\<lparr>hs_psets := (hs_psets t6)(pset \<mapsto> p3\<lparr>pset_ref_count := pset_ref_count p3 + 2\<rparr>)\<rparr>"
  have enable: "ipc_pset_enable t4 pset = Some ?s2"
    using ps(3,4) t5(1) t6(1) assms(2) by (simp add: ipc_pset_enable_def hs_pset_write_def p3_def)
  show thesis
    by (rule that [OF init enable])
       (use assms(5) in \<open>auto simp: rest [unfolded t4_def, simplified] fun_eq_iff t6 t5 t4_def t3 t2_def t1\<close>)
qed

lemma processor_start:
  assumes "k_memory (hs_kernel s) 0 \<noteq> IP_NULL"
  obtains s1 s2 where "ipc_processor_init s processor = Some s1" and "ipc_processor_enable s1 processor = Some s2"
    and "port_role s2 = (port_role s)(k_memory (hs_kernel s) 0 \<mapsto> (IKOT_PROCESSOR, processor))"
    and "hs_host s2 = hs_host s" "master_processor s1 = master_processor s" "realhost s2 = realhost s"
proof -
  let ?a = "k_memory (hs_kernel s) 0"
  obtain t1 where t1: "hs_do ipc_port_alloc_kernel s = Some (?a, t1)" "port_role t1 = (port_role s)(?a \<mapsto> (IKOT_NONE, hs_kobjects s ?a))"
    "hs_rest t1 = hs_rest s" "k_memory (hs_kernel t1) = (\<lambda>n. k_memory (hs_kernel s) (Suc n))"
    using alloc_role [OF assms] by blast
  define t2 where "t2 = t1\<lparr>hs_processors := (hs_processors t1)(processor \<mapsto> ?a)\<rparr>"
  have "port_role t2 ?a = Some (IKOT_NONE, hs_kobjects s ?a)" by (simp add: t2_def t1)
  then obtain t3 where t3: "hs_kobject_set t2 ?a processor IKOT_PROCESSOR = Some t3" "port_role t3 = (port_role t2)(?a \<mapsto> (IKOT_PROCESSOR, processor))"
    "hs_rest t3 = hs_rest t2" "k_memory (hs_kernel t3) = k_memory (hs_kernel t2)"
    by (rule kobject_role [where type = IKOT_PROCESSOR and object = processor]) (auto simp: IKOT_PROCESSOR_def IO_BITS_KOTYPE_def)
  have "ipc_processor_init s processor = Some t2" using t1(1) by (simp add: ipc_processor_init_def t2_def)
  moreover have "ipc_processor_enable t2 processor = Some t3" using t3(1) by (simp add: ipc_processor_enable_def t2_def)
  ultimately show thesis by (rule that) (use t1(3) t3(3) in \<open>auto simp: fun_eq_iff hs_rest_def t3(2) t2_def t1(2)\<close>)
qed

section \<open>The ports of the host\<close>

text \<open>
  C17: After start-up only the privileged host port gives privileges. When the allocator gives six different new ports,
  \<^verbatim>\<open>ipc_host_init\<close> succeeds, the host, privileged and security port stand for the host, and a port that \<^verbatim>\<open>convert_port_to_host_priv\<close> or
  \<^verbatim>\<open>convert_port_to_host_security\<close> turns into a host is the privileged or the security port, unless
  it was one before. In particular the port that \<^verbatim>\<open>mach_host_self\<close> gives to every task converts to neither.
\<close>

theorem host_ports_separate:
  assumes "distinct (map (k_memory (hs_kernel s)) [0..<6])" and "\<forall>n<6. IP_VALID (k_memory (hs_kernel s) n)"
    and "hs_psets s (default_pset s) = Some p" and "pset_active p"
  shows "\<exists>s'. ipc_host_init s = Some s' \<and>
    convert_port_to_host s' (hp_self (hs_host s')) = Some (realhost s) \<and>
    convert_port_to_host_priv s' (hp_priv_self (hs_host s')) = Some (realhost s) \<and>
    convert_port_to_host_security s' (hp_security_self (hs_host s')) = Some (realhost s) \<and>
    convert_port_to_host_priv s' (hp_self (hs_host s')) = Some HOST_NULL \<and>
    convert_port_to_host_security s' (hp_self (hs_host s')) = Some HOST_NULL \<and>
    (\<forall>port host. convert_port_to_host_priv s' port = Some host \<and> host \<noteq> HOST_NULL \<longrightarrow>
      port = hp_priv_self (hs_host s') \<or> port_role s port = Some (IKOT_HOST_PRIV, host)) \<and>
    (\<forall>port host. convert_port_to_host_security s' port = Some host \<and> host \<noteq> HOST_NULL \<longrightarrow>
      port = hp_security_self (hs_host s') \<or> port_role s port = Some (IKOT_HOST_SECURITY, host))"
proof -
  define m where "m = k_memory (hs_kernel s)"
  have d: "distinct [m 0, m 1, m 2, m 3, m 4, m 5]" using assms(1) by (simp add: m_def upt_rec numeral_eq_Suc)
  have v: "IP_VALID (m 0)" "IP_VALID (m 1)" "IP_VALID (m 2)" using assms(2) by (simp_all add: m_def)
  have nz: "m n \<noteq> IP_NULL" if "n < 6" for n using assms(2) that by (auto simp: m_def IO_VALID_def)
  have types: "IKOT_HOST AND IO_BITS_KOTYPE = IKOT_HOST" "IKOT_HOST_PRIV AND IO_BITS_KOTYPE = IKOT_HOST_PRIV"
    "IKOT_HOST_SECURITY AND IO_BITS_KOTYPE = IKOT_HOST_SECURITY" by (simp_all add: ikot_defs IO_BITS_KOTYPE_def)
  obtain t1 where t1: "host_port IKOT_HOST s = Some (m 0, t1)" "port_role t1 = (port_role s)(m 0 \<mapsto> (IKOT_HOST, realhost s))"
    "hs_rest t1 = hs_rest s" "k_memory (hs_kernel t1) = (\<lambda>n. m (Suc n))"
    using host_port_role [OF _ types(1), of s] nz [of 0] by (auto simp: m_def)
  define u1 where "u1 = t1\<lparr>hs_host := (hs_host t1)\<lparr>hp_self := m 0\<rparr>\<rparr>"
  obtain t2 where t2: "host_port IKOT_HOST_PRIV u1 = Some (m 1, t2)" "port_role t2 = (port_role u1)(m 1 \<mapsto> (IKOT_HOST_PRIV, realhost u1))"
    "hs_rest t2 = hs_rest u1" "k_memory (hs_kernel t2) = (\<lambda>n. m (Suc (Suc n)))"
    using host_port_role [OF _ types(2), of u1] nz [of 1] by (auto simp: u1_def t1)
  define u2 where "u2 = t2\<lparr>hs_host := (hs_host t2)\<lparr>hp_priv_self := m 1\<rparr>\<rparr>"
  obtain t3 where t3: "host_port IKOT_HOST_SECURITY u2 = Some (m 2, t3)" "port_role t3 = (port_role u2)(m 2 \<mapsto> (IKOT_HOST_SECURITY, realhost u2))"
    "hs_rest t3 = hs_rest u2" "k_memory (hs_kernel t3) = (\<lambda>n. m (n + 3))"
    using host_port_role [OF _ types(3), of u2] nz [of 2] by (auto simp: u2_def t2 numeral_eq_Suc)
  define u3 where "u3 = t3\<lparr>hs_host := (hs_host t3)\<lparr>hp_security_self := m 2\<rparr>\<rparr>"
  have rest: "realhost u1 = realhost s" "realhost u2 = realhost s" "default_pset u3 = default_pset s" "hs_psets u3 = hs_psets s"
    "hp_self (hs_host u3) = m 0" "hp_priv_self (hs_host u3) = m 1" "hp_security_self (hs_host u3) = m 2"
    using t1(3) t2(3) t3(3) by (simp_all add: hs_rest_def u1_def u2_def u3_def)
  have m3: "k_memory (hs_kernel u3) = (\<lambda>n. m (n + 3))" by (simp add: u3_def t3)
  obtain t4 t5 where t5: "ipc_pset_init u3 (default_pset s) = Some t4" "ipc_pset_enable t4 (default_pset s) = Some t5"
    "port_role t5 = (port_role u3)(m 3 \<mapsto> (IKOT_PSET, default_pset s), m 4 \<mapsto> (IKOT_PSET_NAME, default_pset s))"
    "hs_host t5 = hs_host u3" "default_pset t4 = default_pset s" "k_memory (hs_kernel t5) = (\<lambda>n. m (n + 5))"
  proof (rule pset_start [of u3 "default_pset s" p])
    show "hs_psets u3 (default_pset s) = Some p" using assms(3) rest(4) by simp
  qed (use assms(4) nz [of 3] nz [of 4] d rest(3) that in \<open>auto simp: m3 add.commute\<close>)
  obtain t6 s' where s': "ipc_processor_init t5 (master_processor t5) = Some t6" "ipc_processor_enable t6 (master_processor t5) = Some s'"
    "port_role s' = (port_role t5)(m 5 \<mapsto> (IKOT_PROCESSOR, master_processor t5))" "hs_host s' = hs_host t5" "master_processor t6 = master_processor t5"
    by (rule processor_start [of t5 "master_processor t5"]) (use nz [of 5] that in \<open>auto simp: t5(6)\<close>)
  have init: "ipc_host_init s = Some s'"
    using t1(1) t2(1) t3(1) t5(1,2,5) s'(1,2,5) rest(3) [unfolded u3_def, simplified]
    by (simp add: ipc_host_init_def Let_def del: One_nat_def flip: u1_def u2_def u3_def)
  have host: "hp_self (hs_host s') = m 0" "hp_priv_self (hs_host s') = m 1" "hp_security_self (hs_host s') = m 2"
    using s'(4) t5(4) rest(5-7) by simp_all
  have roles: "port_role s' = (port_role s)(m 0 \<mapsto> (IKOT_HOST, realhost s), m 1 \<mapsto> (IKOT_HOST_PRIV, realhost s),
      m 2 \<mapsto> (IKOT_HOST_SECURITY, realhost s), m 3 \<mapsto> (IKOT_PSET, default_pset s), m 4 \<mapsto> (IKOT_PSET_NAME, default_pset s),
      m 5 \<mapsto> (IKOT_PROCESSOR, master_processor t5))"
    by (simp add: s'(3) t5(3) u3_def t3(2) u2_def t2(2) u1_def t1(2) rest(1,2) [unfolded u1_def u2_def, simplified])
  have r: "port_role s' (m 0) = Some (IKOT_HOST, realhost s)" "port_role s' (m 1) = Some (IKOT_HOST_PRIV, realhost s)"
    "port_role s' (m 2) = Some (IKOT_HOST_SECURITY, realhost s)" using d by (auto simp: roles)
  note conv = convert_port_to_host_def convert_port_to_host_priv_def convert_port_to_host_security_def
  have only: "port = m n \<or> port_role s port = Some (type, host)"
    if "port_role s' port = Some (type, host)" "(n, type) \<in> {(1, IKOT_HOST_PRIV), (2, IKOT_HOST_SECURITY)}" for n port type host
    using that unfolding roles by (auto simp: ikot_defs split: if_splits)
  have "port = m 1 \<or> port_role s port = Some (IKOT_HOST_PRIV, host)" if "convert_port_to_host_priv s' port = Some host" "host \<noteq> HOST_NULL" for port host
    using convert_kobject_role [of _ s' port host] that only [of port IKOT_HOST_PRIV host 1] by (auto simp: conv HOST_NULL_def)
  moreover have "port = m 2 \<or> port_role s port = Some (IKOT_HOST_SECURITY, host)"
    if "convert_port_to_host_security s' port = Some host" "host \<noteq> HOST_NULL" for port host
    using convert_kobject_role [of _ s' port host] that only [of port IKOT_HOST_SECURITY host 2] by (auto simp: conv HOST_NULL_def)
  ultimately show ?thesis using init
    by (simp add: host conv role_convert_kobject [OF r(1) v(1)] role_convert_kobject [OF r(2) v(2)] role_convert_kobject [OF r(3) v(3)]
        HOST_NULL_def ikot_defs del: One_nat_def)
qed

definition hsx :: host_state where
  "hsx = \<lparr>hs_kernel = kx\<lparr>k_memory := (\<lambda>n. [0x10000, 0x10100, 0x10200, 0x10300, 0x10400, 0x10500] ! n)\<rparr>, hs_kobjects = (\<lambda>_. 0),
     hs_host = \<lparr>hp_self = 0, hp_priv_self = 0, hp_security_self = 0\<rparr>, hs_processors = Map.empty,
     hs_psets = [0x900 \<mapsto> \<lparr>pset_self = 0, pset_name_self = 0, pset_active = True, pset_ref_count = 1\<rparr>],
     realhost = 0x800, default_pset = 0x900, master_processor = 0xa00\<rparr>"

theorem host_ports_separate_witness:
  "\<exists>s'. ipc_host_init hsx = Some s' \<and> convert_port_to_host_priv s' (hp_priv_self (hs_host s')) = Some 0x800 \<and>
     convert_port_to_host_priv s' (hp_self (hs_host s')) = Some HOST_NULL"
proof -
  have "distinct (map (k_memory (hs_kernel hsx)) [0..<6])" by (simp add: hsx_def upt_rec)
  moreover have "\<forall>n<6. IP_VALID (k_memory (hs_kernel hsx) n)"
  proof (intro allI impI)
    fix n :: nat
    assume "n < 6"
    then have "n = 0 \<or> n = 1 \<or> n = 2 \<or> n = 3 \<or> n = 4 \<or> n = 5" by linarith
    then show "IP_VALID (k_memory (hs_kernel hsx) n)" by (elim disjE) (simp_all add: hsx_def IO_VALID_def IO_NULL_def IO_DEAD_def)
  qed
  moreover have "hs_psets hsx (default_pset hsx) = Some \<lparr>pset_self = 0, pset_name_self = 0, pset_active = True, pset_ref_count = 1\<rparr>"
    by (simp add: hsx_def)
  ultimately obtain s' where "ipc_host_init hsx = Some s'" "convert_port_to_host_priv s' (hp_priv_self (hs_host s')) = Some (realhost hsx)"
    "convert_port_to_host_priv s' (hp_self (hs_host s')) = Some HOST_NULL"
    using host_ports_separate [of hsx] by auto
  then show ?thesis by (auto simp: hsx_def)
qed

end
