(* ===== verification/Kern_Queue.thy ===== *)
theory Kern_Queue
  imports Mach_Prelude "HOL-Library.Multiset"
begin

text \<open>
  The queues of \<^verbatim>\<open>kern/queue.h\<close>: circular doubly linked lists through a head and the links of their
  elements, and the queues of waiting threads of \<^verbatim>\<open>kern/sync_policy.c\<close>.

  The links of a head and of an element are both found by address, so that the two branches of the macros,
  for a neighbour that is the head and for one that is an element, are one assignment here.
\<close>

section \<open>Links\<close>

record queue_links =
  q_next :: "natural_t \<Rightarrow> natural_t"
  q_prev :: "natural_t \<Rightarrow> natural_t"

definition set_next :: "natural_t \<Rightarrow> natural_t \<Rightarrow> queue_links \<Rightarrow> queue_links" where
  "set_next a b l = l\<lparr>q_next := (q_next l)(a := b)\<rparr>"

definition set_prev :: "natural_t \<Rightarrow> natural_t \<Rightarrow> queue_links \<Rightarrow> queue_links" where
  "set_prev a b l = l\<lparr>q_prev := (q_prev l)(a := b)\<rparr>"

lemmas set_link_defs = set_next_def set_prev_def

definition queue_init :: "natural_t \<Rightarrow> queue_links \<Rightarrow> queue_links" where
  "queue_init q l = set_prev q q (set_next q q l)"

definition queue_empty :: "natural_t \<Rightarrow> queue_links \<Rightarrow> bool" where
  "queue_empty q l \<longleftrightarrow> q_next l q = q"

definition enqueue_head :: "natural_t \<Rightarrow> natural_t \<Rightarrow> queue_links \<Rightarrow> queue_links" where
  "enqueue_head que elt l =
     (let l = set_next elt (q_next l que) l;
          l = set_prev elt que l;
          l = set_prev (q_next l elt) elt l
      in set_next que elt l)"

definition enqueue_tail :: "natural_t \<Rightarrow> natural_t \<Rightarrow> queue_links \<Rightarrow> queue_links" where
  "enqueue_tail que elt l =
     (let l = set_next elt que l;
          l = set_prev elt (q_prev l que) l;
          l = set_next (q_prev l elt) elt l
      in set_prev que elt l)"

definition dequeue_head :: "natural_t \<Rightarrow> queue_links \<Rightarrow> natural_t option \<times> queue_links" where
  "dequeue_head que l =
     (if q_next l que \<noteq> que
      then let elt = q_next l que;
               l = set_prev (q_next l elt) que l
           in (Some elt, set_next que (q_next l elt) l)
      else (None, l))"

definition dequeue_tail :: "natural_t \<Rightarrow> queue_links \<Rightarrow> natural_t option \<times> queue_links" where
  "dequeue_tail que l =
     (if q_prev l que \<noteq> que
      then let elt = q_prev l que;
               l = set_next (q_prev l elt) que l
           in (Some elt, set_prev que (q_prev l elt) l)
      else (None, l))"

definition remqueue :: "natural_t \<Rightarrow> queue_links \<Rightarrow> queue_links" where
  "remqueue elt l =
     (let l = set_prev (q_next l elt) (q_prev l elt) l
      in set_next (q_prev l elt) (q_next l elt) l)"

definition insque :: "natural_t \<Rightarrow> natural_t \<Rightarrow> queue_links \<Rightarrow> queue_links" where
  "insque entry pred l =
     (let l = set_next entry (q_next l pred) l;
          l = set_prev entry pred l;
          l = set_prev (q_next l pred) entry l
      in set_next pred entry l)"

definition queue_enter :: "natural_t \<Rightarrow> natural_t \<Rightarrow> queue_links \<Rightarrow> queue_links" where
  "queue_enter head elt l =
     (let prev = q_prev l head;
          l = set_next prev elt l;
          l = set_prev elt prev l;
          l = set_next elt head l
      in set_prev head elt l)"

definition queue_remove :: "natural_t \<Rightarrow> queue_links \<Rightarrow> queue_links" where
  "queue_remove elt l =
     (let nxt = q_next l elt; prev = q_prev l elt;
          l = set_prev nxt prev l
      in set_next prev nxt l)"

definition queue_remove_first :: "natural_t \<Rightarrow> queue_links \<Rightarrow> natural_t \<times> queue_links" where
  "queue_remove_first head l =
     (let entry = q_next l head; nxt = q_next l entry;
          l = set_prev nxt head l
      in (entry, set_next head nxt l))"

definition queue_remove_last :: "natural_t \<Rightarrow> queue_links \<Rightarrow> natural_t \<times> queue_links" where
  "queue_remove_last head l =
     (let entry = q_prev l head; prev = q_prev l entry;
          l = set_next prev head l
      in (entry, set_prev head prev l))"

text \<open>
  The search of \<open>sync_policy_enqueue\<close> for the place of a thread; \<open>priority\<close> is the priority of each
  thread, where a smaller number is more urgent.
\<close>

partial_function (option) policy_scan ::
  "(natural_t \<Rightarrow> int) \<Rightarrow> natural_t \<Rightarrow> natural_t \<Rightarrow> queue_links \<Rightarrow> natural_t \<Rightarrow> natural_t option" where
  "policy_scan priority q_head thread l scan =
     (if scan \<noteq> q_head \<and> priority scan \<le> priority thread
      then policy_scan priority q_head thread l (q_next l scan)
      else Some scan)"

declare policy_scan.simps [code]

definition SYNC_POLICY_FIXED_PRIORITY :: int where "SYNC_POLICY_FIXED_PRIORITY = 1"

definition sync_policy_enqueue ::
  "(natural_t \<Rightarrow> int) \<Rightarrow> int \<Rightarrow> natural_t \<Rightarrow> natural_t \<Rightarrow> queue_links \<Rightarrow> queue_links option" where
  "sync_policy_enqueue priority policy q_head thread l =
     (if policy = SYNC_POLICY_FIXED_PRIORITY
      then map_option (\<lambda>scan.
             let prev = q_prev l scan;
                 l = set_prev scan thread l;
                 l = set_next prev thread l;
                 l = set_prev thread prev l
             in set_next thread scan l)
           (policy_scan priority q_head thread l (q_next l q_head))
      else Some (queue_enter q_head thread l))"

definition sync_policy_dequeue :: "natural_t \<Rightarrow> queue_links \<Rightarrow> natural_t \<times> queue_links" where
  "sync_policy_dequeue q l = queue_remove_first q l"

definition sync_policy_remqueue :: "natural_t \<Rightarrow> queue_links \<Rightarrow> queue_links" where
  "sync_policy_remqueue thread l = queue_remove thread l"

section \<open>Linked lists\<close>

text \<open>Neighbours in a list are linked both ways; a queue is the list from its head back to its head.\<close>

fun links_ok :: "queue_links \<Rightarrow> natural_t list \<Rightarrow> bool" where
  "links_ok l (x # y # zs) \<longleftrightarrow> q_next l x = y \<and> q_prev l y = x \<and> links_ok l (y # zs)"
| "links_ok l _ \<longleftrightarrow> True"

definition queue_of :: "queue_links \<Rightarrow> natural_t \<Rightarrow> natural_t list \<Rightarrow> bool" where
  "queue_of l q xs \<longleftrightarrow> distinct (q # xs) \<and> links_ok l (q # xs @ [q])"

lemma links_join:
  assumes "xs \<noteq> []" and "ys \<noteq> []"
  shows "links_ok l (xs @ ys) \<longleftrightarrow>
    links_ok l xs \<and> q_next l (last xs) = hd ys \<and> q_prev l (hd ys) = last xs \<and> links_ok l ys"
  using assms
proof (induction xs)
  case (Cons x xs)
  then show ?case by (cases xs; cases ys) auto
qed simp

lemma links_cong:
  assumes "\<forall>x\<in>set (butlast xs). q_next l' x = q_next l x" and "\<forall>x\<in>set (tl xs). q_prev l' x = q_prev l x"
  shows "links_ok l' xs \<longleftrightarrow> links_ok l xs"
  using assms by (induction l xs rule: links_ok.induct) auto

text \<open>A queue cut in two; the head is at both ends.\<close>

lemma queue_of_cut:
  "queue_of l q (xs @ ys) \<longleftrightarrow>
     distinct (q # xs @ ys) \<and> links_ok l (q # xs) \<and> links_ok l (ys @ [q]) \<and>
     q_next l (last (q # xs)) = hd (ys @ [q]) \<and> q_prev l (hd (ys @ [q])) = last (q # xs)"
  using links_join [of "q # xs" "ys @ [q]" l] by (auto simp: queue_of_def)

lemma links_before_cut:
  assumes "distinct (q # xs @ ys)"
    and "\<forall>x\<in>set (q # xs). x \<noteq> last (q # xs) \<longrightarrow> q_next l' x = q_next l x"
    and "\<forall>x\<in>set xs. x \<noteq> hd (ys @ [q]) \<longrightarrow> q_prev l' x = q_prev l x"
  shows "links_ok l' (q # xs) \<longleftrightarrow> links_ok l (q # xs)"
proof (rule links_cong)
  have "z \<notin> set zs" if "distinct (zs @ [z])" for z and zs :: "natural_t list" using that by simp
  then have "last (q # xs) \<notin> set (butlast (q # xs))"
    using assms(1) append_butlast_last_id [of "q # xs"] by (metis distinct_append append_Cons list.simps(3))
  then show "\<forall>x\<in>set (butlast (q # xs)). q_next l' x = q_next l x"
    using assms(2) in_set_butlastD [of _ "q # xs"] by metis
  have "hd (ys @ [q]) \<notin> set xs" using assms(1) by (cases ys) auto
  then show "\<forall>x\<in>set (tl (q # xs)). q_prev l' x = q_prev l x" using assms(3) by auto
qed

lemma links_after_cut:
  assumes "distinct (q # xs @ ys)"
    and "\<forall>x\<in>set ys. x \<noteq> last (q # xs) \<longrightarrow> q_next l' x = q_next l x"
    and "\<forall>x\<in>set (ys @ [q]). x \<noteq> hd (ys @ [q]) \<longrightarrow> q_prev l' x = q_prev l x"
  shows "links_ok l' (ys @ [q]) \<longleftrightarrow> links_ok l (ys @ [q])"
proof (rule links_cong)
  have "last (q # xs) \<notin> set ys" using assms(1) last_in_set [of "q # xs"] by auto
  then show "\<forall>x\<in>set (butlast (ys @ [q])). q_next l' x = q_next l x" using assms(2) by auto
  show "\<forall>x\<in>set (tl (ys @ [q])). q_prev l' x = q_prev l x" using assms(1,3) by (cases ys) auto
qed

lemma queue_insert:
  assumes "queue_of l q (xs @ ys)" and "e \<notin> set (q # xs @ ys)"
    and "\<forall>x. x \<noteq> e \<and> x \<noteq> last (q # xs) \<longrightarrow> q_next l' x = q_next l x"
    and "\<forall>x. x \<noteq> e \<and> x \<noteq> hd (ys @ [q]) \<longrightarrow> q_prev l' x = q_prev l x"
    and "q_next l' (last (q # xs)) = e" "q_prev l' (hd (ys @ [q])) = e"
    and "q_next l' e = hd (ys @ [q])" "q_prev l' e = last (q # xs)"
  shows "queue_of l' q (xs @ e # ys)"
proof -
  have d: "distinct (q # xs @ ys)" using assms(1) by (simp add: queue_of_def)
  have "links_ok l' (q # xs)" using assms(1-4) by (subst links_before_cut [OF d, of l' l]) (auto simp: queue_of_cut)
  moreover have "links_ok l' (ys @ [q])"
    using assms(1-4) by (subst links_after_cut [OF d, of l' l]) (auto simp: queue_of_cut)
  moreover have "links_ok l' (e # ys @ [q]) \<longleftrightarrow> links_ok l' (ys @ [q])"
    using links_join [of "[e]" "ys @ [q]" l'] assms(6,7) by simp
  ultimately show ?thesis using d assms(2,5,8) queue_of_cut [of l' q xs "e # ys"] by auto
qed

lemma queue_delete:
  assumes "queue_of l q (xs @ e # ys)"
    and "\<forall>x. x \<noteq> last (q # xs) \<longrightarrow> q_next l' x = q_next l x"
    and "\<forall>x. x \<noteq> hd (ys @ [q]) \<longrightarrow> q_prev l' x = q_prev l x"
    and "q_next l' (last (q # xs)) = hd (ys @ [q])" "q_prev l' (hd (ys @ [q])) = last (q # xs)"
  shows "queue_of l' q (xs @ ys)"
proof -
  have d: "distinct (q # xs @ ys)" using assms(1) by (auto simp: queue_of_def)
  have "links_ok l (q # xs)" "links_ok l (e # ys @ [q])" using assms(1) queue_of_cut [of l q xs "e # ys"] by auto
  moreover from this(2) have "links_ok l (ys @ [q])" using links_join [of "[e]" "ys @ [q]" l] by simp
  ultimately have "links_ok l' (q # xs)" "links_ok l' (ys @ [q])"
    using links_before_cut [OF d, of l' l] links_after_cut [OF d, of l' l] assms(2,3) by auto
  then show ?thesis using d assms(4,5) by (simp add: queue_of_cut)
qed

lemma queue_of_distinct: "queue_of l q xs \<Longrightarrow> distinct (q # xs)"
  by (simp add: queue_of_def)

lemma queue_neighbours:
  assumes "queue_of l q (xs @ ys)"
  shows "q_next l (last (q # xs)) = hd (ys @ [q])" and "q_prev l (hd (ys @ [q])) = last (q # xs)"
  using assms by (auto simp: queue_of_cut)

lemma element_neighbours:
  assumes "queue_of l q (xs @ e # ys)"
  shows "q_next l e = hd (ys @ [q])" and "q_prev l e = last (q # xs)"
    and "q_next l (last (q # xs)) = e" and "q_prev l (hd (ys @ [q])) = e"
  using queue_neighbours [of l q xs "e # ys"] queue_neighbours [of l q "xs @ [e]" ys] assms by auto

section \<open>The operations on linked queues\<close>

lemma queue_init_empty: "queue_of (queue_init q l) q []"
  by (simp add: queue_of_def queue_init_def set_link_defs)

lemma queue_empty_iff: "queue_of l q xs \<Longrightarrow> queue_empty q l \<longleftrightarrow> xs = []"
  using queue_neighbours [of l q "[]" xs] by (cases xs) (auto simp: queue_empty_def queue_of_def)

lemma enqueue_head_of:
  assumes "queue_of l q xs" and "e \<notin> set (q # xs)"
  shows "queue_of (enqueue_head q e l) q (e # xs)"
proof -
  have n: "q_next l q = hd (xs @ [q])" and p: "q_prev l (hd (xs @ [q])) = q"
    using queue_neighbours [of l q "[]" xs] assms(1) by auto
  have "hd (xs @ [q]) \<noteq> e" using assms(2) by (cases xs) auto
  then have "queue_of (enqueue_head q e l) q ([] @ e # xs)"
    using assms n p by (intro queue_insert [of l]) (auto simp: enqueue_head_def set_link_defs Let_def)
  then show ?thesis by simp
qed

lemma queue_enter_of:
  assumes "queue_of l q xs" and "e \<notin> set (q # xs)"
  shows "queue_of (queue_enter q e l) q (xs @ [e])" and "queue_of (enqueue_tail q e l) q (xs @ [e])"
proof -
  have n: "q_next l (last (q # xs)) = q" and p: "q_prev l q = last (q # xs)"
    using queue_neighbours [of l q xs "[]"] assms(1) by auto
  have "last (q # xs) \<noteq> e" using assms(2) last_in_set [of "q # xs"] by auto
  then show "queue_of (queue_enter q e l) q (xs @ [e])" and "queue_of (enqueue_tail q e l) q (xs @ [e])"
    using assms n p by (intro queue_insert [of l]; auto simp: queue_enter_def enqueue_tail_def set_link_defs Let_def)+
qed

lemma queue_remove_of:
  assumes "queue_of l q xs" and "e \<in> set xs"
  shows "queue_of (queue_remove e l) q (remove1 e xs)" and "queue_of (remqueue e l) q (remove1 e xs)"
proof -
  obtain as bs where xs: "xs = as @ e # bs" using assms(2) by (auto simp: in_set_conv_decomp)
  have d: "distinct (q # as @ e # bs)" using assms(1) by (simp add: xs queue_of_def)
  then have e: "e \<noteq> last (q # as)" "e \<noteq> hd (bs @ [q])" using last_in_set [of "q # as"] by (force, cases bs) auto
  have r: "remove1 e xs = as @ bs" using d by (simp add: xs remove1_append)
  note nb = element_neighbours [OF assms(1) [unfolded xs]]
  show "queue_of (queue_remove e l) q (remove1 e xs)"
    unfolding r using assms(1) nb e by (intro queue_delete [of l q as e bs]) (auto simp: xs queue_remove_def set_link_defs Let_def)
  show "queue_of (remqueue e l) q (remove1 e xs)"
    unfolding r using assms(1) nb e by (intro queue_delete [of l q as e bs]) (auto simp: xs remqueue_def set_link_defs Let_def)
qed

lemma queue_remove_first_of:
  assumes "queue_of l q (x # xs)"
  shows "fst (queue_remove_first q l) = x" and "queue_of (snd (queue_remove_first q l)) q xs"
    and "dequeue_head q l = (Some x, snd (queue_remove_first q l))"
proof -
  note nb = element_neighbours [of l q "[]" x xs, simplified, OF assms]
  have d: "distinct (q # x # xs)" using assms by (simp add: queue_of_def)
  then have h: "hd (xs @ [q]) \<noteq> x" by (cases xs) auto
  show x: "fst (queue_remove_first q l) = x" by (simp add: queue_remove_first_def nb Let_def)
  have "queue_of (snd (queue_remove_first q l)) q ([] @ xs)"
    using assms nb h
    by (intro queue_delete [of l q "[]" x xs]) (auto simp: queue_remove_first_def set_link_defs Let_def)
  then show "queue_of (snd (queue_remove_first q l)) q xs" by simp
  show "dequeue_head q l = (Some x, snd (queue_remove_first q l))"
    using d nb h by (auto simp: dequeue_head_def queue_remove_first_def set_link_defs Let_def)
qed

lemma queue_remove_last_of:
  assumes "queue_of l q (xs @ [x])"
  shows "fst (queue_remove_last q l) = x" and "queue_of (snd (queue_remove_last q l)) q xs"
    and "dequeue_tail q l = (Some x, snd (queue_remove_last q l))"
proof -
  note nb = element_neighbours [of l q xs x "[]", simplified, OF assms]
  have d: "distinct (q # xs @ [x])" using assms by (simp add: queue_of_def)
  then have h: "last (q # xs) \<noteq> x" using last_in_set [of "q # xs"] by force
  show x: "fst (queue_remove_last q l) = x" by (simp add: queue_remove_last_def nb Let_def)
  have "queue_of (snd (queue_remove_last q l)) q (xs @ [])"
    using assms nb h
    by (intro queue_delete [of l q xs x "[]"]) (auto simp: queue_remove_last_def set_link_defs Let_def)
  then show "queue_of (snd (queue_remove_last q l)) q xs" by simp
  show "dequeue_tail q l = (Some x, snd (queue_remove_last q l))"
    using d nb h by (auto simp: dequeue_tail_def queue_remove_last_def set_link_defs Let_def)
qed

section \<open>The queues of waiting threads\<close>

text \<open>The place of a thread in the list of waiting threads.\<close>

definition policy_insert :: "('a \<Rightarrow> int) \<Rightarrow> int \<Rightarrow> 'a \<Rightarrow> 'a list \<Rightarrow> 'a list" where
  "policy_insert priority policy t xs =
     (if policy = SYNC_POLICY_FIXED_PRIORITY
      then takeWhile (\<lambda>x. priority x \<le> priority t) xs @ t # dropWhile (\<lambda>x. priority x \<le> priority t) xs
      else xs @ [t])"

lemma policy_scan_finds:
  assumes "queue_of l q (xs @ ys)"
  shows "policy_scan priority q t l (hd (ys @ [q])) = Some (hd (dropWhile (\<lambda>x. priority x \<le> priority t) ys @ [q]))"
  using assms
proof (induction ys arbitrary: xs)
  case (Cons y ys)
  have "y \<noteq> q" using Cons.prems by (auto simp: queue_of_def)
  moreover have "q_next l y = hd (ys @ [q])" using element_neighbours(1) [OF Cons.prems] .
  ultimately show ?case using Cons.IH [of "xs @ [y]"] Cons.prems
    by (subst policy_scan.simps) auto
qed (subst policy_scan.simps, simp)

lemma sync_policy_enqueue_of:
  assumes "queue_of l q xs" and "t \<notin> set (q # xs)"
  obtains l' where "sync_policy_enqueue priority policy q t l = Some l'"
    and "queue_of l' q (policy_insert priority policy t xs)"
proof (cases "policy = SYNC_POLICY_FIXED_PRIORITY")
  case True
  let ?P = "\<lambda>x. priority x \<le> priority t"
  define as bs where "as = takeWhile ?P xs" and "bs = dropWhile ?P xs"
  have xs: "xs = as @ bs" by (simp add: as_def bs_def)
  have n: "q_next l (last (q # as)) = hd (bs @ [q])" "q_prev l (hd (bs @ [q])) = last (q # as)"
    using queue_neighbours [of l q as bs] assms(1) by (auto simp: xs)
  have scan: "policy_scan priority q t l (q_next l q) = Some (hd (bs @ [q]))"
    using policy_scan_finds [of l q "[]" xs priority t] queue_neighbours [of l q "[]" xs] assms(1) by (simp add: bs_def)
  have "last (q # as) \<noteq> t" "hd (bs @ [q]) \<noteq> t"
    using assms(2) last_in_set [of "q # as"] by (force simp: xs, cases bs) (auto simp: xs)
  then have "queue_of (the (sync_policy_enqueue priority policy q t l)) q (as @ t # bs)"
    using assms n by (intro queue_insert [of l])
      (auto simp: xs sync_policy_enqueue_def True scan set_link_defs Let_def)
  moreover have "sync_policy_enqueue priority policy q t l \<noteq> None" by (simp add: sync_policy_enqueue_def True scan)
  ultimately show thesis using that by (auto simp: policy_insert_def True as_def bs_def)
next
  case False
  then show thesis using that queue_enter_of(1) [OF assms] by (simp add: sync_policy_enqueue_def policy_insert_def)
qed

lemma policy_insert_mset [simp]: "mset (policy_insert priority policy t xs) = add_mset t (mset xs)"
proof -
  have "mset (takeWhile P xs) + mset (dropWhile P xs) = mset xs" for P
    by (simp flip: mset_append)
  then show ?thesis by (simp add: policy_insert_def)
qed

lemma policy_insert_set [simp]: "set (policy_insert priority policy t xs) = insert t (set xs)"
  by (metis policy_insert_mset set_mset_add_mset_insert set_mset_mset)

lemma policy_insert_length [simp]: "length (policy_insert priority policy t xs) = Suc (length xs)"
  by (metis policy_insert_mset size_add_mset size_mset)

lemma policy_insert_distinct [simp]: "distinct (policy_insert priority policy t xs) \<longleftrightarrow> t \<notin> set xs \<and> distinct xs"
  by (metis policy_insert_mset distinct.simps(2) mset.simps(2) mset_eq_imp_distinct_iff)

lemma sorted_takeWhile_dropWhile:
  assumes "sorted (map f xs)"
  shows "sorted (map f (takeWhile (\<lambda>x. f x \<le> f t) xs @ t # dropWhile (\<lambda>x. f x \<le> (f t :: int)) xs))"
    and "\<forall>x\<in>set (dropWhile (\<lambda>x. f x \<le> f t) xs). f t < f x"
  using assms by (induction xs) (auto dest: set_takeWhileD set_dropWhileD)

lemma policy_insert_sort:
  "policy_insert priority SYNC_POLICY_FIXED_PRIORITY t (sort_key priority ts) = sort_key priority (ts @ [t])"
proof (rule properties_for_sort_key [symmetric])
  let ?xs = "sort_key priority ts" and ?P = "\<lambda>x. priority x \<le> priority t"
  show "sorted (map priority (policy_insert priority SYNC_POLICY_FIXED_PRIORITY t ?xs))"
    using sorted_takeWhile_dropWhile(1) [of priority ?xs t] by (simp add: policy_insert_def)
  fix k
  let ?F = "filter (\<lambda>x. priority k = priority x)"
  have "?F (takeWhile ?P ?xs) @ ?F (dropWhile ?P ?xs) = ?F ts"
    using sort_key_stable [of priority "priority k" ts] by (simp flip: filter_append add: eq_commute)
  moreover have "?F (dropWhile ?P ?xs) = []" if "priority k = priority t"
    using sorted_takeWhile_dropWhile(2) [of priority ?xs t] that by (auto simp: filter_empty_conv)
  ultimately show "?F (policy_insert priority SYNC_POLICY_FIXED_PRIORITY t ?xs) = ?F (ts @ [t])"
    by (auto simp: policy_insert_def)
qed simp

text \<open>Threads that come to wait one after another.\<close>

primrec policy_enqueue_all ::
  "(natural_t \<Rightarrow> int) \<Rightarrow> int \<Rightarrow> natural_t \<Rightarrow> natural_t list \<Rightarrow> queue_links \<Rightarrow> queue_links option" where
  "policy_enqueue_all priority policy q [] l = Some l"
| "policy_enqueue_all priority policy q (t # ts) l =
     Option.bind (sync_policy_enqueue priority policy q t l) (policy_enqueue_all priority policy q ts)"

definition waiting_order :: "('a \<Rightarrow> int) \<Rightarrow> int \<Rightarrow> 'a list \<Rightarrow> 'a list" where
  "waiting_order priority policy ts = (if policy = SYNC_POLICY_FIXED_PRIORITY then sort_key priority ts else ts)"

lemma policy_insert_order:
  "policy_insert priority policy t (waiting_order priority policy ts) = waiting_order priority policy (ts @ [t])"
  using policy_insert_sort [of priority t ts] by (auto simp: waiting_order_def policy_insert_def)

lemma waiting_order_set [simp]: "set (waiting_order priority policy ts) = set ts"
  by (simp add: waiting_order_def)

lemma policy_enqueue_all_of:
  assumes "queue_of l q (waiting_order priority policy as)" and "distinct (q # as @ ts)"
  obtains l' where "policy_enqueue_all priority policy q ts l = Some l'"
    and "queue_of l' q (waiting_order priority policy (as @ ts))"
  using assms
proof (induction ts arbitrary: as l thesis)
  case (Cons t ts)
  have "t \<notin> set (q # waiting_order priority policy as)" using Cons.prems(3) by auto
  then obtain l' where "sync_policy_enqueue priority policy q t l = Some l'"
    and "queue_of l' q (waiting_order priority policy (as @ [t]))"
    using sync_policy_enqueue_of [OF Cons.prems(2)] policy_insert_order by metis
  then show ?case using Cons.IH [of l' "as @ [t]"] Cons.prems(1,3) by auto
qed simp

text \<open>
  C16: \<^verbatim>\<open>sync_policy_enqueue\<close>, on the links of the queue, keeps waiting threads in the order of the policy.
  When the threads \<open>ts\<close> come to wait one after another, the search for the place always ends, and the
  links form the queue of \<open>ts\<close> in the order of arrival or, for the policy of fixed priorities, sorted by
  priority with threads of equal priority in the order of arrival; \<^verbatim>\<open>sync_policy_dequeue\<close> takes the first thread of
  this order and \<^verbatim>\<open>sync_policy_remqueue\<close> takes out any one, and the rest stays linked.
\<close>

theorem sync_policy_order:
  assumes "distinct (q # ts)"
  shows "\<exists>l'. policy_enqueue_all priority policy q ts (queue_init q l) = Some l' \<and>
    queue_of l' q (waiting_order priority policy ts) \<and>
    (case waiting_order priority policy ts of
       [] \<Rightarrow> queue_empty q l'
     | t # rest \<Rightarrow> fst (sync_policy_dequeue q l') = t \<and> queue_of (snd (sync_policy_dequeue q l')) q rest) \<and>
    (\<forall>t\<in>set ts. queue_of (sync_policy_remqueue t l') q (remove1 t (waiting_order priority policy ts)))"
proof -
  have "queue_of (queue_init q l) q (waiting_order priority policy [])"
    using queue_init_empty by (simp add: waiting_order_def)
  then obtain l' where l': "policy_enqueue_all priority policy q ts (queue_init q l) = Some l'"
    "queue_of l' q (waiting_order priority policy ts)"
    by (rule policy_enqueue_all_of [where as = "[]" and ts = ts]) (use assms in auto)
  then show ?thesis
    using queue_remove_first_of [of l' q] queue_remove_of(1) [OF l'(2)] queue_empty_iff [OF l'(2)]
    by (auto simp: sync_policy_dequeue_def sync_policy_remqueue_def split: list.splits)
qed

theorem sync_policy_order_witness:
  "distinct [100, 1, 2, 3, 4 :: natural_t] \<and>
   (\<exists>l'. policy_enqueue_all (\<lambda>t. if t \<in> {1, 3} then 20 else 10) 1 100 [1, 2, 3, 4] (queue_init 100 \<lparr>q_next = id, q_prev = id\<rparr>) = Some l' \<and>
     queue_of l' 100 [2, 4, 1, 3] \<and> fst (sync_policy_dequeue 100 l') = 2)"
proof -
  let ?pr = "\<lambda>t :: natural_t. if t \<in> {1, 3} then 20 else 10 :: int"
  have "waiting_order ?pr 1 [1, 2, 3, 4] = [2, 4, 1, 3]" by code_simp
  then show ?thesis
    using sync_policy_order [of 100 "[1, 2, 3, 4]" ?pr 1 "\<lparr>q_next = id, q_prev = id\<rparr>"] by auto
qed

end
