(* ===== verification/Sync_Sema.thy ===== *)
theory Sync_Sema
  imports IPC_TT Kern_Queue
begin

text \<open>
  Semaphores (\<^verbatim>\<open>kern/sync_sema.c\<close>) and their ports (\<^verbatim>\<open>kern/ipc_sync.c\<close>).

  A queue of waiting threads is the list of its threads; \<open>Kern_Queue\<close> shows that the linked queues implement
  these lists. \<open>th_linked\<close> says that \<open>wait_link.prev\<close> of a thread is not zero and \<open>th_waiting\<close> that \<open>TH_WAIT\<close> is in its
  state. An operation that runs under the lock of the semaphore is a function on the semaphore and the threads.
  A thread that waits calls \<open>thread_block\<close> without the lock: \<open>blocked\<close> is what other threads do until
  it runs again, and \<open>window\<close> what they do between its test for an abort and its taking the lock.
\<close>

section \<open>Threads and state\<close>

record sync_thread =
  th_priority :: int
  th_top_act :: natural_t
  th_linked :: bool
  th_waiting :: bool
  th_wait_result :: kern_return_t

type_synonym threads = "natural_t \<Rightarrow> sync_thread"

text \<open>The field \<open>wait_result\<close> has a return code or a result of a wait; this is the code with the same number.\<close>

primrec wait_code :: "wait_result_t \<Rightarrow> kern_return_t" where
  "wait_code THREAD_AWAKENED = KERN_SUCCESS"
| "wait_code THREAD_TIMED_OUT = KERN_INVALID_ADDRESS"
| "wait_code THREAD_INTERRUPTED = KERN_PROTECTION_FAILURE"
| "wait_code THREAD_RESTART = KERN_NO_SPACE"

definition assert_wait :: "natural_t \<Rightarrow> threads \<Rightarrow> threads" where
  "assert_wait thread ts = ts(thread := (ts thread)\<lparr>th_waiting := True\<rparr>)"

definition clear_wait :: "natural_t \<Rightarrow> kern_return_t \<Rightarrow> threads \<Rightarrow> threads" where
  "clear_wait thread result ts =
     (if th_waiting (ts thread)
      then ts(thread := (ts thread)\<lparr>th_waiting := False, th_wait_result := result\<rparr>) else ts)"

definition operation_complete :: "natural_t \<Rightarrow> threads \<Rightarrow> threads" where
  "operation_complete thread ts = ts(thread := (ts thread)\<lparr>th_linked := False\<rparr>)"

definition queue_thread :: "int \<Rightarrow> natural_t \<Rightarrow> threads \<Rightarrow> natural_t list \<Rightarrow> natural_t list" where
  "queue_thread policy thread ts q = policy_insert (\<lambda>t. th_priority (ts t)) policy thread q"

definition link_thread :: "natural_t \<Rightarrow> threads \<Rightarrow> threads" where
  "link_thread thread ts = ts(thread := (ts thread)\<lparr>th_linked := True\<rparr>)"

definition int32 :: "int \<Rightarrow> int" where "int32 i = signed_take_bit 31 i"

record semaphore =
  sm_owner :: natural_t
  sm_port :: ipc_port_t
  sm_ref_count :: int
  sm_count :: int
  sm_policy :: int
  sm_active :: bool
  sm_blocked_threads :: "natural_t list"

definition SEMAPHORE_NULL :: natural_t where "SEMAPHORE_NULL = 0"
definition IKOT_SEMAPHORE :: natural_t where "IKOT_SEMAPHORE = 23"
definition SYNC_POLICY_MAX :: int where "SYNC_POLICY_MAX = 1"

record sync_task =
  semaphore_list :: "natural_t list"
  semaphores_owned :: int

record sync =
  sy_kernel :: kernel
  sy_kobjects :: kobjects
  sy_tasks :: "natural_t \<Rightarrow> sync_task"
  sy_threads :: threads
  sy_act_thread :: "natural_t \<Rightarrow> natural_t"
  sy_semas :: "natural_t \<rightharpoonup> semaphore"

section \<open>Signals\<close>

text \<open>
  One round of the loop of \<open>semaphore_signal_common\<close> up to the wakeup: it leaves the loop with a
  return code or has a thread to wake. Taking a thread from an empty queue is an error, as
  \<open>queue_remove_first\<close> then gives the head of the queue.
\<close>

datatype signal_choice = SIGNAL_BREAK kern_return_t semaphore | SIGNAL_THREAD natural_t semaphore

definition signal_round :: "natural_t option \<Rightarrow> semaphore \<Rightarrow> signal_choice option" where
  "signal_round target s =
     (case target of
        Some thread \<Rightarrow>
          Some (if thread \<in> set (sm_blocked_threads s)
                then SIGNAL_THREAD thread (s\<lparr>sm_blocked_threads := remove1 thread (sm_blocked_threads s),
                                             sm_count := int32 (sm_count s + 1)\<rparr>)
                else SIGNAL_BREAK KERN_NOT_WAITING s)
      | None \<Rightarrow>
          if sm_count s \<ge> 0 then Some (SIGNAL_BREAK KERN_SUCCESS (s\<lparr>sm_count := int32 (sm_count s + 1)\<rparr>))
          else (case sm_blocked_threads s of
                  [] \<Rightarrow> None
                | thread # q \<Rightarrow> Some (SIGNAL_THREAD thread
                    (s\<lparr>sm_count := int32 (sm_count s + 1), sm_blocked_threads := q\<rparr>))))"

definition wake_thread :: "natural_t \<Rightarrow> kern_return_t \<Rightarrow> threads \<Rightarrow> threads" where
  "wake_thread thread result ts = clear_wait thread result (operation_complete thread ts)"

lemma signal_round_shrinks:
  "signal_round target s = Some (SIGNAL_THREAD thread s') \<Longrightarrow>
   length (sm_blocked_threads s') < length (sm_blocked_threads s)"
  by (auto simp: signal_round_def length_remove1 split: option.splits if_splits list.splits)
     (metis One_nat_def Suc_pred length_pos_if_in_set lessI)

function signal_loop ::
  "natural_t option \<Rightarrow> bool \<Rightarrow> semaphore \<Rightarrow> threads \<Rightarrow> (kern_return_t \<times> semaphore \<times> threads) option" where
  "signal_loop target all s ts =
     (case signal_round target s of
        None \<Rightarrow> None
      | Some (SIGNAL_BREAK ret s) \<Rightarrow> Some (ret, s, ts)
      | Some (SIGNAL_THREAD thread s) \<Rightarrow>
          let ts = wake_thread thread KERN_SUCCESS ts
          in if all \<and> sm_count s < 0 then signal_loop target all s ts else Some (KERN_SUCCESS, s, ts))"
  by pat_completeness auto

termination
  by (relation "measure (\<lambda>(target, all, s, ts). length (sm_blocked_threads s))") (auto dest: signal_round_shrinks)

declare signal_loop.simps [simp del]

definition sema_signal ::
  "natural_t option \<Rightarrow> bool \<Rightarrow> semaphore \<Rightarrow> threads \<Rightarrow> (kern_return_t \<times> semaphore \<times> threads) option" where
  "sema_signal target all s ts =
     (if \<not> sm_active s then Some (KERN_TERMINATED, s, ts)
      else map_option (\<lambda>(ret, s, ts). (ret, if all then s\<lparr>sm_count := 0\<rparr> else s, ts)) (signal_loop target all s ts))"

definition sema_write :: "sync \<Rightarrow> natural_t \<Rightarrow> (semaphore \<Rightarrow> threads \<Rightarrow> ('a \<times> semaphore \<times> threads) option) \<Rightarrow> ('a \<times> sync) option" where
  "sema_write s semaphore f = do {
     m \<leftarrow> sy_semas s semaphore;
     (r, m, ts) \<leftarrow> f m (sy_threads s);
     Some (r, s\<lparr>sy_semas := (sy_semas s)(semaphore \<mapsto> m), sy_threads := ts\<rparr>) }"

definition semaphore_signal_common :: "sync \<Rightarrow> natural_t \<Rightarrow> natural_t \<Rightarrow> bool \<Rightarrow> (kern_return_t \<times> sync) option" where
  "semaphore_signal_common s semaphore thread_act all =
     (if semaphore = SEMAPHORE_NULL then Some (KERN_INVALID_ARGUMENT, s)
      else sema_write s semaphore
             (sema_signal (if thread_act \<noteq> THR_ACT_NULL then Some (sy_act_thread s thread_act) else None) all))"

definition semaphore_signal :: "sync \<Rightarrow> natural_t \<Rightarrow> (kern_return_t \<times> sync) option" where
  "semaphore_signal s semaphore = semaphore_signal_common s semaphore THR_ACT_NULL False"

definition semaphore_signal_all :: "sync \<Rightarrow> natural_t \<Rightarrow> (kern_return_t \<times> sync) option" where
  "semaphore_signal_all s semaphore = semaphore_signal_common s semaphore THR_ACT_NULL True"

definition semaphore_signal_thread :: "sync \<Rightarrow> natural_t \<Rightarrow> natural_t \<Rightarrow> (kern_return_t \<times> sync) option" where
  "semaphore_signal_thread s semaphore thread_act = semaphore_signal_common s semaphore thread_act False"

section \<open>Waits\<close>

record tvalspec =
  tv_sec :: "32 word"
  tv_nsec :: int

text \<open>
  The ticks to wait, or no limit, or a return. The seconds are unsigned, so the test for negative seconds never
  holds and the comparison with the ticks is unsigned; the comparison of the sum with the ticks is signed.
\<close>

definition semaphore_ticks :: "int \<Rightarrow> tvalspec \<Rightarrow> kern_return_t + 32 word option" where
  "semaphore_ticks hz wait_time =
     (if tv_nsec wait_time < 0 \<or> tv_nsec wait_time \<ge> 1000000000 then Inl KERN_INVALID_VALUE
      else let ticks_to_wait = tv_sec wait_time * of_int hz in
        if ticks_to_wait < tv_sec wait_time then Inr None
        else let t = ticks_to_wait + of_int (tv_nsec wait_time div 1000000000 div hz) in
          if sint t < sint ticks_to_wait then Inr None
          else if ticks_to_wait = 0 then Inl KERN_OPERATION_TIMED_OUT
          else Inr (Some t))"

text \<open>The part of a wait before \<open>thread_block\<close>; the result \<open>None\<close> is a thread that blocks.\<close>

definition sema_wait :: "natural_t \<Rightarrow> 32 word option \<Rightarrow> semaphore \<Rightarrow> threads \<Rightarrow> kern_return_t option \<times> semaphore \<times> threads" where
  "sema_wait thread ticks_to_wait s ts =
     (if \<not> sm_active s then (Some KERN_TERMINATED, s, ts)
      else if ticks_to_wait = Some 0 \<and> sm_count s \<le> 0 then (Some KERN_OPERATION_TIMED_OUT, s, ts)
      else let s = s\<lparr>sm_count := int32 (sm_count s - 1)\<rparr> in
        if sm_count s < 0
        then (None, s\<lparr>sm_blocked_threads := queue_thread (sm_policy s) thread ts (sm_blocked_threads s)\<rparr>,
              assert_wait thread (link_thread thread ts))
        else (Some KERN_SUCCESS, s, ts))"

text \<open>
  The end of a wait that was aborted. Removing a thread that is not in the queue is an error: its
  links are not valid.
\<close>

definition sema_abort :: "natural_t \<Rightarrow> semaphore \<Rightarrow> threads \<Rightarrow> (kern_return_t \<times> semaphore \<times> threads) option" where
  "sema_abort thread s ts = do {
     s \<leftarrow> (if sm_active s
           then if thread \<in> set (sm_blocked_threads s)
                then Some (s\<lparr>sm_blocked_threads := remove1 thread (sm_blocked_threads s),
                             sm_count := int32 (sm_count s + 1)\<rparr>)
                else None
           else Some s);
     Some (if th_wait_result (ts thread) = wait_code THREAD_TIMED_OUT then KERN_OPERATION_TIMED_OUT else KERN_ABORTED,
           s, ts) }"

definition semaphore_wait_common ::
  "int \<Rightarrow> (sync \<Rightarrow> sync option) \<Rightarrow> (sync \<Rightarrow> sync option) \<Rightarrow> sync \<Rightarrow> natural_t \<Rightarrow> natural_t \<Rightarrow> tvalspec option \<Rightarrow>
   (kern_return_t \<times> sync) option" where
  "semaphore_wait_common hz blocked window s thread semaphore wait_time =
     (if semaphore = SEMAPHORE_NULL then Some (KERN_INVALID_ARGUMENT, s)
      else (case (case wait_time of None \<Rightarrow> Inr None | Some w \<Rightarrow> semaphore_ticks hz w) of
        Inl kr \<Rightarrow> Some (kr, s)
      | Inr ticks_to_wait \<Rightarrow> do {
          (r, s) \<leftarrow> sema_write s semaphore (\<lambda>m ts. Some (sema_wait thread ticks_to_wait m ts));
          (case r of
             Some kr \<Rightarrow> Some (kr, s)
           | None \<Rightarrow> do {
               s \<leftarrow> blocked s;
               if th_waiting (sy_threads s thread) then None
               else if th_linked (sy_threads s thread) then do {
                 s \<leftarrow> window s;
                 sema_write s semaphore (sema_abort thread) }
               else Some (th_wait_result (sy_threads s thread), s) }) }))"

definition semaphore_wait ::
  "int \<Rightarrow> (sync \<Rightarrow> sync option) \<Rightarrow> (sync \<Rightarrow> sync option) \<Rightarrow> sync \<Rightarrow> natural_t \<Rightarrow> natural_t \<Rightarrow> (kern_return_t \<times> sync) option" where
  "semaphore_wait hz blocked window s thread semaphore =
     semaphore_wait_common hz blocked window s thread semaphore None"

definition semaphore_timedwait ::
  "int \<Rightarrow> (sync \<Rightarrow> sync option) \<Rightarrow> (sync \<Rightarrow> sync option) \<Rightarrow> sync \<Rightarrow> natural_t \<Rightarrow> natural_t \<Rightarrow> tvalspec \<Rightarrow>
   (kern_return_t \<times> sync) option" where
  "semaphore_timedwait hz blocked window s thread semaphore wait_time =
     semaphore_wait_common hz blocked window s thread semaphore (Some wait_time)"

section \<open>Creation and destruction\<close>

definition semaphore_reference :: "sync \<Rightarrow> natural_t \<Rightarrow> sync option" where
  "semaphore_reference s semaphore = do {
     m \<leftarrow> sy_semas s semaphore;
     Some (s\<lparr>sy_semas := (sy_semas s)(semaphore \<mapsto> m\<lparr>sm_ref_count := int32 (sm_ref_count m + 1)\<rparr>)\<rparr>) }"

definition semaphore_dereference :: "sync \<Rightarrow> natural_t \<Rightarrow> sync option" where
  "semaphore_dereference s semaphore = do {
     m \<leftarrow> sy_semas s semaphore;
     let ref_count = int32 (sm_ref_count m - 1);
     Some (s\<lparr>sy_semas := (sy_semas s)(semaphore :=
       (if ref_count = 0 then None else Some (m\<lparr>sm_ref_count := ref_count\<rparr>)))\<rparr>) }"

text \<open>\<open>old\<close> is what the memory of the new semaphore held before.\<close>

definition semaphore_create :: "semaphore \<Rightarrow> sync \<Rightarrow> natural_t \<Rightarrow> int \<Rightarrow> int \<Rightarrow> (kern_return_t \<times> natural_t \<times> sync) option" where
  "semaphore_create old s task policy value =
     (if task = TASK_NULL \<or> value < 0 \<or> policy > SYNC_POLICY_MAX then Some (KERN_INVALID_ARGUMENT, SEMAPHORE_NULL, s)
      else let (semaphore, k) = kalloc (sy_kernel s) in
        if semaphore = SEMAPHORE_NULL then Some (KERN_RESOURCE_SHORTAGE, SEMAPHORE_NULL, s\<lparr>sy_kernel := k\<rparr>)
        else let (port, k) = ipc_port_alloc_special k (ipc_space_kernel k);
                 m = old\<lparr>sm_blocked_threads := [], sm_count := value, sm_ref_count := 1, sm_policy := policy, sm_port := port\<rparr>;
                 s = s\<lparr>sy_kernel := k, sy_semas := (sy_semas s)(semaphore \<mapsto> m)\<rparr> in
          if port = IP_NULL then do {
            s \<leftarrow> semaphore_dereference s semaphore;
            Some (KERN_RESOURCE_SHORTAGE, SEMAPHORE_NULL, s) }
          else do {
            (k, ko) \<leftarrow> ipc_kobject_set (sy_kernel s) (sy_kobjects s) port semaphore IKOT_SEMAPHORE;
            let t = sy_tasks s task;
            Some (KERN_SUCCESS, semaphore, s\<lparr>sy_kernel := k, sy_kobjects := ko,
              sy_tasks := (sy_tasks s)(task := t\<lparr>semaphore_list := semaphore # semaphore_list t,
                                                   semaphores_owned := int32 (semaphores_owned t + 1)\<rparr>),
              sy_semas := (sy_semas s)(semaphore \<mapsto> m\<lparr>sm_owner := task, sm_active := True\<rparr>)\<rparr>) })"

text \<open>The loop of \<open>semaphore_destroy\<close>: the test increments the count.\<close>

function sema_destroy_loop :: "semaphore \<Rightarrow> threads \<Rightarrow> (semaphore \<times> threads) option" where
  "sema_destroy_loop s ts =
     (let s' = s\<lparr>sm_count := int32 (sm_count s + 1)\<rparr> in
      if sm_count s < 0
      then (case sm_blocked_threads s of
              [] \<Rightarrow> None
            | thread # q \<Rightarrow> sema_destroy_loop (s'\<lparr>sm_blocked_threads := q\<rparr>) (wake_thread thread KERN_SEMAPHORE_DESTROYED ts))
      else Some (s', ts))"
  by pat_completeness auto

termination
  by (relation "measure (\<lambda>(s, ts). length (sm_blocked_threads s))") auto

declare sema_destroy_loop.simps [simp del]

definition sema_destroy :: "semaphore \<Rightarrow> threads \<Rightarrow> (kern_return_t \<times> semaphore \<times> threads) option" where
  "sema_destroy s ts =
     (if \<not> sm_active s then Some (KERN_TERMINATED, s, ts)
      else let s = s\<lparr>sm_active := False\<rparr> in
        if sm_count s < 0 then map_option (Pair KERN_SUCCESS) (sema_destroy_loop s ts) else Some (KERN_SUCCESS, s, ts))"

definition semaphore_destroy :: "sync \<Rightarrow> natural_t \<Rightarrow> natural_t \<Rightarrow> (kern_return_t \<times> sync) option" where
  "semaphore_destroy s task semaphore =
     (if task = TASK_NULL \<or> semaphore = SEMAPHORE_NULL then Some (KERN_INVALID_ARGUMENT, s)
      else do {
        m \<leftarrow> sy_semas s semaphore;
        if sm_owner m \<noteq> task then Some (KERN_INVALID_RIGHT, s)
        else do {
          (kr, s) \<leftarrow> sema_write s semaphore sema_destroy;
          if kr \<noteq> KERN_SUCCESS then Some (kr, s)
          else do {
            let t = sy_tasks s task;
            s \<leftarrow> (if semaphore \<in> set (semaphore_list t)
                  then Some (s\<lparr>sy_tasks := (sy_tasks s)(task := t\<lparr>semaphore_list := remove1 semaphore (semaphore_list t),
                                 semaphores_owned := int32 (semaphores_owned t - 1)\<rparr>)\<rparr>)
                  else None);
            k \<leftarrow> ipc_port_dealloc_kernel (sm_port m) (sy_kernel s);
            s \<leftarrow> semaphore_dereference (s\<lparr>sy_kernel := k\<rparr>) semaphore;
            Some (KERN_SUCCESS, s) } } })"

section \<open>Ports\<close>

definition convert_port_to_semaphore :: "sync \<Rightarrow> ipc_port_t \<Rightarrow> (natural_t \<times> sync) option" where
  "convert_port_to_semaphore s port =
     (if IP_VALID port then do {
        p \<leftarrow> k_ports (sy_kernel s) port;
        if ip_active p \<and> ip_kotype p = IKOT_SEMAPHORE then do {
          s \<leftarrow> semaphore_reference s (sy_kobjects s port);
          Some (sy_kobjects s port, s) }
        else Some (SEMAPHORE_NULL, s) }
      else Some (SEMAPHORE_NULL, s))"

definition convert_semaphore_to_port :: "sync \<Rightarrow> natural_t \<Rightarrow> (ipc_port_t \<times> sync) option" where
  "convert_semaphore_to_port s semaphore =
     (if semaphore \<noteq> SEMAPHORE_NULL then do {
        m \<leftarrow> sy_semas s semaphore;
        (port, k) \<leftarrow> ipc_port_make_send (sy_kernel s) (sm_port m);
        Some (port, s\<lparr>sy_kernel := k\<rparr>) }
      else Some (IP_NULL, s))"

end
