(* ===== verification/Sync_Lock.thy ===== *)
theory Sync_Lock
  imports Sync_Sema
begin

text \<open>
  Lock sets (\<^verbatim>\<open>kern/sync_lock.c\<close>) and their ports (\<^verbatim>\<open>kern/ipc_sync.c\<close>).

  A ulock is known by the address of its lock set and its index; the chains of ulocks are lists of these.
  An operation under the locks of lock set and ulock is a function on a \<open>lock_env\<close>. A call that blocks drops the locks
  before it asserts the wait: \<open>window\<close> is what other threads do in between, \<open>blocked\<close> what they do
  until the thread runs again, and \<open>abort_window\<close> what they do between the test for an abort and the
  lock. The two forms of \<open>ulock_ownership_clear\<close> differ in a lock only and are one definition here, and
  \<open>ulock->lock_set\<close>, which \<open>lock_set_create\<close> sets for good, is the lock set the ulock is in.
\<close>

section \<open>State\<close>

datatype ulock_state = ULOCK_FREE | ULOCK_HELD

record ulock =
  ul_owner :: natural_t
  ul_stable :: bool
  ul_state :: ulock_state
  ul_ho_thread :: natural_t
  ul_blocked_count :: int
  ul_blocked_threads :: "natural_t list"

record lock_set =
  ls_owner :: natural_t
  ls_port :: ipc_port_t
  ls_ref_count :: int
  ls_active :: bool
  ls_policy :: int
  ls_n_ulocks :: int
  ls_held_ulocks :: "nat list"
  ls_handoff_ulocks :: "nat list"
  ls_ulock_list :: "ulock list"

definition LOCK_SET_NULL :: natural_t where "LOCK_SET_NULL = 0"
definition THREAD_NULL :: natural_t where "THREAD_NULL = 0"
definition IKOT_LOCK_SET :: natural_t where "IKOT_LOCK_SET = 24"

record lock_env =
  le_set :: lock_set
  le_threads :: threads
  le_held :: "natural_t \<Rightarrow> (natural_t \<times> nat) list"

text \<open>\<open>le_held\<close> is the field \<open>held_ulocks\<close> of the activations.\<close>

definition ulock_at :: "lock_env \<Rightarrow> nat \<Rightarrow> ulock" where
  "ulock_at e i = ls_ulock_list (le_set e) ! i"

definition set_write :: "(lock_set \<Rightarrow> lock_set) \<Rightarrow> lock_env \<Rightarrow> lock_env" where
  "set_write f e = e\<lparr>le_set := f (le_set e)\<rparr>"

definition ulock_write :: "nat \<Rightarrow> (ulock \<Rightarrow> ulock) \<Rightarrow> lock_env \<Rightarrow> lock_env" where
  "ulock_write i f = set_write (\<lambda>l. l\<lparr>ls_ulock_list := (ls_ulock_list l)[i := f (ls_ulock_list l ! i)]\<rparr>)"

definition threads_write :: "(threads \<Rightarrow> threads) \<Rightarrow> lock_env \<Rightarrow> lock_env" where
  "threads_write f e = e\<lparr>le_threads := f (le_threads e)\<rparr>"

definition ulock_ownership_set :: "natural_t \<Rightarrow> nat \<Rightarrow> natural_t \<Rightarrow> lock_env \<Rightarrow> lock_env" where
  "ulock_ownership_set a i thread e =
     (let act = th_top_act (le_threads e thread);
          e = e\<lparr>le_held := (le_held e)(act := le_held e act @ [(a, i)])\<rparr>
      in ulock_write i (\<lambda>u. u\<lparr>ul_owner := act\<rparr>) e)"

definition ulock_ownership_clear :: "natural_t \<Rightarrow> nat \<Rightarrow> lock_env \<Rightarrow> lock_env option" where
  "ulock_ownership_clear a i e =
     (let act = ul_owner (ulock_at e i) in
      if (a, i) \<in> set (le_held e act)
      then Some (ulock_write i (\<lambda>u. u\<lparr>ul_owner := THR_ACT_NULL\<rparr>)
             (e\<lparr>le_held := (le_held e)(act := remove1 (a, i) (le_held e act))\<rparr>))
      else None)"

definition stable_code :: "lock_env \<Rightarrow> nat \<Rightarrow> kern_return_t" where
  "stable_code e i = (if ul_stable (ulock_at e i) then KERN_SUCCESS else KERN_LOCK_UNSTABLE)"

definition unchain :: "'a \<Rightarrow> 'a list \<Rightarrow> 'a list option" where
  "unchain x xs = (if x \<in> set xs then Some (remove1 x xs) else None)"

section \<open>Acquiring and releasing\<close>

text \<open>The result \<open>None\<close> of the first part of a call is a thread that is going to block.\<close>

definition take_ulock :: "natural_t \<Rightarrow> natural_t \<Rightarrow> nat \<Rightarrow> lock_env \<Rightarrow> kern_return_t \<times> lock_env" where
  "take_ulock a thread i e =
     (let e = set_write (\<lambda>l. l\<lparr>ls_held_ulocks := ls_held_ulocks l @ [i]\<rparr>) e;
          e = ulock_ownership_set a i thread e;
          e = ulock_write i (\<lambda>u. u\<lparr>ul_state := ULOCK_HELD\<rparr>) e
      in (stable_code e i, e))"

definition acquire_enter :: "natural_t \<Rightarrow> natural_t \<Rightarrow> nat \<Rightarrow> lock_env \<Rightarrow> kern_return_t option \<times> lock_env" where
  "acquire_enter a thread i e =
     (if \<not> ls_active (le_set e) then (Some KERN_LOCK_SET_DESTROYED, e)
      else if ul_state (ulock_at e i) = ULOCK_HELD
      then (None, threads_write (link_thread thread)
              (ulock_write i (\<lambda>u. u\<lparr>ul_blocked_threads := queue_thread (ls_policy (le_set e)) thread (le_threads e) (ul_blocked_threads u),
                                     ul_blocked_count := ul_blocked_count u + 1\<rparr>) e))
      else (let (kr, e) = take_ulock a thread i e in (Some kr, e)))"

definition acquire_abort :: "natural_t \<Rightarrow> nat \<Rightarrow> lock_env \<Rightarrow> lock_env option" where
  "acquire_abort thread i e = do {
     q \<leftarrow> unchain thread (ul_blocked_threads (ulock_at e i));
     Some (ulock_write i (\<lambda>u. u\<lparr>ul_blocked_threads := q, ul_blocked_count := ul_blocked_count u - 1\<rparr>) e) }"

definition try_ulock :: "natural_t \<Rightarrow> natural_t \<Rightarrow> nat \<Rightarrow> lock_env \<Rightarrow> kern_return_t \<times> lock_env" where
  "try_ulock a thread i e =
     (if \<not> ls_active (le_set e) then (KERN_LOCK_SET_DESTROYED, e)
      else if ul_state (ulock_at e i) = ULOCK_HELD
      then (if ul_owner (ulock_at e i) = th_top_act (le_threads e thread) then KERN_LOCK_OWNED_SELF else KERN_LOCK_OWNED, e)
      else take_ulock a thread i e)"

definition set_stable :: "bool \<Rightarrow> natural_t \<Rightarrow> nat \<Rightarrow> lock_env \<Rightarrow> kern_return_t \<times> lock_env" where
  "set_stable st act i e =
     (if \<not> ls_active (le_set e) then (KERN_LOCK_SET_DESTROYED, e)
      else if ul_owner (ulock_at e i) \<noteq> act then (KERN_INVALID_RIGHT, e)
      else (KERN_SUCCESS, ulock_write i (\<lambda>u. u\<lparr>ul_stable := st\<rparr>) e))"

definition transfer_ulock :: "natural_t \<Rightarrow> nat \<Rightarrow> natural_t \<Rightarrow> lock_env \<Rightarrow> lock_env option" where
  "transfer_ulock a i thread e = map_option (ulock_ownership_set a i thread) (ulock_ownership_clear a i e)"

text \<open>The next owner is told and woken in the step that makes it the owner; the source does this just after it has unlocked the ulock.\<close>

definition lock_release_internal :: "natural_t \<Rightarrow> nat \<Rightarrow> natural_t \<Rightarrow> lock_env \<Rightarrow> (kern_return_t \<times> lock_env) option" where
  "lock_release_internal a i thr_act e =
     (if \<not> ls_active (le_set e) then Some (KERN_LOCK_SET_DESTROYED, e)
      else if ul_owner (ulock_at e i) \<noteq> thr_act then Some (KERN_INVALID_RIGHT, e)
      else (case ul_blocked_threads (ulock_at e i) of
        acq_thread # q \<Rightarrow> do {
          e \<leftarrow> transfer_ulock a i acq_thread
                 (ulock_write i (\<lambda>u. u\<lparr>ul_blocked_threads := q, ul_blocked_count := ul_blocked_count u - 1\<rparr>) e);
          Some (KERN_SUCCESS, threads_write (wake_thread acq_thread (stable_code e i)) e) }
      | [] \<Rightarrow> do {
          held \<leftarrow> unchain i (ls_held_ulocks (le_set e));
          e \<leftarrow> ulock_ownership_clear a i (set_write (\<lambda>l. l\<lparr>ls_held_ulocks := held\<rparr>) e);
          Some (KERN_SUCCESS, ulock_write i (\<lambda>u. u\<lparr>ul_state := ULOCK_FREE\<rparr>) e) }))"

section \<open>Handing a lock over\<close>

definition await_handoff :: "natural_t \<Rightarrow> nat \<Rightarrow> lock_env \<Rightarrow> lock_env" where
  "await_handoff thread i e =
     ulock_write i (\<lambda>u. u\<lparr>ul_ho_thread := thread\<rparr>) (set_write (\<lambda>l. l\<lparr>ls_handoff_ulocks := ls_handoff_ulocks l @ [i]\<rparr>) e)"

definition end_handoff :: "nat \<Rightarrow> lock_env \<Rightarrow> lock_env option" where
  "end_handoff i e = do {
     hs \<leftarrow> unchain i (ls_handoff_ulocks (le_set e));
     Some (ulock_write i (\<lambda>u. u\<lparr>ul_ho_thread := THREAD_NULL\<rparr>) (set_write (\<lambda>l. l\<lparr>ls_handoff_ulocks := hs\<rparr>) e)) }"

definition handoff_enter :: "natural_t \<Rightarrow> natural_t \<Rightarrow> nat \<Rightarrow> lock_env \<Rightarrow> (kern_return_t option \<times> lock_env) option" where
  "handoff_enter a ho_thread i e =
     (let ac_thread = ul_ho_thread (ulock_at e i) in
      if \<not> ls_active (le_set e) then Some (Some KERN_LOCK_SET_DESTROYED, e)
      else if ul_owner (ulock_at e i) \<noteq> th_top_act (le_threads e ho_thread) then Some (Some KERN_INVALID_RIGHT, e)
      else if ac_thread \<noteq> THREAD_NULL then do {
        e \<leftarrow> end_handoff i e;
        e \<leftarrow> transfer_ulock a i ac_thread e;
        Some (Some KERN_SUCCESS, threads_write (wake_thread ac_thread (stable_code e i)) e) }
      else Some (None, await_handoff ho_thread i e))"

definition accept_enter :: "natural_t \<Rightarrow> natural_t \<Rightarrow> nat \<Rightarrow> lock_env \<Rightarrow> (kern_return_t option \<times> lock_env) option" where
  "accept_enter a ac_thread i e =
     (let ho_thread = ul_ho_thread (ulock_at e i) in
      if \<not> ls_active (le_set e) then Some (Some KERN_LOCK_SET_DESTROYED, e)
      else if ho_thread \<noteq> THREAD_NULL then
        (if ul_owner (ulock_at e i) \<noteq> th_top_act (le_threads e ho_thread) then Some (Some KERN_ALREADY_WAITING, e)
         else do {
           e \<leftarrow> end_handoff i e;
           e \<leftarrow> transfer_ulock a i ac_thread e;
           Some (Some (stable_code e i), threads_write (wake_thread ho_thread KERN_SUCCESS) e) })
      else Some (None, await_handoff ac_thread i e))"

definition handoff_abort :: "nat \<Rightarrow> lock_env \<Rightarrow> lock_env option" where
  "handoff_abort i e = (if ls_active (le_set e) then end_handoff i e else Some e)"

section \<open>Destruction\<close>

text \<open>The threads blocked on a ulock are woken one after the other, and its owner loses it.\<close>

definition revoke_ulock :: "natural_t \<Rightarrow> nat \<Rightarrow> lock_env \<Rightarrow> lock_env option" where
  "revoke_ulock a i e =
     (let q = ul_blocked_threads (ulock_at e i);
          e = ulock_write i (\<lambda>u. u\<lparr>ul_blocked_threads := [], ul_blocked_count := ul_blocked_count u - int (length q)\<rparr>) e;
          e = threads_write (fold (\<lambda>t. wake_thread t KERN_LOCK_SET_DESTROYED) q) e
      in ulock_ownership_clear a i e)"

primrec revoke_ulocks :: "natural_t \<Rightarrow> nat list \<Rightarrow> lock_env \<Rightarrow> lock_env option" where
  "revoke_ulocks a [] e = Some e"
| "revoke_ulocks a (i # is) e = Option.bind (revoke_ulock a i e) (revoke_ulocks a is)"

primrec wake_handoffs :: "nat list \<Rightarrow> lock_env \<Rightarrow> lock_env option" where
  "wake_handoffs [] e = Some e"
| "wake_handoffs (i # is) e =
     (if ul_ho_thread (ulock_at e i) = THREAD_NULL then None
      else wake_handoffs is (threads_write (wake_thread (ul_ho_thread (ulock_at e i)) KERN_LOCK_SET_DESTROYED) e))"

definition destroy_set :: "natural_t \<Rightarrow> lock_env \<Rightarrow> (kern_return_t \<times> lock_env) option" where
  "destroy_set a e =
     (if \<not> ls_active (le_set e) then Some (KERN_LOCK_SET_DESTROYED, e)
      else do {
        let e = set_write (\<lambda>l. l\<lparr>ls_active := False\<rparr>) e;
        e \<leftarrow> revoke_ulocks a (rev (ls_held_ulocks (le_set e))) e;
        let e = set_write (\<lambda>l. l\<lparr>ls_held_ulocks := []\<rparr>) e;
        e \<leftarrow> wake_handoffs (rev (ls_handoff_ulocks (le_set e))) e;
        Some (KERN_SUCCESS, set_write (\<lambda>l. l\<lparr>ls_handoff_ulocks := []\<rparr>) e) })"

section \<open>The calls\<close>

record lock_task =
  lock_set_list :: "natural_t list"
  lock_sets_owned :: int

record locks =
  lk_kernel :: kernel
  lk_kobjects :: kobjects
  lk_tasks :: "natural_t \<Rightarrow> lock_task"
  lk_threads :: threads
  lk_held :: "natural_t \<Rightarrow> (natural_t \<times> nat) list"
  lk_sets :: "natural_t \<rightharpoonup> lock_set"

definition lock_do :: "natural_t \<Rightarrow> (lock_env \<Rightarrow> ('a \<times> lock_env) option) \<Rightarrow> locks \<Rightarrow> ('a \<times> locks) option" where
  "lock_do a f s = do {
     l \<leftarrow> lk_sets s a;
     (r, e) \<leftarrow> f \<lparr>le_set = l, le_threads = lk_threads s, le_held = lk_held s\<rparr>;
     Some (r, s\<lparr>lk_threads := le_threads e, lk_held := le_held e, lk_sets := (lk_sets s)(a \<mapsto> le_set e)\<rparr>) }"

text \<open>The checks on the lock set and the number of the lock that the calls begin with.\<close>

definition lock_call :: "locks \<Rightarrow> natural_t \<Rightarrow> int \<Rightarrow> (nat \<Rightarrow> (kern_return_t \<times> locks) option) \<Rightarrow> (kern_return_t \<times> locks) option" where
  "lock_call s lock_set lock_id f =
     (if lock_set = LOCK_SET_NULL then Some (KERN_INVALID_ARGUMENT, s)
      else do {
        l \<leftarrow> lk_sets s lock_set;
        if lock_id < 0 \<or> lock_id \<ge> ls_n_ulocks l then Some (KERN_INVALID_ARGUMENT, s) else f (nat lock_id) })"

record lock_windows =
  window :: "locks \<Rightarrow> locks option"
  blocked :: "locks \<Rightarrow> locks option"
  abort_window :: "locks \<Rightarrow> locks option"

definition lock_block ::
  "lock_windows \<Rightarrow> natural_t \<Rightarrow> natural_t \<Rightarrow> (lock_env \<Rightarrow> lock_env option) \<Rightarrow> kern_return_t option \<times> locks \<Rightarrow> (kern_return_t \<times> locks) option" where
  "lock_block ws a thread abort = (\<lambda>(r, s). case r of
     Some kr \<Rightarrow> Some (kr, s)
   | None \<Rightarrow> do {
       s \<leftarrow> window ws s;
       s \<leftarrow> blocked ws (s\<lparr>lk_threads := assert_wait thread (lk_threads s)\<rparr>);
       if th_waiting (lk_threads s thread) then None
       else if th_linked (lk_threads s thread) then do {
         s \<leftarrow> abort_window ws s;
         lock_do a (\<lambda>e. map_option (Pair KERN_ABORTED) (abort e)) s }
       else Some (th_wait_result (lk_threads s thread), s) })"

definition lock_acquire :: "lock_windows \<Rightarrow> locks \<Rightarrow> natural_t \<Rightarrow> natural_t \<Rightarrow> int \<Rightarrow> (kern_return_t \<times> locks) option" where
  "lock_acquire ws s thread lock_set lock_id = lock_call s lock_set lock_id (\<lambda>i.
     Option.bind (lock_do lock_set (\<lambda>e. Some (acquire_enter lock_set thread i e)) s)
       (lock_block ws lock_set thread (acquire_abort thread i)))"

definition lock_release :: "locks \<Rightarrow> natural_t \<Rightarrow> natural_t \<Rightarrow> int \<Rightarrow> (kern_return_t \<times> locks) option" where
  "lock_release s thread lock_set lock_id = lock_call s lock_set lock_id (\<lambda>i.
     lock_do lock_set (lock_release_internal lock_set i (th_top_act (lk_threads s thread))) s)"

definition lock_try :: "locks \<Rightarrow> natural_t \<Rightarrow> natural_t \<Rightarrow> int \<Rightarrow> (kern_return_t \<times> locks) option" where
  "lock_try s thread lock_set lock_id = lock_call s lock_set lock_id (\<lambda>i.
     lock_do lock_set (\<lambda>e. Some (try_ulock lock_set thread i e)) s)"

definition lock_make_stable :: "locks \<Rightarrow> natural_t \<Rightarrow> natural_t \<Rightarrow> int \<Rightarrow> (kern_return_t \<times> locks) option" where
  "lock_make_stable s thread lock_set lock_id = lock_call s lock_set lock_id (\<lambda>i.
     lock_do lock_set (\<lambda>e. Some (set_stable True (th_top_act (lk_threads s thread)) i e)) s)"

definition lock_make_unstable :: "locks \<Rightarrow> natural_t \<times> nat \<Rightarrow> natural_t \<Rightarrow> (kern_return_t \<times> locks) option" where
  "lock_make_unstable s = (\<lambda>(lock_set, i) thr_act. lock_do lock_set (\<lambda>e. Some (set_stable False thr_act i e)) s)"

definition lock_handoff :: "lock_windows \<Rightarrow> locks \<Rightarrow> natural_t \<Rightarrow> natural_t \<Rightarrow> int \<Rightarrow> (kern_return_t \<times> locks) option" where
  "lock_handoff ws s thread lock_set lock_id = lock_call s lock_set lock_id (\<lambda>i.
     Option.bind (lock_do lock_set (handoff_enter lock_set thread i) s)
       (lock_block ws lock_set thread (handoff_abort i)))"

definition lock_handoff_accept :: "lock_windows \<Rightarrow> locks \<Rightarrow> natural_t \<Rightarrow> natural_t \<Rightarrow> int \<Rightarrow> (kern_return_t \<times> locks) option" where
  "lock_handoff_accept ws s thread lock_set lock_id = lock_call s lock_set lock_id (\<lambda>i.
     Option.bind (lock_do lock_set (accept_enter lock_set thread i) s)
       (lock_block ws lock_set thread (handoff_abort i)))"

definition lock_set_reference :: "locks \<Rightarrow> natural_t \<Rightarrow> locks option" where
  "lock_set_reference s lock_set = do {
     l \<leftarrow> lk_sets s lock_set;
     Some (s\<lparr>lk_sets := (lk_sets s)(lock_set \<mapsto> l\<lparr>ls_ref_count := int32 (ls_ref_count l + 1)\<rparr>)\<rparr>) }"

definition lock_set_dereference :: "locks \<Rightarrow> natural_t \<Rightarrow> locks option" where
  "lock_set_dereference s lock_set = do {
     l \<leftarrow> lk_sets s lock_set;
     let ref_count = int32 (ls_ref_count l - 1);
     Some (s\<lparr>lk_sets := (lk_sets s)(lock_set :=
       (if ref_count = 0 then None else Some (l\<lparr>ls_ref_count := ref_count\<rparr>)))\<rparr>) }"

text \<open>
  \<open>sizes\<close> are the sizes of the structures \<open>lock_set\<close> and \<open>ulock\<close>. The initialisation of the ulocks writes past the
  end of the memory when this is smaller than the ulocks, and is then an error. \<open>old\<close> is the memory before.
\<close>

definition lock_set_size :: "nat \<times> nat \<Rightarrow> int \<Rightarrow> 32 word" where
  "lock_set_size = (\<lambda>(sizeof_lock_set, sizeof_ulock) n_ulocks.
     of_nat sizeof_lock_set + of_nat sizeof_ulock * of_int (n_ulocks - 1))"

definition ulocks_fit :: "nat \<times> nat \<Rightarrow> int \<Rightarrow> bool" where
  "ulocks_fit = (\<lambda>(sizeof_lock_set, sizeof_ulock) n_ulocks.
     int sizeof_lock_set + int sizeof_ulock * (n_ulocks - 1) \<le> uint (lock_set_size (sizeof_lock_set, sizeof_ulock) n_ulocks))"

definition fresh_ulock :: ulock where
  "fresh_ulock = \<lparr>ul_owner = THR_ACT_NULL, ul_stable = True, ul_state = ULOCK_FREE, ul_ho_thread = THREAD_NULL,
     ul_blocked_count = 0, ul_blocked_threads = []\<rparr>"

definition lock_set_create :: "nat \<times> nat \<Rightarrow> lock_set \<Rightarrow> locks \<Rightarrow> natural_t \<Rightarrow> int \<Rightarrow> int \<Rightarrow> (kern_return_t \<times> natural_t \<times> locks) option" where
  "lock_set_create sizes old s task n_ulocks policy =
     (if task = TASK_NULL \<or> n_ulocks \<le> 0 \<or> policy > SYNC_POLICY_MAX then Some (KERN_INVALID_ARGUMENT, LOCK_SET_NULL, s)
      else let (lock_set, k) = kalloc (lk_kernel s) in
        if lock_set = LOCK_SET_NULL then Some (KERN_RESOURCE_SHORTAGE, LOCK_SET_NULL, s\<lparr>lk_kernel := k\<rparr>)
        else let (port, k) = ipc_port_alloc_special k (ipc_space_kernel k);
                 l = old\<lparr>ls_n_ulocks := n_ulocks, ls_policy := policy, ls_ref_count := 1, ls_handoff_ulocks := [],
                         ls_held_ulocks := [], ls_port := port\<rparr>;
                 s = s\<lparr>lk_kernel := k, lk_sets := (lk_sets s)(lock_set \<mapsto> l)\<rparr> in
          if port = IP_NULL then do {
            s \<leftarrow> lock_set_dereference s lock_set;
            Some (KERN_RESOURCE_SHORTAGE, LOCK_SET_NULL, s) }
          else do {
            (k, ko) \<leftarrow> ipc_kobject_set (lk_kernel s) (lk_kobjects s) port lock_set IKOT_LOCK_SET;
            if \<not> ulocks_fit sizes n_ulocks then None
            else do {
              let l = l\<lparr>ls_ulock_list := replicate (nat n_ulocks) fresh_ulock, ls_owner := task, ls_active := True\<rparr>;
              let t = lk_tasks s task;
              Some (KERN_SUCCESS, lock_set, s\<lparr>lk_kernel := k, lk_kobjects := ko,
                lk_tasks := (lk_tasks s)(task := t\<lparr>lock_set_list := lock_set # lock_set_list t,
                                                     lock_sets_owned := int32 (lock_sets_owned t + 1)\<rparr>),
                lk_sets := (lk_sets s)(lock_set \<mapsto> l)\<rparr>) } })"

definition lock_set_destroy :: "locks \<Rightarrow> natural_t \<Rightarrow> natural_t \<Rightarrow> (kern_return_t \<times> locks) option" where
  "lock_set_destroy s task lock_set =
     (if task = TASK_NULL \<or> lock_set = LOCK_SET_NULL then Some (KERN_INVALID_ARGUMENT, s)
      else do {
        l \<leftarrow> lk_sets s lock_set;
        if ls_owner l \<noteq> task then Some (KERN_INVALID_RIGHT, s)
        else do {
          (kr, s) \<leftarrow> lock_do lock_set (destroy_set lock_set) s;
          if kr \<noteq> KERN_SUCCESS then Some (kr, s)
          else do {
            let t = lk_tasks s task;
            sets \<leftarrow> unchain lock_set (lock_set_list t);
            let s = s\<lparr>lk_tasks := (lk_tasks s)(task := t\<lparr>lock_set_list := sets,
                                                        lock_sets_owned := int32 (lock_sets_owned t - 1)\<rparr>)\<rparr>;
            k \<leftarrow> ipc_port_dealloc_kernel (ls_port l) (lk_kernel s);
            s \<leftarrow> lock_set_dereference (s\<lparr>lk_kernel := k\<rparr>) lock_set;
            Some (KERN_SUCCESS, s) } } })"

definition convert_port_to_lock_set :: "locks \<Rightarrow> ipc_port_t \<Rightarrow> (natural_t \<times> locks) option" where
  "convert_port_to_lock_set s port =
     (if IP_VALID port then do {
        p \<leftarrow> k_ports (lk_kernel s) port;
        if ip_active p \<and> ip_kotype p = IKOT_LOCK_SET then do {
          s \<leftarrow> lock_set_reference s (lk_kobjects s port);
          Some (lk_kobjects s port, s) }
        else Some (LOCK_SET_NULL, s) }
      else Some (LOCK_SET_NULL, s))"

definition convert_lock_set_to_port :: "locks \<Rightarrow> natural_t \<Rightarrow> (ipc_port_t \<times> locks) option" where
  "convert_lock_set_to_port s lock_set =
     (if lock_set \<noteq> LOCK_SET_NULL then do {
        l \<leftarrow> lk_sets s lock_set;
        (port, k) \<leftarrow> ipc_port_make_send (lk_kernel s) (ls_port l);
        Some (port, s\<lparr>lk_kernel := k\<rparr>) }
      else Some (IP_NULL, s))"

end
