(* ===== verification/Sync_Sema_Facts.thy ===== *)
theory Sync_Sema_Facts
  imports Sync_Sema
begin

text \<open>
  Semaphores in use by several threads. The comment at the head of \<^verbatim>\<open>kern/sync_sema.c\<close> states
  a rule on the count and the queue of waiting threads; here it is proved for every interleaving of the
  operations, together with what goes wrong at the points where the lock is not held.
\<close>

section \<open>Runs\<close>

text \<open>Where a thread is: outside, in \<open>thread_block\<close>, or past the test for an abort and before the lock.\<close>

datatype wait_pc = PC_IDLE | PC_BLOCKED | PC_ABORTING

record sema_world =
  sw_sema :: semaphore
  sw_threads :: threads
  sw_pc :: "natural_t \<Rightarrow> wait_pc"

text \<open>
  The states of a semaphore created with the value \<open>v\<close> after \<open>n\<close> steps: signals of all three kinds, waits
  with and without a limit, destruction, a timeout or an interrupt of a thread, and the steps of a
  thread that runs again. A run ends where a thread removes itself from a queue that it is no longer in: what the
  code does to the memory then, and after it, is undefined.
\<close>

inductive sema_run :: "int \<Rightarrow> nat \<Rightarrow> sema_world \<Rightarrow> bool" for v where
  create: "sm_count m = v \<Longrightarrow> sm_blocked_threads m = [] \<Longrightarrow>
     sema_run v 0 \<lparr>sw_sema = m, sw_threads = ts, sw_pc = (\<lambda>_. PC_IDLE)\<rparr>"
| signal: "sema_run v n w \<Longrightarrow> all \<longrightarrow> target = None \<Longrightarrow>
     sema_signal target all (sw_sema w) (sw_threads w) = Some (kr, m, ts) \<Longrightarrow>
     sema_run v (Suc n) (w\<lparr>sw_sema := m, sw_threads := ts\<rparr>)"
| destroy: "sema_run v n w \<Longrightarrow> sema_destroy (sw_sema w) (sw_threads w) = Some (kr, m, ts) \<Longrightarrow>
     sema_run v (Suc n) (w\<lparr>sw_sema := m, sw_threads := ts\<rparr>)"
| wait: "sema_run v n w \<Longrightarrow> sw_pc w t = PC_IDLE \<Longrightarrow> sema_wait t ticks (sw_sema w) (sw_threads w) = (r, m, ts) \<Longrightarrow>
     sema_run v (Suc n) (w\<lparr>sw_sema := m, sw_threads := ts, sw_pc := (sw_pc w)(t := if r = None then PC_BLOCKED else PC_IDLE)\<rparr>)"
| interrupt: "sema_run v n w \<Longrightarrow> sema_run v (Suc n) (w\<lparr>sw_threads := clear_wait t (wait_code r) (sw_threads w)\<rparr>)"
| resume: "sema_run v n w \<Longrightarrow> sw_pc w t = PC_BLOCKED \<Longrightarrow> \<not> th_waiting (sw_threads w t) \<Longrightarrow>
     sema_run v (Suc n) (w\<lparr>sw_pc := (sw_pc w)(t := if th_linked (sw_threads w t) then PC_ABORTING else PC_IDLE)\<rparr>)"
| abort: "sema_run v n w \<Longrightarrow> sw_pc w t = PC_ABORTING \<Longrightarrow> sema_abort t (sw_sema w) (sw_threads w) = Some (kr, m, ts) \<Longrightarrow>
     sema_run v (Suc n) (w\<lparr>sw_sema := m, sw_threads := ts, sw_pc := (sw_pc w)(t := PC_IDLE)\<rparr>)"

text \<open>A run starts with the semaphore that \<open>semaphore_create\<close> makes.\<close>

lemma semaphore_create_starts_run:
  assumes "semaphore_create old s task policy v = Some (KERN_SUCCESS, a, s')"
  shows "\<exists>m. sy_semas s' a = Some m \<and> sm_active m \<and> sm_owner m = task \<and> 0 \<le> v \<and>
    sema_run v 0 \<lparr>sw_sema = m, sw_threads = ts, sw_pc = (\<lambda>_. PC_IDLE)\<rparr> \<and>
    a \<in> set (semaphore_list (sy_tasks s' task))"
  using assms
  by (auto simp: semaphore_create_def Let_def bind_eq_Some_conv split: if_splits prod.splits intro!: sema_run.create)

section \<open>Waiting threads\<close>

text \<open>A thread that sleeps, or takes itself for aborted, or would do so, is in the queue; who is in it is not outside.\<close>

definition waiters :: "(natural_t \<Rightarrow> wait_pc) \<Rightarrow> threads \<Rightarrow> natural_t list \<Rightarrow> bool" where
  "waiters pc ts q \<longleftrightarrow> distinct q \<and> (\<forall>t\<in>set q. pc t \<noteq> PC_IDLE \<and> th_linked (ts t)) \<and>
     (\<forall>t. pc t = PC_BLOCKED \<and> th_waiting (ts t) \<longrightarrow> t \<in> set q) \<and> (\<forall>t. pc t \<noteq> PC_IDLE \<and> th_linked (ts t) \<longrightarrow> t \<in> set q)"

lemmas thread_defs = assert_wait_def clear_wait_def operation_complete_def link_thread_def wake_thread_def

lemma waitersI:
  assumes "distinct q" "\<And>t. t \<in> set q \<Longrightarrow> pc t \<noteq> PC_IDLE \<and> th_linked (ts t)"
    "\<And>t. pc t = PC_BLOCKED \<Longrightarrow> th_waiting (ts t) \<Longrightarrow> t \<in> set q" "\<And>t. pc t \<noteq> PC_IDLE \<Longrightarrow> th_linked (ts t) \<Longrightarrow> t \<in> set q"
  shows "waiters pc ts q"
  using assms unfolding waiters_def by blast

lemma waitersD:
  assumes "waiters pc ts q"
  shows "distinct q" "t \<in> set q \<Longrightarrow> pc t \<noteq> PC_IDLE \<and> th_linked (ts t)"
    "pc t = PC_BLOCKED \<Longrightarrow> th_waiting (ts t) \<Longrightarrow> t \<in> set q" "pc t \<noteq> PC_IDLE \<Longrightarrow> th_linked (ts t) \<Longrightarrow> t \<in> set q"
  using assms unfolding waiters_def by blast+

text \<open>What a queue promises to the operations that wait: it takes the thread in and loses nobody.\<close>

locale wait_queue =
  fixes enq :: "int \<Rightarrow> natural_t \<Rightarrow> threads \<Rightarrow> natural_t list \<Rightarrow> natural_t list"
  assumes enq_mset: "mset (enq policy t ts q) = add_mset t (mset q)"
begin

lemma enq_set: "set (enq policy t ts q) = insert t (set q)"
  by (metis enq_mset set_mset_add_mset_insert set_mset_mset)

lemma enq_length: "length (enq policy t ts q) = Suc (length q)"
  by (metis enq_mset size_add_mset size_mset)

lemma enq_distinct: "distinct (enq policy t ts q) \<longleftrightarrow> t \<notin> set q \<and> distinct q"
  by (metis enq_mset distinct.simps(2) mset.simps(2) mset_eq_imp_distinct_iff)

lemma block_waiters:
  assumes "waiters pc ts q" and "pc t = PC_IDLE"
  shows "waiters (pc(t := PC_BLOCKED)) (assert_wait t (link_thread t ts)) (enq policy t ts q)"
proof (rule waitersI)
  show "distinct (enq policy t ts q)" using waitersD(1,2) [OF assms(1)] assms(2) by (auto simp: enq_distinct)
next
  fix u
  note d = waitersD(2-4) [OF assms(1), of u]
  let ?pc = "pc(t := PC_BLOCKED)" and ?ts = "assert_wait t (link_thread t ts)"
  show "u \<in> set (enq policy t ts q) \<Longrightarrow> ?pc u \<noteq> PC_IDLE \<and> th_linked (?ts u)" using d(1) by (auto simp: enq_set thread_defs)
  show "?pc u = PC_BLOCKED \<Longrightarrow> th_waiting (?ts u) \<Longrightarrow> u \<in> set (enq policy t ts q)" using d(2) by (auto simp: enq_set thread_defs split: if_splits)
  show "?pc u \<noteq> PC_IDLE \<Longrightarrow> th_linked (?ts u) \<Longrightarrow> u \<in> set (enq policy t ts q)" using d(3) by (auto simp: enq_set thread_defs split: if_splits)
qed

end

interpretation wq: wait_queue queue_thread
  by unfold_locales (simp add: queue_thread_def)

lemma wake_waiters:
  assumes "waiters pc ts q" "t \<in> set q"
  shows "waiters pc (wake_thread t r ts) (remove1 t q)"
proof (rule waitersI)
  fix u
  note d = waitersD(2-4) [OF assms(1), of u] and q = waitersD(1) [OF assms(1)]
  show "u \<in> set (remove1 t q) \<Longrightarrow> pc u \<noteq> PC_IDLE \<and> th_linked (wake_thread t r ts u)" using d(1) q by (auto simp: thread_defs)
  show "pc u = PC_BLOCKED \<Longrightarrow> th_waiting (wake_thread t r ts u) \<Longrightarrow> u \<in> set (remove1 t q)"
    using d(2) q by (auto simp: thread_defs split: if_splits)
  show "pc u \<noteq> PC_IDLE \<Longrightarrow> th_linked (wake_thread t r ts u) \<Longrightarrow> u \<in> set (remove1 t q)"
    using d(3) q by (auto simp: thread_defs split: if_splits)
qed (simp add: waitersD(1) [OF assms(1)])

lemma interrupt_waiters: "waiters pc ts q \<Longrightarrow> waiters pc (clear_wait t r ts) q"
  by (intro waitersI) (auto simp: thread_defs dest: waitersD split: if_splits)

lemma abort_waiters:
  "waiters pc ts q \<Longrightarrow> waiters (pc(t := PC_IDLE)) ts (remove1 t q)"
  by (intro waitersI) (auto dest: waitersD split: if_splits)

lemma resume_waiters:
  "waiters pc ts q \<Longrightarrow> pc t = PC_BLOCKED \<Longrightarrow> \<not> th_waiting (ts t) \<Longrightarrow>
   waiters (pc(t := if th_linked (ts t) then PC_ABORTING else PC_IDLE)) ts q"
  by (intro waitersI) (auto dest: waitersD intro: waitersD(4) split: if_splits)

section \<open>The count\<close>

lemma int32_id: "- (2 ^ 31) \<le> i \<Longrightarrow> i < 2 ^ 31 \<Longrightarrow> int32 i = i"
  by (simp add: int32_def signed_take_bit_int_eq_self)

text \<open>The rule of the source on count and queue, with bounds that keep the count away from an overflow.\<close>

definition sema_ok :: "int \<Rightarrow> int \<Rightarrow> semaphore \<Rightarrow> bool" where
  "sema_ok lo hi m \<longleftrightarrow> int (length (sm_blocked_threads m)) = max 0 (- sm_count m) \<and> lo \<le> sm_count m \<and> sm_count m \<le> hi"

lemma sema_ok_mono: "sema_ok lo hi m \<Longrightarrow> lo' \<le> lo \<Longrightarrow> hi \<le> hi' \<Longrightarrow> sema_ok lo' hi' m"
  by (simp add: sema_ok_def)

lemma signal_round_ok:
  assumes "sema_ok lo hi m" and "- (2 ^ 31) \<le> lo" "0 \<le> hi" "hi < 2 ^ 31 - 1" and "waiters pc ts (sm_blocked_threads m)"
  shows "\<exists>c. signal_round target m = Some c \<and> (case c of
      SIGNAL_BREAK kr m' \<Rightarrow> sema_ok lo (hi + 1) m' \<and> sm_blocked_threads m' = sm_blocked_threads m \<and> (target = None \<longrightarrow> 0 \<le> sm_count m)
    | SIGNAL_THREAD t m' \<Rightarrow> sema_ok lo hi m' \<and> waiters pc (wake_thread t kr' ts) (sm_blocked_threads m'))"
proof (cases target)
  case None
  show ?thesis
  proof (cases "sm_count m < 0")
    case True
    then obtain t q where "sm_blocked_threads m = t # q"
      using assms(1) by (cases "sm_blocked_threads m") (auto simp: sema_ok_def)
    then show ?thesis using assms True wake_waiters [OF assms(5), of t]
      by (auto simp: None signal_round_def sema_ok_def int32_id)
  qed (use assms in \<open>auto simp: None signal_round_def sema_ok_def int32_id\<close>)
next
  case (Some t)
  show ?thesis
  proof (cases "t \<in> set (sm_blocked_threads m)")
    case True
    then have "0 < length (sm_blocked_threads m)" by (cases "sm_blocked_threads m") auto
    moreover from this have "sm_count m < 0" using assms(1)
      by (simp add: sema_ok_def max_def del: length_greater_0_conv split: if_splits)
    ultimately show ?thesis using assms(1-4) True wake_waiters [OF assms(5) True]
      by (auto simp: Some signal_round_def sema_ok_def int32_id length_remove1 of_nat_diff)
  qed (use assms in \<open>auto simp: Some signal_round_def sema_ok_def\<close>)
qed

lemma signal_loop_ok:
  assumes "sema_ok lo hi m" and "- (2 ^ 31) \<le> lo" "0 \<le> hi" "hi < 2 ^ 31 - 1" and "waiters pc ts (sm_blocked_threads m)"
  shows "\<exists>kr m' ts'. signal_loop target all m ts = Some (kr, m', ts') \<and> sema_ok lo (hi + 1) m' \<and>
    waiters pc ts' (sm_blocked_threads m') \<and> (all \<and> target = None \<longrightarrow> 0 \<le> sm_count m')"
  using assms
proof (induction target all m ts rule: signal_loop.induct)
  case (1 target all m ts)
  obtain c where c: "signal_round target m = Some c" and ok: "case c of
      SIGNAL_BREAK kr m' \<Rightarrow> sema_ok lo (hi + 1) m' \<and> sm_blocked_threads m' = sm_blocked_threads m \<and> (target = None \<longrightarrow> 0 \<le> sm_count m)
    | SIGNAL_THREAD t m' \<Rightarrow> sema_ok lo hi m' \<and> waiters pc (wake_thread t KERN_SUCCESS ts) (sm_blocked_threads m')"
    using signal_round_ok [OF 1(2-6), of target KERN_SUCCESS] by blast
  show ?case
  proof (cases c)
    case (SIGNAL_BREAK kr m')
    moreover have "0 \<le> sm_count m'" if "target = None" using ok that c SIGNAL_BREAK 1(2-5)
      by (auto simp: signal_round_def sema_ok_def int32_id split: if_splits list.splits)
    ultimately show ?thesis using 1(6) c ok by (simp add: signal_loop.simps)
  next
    case (SIGNAL_THREAD t m')
    note ok = ok [unfolded SIGNAL_THREAD, simplified] and c = c [unfolded SIGNAL_THREAD]
    show ?thesis
    proof (cases "all \<and> sm_count m' < 0")
      case True
      have "signal_loop target all m ts = signal_loop target all m' (wake_thread t KERN_SUCCESS ts)"
        using True by (subst signal_loop.simps) (simp add: c Let_def)
      then show ?thesis using 1(1) [OF c refl refl True] 1(3-5) ok by simp
    next
      case False
      then have "signal_loop target all m ts = Some (KERN_SUCCESS, m', wake_thread t KERN_SUCCESS ts)"
        by (subst signal_loop.simps) (auto simp add: c Let_def)
      moreover have "sema_ok lo (hi + 1) m'" using ok by (auto intro: sema_ok_mono)
      ultimately show ?thesis using ok False by auto
    qed
  qed
qed

lemma signal_loop_active: "signal_loop target all m ts = Some (kr, m', ts') \<Longrightarrow> sm_active m' = sm_active m"
  by (induction target all m ts rule: signal_loop.induct)
     (subst (asm) signal_loop.simps, auto simp: signal_round_def Let_def split: option.splits signal_choice.splits if_splits list.splits)

lemma sema_signal_ok:
  assumes "sema_ok lo hi m" and "- (2 ^ 31) \<le> lo" "lo \<le> 0" "0 \<le> hi" "hi < 2 ^ 31 - 1"
    and "waiters pc ts (sm_blocked_threads m)" and "all \<longrightarrow> target = None"
  obtains kr m' ts' where "sema_signal target all m ts = Some (kr, m', ts')" and "sema_ok lo (hi + 1) m'"
    and "waiters pc ts' (sm_blocked_threads m')"
proof (cases "sm_active m")
  case True
  obtain kr m' ts' where l: "signal_loop target all m ts = Some (kr, m', ts')" "sema_ok lo (hi + 1) m'"
    "waiters pc ts' (sm_blocked_threads m')" "all \<Longrightarrow> target = None \<Longrightarrow> 0 \<le> sm_count m'"
    using signal_loop_ok [OF assms(1,2,4-6), of target all] by blast
  have "sema_ok lo (hi + 1) (if all then m'\<lparr>sm_count := 0\<rparr> else m')"
    using l(2,4) assms(3,4,7) by (auto simp: sema_ok_def)
  then show ?thesis using l True 
    by (intro that [of kr "if all then m'\<lparr>sm_count := 0\<rparr> else m'" ts']) (auto simp: sema_signal_def)
next
  case False
  then show ?thesis using assms(1,6) by (intro that) (auto simp: sema_signal_def intro: sema_ok_mono)
qed

lemma sema_destroy_loop_ok:
  assumes "sema_ok lo hi m" and "- (2 ^ 31) \<le> lo" "0 \<le> hi" "hi < 2 ^ 31 - 1" and "waiters pc ts (sm_blocked_threads m)"
  shows "\<exists>m' ts'. sema_destroy_loop m ts = Some (m', ts') \<and> sema_ok lo (hi + 1) m' \<and>
    waiters pc ts' (sm_blocked_threads m') \<and> 0 \<le> sm_count m'"
  using assms
proof (induction m ts rule: sema_destroy_loop.induct)
  case (1 m ts)
  have i: "int32 (sm_count m + 1) = sm_count m + 1" using 1(2-5) by (auto simp: sema_ok_def intro!: int32_id)
  show ?case
  proof (cases "sm_count m < 0")
    case True
    then obtain t q where q: "sm_blocked_threads m = t # q"
      using 1(2) by (cases "sm_blocked_threads m") (auto simp: sema_ok_def)
    let ?m = "m\<lparr>sm_count := int32 (sm_count m + 1), sm_blocked_threads := q\<rparr>"
    have "sema_destroy_loop m ts = sema_destroy_loop ?m (wake_thread t KERN_SEMAPHORE_DESTROYED ts)"
      using True q by (subst sema_destroy_loop.simps) (simp add: Let_def)
    moreover have "sema_ok lo hi ?m" using 1(2,4) True q by (auto simp: i sema_ok_def)
    moreover have "waiters pc (wake_thread t KERN_SEMAPHORE_DESTROYED ts) q" using wake_waiters [OF 1(6), of t] q by simp
    ultimately show ?thesis using 1(1) [OF refl True q] 1(3-5) by simp
  next
    case False
    then have "sema_destroy_loop m ts = Some (m\<lparr>sm_count := sm_count m + 1\<rparr>, ts)"
      by (subst sema_destroy_loop.simps) (simp add: i)
    then show ?thesis using False 1(2,6) by (auto simp: sema_ok_def)
  qed
qed

lemma sema_destroy_ok:
  assumes "sema_ok lo hi m" and "- (2 ^ 31) \<le> lo" "0 \<le> hi" "hi < 2 ^ 31 - 1" and "waiters pc ts (sm_blocked_threads m)"
    and "\<not> sm_active m \<Longrightarrow> 0 \<le> sm_count m"
  obtains kr m' ts' where "sema_destroy m ts = Some (kr, m', ts')" and "sema_ok lo (hi + 1) m'" "waiters pc ts' (sm_blocked_threads m')"
    and "0 \<le> sm_count m'"
proof -
  have "sema_ok lo hi (m\<lparr>sm_active := False\<rparr>)" "waiters pc ts (sm_blocked_threads (m\<lparr>sm_active := False\<rparr>))"
    using assms(1,5) by (simp_all add: sema_ok_def)
  from sema_destroy_loop_ok [OF this(1) assms(2-4) this(2)]
  obtain m' ts' where "sema_destroy_loop (m\<lparr>sm_active := False\<rparr>) ts = Some (m', ts')" "sema_ok lo (hi + 1) m'"
    "waiters pc ts' (sm_blocked_threads m')" "0 \<le> sm_count m'" by blast
  note loop = this
  have ok: "sema_ok lo (hi + 1) m" "sema_ok lo (hi + 1) (m\<lparr>sm_active := False\<rparr>)" using assms(1) by (simp_all add: sema_ok_def)
  show ?thesis
  proof (cases "sm_active m")
    case False
    then show ?thesis using ok assms(5,6) by (intro that [of KERN_TERMINATED m ts]) (simp_all add: sema_destroy_def)
  next
    case active: True
    show ?thesis
    proof (cases "sm_count m < 0")
      case True
      then show ?thesis using loop active by (intro that [of KERN_SUCCESS m' ts']) (simp_all add: sema_destroy_def)
    next
      case False
      then show ?thesis using ok active assms(5)
        by (intro that [of KERN_SUCCESS "m\<lparr>sm_active := False\<rparr>" ts]) (simp_all add: sema_destroy_def)
    qed
  qed
qed

lemma sema_wait_ok:
  assumes "sema_ok lo hi m" and "- (2 ^ 31) < lo" "hi < 2 ^ 31" and "waiters pc ts (sm_blocked_threads m)" "pc t = PC_IDLE"
    and "sema_wait t ticks m ts = (r, m', ts')"
  shows "sema_ok (lo - 1) hi m' \<and> waiters (pc(t := if r = None then PC_BLOCKED else PC_IDLE)) ts' (sm_blocked_threads m')"
proof -
  have i: "int32 (sm_count m - 1) = sm_count m - 1" using assms(1-3) by (auto simp: sema_ok_def intro!: int32_id)
  have "pc(t := PC_IDLE) = pc" using assms(5) by auto
  then show ?thesis using assms(1,4,6) wq.block_waiters [OF assms(4,5)]
    by (auto simp: sema_wait_def i Let_def sema_ok_def wq.enq_length split: if_splits)
qed

lemma sema_abort_ok:
  assumes "sema_ok lo hi m" and "- (2 ^ 31) \<le> lo" "0 \<le> hi" "hi < 2 ^ 31" and "waiters pc ts (sm_blocked_threads m)"
    and "\<not> sm_active m \<Longrightarrow> 0 \<le> sm_count m" and "sema_abort t m ts = Some (kr, m', ts')"
  shows "sema_ok lo hi m' \<and> waiters (pc(t := PC_IDLE)) ts' (sm_blocked_threads m') \<and> sm_active m' = sm_active m \<and>
    (\<not> sm_active m \<longrightarrow> m' = m)"
proof (cases "sm_active m")
  case True
  then have t: "t \<in> set (sm_blocked_threads m)" and m': "ts' = ts"
      "m' = m\<lparr>sm_blocked_threads := remove1 t (sm_blocked_threads m), sm_count := int32 (sm_count m + 1)\<rparr>"
    using assms(7) by (auto simp: sema_abort_def split: if_splits)
  from t have l: "0 < length (sm_blocked_threads m)" by (cases "sm_blocked_threads m") auto
  then have c: "sm_count m < 0" using assms(1)
    by (simp add: sema_ok_def max_def del: length_greater_0_conv split: if_splits)
  then have "int32 (sm_count m + 1) = sm_count m + 1" using assms(1-4) by (auto simp: sema_ok_def intro!: int32_id)
  then show ?thesis using assms(1,3) t l c abort_waiters [OF assms(5)]
    by (auto simp: m' sema_ok_def length_remove1 of_nat_diff True)
next
  case False
  then have "sm_blocked_threads m = []" using assms(1,6) by (auto simp: sema_ok_def)
  then show ?thesis using assms(1,5,7) False abort_waiters [OF assms(5), of t] by (auto simp: sema_abort_def)
qed

section \<open>All runs\<close>

definition sema_inv :: "int \<Rightarrow> nat \<Rightarrow> sema_world \<Rightarrow> bool" where
  "sema_inv v n w \<longleftrightarrow> sema_ok (- int n) (v + int n) (sw_sema w) \<and>
     waiters (sw_pc w) (sw_threads w) (sm_blocked_threads (sw_sema w)) \<and>
     (\<not> sm_active (sw_sema w) \<longrightarrow> 0 \<le> sm_count (sw_sema w))"

lemma sema_inv_later: "sema_inv v n w \<Longrightarrow> sema_inv v (Suc n) w"
  by (auto simp: sema_inv_def intro: sema_ok_mono)

lemma sema_signal_inactive:
  "sema_signal target all m ts = Some (kr, m', ts') \<Longrightarrow> sm_active m' = sm_active m \<and> (\<not> sm_active m \<longrightarrow> m' = m)"
  by (auto simp: sema_signal_def dest: signal_loop_active split: if_splits)

lemma sema_wait_inactive:
  "sema_wait t ticks m ts = (r, m', ts') \<Longrightarrow> sm_active m' = sm_active m \<and> (\<not> sm_active m \<longrightarrow> m' = m)"
  by (auto simp: sema_wait_def Let_def split: if_splits)

lemma sema_run_inv:
  assumes "sema_run v n w" and "0 \<le> v" and "v + int n < 2 ^ 31"
  shows "sema_inv v n w"
  using assms
proof (induction rule: sema_run.induct)
  case (create m ts)
  then show ?case by (simp add: sema_inv_def sema_ok_def waiters_def)
next
  case (signal n w all target kr m ts)
  then have inv: "sema_inv v n w" by simp
  then obtain kr' m' ts' where "sema_signal target all (sw_sema w) (sw_threads w) = Some (kr', m', ts')"
    "sema_ok (- int n) (v + int n + 1) m'" "waiters (sw_pc w) ts' (sm_blocked_threads m')"
    using sema_signal_ok [of "- int n" "v + int n" "sw_sema w" "sw_pc w" "sw_threads w" all target] signal.prems signal.hyps(2)
    by (auto simp: sema_inv_def)
  then show ?case using inv signal.hyps(3) sema_signal_inactive [OF signal.hyps(3)]
    by (auto simp: sema_inv_def intro: sema_ok_mono)
next
  case (destroy n w kr m ts)
  then have inv: "sema_inv v n w" by simp
  then obtain kr' m' ts' where "sema_destroy (sw_sema w) (sw_threads w) = Some (kr', m', ts')"
    "sema_ok (- int n) (v + int n + 1) m'" "waiters (sw_pc w) ts' (sm_blocked_threads m')" "0 \<le> sm_count m'"
    using sema_destroy_ok [of "- int n" "v + int n" "sw_sema w" "sw_pc w" "sw_threads w"] destroy.prems
    by (auto simp: sema_inv_def)
  then show ?case using inv destroy.hyps(2) by (auto simp: sema_inv_def intro: sema_ok_mono)
next
  case (wait n w t ticks r m ts)
  then have inv: "sema_inv v n w" by simp
  then show ?case using wait.prems sema_wait_inactive [OF wait.hyps(3)]
      sema_wait_ok [of "- int n" "v + int n" "sw_sema w" "sw_pc w" "sw_threads w" t ticks r m ts] wait.hyps(2,3)
    by (auto simp: sema_inv_def intro: sema_ok_mono)
next
  case (interrupt n w t r)
  then have "sema_inv v n w" by simp
  from sema_inv_later [OF this] show ?case by (auto simp: sema_inv_def intro: interrupt_waiters)
next
  case (resume n w t)
  then have "sema_inv v n w" by simp
  from sema_inv_later [OF this] show ?case using resume_waiters [of "sw_pc w" "sw_threads w" _ t] resume.hyps(2,3)
    by (auto simp: sema_inv_def)
next
  case (abort n w t kr m ts)
  then have "sema_inv v n w" by simp
  then show ?case using abort.prems abort.hyps(3)
      sema_abort_ok [of "- int n" "v + int n" "sw_sema w" "sw_pc w" "sw_threads w" t kr m ts]
    by (auto simp: sema_inv_def intro: sema_ok_mono)
qed

text \<open>
  C14: The rule of the semaphores holds in every interleaving, up to the one kind of step that corrupts the queue. After any
  sequence of signals, waits, timeouts, interrupts, resumptions, aborts and a destruction of a semaphore created with the
  value \<open>v\<close>, in which no thread has removed itself from a queue that it was no longer in, as long as the number of steps
  is too small for the count to overflow: if the count is not negative then no thread is in the queue, if it is
  \<open>-n\<close> then exactly \<open>n\<close> threads are; no wakeup is lost, that is, each thread that sleeps in the call is in the queue
  and so is found by a later signal; no signal and no destruction panics; and the corrupting step can only be
  the abort of a thread that a signal has taken from the queue of a live semaphore after the thread saw
  that it was not woken by one and before it took the lock.
\<close>

theorem semaphore_rule:
  assumes "sema_run v n w" and "0 \<le> v" and "v + int n < 2 ^ 31 - 1"
  shows "(0 \<le> sm_count (sw_sema w) \<longrightarrow> sm_blocked_threads (sw_sema w) = []) \<and>
    (sm_count (sw_sema w) < 0 \<longrightarrow> int (length (sm_blocked_threads (sw_sema w))) = - sm_count (sw_sema w)) \<and>
    distinct (sm_blocked_threads (sw_sema w)) \<and>
    (\<forall>t. sw_pc w t = PC_BLOCKED \<and> th_waiting (sw_threads w t) \<longrightarrow> t \<in> set (sm_blocked_threads (sw_sema w))) \<and>
    (\<forall>target. sema_signal target False (sw_sema w) (sw_threads w) \<noteq> None) \<and>
    sema_signal None True (sw_sema w) (sw_threads w) \<noteq> None \<and>
    sema_destroy (sw_sema w) (sw_threads w) \<noteq> None \<and>
    (\<forall>t. sw_pc w t = PC_ABORTING \<longrightarrow>
       (sema_abort t (sw_sema w) (sw_threads w) = None \<longleftrightarrow> sm_active (sw_sema w) \<and> \<not> th_linked (sw_threads w t)))"
proof -
  have inv: "sema_inv v n w" using sema_run_inv assms by simp
  have "sema_signal target all (sw_sema w) (sw_threads w) \<noteq> None" if "all \<longrightarrow> target = None" for target all
    using sema_signal_ok [of "- int n" "v + int n" "sw_sema w" "sw_pc w" "sw_threads w" all target] inv assms(2,3) that
    by (fastforce simp: sema_inv_def)
  moreover have "sema_destroy (sw_sema w) (sw_threads w) \<noteq> None"
    using sema_destroy_ok [of "- int n" "v + int n" "sw_sema w" "sw_pc w" "sw_threads w"] inv assms(2,3)
    by (fastforce simp: sema_inv_def)
  moreover have "sema_abort t (sw_sema w) (sw_threads w) = None \<longleftrightarrow> sm_active (sw_sema w) \<and> \<not> th_linked (sw_threads w t)"
    if "sw_pc w t = PC_ABORTING" for t
    using inv that by (auto simp: sema_inv_def waiters_def sema_abort_def)
  ultimately show ?thesis using inv by (auto simp: sema_inv_def sema_ok_def waiters_def)
qed

text \<open>A semaphore of value 1 and two threads that wait: the second one blocks.\<close>

definition sx :: semaphore where
  "sx = \<lparr>sm_owner = 4, sm_port = 8, sm_ref_count = 1, sm_count = 1, sm_policy = 0, sm_active = True, sm_blocked_threads = []\<rparr>"

definition tsx :: threads where
  "tsx = (\<lambda>t. \<lparr>th_priority = 10, th_top_act = t, th_linked = False, th_waiting = False, th_wait_result = KERN_SUCCESS\<rparr>)"

theorem semaphore_rule_witness:
  "\<exists>w. sema_run 1 2 w \<and> sm_count (sw_sema w) = -1 \<and> th_waiting (sw_threads w 2) \<and> length (sm_blocked_threads (sw_sema w)) = 1 \<and>
     sema_signal None True (sw_sema w) (sw_threads w) \<noteq> None"
proof -
  let ?w0 = "\<lparr>sw_sema = sx, sw_threads = tsx, sw_pc = (\<lambda>_. PC_IDLE)\<rparr>"
  have 0: "sema_run 1 0 ?w0" by (rule sema_run.create) (simp_all add: sx_def)
  obtain m1 ts1 where s1: "sema_wait 1 None sx tsx = (Some KERN_SUCCESS, m1, ts1)" "m1 = sx\<lparr>sm_count := 0\<rparr>" "ts1 = tsx"
    by (simp add: sema_wait_def sx_def int32_id)
  obtain w1 where w1: "sema_run 1 (Suc 0) w1" "sw_sema w1 = sx\<lparr>sm_count := 0\<rparr>" "sw_threads w1 = tsx" "sw_pc w1 2 = PC_IDLE"
    using sema_run.wait [OF 0, of 1 None] s1 by force
  have s2: "sema_wait 2 None (sw_sema w1) (sw_threads w1) =
     (None, sx\<lparr>sm_count := -1, sm_blocked_threads := [2]\<rparr>, assert_wait 2 (link_thread 2 tsx))"
    by (simp add: w1 sema_wait_def sx_def int32_id queue_thread_def policy_insert_def)
  obtain w2 where w2: "sema_run 1 2 w2" "sw_sema w2 = sx\<lparr>sm_count := -1, sm_blocked_threads := [2]\<rparr>"
    "sw_threads w2 = assert_wait 2 (link_thread 2 tsx)"
    using sema_run.wait [OF w1(1,4) s2] by (force simp: numeral_2_eq_2)
  have "th_waiting (sw_threads w2 2)" by (simp add: w2 thread_defs)
  moreover have "length (sm_blocked_threads (sw_sema w2)) = 1 \<and> sema_signal None True (sw_sema w2) (sw_threads w2) \<noteq> None"
    using semaphore_rule [OF w2(1)] by (simp add: w2(2))
  ultimately show ?thesis using w2 by auto
qed

section \<open>Where the lock is not held\<close>

text \<open>What other threads do: they interrupt a thread, or signal a semaphore.\<close>

definition interrupt_by :: "natural_t \<Rightarrow> sync \<Rightarrow> sync option" where
  "interrupt_by t s = Some (s\<lparr>sy_threads := clear_wait t (wait_code THREAD_INTERRUPTED) (sy_threads s)\<rparr>)"

definition signal_by :: "natural_t \<Rightarrow> sync \<Rightarrow> sync option" where
  "signal_by a s = map_option snd (semaphore_signal s a)"

text \<open>
  C36: A signal that comes when the wait of a thread has been interrupted is lost, or destroys the queue. The
  semaphore has the count 0 and one thread waits, until it is interrupted. If a signal comes before the thread runs,
  it takes the thread from the queue: the wait returns \<^verbatim>\<open>THREAD_INTERRUPTED\<close>, which is not a return code of the call but
  the number of \<^verbatim>\<open>KERN_PROTECTION_FAILURE\<close>, and the count is 0, as if there had been no signal. If the signal comes after the
  thread has seen that it was not woken by a signal and before it takes the lock, the thread removes
  itself from a queue that it is no longer in.
\<close>

theorem interrupted_wait_loses_signal:
  assumes "sy_semas s a = Some m" "a \<noteq> SEMAPHORE_NULL" "sm_active m" "sm_count m = 0" "sm_blocked_threads m = []"
  shows "(\<exists>s' m'. semaphore_wait hz (\<lambda>s. Option.bind (interrupt_by t s) (signal_by a)) window s t a = Some (KERN_PROTECTION_FAILURE, s') \<and>
       sy_semas s' a = Some m' \<and> sm_count m' = 0 \<and> sm_blocked_threads m' = []) \<and>
    semaphore_wait hz (interrupt_by t) (signal_by a) s t a = None"
proof -
  have i: "int32 (- 1) = - 1" "int32 0 = 0" by (simp_all add: int32_id)
  note defs = semaphore_wait_def semaphore_wait_common_def sema_write_def sema_wait_def assms i queue_thread_def policy_insert_def
    interrupt_by_def signal_by_def semaphore_signal_def semaphore_signal_common_def sema_signal_def signal_loop.simps signal_round_def
    thread_defs sema_abort_def
  show ?thesis using assms(2) by (simp add: defs)
qed

definition sync_x :: "kernel \<Rightarrow> sync" where
  "sync_x k = \<lparr>sy_kernel = k, sy_kobjects = (\<lambda>_. 0), sy_tasks = (\<lambda>_. \<lparr>semaphore_list = [], semaphores_owned = 0\<rparr>),
     sy_threads = tsx, sy_act_thread = id, sy_semas = [0x50 \<mapsto> sx\<lparr>sm_count := 0\<rparr>]\<rparr>"

theorem interrupted_wait_loses_signal_witness:
  "\<forall>k. semaphore_wait 100 (interrupt_by 2) (signal_by 0x50) (sync_x k) 2 0x50 = None"
proof
  fix k
  show "semaphore_wait 100 (interrupt_by 2) (signal_by 0x50) (sync_x k) 2 0x50 = None"
    using interrupted_wait_loses_signal [of "sync_x k" "0x50" "sx\<lparr>sm_count := 0\<rparr>" 100 2 Some]
    by (simp add: sync_x_def sx_def SEMAPHORE_NULL_def)
qed

text \<open>
  A wait of less than a second never waits. With zero seconds and any legal number of nanoseconds
  \<^verbatim>\<open>semaphore_timedwait\<close> returns \<^verbatim>\<open>KERN_OPERATION_TIMED_OUT\<close> at once and leaves the semaphore as it is, also when its count is
  positive: the nanoseconds are divided by the nanoseconds of a second before they are converted to ticks. Its
  comment says that a time of zero waits for ever.
\<close>

theorem subsecond_wait_times_out:
  assumes "a \<noteq> SEMAPHORE_NULL" and "0 \<le> nsec" "nsec < 1000000000" and "0 < hz"
  shows "semaphore_timedwait hz blocked window s t a \<lparr>tv_sec = 0, tv_nsec = nsec\<rparr> = Some (KERN_OPERATION_TIMED_OUT, s)"
proof -
  have "nsec div 1000000000 = 0" using assms by simp
  then show ?thesis
    using assms by (simp add: semaphore_timedwait_def semaphore_wait_common_def semaphore_ticks_def Let_def)
qed

theorem subsecond_wait_times_out_witness:
  "\<forall>k. semaphore_timedwait 100 Some Some (sync_x k) 2 0x50 \<lparr>tv_sec = 0, tv_nsec = 500000000\<rparr> =
     Some (KERN_OPERATION_TIMED_OUT, sync_x k)"
  by (intro allI subsecond_wait_times_out) (simp_all add: SEMAPHORE_NULL_def)

text \<open>
  A semaphore may be created with the largest value of an \<open>int\<close>. A signal then makes its count negative with no
  thread in the queue, and the next one takes a thread from the empty queue.
\<close>

lemma semaphore_count_overflows:
  assumes "sm_active m" and "sm_blocked_threads m = []" and "sm_count m = 2 ^ 31 - 1"
  shows "\<exists>m'. sema_signal None False m ts = Some (KERN_SUCCESS, m', ts) \<and> sm_count m' = - (2 ^ 31) \<and>
    sema_signal None False m' ts = None"
proof -
  have "int32 2147483648 = - 2147483648" by code_simp
  then show ?thesis using assms by (simp add: sema_signal_def signal_loop.simps signal_round_def)
qed

end
