(* ===== verification/Sync_Lock_Facts.thy ===== *)
theory Sync_Lock_Facts
  imports Sync_Lock Sync_Sema_Facts
begin

text \<open>
  Lock sets in use by several threads: the ownership of a ulock is exclusive in every interleaving of the calls,
  and what goes wrong where a thread blocks without the locks.
\<close>

section \<open>Reading and writing\<close>

definition ulocks :: "lock_env \<Rightarrow> nat" where "ulocks e = length (ls_ulock_list (le_set e))"

lemma set_write_simps [simp]:
  "le_set (set_write f e) = f (le_set e)" "le_threads (set_write f e) = le_threads e" "le_held (set_write f e) = le_held e"
  by (simp_all add: set_write_def)

lemma ulock_write_simps [simp]:
  "le_threads (ulock_write i f e) = le_threads e" "le_held (ulock_write i f e) = le_held e"
  "ls_active (le_set (ulock_write i f e)) = ls_active (le_set e)"
  "ls_policy (le_set (ulock_write i f e)) = ls_policy (le_set e)"
  "ls_held_ulocks (le_set (ulock_write i f e)) = ls_held_ulocks (le_set e)"
  "ls_handoff_ulocks (le_set (ulock_write i f e)) = ls_handoff_ulocks (le_set e)"
  "ulocks (ulock_write i f e) = ulocks e"
  by (simp_all add: ulock_write_def ulocks_def)

lemma threads_write_simps [simp]:
  "le_set (threads_write f e) = le_set e" "le_threads (threads_write f e) = f (le_threads e)" "le_held (threads_write f e) = le_held e"
  "ulock_at (threads_write f e) i = ulock_at e i" "ulocks (threads_write f e) = ulocks e"
  by (simp_all add: threads_write_def ulock_at_def ulocks_def)

lemma ulock_write_read [simp]:
  "j < ulocks e \<Longrightarrow> ulock_at (ulock_write i f e) j = (if i = j then f (ulock_at e j) else ulock_at e j)"
  by (auto simp: ulock_at_def ulock_write_def ulocks_def)

lemma held_write_simps [simp]:
  "ulock_at (e\<lparr>le_held := h\<rparr>) i = ulock_at e i" "ulocks (e\<lparr>le_held := h\<rparr>) = ulocks e"
  by (simp_all add: ulock_at_def ulocks_def)

lemma chain_write_simps [simp]:
  "ulock_at (set_write (\<lambda>l. l\<lparr>ls_held_ulocks := g l\<rparr>) e) i = ulock_at e i"
  "ulocks (set_write (\<lambda>l. l\<lparr>ls_held_ulocks := g l\<rparr>) e) = ulocks e"
  "ulock_at (set_write (\<lambda>l. l\<lparr>ls_handoff_ulocks := g l\<rparr>) e) i = ulock_at e i"
  "ulocks (set_write (\<lambda>l. l\<lparr>ls_handoff_ulocks := g l\<rparr>) e) = ulocks e"
  "ulock_at (set_write (\<lambda>l. l\<lparr>ls_active := c\<rparr>) e) i = ulock_at e i"
  "ulocks (set_write (\<lambda>l. l\<lparr>ls_active := c\<rparr>) e) = ulocks e"
  by (simp_all add: ulock_at_def ulocks_def)

lemma top_act_simps [simp]:
  "th_top_act (link_thread t ts u) = th_top_act (ts u)" "th_top_act (assert_wait t ts u) = th_top_act (ts u)"
  "th_top_act (clear_wait t r ts u) = th_top_act (ts u)" "th_top_act (wake_thread t r ts u) = th_top_act (ts u)"
  by (simp_all add: thread_defs)

section \<open>The invariant\<close>

text \<open>A ulock with whether it is in the chains of held ulocks and of hand-offs.\<close>

definition ulock_ok :: "ulock \<Rightarrow> bool \<Rightarrow> bool \<Rightarrow> bool" where
  "ulock_ok u held handoff \<longleftrightarrow>
     (ul_state u = ULOCK_HELD \<longleftrightarrow> ul_owner u \<noteq> THR_ACT_NULL) \<and> (held \<longleftrightarrow> ul_state u = ULOCK_HELD) \<and>
     (ul_state u = ULOCK_FREE \<longrightarrow> ul_blocked_threads u = []) \<and>
     ul_blocked_count u = int (length (ul_blocked_threads u)) \<and> (handoff \<longleftrightarrow> ul_ho_thread u \<noteq> THREAD_NULL)"

definition owned_ok :: "natural_t \<Rightarrow> lock_env \<Rightarrow> bool" where
  "owned_ok a e \<longleftrightarrow> (\<forall>act. distinct (le_held e act)) \<and>
     (\<forall>act i. i < ulocks e \<longrightarrow> ((a, i) \<in> set (le_held e act) \<longleftrightarrow> act \<noteq> THR_ACT_NULL \<and> ul_owner (ulock_at e i) = act))"

definition lock_ok :: "natural_t \<Rightarrow> lock_env \<Rightarrow> bool" where
  "lock_ok a e \<longleftrightarrow> (\<forall>i<ulocks e. ulock_ok (ulock_at e i) (i \<in> set (ls_held_ulocks (le_set e))) (i \<in> set (ls_handoff_ulocks (le_set e)))) \<and>
     distinct (ls_held_ulocks (le_set e)) \<and> distinct (ls_handoff_ulocks (le_set e)) \<and>
     set (ls_held_ulocks (le_set e)) \<subseteq> {..<ulocks e} \<and> set (ls_handoff_ulocks (le_set e)) \<subseteq> {..<ulocks e} \<and>
     owned_ok a e \<and> (\<forall>t. th_top_act (le_threads e t) \<noteq> THR_ACT_NULL)"

lemma ulock_state_cases: "(ul_state u = ULOCK_FREE) = (ul_state u \<noteq> ULOCK_HELD)"
  by (cases "ul_state u") simp_all

lemmas lock_ok_defs = lock_ok_def ulock_ok_def owned_ok_def

lemma ownership_set_read [simp]:
  "j < ulocks e \<Longrightarrow> ulock_at (ulock_ownership_set a i t e) j =
     (if i = j then (ulock_at e j)\<lparr>ul_owner := th_top_act (le_threads e t)\<rparr> else ulock_at e j)"
  "ulocks (ulock_ownership_set a i t e) = ulocks e" "le_threads (ulock_ownership_set a i t e) = le_threads e"
  "ls_active (le_set (ulock_ownership_set a i t e)) = ls_active (le_set e)"
  "ls_held_ulocks (le_set (ulock_ownership_set a i t e)) = ls_held_ulocks (le_set e)"
  "ls_handoff_ulocks (le_set (ulock_ownership_set a i t e)) = ls_handoff_ulocks (le_set e)"
  "le_held (ulock_ownership_set a i t e) act =
     le_held e act @ (if act = th_top_act (le_threads e t) then [(a, i)] else [])"
  by (auto simp: ulock_ownership_set_def Let_def)

text \<open>An operation changes one ulock \<open>i\<close> and the place of \<open>i\<close> in the chains.\<close>

lemma lock_ok_change:
  assumes "lock_ok a e" and "i < ulocks e" and "ulocks e' = ulocks e"
    and "\<forall>j<ulocks e. j \<noteq> i \<longrightarrow> ulock_at e' j = ulock_at e j"
    and "ulock_ok (ulock_at e' i) (i \<in> set (ls_held_ulocks (le_set e'))) (i \<in> set (ls_handoff_ulocks (le_set e')))"
    and "distinct (ls_held_ulocks (le_set e'))" "set (ls_held_ulocks (le_set e')) - {i} = set (ls_held_ulocks (le_set e)) - {i}"
    and "distinct (ls_handoff_ulocks (le_set e'))" "set (ls_handoff_ulocks (le_set e')) - {i} = set (ls_handoff_ulocks (le_set e)) - {i}"
    and "owned_ok a e'" and "\<forall>t. th_top_act (le_threads e' t) = th_top_act (le_threads e t)"
  shows "lock_ok a e'"
proof -
  have m: "j \<in> set (ls_held_ulocks (le_set e')) \<longleftrightarrow> j \<in> set (ls_held_ulocks (le_set e))"
    "j \<in> set (ls_handoff_ulocks (le_set e')) \<longleftrightarrow> j \<in> set (ls_handoff_ulocks (le_set e))" if "j \<noteq> i" for j
    using that assms(7,9) by blast+
  have "ulock_ok (ulock_at e' j) (j \<in> set (ls_held_ulocks (le_set e'))) (j \<in> set (ls_handoff_ulocks (le_set e')))" if "j < ulocks e" for j
    using that assms(1,4,5) m [of j] unfolding lock_ok_def by (cases "j = i") simp_all
  moreover have "set (ls_held_ulocks (le_set e')) \<subseteq> {..<ulocks e}" "set (ls_handoff_ulocks (le_set e')) \<subseteq> {..<ulocks e}"
    using assms(1,2,7,9) unfolding lock_ok_def by blast+
  ultimately show ?thesis using assms(1,3,6,8,10,11) unfolding lock_ok_def by simp
qed

lemma owned_frame:
  "owned_ok a e \<Longrightarrow> ulocks e' = ulocks e \<Longrightarrow> le_held e' = le_held e \<Longrightarrow>
   \<forall>j<ulocks e. ul_owner (ulock_at e' j) = ul_owner (ulock_at e j) \<Longrightarrow> owned_ok a e'"
  by (simp add: owned_ok_def)

lemma owned_set:
  assumes "owned_ok a e" and "i < ulocks e" and "ul_owner (ulock_at e i) = THR_ACT_NULL" and "th_top_act (le_threads e t) \<noteq> THR_ACT_NULL"
  shows "owned_ok a (ulock_ownership_set a i t e)"
  using assms by (auto simp: owned_ok_def)

lemma owned_clear:
  assumes "owned_ok a e" and "i < ulocks e" and "ul_owner (ulock_at e i) \<noteq> THR_ACT_NULL"
  obtains e' where "ulock_ownership_clear a i e = Some e'" and "owned_ok a e'" and "ulocks e' = ulocks e"
    and "\<And>j. j < ulocks e \<Longrightarrow> ulock_at e' j = (if i = j then (ulock_at e j)\<lparr>ul_owner := THR_ACT_NULL\<rparr> else ulock_at e j)"
    and "le_threads e' = le_threads e" "ls_active (le_set e') = ls_active (le_set e)"
    and "ls_held_ulocks (le_set e') = ls_held_ulocks (le_set e)" "ls_handoff_ulocks (le_set e') = ls_handoff_ulocks (le_set e)"
proof -
  let ?act = "ul_owner (ulock_at e i)"
  let ?e = "ulock_write i (\<lambda>u. u\<lparr>ul_owner := THR_ACT_NULL\<rparr>) (e\<lparr>le_held := (le_held e)(?act := remove1 (a, i) (le_held e ?act))\<rparr>)"
  have "(a, i) \<in> set (le_held e ?act)" using assms by (simp add: owned_ok_def)
  moreover have "owned_ok a ?e" using assms by (auto simp: owned_ok_def)
  ultimately show thesis by (intro that [of ?e]) (auto simp: ulock_ownership_clear_def Let_def)
qed

lemma lock_okD:
  assumes "lock_ok a e" and "i < ulocks e"
  shows "ulock_ok (ulock_at e i) (i \<in> set (ls_held_ulocks (le_set e))) (i \<in> set (ls_handoff_ulocks (le_set e)))"
    and "distinct (ls_held_ulocks (le_set e))" "distinct (ls_handoff_ulocks (le_set e))"
    and "owned_ok a e" and "th_top_act (le_threads e t) \<noteq> THR_ACT_NULL"
  using assms by (simp_all add: lock_ok_def)

section \<open>The operations keep the invariant\<close>

lemma take_ulock_ok:
  assumes "lock_ok a e" and "i < ulocks e" and "ul_state (ulock_at e i) = ULOCK_FREE"
  shows "lock_ok a (snd (take_ulock a t i e))"
proof (rule lock_ok_change [OF assms(1,2)])
  note ok = lock_okD [OF assms(1,2)]
  let ?e = "set_write (\<lambda>l. l\<lparr>ls_held_ulocks := ls_held_ulocks l @ [i]\<rparr>) e"
  have "owned_ok a ?e" using ok(4) by (rule owned_frame) simp_all
  then have "owned_ok a (ulock_ownership_set a i t ?e)"
    using ok(1,5) assms(2,3) by (intro owned_set) (simp_all add: ulock_ok_def)
  then show "owned_ok a (snd (take_ulock a t i e))"
    by (rule owned_frame) (simp_all add: take_ulock_def Let_def)
qed (use lock_okD [OF assms(1,2)] assms(2,3) in \<open>auto simp: take_ulock_def Let_def ulock_ok_def\<close>)

lemma acquire_enter_ok:
  assumes "lock_ok a e" and "i < ulocks e"
  shows "lock_ok a (snd (acquire_enter a t i e))"
proof (cases "ls_active (le_set e) \<and> ul_state (ulock_at e i) = ULOCK_HELD")
  case True
  note ok = lock_okD [OF assms]
  show ?thesis
  proof (rule lock_ok_change [OF assms])
    show "owned_ok a (snd (acquire_enter a t i e))"
      using ok(4) by (rule owned_frame) (use True in \<open>simp_all add: acquire_enter_def\<close>)
  qed (use ok True assms(2) in \<open>auto simp: acquire_enter_def ulock_ok_def wq.enq_length\<close>)
next
  case False
  then show ?thesis using assms take_ulock_ok [OF assms, of t]
    by (auto simp: acquire_enter_def ulock_state_cases split: prod.splits)
qed

lemma acquire_abort_ok:
  assumes "lock_ok a e" and "i < ulocks e" and "acquire_abort t i e = Some e'"
  shows "lock_ok a e'"
proof -
  note ok = lock_okD [OF assms(1,2)]
  let ?q = "remove1 t (ul_blocked_threads (ulock_at e i))"
  have t: "t \<in> set (ul_blocked_threads (ulock_at e i))"
    and e': "e' = ulock_write i (\<lambda>u. u\<lparr>ul_blocked_threads := ?q, ul_blocked_count := ul_blocked_count u - 1\<rparr>) e"
    using assms(3) by (auto simp: acquire_abort_def unchain_def split: if_splits)
  have l: "int (length ?q) = int (length (ul_blocked_threads (ulock_at e i))) - 1"
    using t length_pos_if_in_set [OF t] by (simp add: length_remove1 of_nat_diff Suc_le_eq)
  have b: "ul_blocked_threads (ulock_at e i) \<noteq> []" using t by auto
  show ?thesis
  proof (rule lock_ok_change [OF assms(1,2)])
    show "owned_ok a e'" using ok(4) by (rule owned_frame) (simp_all add: e')
  qed (use ok assms(2) l b in \<open>auto simp: e' ulock_ok_def\<close>)
qed

lemma try_ulock_ok: "lock_ok a e \<Longrightarrow> i < ulocks e \<Longrightarrow> lock_ok a (snd (try_ulock a t i e))"
  using take_ulock_ok by (auto simp: try_ulock_def ulock_state_cases)

lemma set_stable_ok:
  assumes "lock_ok a e" and "i < ulocks e"
  shows "lock_ok a (snd (set_stable st act i e))"
proof (rule lock_ok_change [OF assms])
  show "owned_ok a (snd (set_stable st act i e))"
    using lock_okD(4) [OF assms] by (rule owned_frame) (simp_all add: set_stable_def)
qed (use lock_okD [OF assms] assms(2) in \<open>auto simp: set_stable_def ulock_ok_def\<close>)

lemma transfer_ok:
  assumes "owned_ok a e" and "i < ulocks e" and "ul_owner (ulock_at e i) \<noteq> THR_ACT_NULL" and "th_top_act (le_threads e t) \<noteq> THR_ACT_NULL"
  obtains e' where "transfer_ulock a i t e = Some e'" and "owned_ok a e'" and "ulocks e' = ulocks e"
    and "\<And>j. j < ulocks e \<Longrightarrow> ulock_at e' j = (if i = j then (ulock_at e j)\<lparr>ul_owner := th_top_act (le_threads e t)\<rparr> else ulock_at e j)"
    and "le_threads e' = le_threads e" "ls_active (le_set e') = ls_active (le_set e)"
    and "ls_held_ulocks (le_set e') = ls_held_ulocks (le_set e)" "ls_handoff_ulocks (le_set e') = ls_handoff_ulocks (le_set e)"
proof -
  obtain e1 where e1: "ulock_ownership_clear a i e = Some e1" "owned_ok a e1" "ulocks e1 = ulocks e"
    "\<And>j. j < ulocks e \<Longrightarrow> ulock_at e1 j = (if i = j then (ulock_at e j)\<lparr>ul_owner := THR_ACT_NULL\<rparr> else ulock_at e j)"
    "le_threads e1 = le_threads e" "ls_active (le_set e1) = ls_active (le_set e)"
    "ls_held_ulocks (le_set e1) = ls_held_ulocks (le_set e)" "ls_handoff_ulocks (le_set e1) = ls_handoff_ulocks (le_set e)"
    using owned_clear [OF assms(1-3)] by blast
  have "owned_ok a (ulock_ownership_set a i t e1)" using e1 assms by (intro owned_set) simp_all
  then show thesis using e1 by (intro that [of "ulock_ownership_set a i t e1"]) (simp_all add: transfer_ulock_def)
qed

lemma end_handoff_ok:
  assumes "lock_ok a e" and "i < ulocks e" and "ul_ho_thread (ulock_at e i) \<noteq> THREAD_NULL"
  obtains e' where "end_handoff i e = Some e'" and "lock_ok a e'" and "ulocks e' = ulocks e"
    and "\<And>j. j < ulocks e \<Longrightarrow> ulock_at e' j = (if i = j then (ulock_at e j)\<lparr>ul_ho_thread := THREAD_NULL\<rparr> else ulock_at e j)"
    and "le_threads e' = le_threads e" "ls_active (le_set e') = ls_active (le_set e)"
proof -
  note ok = lock_okD [OF assms(1,2)]
  let ?hs = "remove1 i (ls_handoff_ulocks (le_set e))"
  let ?e = "ulock_write i (\<lambda>u. u\<lparr>ul_ho_thread := THREAD_NULL\<rparr>) (set_write (\<lambda>l. l\<lparr>ls_handoff_ulocks := ?hs\<rparr>) e)"
  have i: "i \<in> set (ls_handoff_ulocks (le_set e))" using ok(1) assms(3) by (simp add: ulock_ok_def)
  have "lock_ok a ?e"
  proof (rule lock_ok_change [OF assms(1,2)])
    show "owned_ok a ?e" using ok(4) by (rule owned_frame) simp_all
  qed (use ok assms(2) in \<open>auto simp: ulock_ok_def\<close>)
  then show thesis using i by (intro that [of ?e]) (simp_all add: end_handoff_def unchain_def)
qed

text \<open>Passing a held ulock to another thread.\<close>

lemma lock_ok_transfer:
  assumes "lock_ok a e" and "i < ulocks e" and "ul_state (ulock_at e i) = ULOCK_HELD"
  obtains e' where "transfer_ulock a i t e = Some e'" and "lock_ok a e'" and "ulocks e' = ulocks e" "ls_active (le_set e') = ls_active (le_set e)"
proof -
  note ok = lock_okD [OF assms(1,2)]
  obtain e' where e': "transfer_ulock a i t e = Some e'" "owned_ok a e'" "ulocks e' = ulocks e"
    "\<And>j. j < ulocks e \<Longrightarrow> ulock_at e' j = (if i = j then (ulock_at e j)\<lparr>ul_owner := th_top_act (le_threads e t)\<rparr> else ulock_at e j)"
    "le_threads e' = le_threads e" "ls_active (le_set e') = ls_active (le_set e)"
    "ls_held_ulocks (le_set e') = ls_held_ulocks (le_set e)" "ls_handoff_ulocks (le_set e') = ls_handoff_ulocks (le_set e)"
    using transfer_ok [OF ok(4) assms(2), of t] ok(1,5) assms(3) by (auto simp: ulock_ok_def)
  have "lock_ok a e'"
    by (rule lock_ok_change [OF assms(1,2)]) (use ok(1-3,5) e' assms(2,3) in \<open>auto simp: ulock_ok_def\<close>)
  then show thesis using e' that by blast
qed

lemma threads_write_ok:
  assumes "lock_ok a e" and "\<forall>t. th_top_act (f (le_threads e) t) = th_top_act (le_threads e t)"
  shows "lock_ok a (threads_write f e)"
  using assms by (simp add: lock_ok_def owned_ok_def)

lemma lock_release_ok:
  assumes "lock_ok a e" and "i < ulocks e" and "act \<noteq> THR_ACT_NULL"
  obtains kr e' where "lock_release_internal a i act e = Some (kr, e')" and "lock_ok a e'" and "ulocks e' = ulocks e"
proof (cases "ls_active (le_set e) \<and> ul_owner (ulock_at e i) = act")
  case False
  then show thesis using assms(1) by (cases "ls_active (le_set e)") (auto simp: lock_release_internal_def intro: that)
next
  case True
  note ok = lock_okD [OF assms(1,2)]
  have held: "ul_state (ulock_at e i) = ULOCK_HELD" "i \<in> set (ls_held_ulocks (le_set e))"
    using ok(1) True assms(3) by (auto simp: ulock_ok_def)
  show thesis
  proof (cases "ul_blocked_threads (ulock_at e i)")
    case (Cons t q)
    let ?e = "ulock_write i (\<lambda>u. u\<lparr>ul_blocked_threads := q, ul_blocked_count := ul_blocked_count u - 1\<rparr>) e"
    have "lock_ok a ?e"
    proof (rule lock_ok_change [OF assms(1,2)])
      show "owned_ok a ?e" using ok(4) by (rule owned_frame) simp_all
    qed (use ok assms(2) held Cons in \<open>auto simp: ulock_ok_def\<close>)
    then obtain e1 where e1: "transfer_ulock a i t ?e = Some e1" "lock_ok a e1" "ulocks e1 = ulocks e"
      by (rule lock_ok_transfer [of a ?e i t]) (use assms(2) held in simp_all)
    have "lock_ok a (threads_write (wake_thread t (stable_code e1 i)) e1)" using e1(2) by (rule threads_write_ok) simp
    then show thesis using e1(1,3) True Cons
      by (intro that [of KERN_SUCCESS "threads_write (wake_thread t (stable_code e1 i)) e1"]) (auto simp: lock_release_internal_def)
  next
    case Nil
    let ?held = "remove1 i (ls_held_ulocks (le_set e))"
    let ?e = "set_write (\<lambda>l. l\<lparr>ls_held_ulocks := ?held\<rparr>) e"
    have "owned_ok a ?e" using ok(4) by (rule owned_frame) simp_all
    then obtain e1 where e1: "ulock_ownership_clear a i ?e = Some e1" "owned_ok a e1" "ulocks e1 = ulocks e"
      "\<And>j. j < ulocks e \<Longrightarrow> ulock_at e1 j = (if i = j then (ulock_at e j)\<lparr>ul_owner := THR_ACT_NULL\<rparr> else ulock_at e j)"
      "le_threads e1 = le_threads e" "ls_held_ulocks (le_set e1) = ?held"
      "ls_handoff_ulocks (le_set e1) = ls_handoff_ulocks (le_set e)"
      by (rule owned_clear [of a ?e i]) (use assms(2,3) True in simp_all)
    let ?e2 = "ulock_write i (\<lambda>u. u\<lparr>ul_state := ULOCK_FREE\<rparr>) e1"
    have "lock_ok a ?e2"
    proof (rule lock_ok_change [OF assms(1,2)])
      show "owned_ok a ?e2" using e1(2) by (rule owned_frame) simp_all
    qed (use ok assms(2) e1 Nil in \<open>auto simp: ulock_ok_def\<close>)
    then show thesis using e1 True Nil held by (intro that [of KERN_SUCCESS ?e2]) (auto simp: lock_release_internal_def unchain_def)
  qed
qed

lemma lock_release_passes:
  assumes "lock_ok a e" and "i < ulocks e" and "ls_active (le_set e)" and "ul_owner (ulock_at e i) \<noteq> THR_ACT_NULL"
    and "ul_blocked_threads (ulock_at e i) = t # q"
  shows "\<exists>e'. lock_release_internal a i (ul_owner (ulock_at e i)) e = Some (KERN_SUCCESS, e') \<and>
    ul_owner (ulock_at e' i) = th_top_act (le_threads e t) \<and> ul_blocked_threads (ulock_at e' i) = q \<and>
    \<not> th_waiting (le_threads e' t) \<and> \<not> th_linked (le_threads e' t)"
proof -
  note ok = lock_okD [OF assms(1,2)]
  let ?e = "ulock_write i (\<lambda>u. u\<lparr>ul_blocked_threads := q, ul_blocked_count := ul_blocked_count u - 1\<rparr>) e"
  have "owned_ok a ?e" using ok(4) by (rule owned_frame) simp_all
  then obtain e1 where e1: "transfer_ulock a i t ?e = Some e1" "ulocks e1 = ulocks e" "le_threads e1 = le_threads e"
    "ulock_at e1 i = (ulock_at ?e i)\<lparr>ul_owner := th_top_act (le_threads e t)\<rparr>"
    by (rule transfer_ok [of a ?e i t]) (use assms(2,4) ok(5) in simp_all)
  then show ?thesis using assms(2,3,5) by (auto simp: lock_release_internal_def thread_defs)
qed

lemma await_handoff_ok:
  assumes "lock_ok a e" and "i < ulocks e" and "ul_ho_thread (ulock_at e i) = THREAD_NULL" and "t \<noteq> THREAD_NULL"
  shows "lock_ok a (await_handoff t i e)"
proof (rule lock_ok_change [OF assms(1,2)])
  show "owned_ok a (await_handoff t i e)"
    using lock_okD(4) [OF assms(1,2)] by (rule owned_frame) (simp_all add: await_handoff_def)
qed (use lock_okD [OF assms(1,2)] assms(2-4) in \<open>auto simp: await_handoff_def ulock_ok_def\<close>)

text \<open>The hand-over that both sides perform when the other one is there.\<close>

lemma hand_over_ok:
  assumes "lock_ok a e" and "i < ulocks e" and "ul_ho_thread (ulock_at e i) \<noteq> THREAD_NULL" and "ul_owner (ulock_at e i) \<noteq> THR_ACT_NULL"
  obtains e1 e2 where "end_handoff i e = Some e1" and "transfer_ulock a i t e1 = Some e2" and "lock_ok a e2" and "ulocks e2 = ulocks e"
proof -
  obtain e1 where e1: "end_handoff i e = Some e1" "lock_ok a e1" "ulocks e1 = ulocks e"
    "\<And>j. j < ulocks e \<Longrightarrow> ulock_at e1 j = (if i = j then (ulock_at e j)\<lparr>ul_ho_thread := THREAD_NULL\<rparr> else ulock_at e j)"
    using end_handoff_ok [OF assms(1-3)] by blast
  have "ul_state (ulock_at e1 i) = ULOCK_HELD" using e1(4) [OF assms(2)] lock_okD(1) [OF assms(1,2)] assms(4) by (simp add: ulock_ok_def)
  then obtain e2 where "transfer_ulock a i t e1 = Some e2" "lock_ok a e2" "ulocks e2 = ulocks e1"
    using lock_ok_transfer [OF e1(2), of i t] assms(2) e1(3) by auto
  then show thesis using e1 that by simp
qed

lemma handoff_enter_ok:
  assumes "lock_ok a e" and "i < ulocks e" and "t \<noteq> THREAD_NULL"
  obtains r e' where "handoff_enter a t i e = Some (r, e')" and "lock_ok a e'" and "ulocks e' = ulocks e"
proof (cases "ls_active (le_set e) \<and> ul_owner (ulock_at e i) = th_top_act (le_threads e t) \<and> ul_ho_thread (ulock_at e i) \<noteq> THREAD_NULL")
  case True
  let ?t = "ul_ho_thread (ulock_at e i)"
  obtain e1 e2 where e2: "end_handoff i e = Some e1" "transfer_ulock a i ?t e1 = Some e2" "lock_ok a e2" "ulocks e2 = ulocks e"
    using hand_over_ok [OF assms(1,2), of ?t] True lock_okD(5) [OF assms(1,2), of t] by auto
  have "lock_ok a (threads_write (wake_thread ?t (stable_code e2 i)) e2)" using e2(3) by (rule threads_write_ok) simp
  then show thesis using e2 True
    by (intro that [of "Some KERN_SUCCESS" "threads_write (wake_thread ?t (stable_code e2 i)) e2"]) (auto simp: handoff_enter_def)
next
  case False
  have "ulocks (await_handoff t i e) = ulocks e" by (simp add: await_handoff_def)
  then show thesis using False assms await_handoff_ok [OF assms(1,2) _ assms(3)] that
    by (cases "ls_active (le_set e)"; cases "ul_owner (ulock_at e i) = th_top_act (le_threads e t)") (auto simp: handoff_enter_def)
qed

lemma accept_enter_ok:
  assumes "lock_ok a e" and "i < ulocks e" and "t \<noteq> THREAD_NULL"
  obtains r e' where "accept_enter a t i e = Some (r, e')" and "lock_ok a e'" and "ulocks e' = ulocks e"
proof -
  let ?t = "ul_ho_thread (ulock_at e i)"
  show thesis
  proof (cases "ls_active (le_set e) \<and> ?t \<noteq> THREAD_NULL \<and> ul_owner (ulock_at e i) = th_top_act (le_threads e ?t)")
    case True
    obtain e1 e2 where e2: "end_handoff i e = Some e1" "transfer_ulock a i t e1 = Some e2" "lock_ok a e2" "ulocks e2 = ulocks e"
      using hand_over_ok [OF assms(1,2), of t] True lock_okD(5) [OF assms(1,2), of ?t] by auto
    have "lock_ok a (threads_write (wake_thread ?t KERN_SUCCESS) e2)" using e2(3) by (rule threads_write_ok) simp
    then show thesis using e2 True
      by (intro that [of "Some (stable_code e2 i)" "threads_write (wake_thread ?t KERN_SUCCESS) e2"]) (auto simp: accept_enter_def)
  next
    case False
    have "ulocks (await_handoff t i e) = ulocks e" by (simp add: await_handoff_def)
    then show thesis using False assms await_handoff_ok [OF assms(1,2) _ assms(3)] that
      by (cases "ls_active (le_set e)"; cases "?t = THREAD_NULL") (auto simp: accept_enter_def)
  qed
qed

lemma handoff_abort_ok:
  assumes "lock_ok a e" and "i < ulocks e" and "handoff_abort i e = Some e'"
  shows "lock_ok a e' \<and> ulocks e' = ulocks e"
proof (cases "ls_active (le_set e)")
  case True
  then have "i \<in> set (ls_handoff_ulocks (le_set e))"
    using assms(3) by (auto simp: handoff_abort_def end_handoff_def unchain_def split: if_splits)
  then have "ul_ho_thread (ulock_at e i) \<noteq> THREAD_NULL" using lock_okD(1) [OF assms(1,2)] by (simp add: ulock_ok_def)
  then show ?thesis using end_handoff_ok [OF assms(1,2)] assms(3) True by (auto simp: handoff_abort_def)
qed (use assms in \<open>simp add: handoff_abort_def\<close>)

section \<open>All runs\<close>

text \<open>
  The states of a lock set from its creation, by steps of the calls in any order, and any changes of the
  threads by waits, wakeups and aborts, at any point; a thread keeps its activation. A run ends where an aborted call takes a
  thread from a queue, or a ulock from the chain of hand-offs, that it is no longer in: what the code does to the memory then,
  and after it, is undefined.
\<close>

inductive lock_run :: "natural_t \<Rightarrow> nat \<Rightarrow> lock_env \<Rightarrow> bool" for a n where
  create: "ls_ulock_list (le_set e) = replicate n fresh_ulock \<Longrightarrow> ls_held_ulocks (le_set e) = [] \<Longrightarrow> ls_handoff_ulocks (le_set e) = [] \<Longrightarrow>
     \<forall>act. distinct (le_held e act) \<and> (\<forall>i. (a, i) \<notin> set (le_held e act)) \<Longrightarrow> \<forall>t. th_top_act (le_threads e t) \<noteq> THR_ACT_NULL \<Longrightarrow>
     lock_run a n e"
| threads: "lock_run a n e \<Longrightarrow> \<forall>t. th_top_act (f (le_threads e) t) = th_top_act (le_threads e t) \<Longrightarrow> lock_run a n (threads_write f e)"
| acquire: "lock_run a n e \<Longrightarrow> i < n \<Longrightarrow> acquire_enter a t i e = (r, e') \<Longrightarrow> lock_run a n e'"
| abort: "lock_run a n e \<Longrightarrow> i < n \<Longrightarrow> acquire_abort t i e = Some e' \<Longrightarrow> lock_run a n e'"
| try_lock: "lock_run a n e \<Longrightarrow> i < n \<Longrightarrow> try_ulock a t i e = (kr, e') \<Longrightarrow> lock_run a n e'"
| stable: "lock_run a n e \<Longrightarrow> i < n \<Longrightarrow> set_stable st act i e = (kr, e') \<Longrightarrow> lock_run a n e'"
| release: "lock_run a n e \<Longrightarrow> i < n \<Longrightarrow> act \<noteq> THR_ACT_NULL \<Longrightarrow> lock_release_internal a i act e = Some (kr, e') \<Longrightarrow> lock_run a n e'"
| handoff: "lock_run a n e \<Longrightarrow> i < n \<Longrightarrow> t \<noteq> THREAD_NULL \<Longrightarrow> handoff_enter a t i e = Some (r, e') \<Longrightarrow> lock_run a n e'"
| accept: "lock_run a n e \<Longrightarrow> i < n \<Longrightarrow> t \<noteq> THREAD_NULL \<Longrightarrow> accept_enter a t i e = Some (r, e') \<Longrightarrow> lock_run a n e'"
| handoff_abort: "lock_run a n e \<Longrightarrow> i < n \<Longrightarrow> handoff_abort i e = Some e' \<Longrightarrow> lock_run a n e'"

lemma ulocks_ops:
  "ulocks (snd (take_ulock a t i e)) = ulocks e" "ulocks (snd (acquire_enter a t i e)) = ulocks e"
  "ulocks (snd (try_ulock a t i e)) = ulocks e" "ulocks (snd (set_stable st act i e)) = ulocks e"
  "acquire_abort t i e = Some e' \<Longrightarrow> ulocks e' = ulocks e"
  by (auto simp: take_ulock_def acquire_enter_def try_ulock_def set_stable_def acquire_abort_def Let_def
      bind_eq_Some_conv split: prod.splits)

lemma lock_run_ok:
  assumes "lock_run a n e"
  shows "lock_ok a e \<and> ulocks e = n"
  using assms
proof (induction rule: lock_run.induct)
  case (create e)
  then show ?case by (auto simp: lock_ok_defs ulocks_def ulock_at_def fresh_ulock_def)
next
  case (threads e f)
  then show ?case by (simp add: threads_write_ok)
next
  case (acquire e i t r e')
  then show ?case using acquire_enter_ok [of a e i t] ulocks_ops(2) [of a t i e] by simp
next
  case (abort e i t e')
  then show ?case using acquire_abort_ok [of a e i t e'] ulocks_ops(5) by simp
next
  case (try_lock e i t kr e')
  then show ?case using try_ulock_ok [of a e i t] ulocks_ops(3) [of a t i e] by simp
next
  case (stable e i st act kr e')
  then show ?case using set_stable_ok [of a e i st act] ulocks_ops(4) [of st act i e] by simp
next
  case (release e i act kr e')
  then show ?case using lock_release_ok [of a e i act] by (metis option.inject prod.inject)
next
  case (handoff e i t r e')
  then show ?case using handoff_enter_ok [of a e i t] by (metis option.inject prod.inject)
next
  case (accept e i t r e')
  then show ?case using accept_enter_ok [of a e i t] by (metis option.inject prod.inject)
next
  case (handoff_abort e i e')
  then show ?case using handoff_abort_ok [of a e i e'] by simp
qed

text \<open>
  C15: A ulock has at most one owner, in every interleaving of the calls on a lock set, up to the first removal of a thread or
  a ulock by an aborted call from a list that it is no longer in. At any point of a run from the creation of the lock set, before its destruction and before such a
  removal: a ulock is in the list of held ulocks of at most one activation, this is its owner, and there is one exactly when the state
  of the ulock is \<^verbatim>\<open>ULOCK_HELD\<close>; threads wait for it only while it is held, and \<^verbatim>\<open>blocked_count\<close> is their number; a
  release, a hand-off and its acceptance by any thread never panic; and a release by the owner of a ulock that threads wait for
  makes the first of them the owner.
\<close>

theorem ulock_exclusive:
  assumes "lock_run a n e" and "i < n"
  shows "(\<forall>act act'. (a, i) \<in> set (le_held e act) \<and> (a, i) \<in> set (le_held e act') \<longrightarrow> act = act') \<and>
    (\<forall>act. (a, i) \<in> set (le_held e act) \<longleftrightarrow> act \<noteq> THR_ACT_NULL \<and> ul_owner (ulock_at e i) = act) \<and>
    (ul_state (ulock_at e i) = ULOCK_HELD \<longleftrightarrow> (\<exists>act. (a, i) \<in> set (le_held e act))) \<and>
    (ul_blocked_threads (ulock_at e i) \<noteq> [] \<longrightarrow> ul_state (ulock_at e i) = ULOCK_HELD) \<and>
    ul_blocked_count (ulock_at e i) = int (length (ul_blocked_threads (ulock_at e i))) \<and>
    (\<forall>t q. ls_active (le_set e) \<and> ul_blocked_threads (ulock_at e i) = t # q \<longrightarrow>
      (\<exists>e'. lock_release_internal a i (ul_owner (ulock_at e i)) e = Some (KERN_SUCCESS, e') \<and>
        ul_owner (ulock_at e' i) = th_top_act (le_threads e t) \<and> ul_blocked_threads (ulock_at e' i) = q \<and> \<not> th_waiting (le_threads e' t))) \<and>
    (\<forall>act. act \<noteq> THR_ACT_NULL \<longrightarrow> lock_release_internal a i act e \<noteq> None) \<and>
    (\<forall>t. t \<noteq> THREAD_NULL \<longrightarrow> handoff_enter a t i e \<noteq> None \<and> accept_enter a t i e \<noteq> None)"
proof -
  have ok: "lock_ok a e" and i: "i < ulocks e" using lock_run_ok [OF assms(1)] assms(2) by simp_all
  have o: "owned_ok a e" and u: "ulock_ok (ulock_at e i) (i \<in> set (ls_held_ulocks (le_set e))) (i \<in> set (ls_handoff_ulocks (le_set e)))"
    using lock_okD [OF ok i] by simp_all
  have "lock_release_internal a i act e \<noteq> None" if "act \<noteq> THR_ACT_NULL" for act
    using lock_release_ok [OF ok i that] by (metis option.distinct(1))
  moreover have "handoff_enter a t i e \<noteq> None \<and> accept_enter a t i e \<noteq> None" if "t \<noteq> THREAD_NULL" for t
    using handoff_enter_ok [OF ok i that] accept_enter_ok [OF ok i that] by (metis option.distinct(1))
  moreover have "\<exists>e'. lock_release_internal a i (ul_owner (ulock_at e i)) e = Some (KERN_SUCCESS, e') \<and>
      ul_owner (ulock_at e' i) = th_top_act (le_threads e t) \<and> ul_blocked_threads (ulock_at e' i) = q \<and> \<not> th_waiting (le_threads e' t)"
    if "ls_active (le_set e)" "ul_blocked_threads (ulock_at e i) = t # q" for t q
  proof -
    have "ul_owner (ulock_at e i) \<noteq> THR_ACT_NULL" using u that(2) by (auto simp: ulock_ok_def ulock_state_cases)
    then show ?thesis using lock_release_passes [OF ok i that(1) _ that(2)] by blast
  qed
  moreover have "(a, i) \<in> set (le_held e act) \<longleftrightarrow> act \<noteq> THR_ACT_NULL \<and> ul_owner (ulock_at e i) = act" for act
    using o i by (simp add: owned_ok_def)
  ultimately show ?thesis using u unfolding ulock_ok_def by (simp add: ulock_state_cases) blast
qed

text \<open>A lock set with one ulock, which the first thread takes and the second one waits for.\<close>

definition lsx :: lock_set where
  "lsx = \<lparr>ls_owner = 4, ls_port = 8, ls_ref_count = 1, ls_active = True, ls_policy = 0, ls_n_ulocks = 1,
     ls_held_ulocks = [], ls_handoff_ulocks = [], ls_ulock_list = [fresh_ulock]\<rparr>"

definition tlx :: threads where
  "tlx = (\<lambda>t. \<lparr>th_priority = 10, th_top_act = (if t = 0 then 1 else t), th_linked = False, th_waiting = False, th_wait_result = KERN_SUCCESS\<rparr>)"

definition lex :: lock_env where
  "lex = \<lparr>le_set = lsx, le_threads = tlx, le_held = (\<lambda>_. [])\<rparr>"

definition lex2 :: lock_env where
  "lex2 = snd (acquire_enter 0x60 3 0 (snd (acquire_enter 0x60 2 0 lex)))"

lemma lock_run_lex2: "lock_run 0x60 1 lex2"
proof -
  have "lock_run 0x60 1 lex"
    by (rule lock_run.create) (simp_all add: lex_def lsx_def tlx_def THR_ACT_NULL_def)
  from lock_run.acquire [OF this, of 0 2] have "lock_run 0x60 1 (snd (acquire_enter 0x60 2 0 lex))"
    by (metis less_one prod.collapse)
  from lock_run.acquire [OF this, of 0 3] show ?thesis unfolding lex2_def by (metis less_one prod.collapse)
qed

theorem ulock_exclusive_witness:
  "lock_run 0x60 1 lex2 \<and> ul_state (ulock_at lex2 0) = ULOCK_HELD \<and> ul_blocked_threads (ulock_at lex2 0) = [3] \<and>
   (\<exists>e'. lock_release_internal 0x60 0 (ul_owner (ulock_at lex2 0)) lex2 = Some (KERN_SUCCESS, e') \<and> ul_owner (ulock_at e' 0) = 3)"
proof -
  note defs = lex2_def lex_def lsx_def tlx_def fresh_ulock_def acquire_enter_def take_ulock_def ulock_at_def ulock_write_def set_write_def
    threads_write_def ulock_ownership_set_def queue_thread_def policy_insert_def link_thread_def Let_def stable_code_def
  have b: "ul_state (ulock_at lex2 0) = ULOCK_HELD" "ul_blocked_threads (ulock_at lex2 0) = [3]" by (simp_all add: defs)
  have "ls_active (le_set lex2)" and top: "th_top_act (le_threads lex2 3) = 3" by (simp_all add: defs)
  with b(2) obtain e' where "lock_release_internal 0x60 0 (ul_owner (ulock_at lex2 0)) lex2 = Some (KERN_SUCCESS, e')"
    "ul_owner (ulock_at e' 0) = th_top_act (le_threads lex2 3)"
    using ulock_exclusive [OF lock_run_lex2 zero_less_one, THEN conjunct2, THEN conjunct2, THEN conjunct2, THEN conjunct2, THEN conjunct2,
        THEN conjunct1] by blast
  then show ?thesis using lock_run_lex2 b top by (simp only: simp_thms) blast
qed

section \<open>Where the locks are not held\<close>

definition env_of :: "locks \<Rightarrow> lock_set \<Rightarrow> lock_env" where
  "env_of s l = \<lparr>le_set = l, le_threads = lk_threads s, le_held = lk_held s\<rparr>"

definition release_by :: "natural_t \<Rightarrow> natural_t \<Rightarrow> int \<Rightarrow> locks \<Rightarrow> locks option" where
  "release_by thread a lock_id s = map_option snd (lock_release s thread a lock_id)"

text \<open>
  C37: \<^verbatim>\<open>lock_acquire\<close> can sleep for ever on a lock that it owns. The thread puts itself into the queue of the ulock and
  drops the locks before it asserts its wait. When the owner releases the ulock in between, the ownership passes to the thread, but it
  is not yet waiting and the wakeup has no effect. It then asserts the wait and sleeps: the queue is empty, the
  thread is the owner, and unless something other than the lock set wakes it the call does not return.
\<close>

theorem lock_wakeup_lost:
  assumes "lk_sets s a = Some l" and "a \<noteq> LOCK_SET_NULL" and "ls_active l" and "lock_ok a (env_of s l)"
    and "0 \<le> lock_id" and "lock_id < ls_n_ulocks l" and "ls_n_ulocks l = int (length (ls_ulock_list l))"
    and "ul_owner (ls_ulock_list l ! nat lock_id) = th_top_act (lk_threads s owner)"
    and "ul_blocked_threads (ls_ulock_list l ! nat lock_id) = []"
    and "\<And>s s'. others s = Some s' \<Longrightarrow> th_waiting (lk_threads s' t) = th_waiting (lk_threads s t)"
  shows "\<exists>s1 s2 l2. lock_do a (\<lambda>e. Some (acquire_enter a t (nat lock_id) e)) s = Some (None, s1) \<and>
    release_by owner a lock_id s1 = Some s2 \<and> lk_sets s2 a = Some l2 \<and>
    ul_owner (ls_ulock_list l2 ! nat lock_id) = th_top_act (lk_threads s t) \<and> ul_blocked_threads (ls_ulock_list l2 ! nat lock_id) = [] \<and>
    lock_acquire \<lparr>window = release_by owner a lock_id, blocked = others, abort_window = w\<rparr> s t a lock_id = None"
proof -
  let ?i = "nat lock_id" and ?e = "env_of s l"
  have i: "?i < ulocks ?e" using assms(5-7) by (simp add: ulocks_def env_of_def)
  note ok = lock_okD [OF assms(4) i]
  have own: "ul_owner (ulock_at ?e ?i) = th_top_act (lk_threads s owner)" using assms(8) by (simp add: ulock_at_def env_of_def)
  then have held: "ul_state (ulock_at ?e ?i) = ULOCK_HELD" using ok(1,5) by (simp add: ulock_ok_def env_of_def)
  obtain e1 where e1: "acquire_enter a t ?i ?e = (None, e1)" "ul_blocked_threads (ulock_at e1 ?i) = [t]"
    "ul_owner (ulock_at e1 ?i) = ul_owner (ulock_at ?e ?i)" "le_threads e1 = link_thread t (lk_threads s)"
    "ls_active (le_set e1)" "ls_n_ulocks (le_set e1) = ls_n_ulocks l" "ulocks e1 = ulocks ?e"
    using held assms(3,9) i
    by (auto simp: acquire_enter_def env_of_def ulock_at_def ulocks_def queue_thread_def policy_insert_def ulock_write_def set_write_def threads_write_def)
  have "lock_ok a e1" using acquire_enter_ok [OF assms(4) i, of t] e1(1) by simp
  then obtain e2 where e2: "lock_release_internal a ?i (th_top_act (lk_threads s owner)) e1 = Some (KERN_SUCCESS, e2)"
    "ul_owner (ulock_at e2 ?i) = th_top_act (lk_threads s t)" "ul_blocked_threads (ulock_at e2 ?i) = []"
    using lock_release_passes [of a e1 ?i t "[]"] e1 i own ok(5) by (auto simp: env_of_def)
  define s1 where "s1 = s\<lparr>lk_threads := le_threads e1, lk_held := le_held e1, lk_sets := (lk_sets s)(a \<mapsto> le_set e1)\<rparr>"
  define s2 where "s2 = s1\<lparr>lk_threads := le_threads e2, lk_held := le_held e2, lk_sets := (lk_sets s1)(a \<mapsto> le_set e2)\<rparr>"
  have enter: "lock_do a (\<lambda>e. Some (acquire_enter a t ?i e)) s = Some (None, s1)"
    using assms(1) e1(1) by (simp add: lock_do_def env_of_def s1_def)
  have e1_eq: "\<lparr>le_set = le_set e1, le_threads = link_thread t (lk_threads s), le_held = le_held e1\<rparr> = e1"
    using e1(4) by (cases e1) simp
  have rel: "release_by owner a lock_id s1 = Some s2"
    using assms(2,5,6) e1(4,6) e2(1)
    by (simp add: e1_eq release_by_def lock_release_def lock_call_def lock_do_def s1_def s2_def)
  have "lock_acquire \<lparr>window = release_by owner a lock_id, blocked = others, abort_window = w\<rparr> s t a lock_id = None"
    using assms(1,2,5,6,10) enter rel
    by (cases "others (s2\<lparr>lk_threads := assert_wait t (lk_threads s2)\<rparr>)")
       (auto simp: lock_acquire_def lock_call_def lock_block_def assert_wait_def)
  then show ?thesis using enter rel e2 by (auto simp: s2_def ulock_at_def)
qed

definition locks_x :: "kernel \<Rightarrow> locks" where
  "locks_x k = \<lparr>lk_kernel = k, lk_kobjects = (\<lambda>_. 0), lk_tasks = (\<lambda>_. \<lparr>lock_set_list = [], lock_sets_owned = 0\<rparr>),
     lk_threads = tlx, lk_held = (\<lambda>act. if act = 2 then [(0x60, 0)] else []),
     lk_sets = [0x60 \<mapsto> lsx\<lparr>ls_held_ulocks := [0], ls_ulock_list := [fresh_ulock\<lparr>ul_owner := 2, ul_state := ULOCK_HELD\<rparr>]\<rparr>]\<rparr>"

theorem lock_wakeup_lost_witness:
  "\<forall>k. lock_acquire \<lparr>window = release_by 2 0x60 0, blocked = Some, abort_window = Some\<rparr> (locks_x k) 3 0x60 0 = None"
proof
  fix k
  let ?l = "lsx\<lparr>ls_held_ulocks := [0], ls_ulock_list := [fresh_ulock\<lparr>ul_owner := 2, ul_state := ULOCK_HELD\<rparr>]\<rparr>"
  have ok: "lock_ok 0x60 (env_of (locks_x k) ?l)"
    by (auto simp: lock_ok_defs env_of_def locks_x_def ulocks_def ulock_at_def lsx_def fresh_ulock_def tlx_def THR_ACT_NULL_def THREAD_NULL_def)
  have "lk_sets (locks_x k) 0x60 = Some ?l" by (simp add: locks_x_def)
  from lock_wakeup_lost [OF this _ _ ok, of 0 2 Some 3 Some]
  show "lock_acquire \<lparr>window = release_by 2 0x60 0, blocked = Some, abort_window = Some\<rparr> (locks_x k) 3 0x60 0 = None"
    by (simp add: LOCK_SET_NULL_def lsx_def fresh_ulock_def locks_x_def [THEN arg_cong, of lk_threads] tlx_def) blast
qed

text \<open>
  A hand-off that is interrupted leaves its thread behind. The test for an abort looks at the links of the
  thread, which a hand-off never sets: after any completed operation they say that the operation was not
  aborted. The thread returns and stays in \<open>ul_ho_thread\<close>, and its next hand-off takes it for the
  accepting thread and hands the lock to itself.
\<close>

definition handoff_interrupt :: "natural_t \<Rightarrow> locks \<Rightarrow> locks option" where
  "handoff_interrupt t s = Some (s\<lparr>lk_threads := clear_wait t (wait_code THREAD_INTERRUPTED) (lk_threads s)\<rparr>)"

lemma interrupted_handoff_stays:
  assumes "lk_sets s a = Some l" and "a \<noteq> LOCK_SET_NULL" and "ls_active l"
    and "0 \<le> lock_id" and "lock_id < ls_n_ulocks l" and "ls_n_ulocks l = int (length (ls_ulock_list l))"
    and "ul_owner (ls_ulock_list l ! nat lock_id) = th_top_act (lk_threads s t)"
    and "ul_ho_thread (ls_ulock_list l ! nat lock_id) = THREAD_NULL" and "\<not> th_linked (lk_threads s t)"
  shows "\<exists>s' l'. lock_handoff \<lparr>window = Some, blocked = handoff_interrupt t, abort_window = w\<rparr> s t a lock_id =
      Some (KERN_PROTECTION_FAILURE, s') \<and> lk_sets s' a = Some l' \<and> ul_ho_thread (ls_ulock_list l' ! nat lock_id) = t \<and>
      nat lock_id \<in> set (ls_handoff_ulocks l')"
proof -
  have i: "nat lock_id < length (ls_ulock_list l)" using assms(4-6) by simp
  show ?thesis using assms i
    by (auto simp: lock_handoff_def lock_call_def lock_do_def handoff_enter_def ulock_at_def await_handoff_def ulock_write_def
        set_write_def lock_block_def handoff_interrupt_def thread_defs)
qed

text \<open>A number of ulocks whose size overflows: the memory is smaller than the ulocks that are written to it.\<close>

lemma lock_set_size_wraps:
  assumes "2 ^ 32 \<le> int sl + int su * (n - 1)"
  shows "\<not> ulocks_fit (sl, su) n"
proof -
  have "uint (lock_set_size (sl, su) n) < 2 ^ 32" using uint_lt2p [of "lock_set_size (sl, su) n"] by simp
  then show ?thesis using assms by (simp add: ulocks_fit_def)
qed

end
