(* ===== verification/Spec2Isabelle.thy ===== *)
theory Spec2Isabelle
  imports IPC_Right_Facts IPC_Kmsg_Term IPC_Port_Facts IPC_Mqueue_Facts IPC_Entry_Dealloc IPC_Queue
    Mach_Msg_Facts IPC_Mqueue_Live IPC_Kmsg_Names Mach_Port_Facts IPC_Kobject_Facts IPC_TT_Facts
    IPC_Host_Facts Sync_Lock_Facts
begin

text \<open>
  \<^bold>\<open>IPC and synchronization of the OSF Mach kernel.\<close>

  The development models the inter-process communication of the kernel, the files \<^verbatim>\<open>osfmk/src/mach_kernel/ipc\<close>
  with the headers \<^verbatim>\<open>mach/port.h\<close>, \<^verbatim>\<open>mach/message.h\<close> and \<^verbatim>\<open>mach/notify.h\<close>, and of \<^verbatim>\<open>osfmk/src/mach_kernel/kern\<close> what IPC meets
  there: kernel objects and their dispatch table, the ports of tasks, threads and the host, and the synchronizers.
  The configuration is a 32-bit kernel for the i386 with \<^verbatim>\<open>DIPC\<close>, \<^verbatim>\<open>MACH_RT\<close>, \<^verbatim>\<open>MACH_ASSERT\<close> and \<^verbatim>\<open>MACH_KDB\<close> off.

  \<^bold>\<open>The program.\<close> A task owns a \<^emph>\<open>space\<close>, which gives names (32-bit words, an index and a generation)
  to the rights of the task: receive, send and send-once rights to ports, port sets and dead names. The
  entries of a space are in a table indexed by the index of the name, with a free list threaded through it,
  and in a splay tree for the names that have no place there. Two reverse hash tables find the entry of
  a send right by its object. A \<^emph>\<open>port\<close> is a queue of messages with the counts of its rights, a table of
  requests for dead-name notifications, a queue of blocked senders, and perhaps a \<^emph>\<open>port set\<close> it is in. A
  \<^emph>\<open>message\<close> has a header with a destination and a reply port, and a body whose descriptors carry further
  rights and memory. Sending copies the rights of a message in from the space of the sender and receiving copies
  them out to the space of the receiver. Destroying a message destroys the rights that it carries, so it can
  destroy ports, their queued messages, and so on, and sends notifications. A message to a port of the kernel
  is dispatched to a server routine by its id, and the port is converted to the object it stands for: a task, an
  activation, a host, a processor set, a semaphore or a lock set. Semaphores and lock sets have queues of waiting threads, in the
  order of arrival or of priority.

  \<^bold>\<open>Theories.\<close> They follow the layers of the code; a routine keeps its name.

  \<^item> \<open>Mach_Prelude\<close> has the types, the return codes and the lemmas that the components share, and
    \<open>Mach_Returns\<close> the rules for proofs along the structure of an operation.
  \<^item> \<open>Port_Names\<close> has the packed words of \<^verbatim>\<open>mach/port.h\<close> and \<^verbatim>\<open>ipc/ipc_entry.h\<close>: names, right types, the
    bits of an entry and the limits of user references.
  \<^item> \<open>IPC_Splay\<close> models \<^verbatim>\<open>ipc_splay.c\<close>: all of its routines, the traversal with inverted pointers included.
    The tree refines a finite map (locale \<open>name_tree\<close>), and split, join, bounds and traversal are exact.
  \<^item> \<open>IPC_Table\<close> models the size arrays of \<^verbatim>\<open>ipc_table.c\<close>.
  \<^item> \<open>IPC_Data\<close> and \<open>IPC_Hash\<close> have the entry and the reverse tables of \<^verbatim>\<open>ipc_hash.c\<close>. Deleting from the open
    hashing table keeps every other object findable.
  \<^item> \<open>IPC_Entry\<close> models \<^verbatim>\<open>ipc_entry.c\<close>. \<open>IPC_Entry_Inv\<close> has the invariant of a space (\<open>space_ok\<close>: free list,
    collision bits, tree counters) and \<open>IPC_Entry_Dealloc\<close> what lookup, allocation and deallocation
    do to the names of a space.
  \<^item> \<open>IPC_State\<close> has the state of the kernel (record \<open>kernel\<close>: spaces, ports, port sets, the thread, memory,
    calls out of the subsystem) with the structures of \<^verbatim>\<open>ipc_object.h\<close>, \<^verbatim>\<open>ipc_port.h\<close>, \<^verbatim>\<open>ipc_pset.h\<close> and \<^verbatim>\<open>ipc_kmsg.h\<close>.
  \<^item> \<open>IPC_Mqueue\<close> models \<^verbatim>\<open>ipc_mqueue.c\<close> and \<^verbatim>\<open>ipc_pset.c\<close>, and \<open>IPC_Mqueue_Facts\<close> and \<open>IPC_Mqueue_Live\<close> show
    the order of messages, the moves between queues, and which blocked senders are woken.
  \<^item> \<open>IPC_Notify\<close> models \<^verbatim>\<open>ipc_notify.c\<close>.
  \<^item> \<open>IPC_Port\<close> models \<^verbatim>\<open>ipc_port.c\<close>. \<open>IPC_Port_Facts\<close> shows the table of dead-name requests and the acyclicity
    of receive rights in transit.
  \<^item> \<open>IPC_Kmsg\<close> models the destruction of messages of \<^verbatim>\<open>ipc_kmsg.c\<close>. \<open>IPC_Kmsg_Facts\<close> shows that the
    recursion through ports is bounded by the queue of doomed messages, \<open>IPC_Kmsg_Term\<close> that the loop over
    this queue ends, and \<open>IPC_Kmsg_Names\<close> that it leaves the name spaces alone and revives no port, so that a
    port that died is found dead under every name.
  \<^item> \<open>IPC_Right\<close> models \<^verbatim>\<open>ipc_right.c\<close> and \<open>IPC_Object\<close> models \<^verbatim>\<open>ipc_object.c\<close>; \<open>IPC_Right_Facts\<close> compares the
    routines with each other and bounds the user references. \<open>IPC_Example\<close> has a kernel for the examples.
  \<^item> \<open>IPC_Queue\<close> models the linked queues of \<^verbatim>\<open>ipc_thread.c\<close>, \<^verbatim>\<open>ipc_thread.h\<close> and \<^verbatim>\<open>ipc_kmsg.c\<close> over an explicit
    store of links; both refine lists (locale \<open>link_queue\<close>).
  \<^item> \<open>IPC_Space\<close> models \<^verbatim>\<open>ipc_space.c\<close>.
  \<^item> \<open>Mach_Port\<close> models the kernel calls of \<^verbatim>\<open>mach_port.c\<close>; \<open>Mach_Port_Facts\<close> has facts on these and on spaces.
  \<^item> \<open>IPC_Kmsg_Buffer\<close>, \<open>IPC_Kmsg_Copyin\<close> and \<open>IPC_Kmsg_Copyout\<close> model the rest of \<^verbatim>\<open>ipc_kmsg.c\<close>: buffers and their
    cache, copyin of header and body, copyout, and scatter lists. \<open>IPC_Kmsg_Copy_Facts\<close> shows what type a
    message has that was copied in, and what the checks on descriptors accept.
  \<^item> \<open>Mach_Msg\<close> models \<^verbatim>\<open>mach_msg.c\<close> without the hot path; \<open>Mach_Msg_Facts\<close> bounds what a receive writes.
  \<^item> \<open>IPC_Kobject\<close> models \<^verbatim>\<open>kern/ipc_kobject.c\<close>: the hash table of server routines, the dispatch of a message and the kernel
    objects of ports. The generated stubs are parameters. \<open>IPC_Kobject_Facts\<close> shows that the table finds exactly the
    routines that were entered, and what a negative id does.
  \<^item> \<open>IPC_TT\<close> models the start and end of tasks and threads in \<^verbatim>\<open>kern/ipc_tt.c\<close>, \<open>IPC_TT_Ports\<close> their self, special and registered
    ports and the conversions, with the special ports of \<^verbatim>\<open>kern/thread_act.c\<close>, and \<open>IPC_Exc_Ports\<close> the exception ports.
    \<open>IPC_TT_Rights\<close> counts the send rights that these structures hold, and \<open>IPC_TT_Facts\<close> shows that the calls on exception
    ports lose and invent none and report the actions that are set.
  \<^item> \<open>IPC_Host\<close> models \<^verbatim>\<open>kern/ipc_host.c\<close>; \<open>IPC_Host_Facts\<close> shows which ports convert to which object after start-up.
  \<^item> \<open>Kern_Queue\<close> models the linked queues of \<^verbatim>\<open>kern/queue.h\<close> and \<^verbatim>\<open>kern/sync_policy.c\<close> and shows that they implement lists
    in the order of the policy.
  \<^item> \<open>Sync_Sema\<close> models \<^verbatim>\<open>kern/sync_sema.c\<close> and \<open>Sync_Lock\<close> models \<^verbatim>\<open>kern/sync_lock.c\<close>, with the conversions of \<^verbatim>\<open>kern/ipc_sync.c\<close>.
    \<open>Sync_Sema_Facts\<close> and \<open>Sync_Lock_Facts\<close> have the runs of several threads (\<open>sema_run\<close>, \<open>lock_run\<close>) and their invariants;
    what a client of a queue of waiting threads relies on is the locale \<open>wait_queue\<close>.

  \<^bold>\<open>How the code is represented.\<close> A routine is a function on the state it changes. Its result is an option:
  \<open>None\<close> stands for a panic, for the use of an object that has been freed, for a loop that does not end, and for
  a thread that is still blocked when what it was given to wait for is used up. Theorems that a routine returns
  therefore say that the result is \<open>Some\<close>. Locks are not in the state; a point where a lock is dropped, and other
  threads can run, is explicit: such a routine takes a list of \<open>window\<close> or \<open>wakeup\<close> values, or a function,
  that say what an allocation answered and what other threads did meanwhile, and consumes one at each point.
  Any list is possible, so a theorem over all lists covers every interleaving at these points. The assertions of
  the code are invariants and hypotheses. Addresses that an allocator returns come from the stream \<open>k_memory\<close>,
  where zero is a failure. Calls out of the subsystem (the scheduler, kernel objects, the VM system) are
  recorded in \<open>k_calls\<close>, in their order, and their answers are arguments.

  \<^bold>\<open>Fuel.\<close> A few inner loops have fuel. A probe of the local hash table and the loop that closes a hole
  take the size of the table, which a table with a free position never uses up.
  The walk along the free list takes the size of the table, as the list has no position twice. The
  rounding of the size of the global table takes 32 rounds, one for each bit. The loops over chains of ports and over
  doomed messages have no fuel but are \<open>partial_function\<close>s, with theorems that they return.

  \<^bold>\<open>What the properties show.\<close> Names: lookup, allocation and deallocation of entries, the snapshot
  of all names, and a new space. Data structures: splay tree, hash, size tables and queues. Ports: no cycles of receive rights, requests for notifications, queue
  limits and sets. Messages: the types of what is copied in, order,
  wakeups, the destruction of messages and the death of ports, scatter lists and receive buffers.
  Rights: checks and user references. Kernel objects: dispatch, exception ports, and the roles of the ports of the host.
  Synchronizers: the rule on the count and the queue of a semaphore, exclusive ownership of a lock, and the order of waiting
  threads, in every interleaving of the calls; a run of a semaphore or a lock set ends where an aborted call removes a
  thread from a queue that it has left, which is undefined. The properties of the kind error state behaviours
  of the code that differ from what it intends.

  \<^bold>\<open>Not modelled.\<close>

  \<^item> The hot path of \<^verbatim>\<open>mach_msg_overwrite_trap\<close>, which repeats the send, the hand-over to a waiting
    receiver and the receive inlined; the part that calls the general routines is modelled.
  \<^item> \<^verbatim>\<open>thread_activation_create\<close> of \<^verbatim>\<open>mach_port.c\<close>, and \<^verbatim>\<open>ipc_table_realloc\<close> and \<^verbatim>\<open>ipc_table_free\<close>, which
    only call the thread and the VM system.
  \<^item> \<^verbatim>\<open>ipc_init.c\<close> (zones and maps), \<^verbatim>\<open>mach_debug.c\<close>, \<^verbatim>\<open>mig_log.c\<close> and the printing routines for the debugger.
  \<^item> The VM system, the scheduler, the generated server stubs and \<^verbatim>\<open>kern/ipc_mig.c\<close>, which calls stubs from the kernel, device
    drivers, machine dependent code, and distributed IPC, which is compiled out.
  \<^item> Of \<^verbatim>\<open>kern/task.c\<close>, \<^verbatim>\<open>kern/thread_act.c\<close>, \<^verbatim>\<open>kern/processor.c\<close> and \<^verbatim>\<open>kern/sched_prim.c\<close> only the reference counts, special ports and the
    wait on no event that the modelled routines call. The other macros of \<^verbatim>\<open>kern/queue.h\<close>.
  \<^item> Locks and reference locks as such; what other threads can do while they are dropped is described above.
\<close>

end
